(* ===== verification/Prelude.thy ===== *)
theory Prelude
  imports Main "HOL-Library.Word" "HOL-Library.AList" "HOL-Library.Multiset"
begin

text \<open>
  Shared vocabulary of the development.  Go's \<^verbatim>\<open>string\<close> is a byte list (\<open>string\<close>), a
  \<^verbatim>\<open>time.Time\<close> is the number of nanoseconds since the Unix epoch (an \<open>int\<close>; the zero time of
  Go is \<open>zero_time\<close>), a \<^verbatim>\<open>time.Duration\<close> is an \<open>int\<close> of nanoseconds.  A Go map or
  \<^verbatim>\<open>sync.Map\<close> that the code iterates over is an association list with distinct keys, read with
  \<open>map_of\<close> and written with \<open>AList.update\<close> and \<open>AList.delete\<close>.  The named collections gather the
  facts the component proofs share.
\<close>

section \<open>Types\<close>

type_synonym ident = string
type_synonym time = int
type_synonym duration = int
type_synonym byte = "8 word"
type_synonym bytes = "byte list"

abbreviation second :: duration where
  "second \<equiv> 1000000000"

abbreviation minute :: duration where
  "minute \<equiv> 60 * second"

text \<open>January 1, year 1, 00:00:00 UTC: the value of \<^verbatim>\<open>time.Time{}\<close>.\<close>

definition zero_time :: time where
  "zero_time = - 62135596800 * second"

definition max_duration :: duration where
  "max_duration = 2 ^ 63 - 1"

definition min_duration :: duration where
  "min_duration = - (2 ^ 63)"

text \<open>\<^verbatim>\<open>Time.Sub\<close> saturates at the bounds of a 64-bit duration.\<close>

definition time_sub :: "time \<Rightarrow> time \<Rightarrow> duration" where
  "time_sub a b = max min_duration (min max_duration (a - b))"

text \<open>\<^verbatim>\<open>Time.Unix\<close> and \<^verbatim>\<open>Time.UnixMilli\<close> round towards minus infinity.\<close>

definition time_unix :: "time \<Rightarrow> int" where
  "time_unix t = t div second"

definition time_unix_milli :: "time \<Rightarrow> int" where
  "time_unix_milli t = t div 1000000"

definition unix_milli_time :: "int \<Rightarrow> time" where
  "unix_milli_time ms = ms * 1000000"

text \<open>An \<^verbatim>\<open>int64\<close> sum wraps around.\<close>

definition int64_add :: "int \<Rightarrow> int \<Rightarrow> int" where
  "int64_add a b = sint (word_of_int (a + b) :: 64 word)"

section \<open>Collections of facts\<close>

named_theorems alist_simps \<open>lookups after updates of an association list\<close>
named_theorems keeps_wf \<open>operations that keep the metadata cache well-formed\<close>

section \<open>Folds\<close>

text \<open>A fold keeps an invariant that every step keeps.\<close>

lemma fold_invariant_step:
  "P s \<Longrightarrow> (\<And>x s. x \<in> set xs \<Longrightarrow> P s \<Longrightarrow> P (f x s)) \<Longrightarrow> P (fold f xs s)"
  by (induction xs arbitrary: s) auto

section \<open>Association lists as Go maps\<close>

definition keys_distinct :: "('k \<times> 'v) list \<Rightarrow> bool" where
  "keys_distinct m \<longleftrightarrow> distinct (map fst m)"

text \<open>In-place change of the value stored under a key (a mutation through a pointer held by the map).\<close>

fun modify_at :: "'k \<Rightarrow> ('v \<Rightarrow> 'v) \<Rightarrow> ('k \<times> 'v) list \<Rightarrow> ('k \<times> 'v) list" where
  "modify_at k f [] = []"
| "modify_at k f ((k', v) # m) = (if k' = k then (k', f v) # m else (k', v) # modify_at k f m)"

lemma map_of_modify_at [alist_simps]:
  "map_of (modify_at k f m) k' = (if k' = k then map_option f (map_of m k) else map_of m k')"
  by (induction m) auto

lemma keys_modify_at [simp]: "map fst (modify_at k f m) = map fst m"
  by (induction m) auto

lemma map_of_update [alist_simps]:
  "map_of (AList.update k v m) k' = (if k' = k then Some v else map_of m k')"
  by (simp add: update_conv')

lemma map_of_delete [alist_simps]:
  "map_of (AList.delete k m) k' = (if k' = k then None else map_of m k')"
  by (simp add: delete_conv')

lemma keys_distinct_update [simp]: "keys_distinct m \<Longrightarrow> keys_distinct (AList.update k v m)"
  unfolding keys_distinct_def by (rule distinct_update)

lemma keys_distinct_delete [simp]: "keys_distinct m \<Longrightarrow> keys_distinct (AList.delete k m)"
  unfolding keys_distinct_def by (rule distinct_delete)

lemma keys_distinct_modify_at [simp]: "keys_distinct (modify_at k f m) = keys_distinct m"
  by (simp add: keys_distinct_def)

lemma keys_distinct_Nil [simp]: "keys_distinct []"
  by (simp add: keys_distinct_def)

lemma in_set_alist_iff: "keys_distinct m \<Longrightarrow> (k, v) \<in> set m \<longleftrightarrow> map_of m k = Some v"
  unfolding keys_distinct_def by (auto dest: map_of_SomeD)

section \<open>Searches\<close>

lemma find_append:
  "find P (xs @ ys) = (case find P xs of None \<Rightarrow> find P ys | Some x \<Rightarrow> Some x)"
  by (induction xs) auto

end
