(* ===== verification/Drive_Item.thy ===== *)
theory Drive_Item
  imports Prelude
begin

text \<open>
  The data model of \<^verbatim>\<open>internal/graph/models.go\<close>: drive items as Microsoft Graph returns them
  (pointers are \<open>option\<close>s, \<^verbatim>\<open>uint32\<close>/\<^verbatim>\<open>uint64\<close> are words), with the accessors the file system
  layer reads, delta items, and the case-insensitive comparison of checksums and names.
\<close>

section \<open>strings.EqualFold and hexadecimal encoding\<close>

definition lower :: "char \<Rightarrow> char" where
  "lower c = (let n = of_char c :: nat in if 65 \<le> n \<and> n \<le> 90 then char_of (n + 32) else c)"

text \<open>
  Case folding of a UTF-8 string as far as it can meet an ASCII string: ASCII letters, the Kelvin
  sign (bytes E2 84 AA, folds with \<open>k\<close>) and the long s (bytes C5 BF, folds with \<open>s\<close>).  The program
  compares with ASCII strings only (reserved names, base64 checksums), where this is exactly Go's
  \<^verbatim>\<open>strings.EqualFold\<close>.
\<close>

fun fold_case :: "string \<Rightarrow> string" where
  "fold_case (a # b # c # s) =
     (if a = CHR 0xE2 \<and> b = CHR 0x84 \<and> c = CHR 0xAA then CHR ''k'' # fold_case s
      else if a = CHR 0xC5 \<and> b = CHR 0xBF then CHR ''s'' # fold_case (c # s)
      else lower a # fold_case (b # c # s))"
| "fold_case [a, b] =
     (if a = CHR 0xC5 \<and> b = CHR 0xBF then ''s'' else [lower a, lower b])"
| "fold_case [a] = [lower a]"
| "fold_case [] = []"

definition EqualFold :: "string \<Rightarrow> string \<Rightarrow> bool" where
  "EqualFold s t \<longleftrightarrow> fold_case s = fold_case t"

definition hex_digit :: "nat \<Rightarrow> char" where
  "hex_digit n = (if n < 10 then char_of (48 + n) else char_of (87 + n))"

definition hex_byte :: "byte \<Rightarrow> string" where
  "hex_byte b = [hex_digit (unat b div 16), hex_digit (unat b mod 16)]"

definition hex_encode :: "bytes \<Rightarrow> string" where
  "hex_encode bs = concat (map hex_byte bs)"

lemma hex_digit_inj: "m < 16 \<Longrightarrow> n < 16 \<Longrightarrow> hex_digit m = hex_digit n \<Longrightarrow> m = n"
  by (auto simp: hex_digit_def of_char_of split: if_splits dest!: arg_cong [of _ _ "of_char :: char \<Rightarrow> nat"])

lemma hex_byte_inj: "hex_byte a = hex_byte b \<Longrightarrow> a = b"
proof -
  assume "hex_byte a = hex_byte b"
  then have "hex_digit (unat a div 16) = hex_digit (unat b div 16)"
    and "hex_digit (unat a mod 16) = hex_digit (unat b mod 16)"
    by (simp_all add: hex_byte_def)
  moreover have "unat w div 16 < 16" for w :: byte
  proof -
    have "unat w < 2 ^ LENGTH(8)" by (rule unsigned_less)
    then show ?thesis by auto
  qed
  ultimately have "unat a div 16 = unat b div 16" "unat a mod 16 = unat b mod 16"
    using hex_digit_inj [of "unat a div 16" "unat b div 16"]
      hex_digit_inj [of "unat a mod 16" "unat b mod 16"] by simp_all
  then have "unat a = unat b" by (metis div_mod_decomp)
  then show ?thesis by (simp add: word_unat_eq_iff)
qed

lemma length_hex_encode [simp]: "length (hex_encode bs) = 2 * length bs"
  by (induction bs) (auto simp: hex_encode_def hex_byte_def)

lemma hex_encode_inj: "hex_encode as = hex_encode bs \<Longrightarrow> as = bs"
proof (induction as arbitrary: bs)
  case Nil
  then show ?case by (cases bs) (auto simp: hex_encode_def hex_byte_def)
next
  case (Cons a as)
  then obtain b bs' where bs: "bs = b # bs'"
    by (cases bs) (auto simp: hex_encode_def hex_byte_def)
  with Cons.prems have "hex_byte a = hex_byte b" "hex_encode as = hex_encode bs'"
    by (auto simp: hex_encode_def hex_byte_def)
  with Cons.IH bs show ?case by (auto dest: hex_byte_inj)
qed

section \<open>Drive items\<close>

record drive_item_parent =
  par_Path :: string
  par_ID :: ident
  par_DriveID :: string
  par_DriveType :: string

record folder =
  ChildCount :: "32 word"

record hashes =
  SHA1Hash :: string
  QuickXorHash :: string

record drive_file =
  Hashes :: hashes

record drive_item =
  di_ID :: ident
  di_Name :: string
  di_Size :: "64 word"
  di_ModTime :: "time option"
  di_Parent :: "drive_item_parent option"
  di_Folder :: "folder option"
  di_File :: "drive_file option"
  di_Deleted :: "string option"
  di_ConflictBehavior :: string
  di_ETag :: string
  di_CreatedTime :: "time option"

text \<open>The zero value of the struct, and of a parent reference that carries only an ID.\<close>

definition zero_item :: drive_item where
  "zero_item = \<lparr> di_ID = '''', di_Name = '''', di_Size = 0, di_ModTime = None, di_Parent = None,
     di_Folder = None, di_File = None, di_Deleted = None, di_ConflictBehavior = '''',
     di_ETag = '''', di_CreatedTime = None \<rparr>"

definition parent_ref :: "ident \<Rightarrow> drive_item_parent" where
  "parent_ref pid = \<lparr> par_Path = '''', par_ID = pid, par_DriveID = '''', par_DriveType = '''' \<rparr>"

definition IsFolder :: "drive_item \<Rightarrow> bool" where
  "IsFolder d \<longleftrightarrow> di_Folder d \<noteq> None"

text \<open>Dates before 1970 are clamped to 0 so the unsigned conversion cannot wrap.\<close>

definition ModTimeUnix :: "drive_item \<Rightarrow> 64 word" where
  "ModTimeUnix d =
     (case di_ModTime d of
        None \<Rightarrow> 0
      | Some t \<Rightarrow> let unix = time_unix t in if unix < 0 then 0 else of_int unix)"

text \<open>A delta item adds the deletion marker; \<^verbatim>\<open>Deleted\<close> of the outer struct shadows the embedded one.\<close>

record delta_item =
  delta_DriveItem :: drive_item
  delta_Deleted :: "string option"

definition VerifyChecksum :: "drive_item option \<Rightarrow> string \<Rightarrow> bool" where
  "VerifyChecksum item checksum =
     (case item of
        None \<Rightarrow> False
      | Some d \<Rightarrow>
          (case di_File d of
             None \<Rightarrow> False
           | Some f \<Rightarrow>
               if checksum = '''' \<or> QuickXorHash (Hashes f) = '''' then False
               else EqualFold (QuickXorHash (Hashes f)) checksum))"

end
