(* ===== verification/Float64.thy ===== *)
theory Float64
  imports Prelude "HOL-Library.Log_Nat"
begin

text \<open>
  Go's \<^verbatim>\<open>float64\<close> as the cache policies use it: a rational number that is rounded to 53 significant
  bits, ties to even, after every operation.  Magnitudes here lie between \<open>2 ^ (-64)\<close> and \<open>2 ^ 70\<close>,
  far inside the normal range, so subnormals and overflow do not occur; a division by zero, which
  IEEE answers with an infinity, is outside the model.
\<close>

definition round_half_even :: "rat \<Rightarrow> int" where
  "round_half_even x =
     (let f = \<lfloor>x\<rfloor>; d = x - of_int f in
      if d < 1 / 2 then f else if d > 1 / 2 then f + 1 else if even f then f else f + 1)"

text \<open>The exponent \<open>e\<close> with \<open>2 ^ e \<le> x < 2 ^ (e + 1)\<close>, from the bit lengths of numerator and denominator.\<close>

definition binexp :: "rat \<Rightarrow> int" where
  "binexp x =
     (let (p, q) = quotient_of x;
          k = int (floorlog 2 (nat p)) - int (floorlog 2 (nat q))
      in if 2 powi k \<le> x then k else k - 1)"

definition f64 :: "rat \<Rightarrow> rat" where
  "f64 x = (if x = 0 then 0
            else let s = 2 powi (binexp \<bar>x\<bar> - 52) in of_int (round_half_even (x / s)) * s)"

text \<open>Conversion to \<^verbatim>\<open>int64\<close> truncates towards zero.\<close>

definition f64_to_int :: "rat \<Rightarrow> int" where
  "f64_to_int x = (if 0 \<le> x then \<lfloor>x\<rfloor> else - \<lfloor>- x\<rfloor>)"

lemma round_half_even_of_int [simp]: "round_half_even (of_int n) = n"
  by (simp add: round_half_even_def)

lemma f64_to_int_of_int [simp]: "f64_to_int (of_int n) = n"
  by (simp add: f64_to_int_def flip: of_int_minus)

lemma bitlen_bounds:
  fixes n :: nat assumes "0 < n"
  shows "2 ^ (floorlog 2 n - 1) \<le> n" "n < 2 ^ floorlog 2 n"
  using assms floorlog_bounds [of n 2] by auto

lemma binexp_le:
  assumes "0 < x"
  shows "2 powi binexp x \<le> x"
proof -
  obtain p q where pq: "quotient_of x = (p, q)" by fastforce
  then have q: "0 < q" and x: "x = of_int p / of_int q"
    by (auto simp: quotient_of_denom_pos quotient_of_div)
  with assms have p: "0 < p" by (simp add: zero_less_divide_iff)
  define a b where "a = floorlog 2 (nat p)" and "b = floorlog 2 (nat q)"
  have a1: "0 < a" using p by (simp add: a_def floorlog_def)
  have "2 ^ (a - 1) \<le> nat p" "nat q < 2 ^ b"
    using bitlen_bounds [of "nat p"] bitlen_bounds [of "nat q"] p q by (auto simp: a_def b_def)
  then have "(2::int) ^ (a - 1) \<le> p" "q < 2 ^ b" using p q by (auto simp: nat_le_iff nat_less_iff le_nat_iff)
  then have "(of_int (2 ^ (a - 1)) :: rat) \<le> of_int p" "(of_int q :: rat) < of_int (2 ^ b)"
    by (simp_all only: of_int_le_iff of_int_less_iff)
  then have P: "(2::rat) ^ (a - 1) \<le> of_int p" and Q: "(of_int q :: rat) < 2 ^ b" by simp_all
  have "(2::rat) powi (int a - int b - 1) = 2 powi (int (a - 1) - int b)"
    using a1 by (simp add: of_nat_diff algebra_simps)
  also have "\<dots> = 2 ^ (a - 1) / 2 ^ b"
    by (simp add: power_int_diff)
  also have "\<dots> \<le> of_int p / of_int q"
    using P Q q p by (intro frac_le) auto
  finally have "2 powi (int a - int b - 1) \<le> x" by (simp add: x)
  then show ?thesis unfolding binexp_def pq a_def b_def by (auto simp: Let_def)
qed

text \<open>A dyadic number with at most 53 significant bits is represented exactly.\<close>

lemma f64_exact:
  assumes x: "x = of_int n / 2 ^ j" and n: "\<bar>n\<bar> < 2 ^ 53"
  shows "f64 x = x"
proof (cases "x = 0")
  case False
  define e where "e = binexp \<bar>x\<bar>"
  have le: "2 powi e \<le> \<bar>x\<bar>" using False by (simp add: e_def binexp_le)
  have "(of_int \<bar>n\<bar> :: rat) < of_int (2 ^ 53)" using n by (simp only: of_int_less_iff)
  then have "\<bar>x\<bar> < 2 ^ 53 / 2 ^ j"
    by (simp add: x abs_divide divide_strict_right_mono)
  also have "\<dots> = 2 powi (53 - int j)"
    using power_int_diff [of "2::rat" 53 "int j"] by simp
  finally have "(2::rat) powi e < 2 powi (53 - int j)" using le by simp
  then have "e < 53 - int j" using power_int_increasing [of "53 - int j" e "2::rat"] by linarith
  then have ge: "0 \<le> 52 - e - int j" by simp
  define m where "m = nat (52 - e - int j)"
  define s where "s = (2::rat) powi (e - 52)"
  have s0: "s \<noteq> 0" by (simp add: s_def)
  have "s * 2 ^ m = 2 powi (e - 52) * 2 powi (int m)" by (simp add: s_def)
  also have "\<dots> = 2 powi (e - 52 + int m)" by (simp add: power_int_add)
  also have "e - 52 + int m = - int j" using ge by (simp add: m_def)
  finally have "s * 2 ^ m = 1 / 2 ^ j" by (simp add: power_int_minus field_simps)
  then have "x = of_int (n * 2 ^ m) * s" by (simp add: x field_simps)
  then have "x / s = of_int (n * 2 ^ m)" using s0 by simp
  then have "f64 x = of_int (n * 2 ^ m) * s"
    using False by (simp only: f64_def e_def [symmetric] s_def [symmetric] Let_def round_half_even_of_int if_False)
  with \<open>x = of_int (n * 2 ^ m) * s\<close> show ?thesis by simp
qed (simp add: f64_def)

lemma f64_of_int: "\<bar>n\<bar> < 2 ^ 53 \<Longrightarrow> f64 (of_int n) = of_int n"
  using f64_exact [of "of_int n" n 0] by simp

lemma f64_0 [simp]: "f64 0 = 0"
  by (simp add: f64_def)

text \<open>Rounding loses less than half of a positive number.\<close>

lemma round_half_even_ge: "x - 1 / 2 \<le> of_int (round_half_even x)"
proof -
  have "of_int \<lfloor>x\<rfloor> \<le> x" "x < of_int \<lfloor>x\<rfloor> + 1" by linarith+
  then show ?thesis by (auto simp: round_half_even_def Let_def)
qed

lemma f64_ge_half:
  assumes "0 < x"
  shows "x / 2 \<le> f64 x"
proof -
  define s where "s = (2::rat) powi (binexp x - 52)"
  have s: "0 < s" by (simp add: s_def)
  have "s * 2 ^ 52 = 2 powi binexp x" by (simp add: s_def power_int_diff)
  then have "s * 2 ^ 52 \<le> x" using binexp_le [OF assms] by simp
  with s have sx: "s \<le> x" by simp
  have "(x / s - 1 / 2) * s \<le> of_int (round_half_even (x / s)) * s"
    using s round_half_even_ge [of "x / s"] by (intro mult_right_mono) auto
  moreover have "(x / s - 1 / 2) * s = x - s / 2" using s by (simp add: left_diff_distrib)
  moreover have "f64 x = of_int (round_half_even (x / s)) * s"
    using assms by (simp add: f64_def s_def Let_def)
  ultimately have "x - s / 2 \<le> f64 x" by simp
  with sx show ?thesis by simp
qed

end
