(* ===== verification/Inode.thy ===== *)
theory Inode
  imports Drive_Item Float64
begin

text \<open>
  \<^verbatim>\<open>internal/fs/inode.go\<close>: a node of the metadata tree.  The record wraps a drive item and adds the
  children list (\<open>None\<close> is Go's \<^verbatim>\<open>nil\<close>, not fetched), the subdirectory counter, the custom mode, the
  dirty flag and the eviction bookkeeping.  Locks are not modelled: every method is one atomic
  step.  \<^verbatim>\<open>time.Now()\<close> is an argument.
\<close>

unbundle bit_operations_syntax

section \<open>State\<close>

record inode =
  DriveItem :: drive_item
  children :: "ident list option"
  subdir :: "32 word"
  mode :: "32 word"
  hasChanges :: bool
  childrenAccessCount :: "64 word"
  childrenLastAccess :: time
  childrenCachedAt :: time

definition inode_of_item :: "drive_item \<Rightarrow> inode" where
  "inode_of_item d = \<lparr> DriveItem = d, children = None, subdir = 0, mode = 0, hasChanges = False,
     childrenAccessCount = 0, childrenLastAccess = zero_time, childrenCachedAt = zero_time \<rparr>"

definition NewInodeDriveItem :: "drive_item option \<Rightarrow> inode option" where
  "NewInodeDriveItem item = map_option inode_of_item item"

section \<open>Local identifiers\<close>

definition localIDPrefix :: string where
  "localIDPrefix = ''local-''"

definition isLocalID :: "ident \<Rightarrow> bool" where
  "isLocalID i \<longleftrightarrow> length i > length localIDPrefix \<and> take (length localIDPrefix) i = localIDPrefix"

text \<open>The random source yields 16 bytes or fails.\<close>

definition newLocalID :: "bytes option \<Rightarrow> ident" where
  "newLocalID rnd =
     (case rnd of
        None \<Rightarrow> localIDPrefix @ ''fallback''
      | Some b \<Rightarrow> localIDPrefix @ hex_encode b)"

definition S_IFDIR :: "32 word" where "S_IFDIR = 0x4000"
definition S_IFREG :: "32 word" where "S_IFREG = 0x8000"

definition NewInodeLocal :: "bytes option \<Rightarrow> string \<Rightarrow> 32 word \<Rightarrow> inode option \<Rightarrow> inode" where
  "NewInodeLocal rnd name m parent =
     (let item = zero_item\<lparr>di_ID := newLocalID rnd, di_Name := name\<rparr>;
          item = (if m AND S_IFDIR \<noteq> 0 then item\<lparr>di_Folder := Some \<lparr>ChildCount = 0\<rparr>\<rparr> else item);
          item = (case parent of
                    None \<Rightarrow> item
                  | Some p \<Rightarrow> item\<lparr>di_Parent := Some (parent_ref (di_ID (DriveItem p)))\<rparr>)
      in (inode_of_item item)\<lparr>hasChanges := \<not> IsFolder item\<rparr>)"

section \<open>Accessors\<close>

definition HasChanges :: "inode \<Rightarrow> bool" where
  "HasChanges i = hasChanges i"

definition SetHasChanges :: "bool \<Rightarrow> inode \<Rightarrow> inode" where
  "SetHasChanges v i = i\<lparr>hasChanges := v\<rparr>"

definition ID :: "inode \<Rightarrow> ident" where
  "ID i = di_ID (DriveItem i)"

definition Name :: "inode \<Rightarrow> string" where
  "Name i = di_Name (DriveItem i)"

definition IsDir :: "inode \<Rightarrow> bool" where
  "IsDir i = IsFolder (DriveItem i)"

definition Mode :: "inode \<Rightarrow> 32 word" where
  "Mode i = (if mode i \<noteq> 0 then mode i
             else if IsDir i then S_IFDIR OR 0x1ED else S_IFREG OR 0x1A4)"

definition SetMode :: "32 word \<Rightarrow> inode \<Rightarrow> inode" where
  "SetMode m i = i\<lparr>mode := m\<rparr>"

definition ModTime :: "inode \<Rightarrow> 64 word" where
  "ModTime i = ModTimeUnix (DriveItem i)"

definition Size :: "inode \<Rightarrow> 64 word" where
  "Size i = (if IsDir i then 4096 else di_Size (DriveItem i))"

definition NLink :: "inode \<Rightarrow> 32 word" where
  "NLink i = (if IsDir i then 2 + subdir i else 1)"

definition ParentID :: "inode \<Rightarrow> ident" where
  "ParentID i = (case di_Parent (DriveItem i) of None \<Rightarrow> '''' | Some p \<Rightarrow> par_ID p)"

definition Path :: "inode \<Rightarrow> string" where
  "Path i = (if ParentID i = '''' \<and> Name i = ''root'' then ''/'' else Name i)"

definition Children :: "inode \<Rightarrow> ident list option" where
  "Children i = children i"

definition HasChildren :: "inode \<Rightarrow> bool" where
  "HasChildren i =
     (case children i of
        Some cs \<Rightarrow> length cs > 0
      | None \<Rightarrow> (case di_Folder (DriveItem i) of
                    Some f \<Rightarrow> ChildCount f > 0
                  | None \<Rightarrow> False))"

definition IsChildrenFetched :: "inode \<Rightarrow> bool" where
  "IsChildrenFetched i \<longleftrightarrow> children i \<noteq> None"

definition SetChildren :: "time \<Rightarrow> ident list option \<Rightarrow> inode \<Rightarrow> inode" where
  "SetChildren now ids i = i\<lparr>children := ids, childrenCachedAt := now, childrenLastAccess := now\<rparr>"

definition BumpChildrenAccess :: "time \<Rightarrow> inode \<Rightarrow> inode" where
  "BumpChildrenAccess now i =
     i\<lparr>childrenAccessCount := childrenAccessCount i + 1, childrenLastAccess := now\<rparr>"

definition DecayChildrenAccess :: "inode \<Rightarrow> inode" where
  "DecayChildrenAccess i = i\<lparr>childrenAccessCount := drop_bit 1 (childrenAccessCount i)\<rparr>"

definition EvictChildren :: "inode \<Rightarrow> inode" where
  "EvictChildren i = i\<lparr>children := None\<rparr>"

definition SetSubdir :: "32 word \<Rightarrow> inode \<Rightarrow> inode" where
  "SetSubdir n i = i\<lparr>subdir := n\<rparr>"

section \<open>Attributes for FUSE\<close>

text \<open>The owner is the process's user and group.\<close>

record fuse_attr =
  at_Size :: "64 word"
  at_Nlink :: "32 word"
  at_Ctime :: "64 word"
  at_Mtime :: "64 word"
  at_Atime :: "64 word"
  at_Mode :: "32 word"
  at_Uid :: "32 word"
  at_Gid :: "32 word"
  at_Blksize :: "32 word"
  at_Blocks :: "64 word"

definition makeAttr :: "32 word \<Rightarrow> 32 word \<Rightarrow> inode \<Rightarrow> fuse_attr" where
  "makeAttr uid gid i =
     \<lparr> at_Size = Size i, at_Nlink = NLink i, at_Ctime = ModTime i, at_Mtime = ModTime i,
       at_Atime = ModTime i, at_Mode = Mode i, at_Uid = uid, at_Gid = gid,
       at_Blksize = 0, at_Blocks = 0 \<rparr>"

text \<open>The blocks are the size in units of 512 bytes, rounded up (in \<^verbatim>\<open>uint64\<close> arithmetic).\<close>

definition fillEntryOut :: "32 word \<Rightarrow> 32 word \<Rightarrow> time \<Rightarrow> drive_item \<Rightarrow> fuse_attr" where
  "fillEntryOut uid gid now item =
     (let size = (if IsFolder item then 4096 else di_Size item);
          mt = (case di_ModTime item of
                  Some _ \<Rightarrow> ModTimeUnix item
                | None \<Rightarrow> of_int (max (time_unix now) 0))
      in \<lparr> at_Size = size,
           at_Nlink = (if IsFolder item then 2 else 1),
           at_Ctime = mt, at_Mtime = mt, at_Atime = mt,
           at_Mode = (if IsFolder item then S_IFDIR OR 0x1ED else S_IFREG OR 0x1A4),
           at_Uid = uid, at_Gid = gid,
           at_Blksize = 4096,
           at_Blocks = (size + 511) div 512 \<rparr>)"

section \<open>Serialisation\<close>

text \<open>
  \<^verbatim>\<open>SerializeableInode\<close> is the transfer object written to BoltDB as JSON.  The JSON text itself is
  not modelled: a stored value is the transfer object it denotes, or \<open>Garbage\<close> that
  \<^verbatim>\<open>json.Unmarshal\<close> rejects.  Times are kept in milliseconds.
\<close>

record serializeable_inode =
  s_DriveItem :: drive_item
  s_Children :: "ident list option"
  s_Subdir :: "32 word"
  s_Mode :: "32 word"
  s_HasChanges :: bool
  s_ChildrenAccessCount :: "64 word"
  s_ChildrenLastAccessMs :: int
  s_ChildrenCachedAtMs :: int

datatype inode_json = Json serializeable_inode | Garbage

definition AsJSON :: "inode \<Rightarrow> inode_json" where
  "AsJSON i = Json
     \<lparr> s_DriveItem = DriveItem i, s_Children = children i, s_Subdir = subdir i, s_Mode = mode i,
       s_HasChanges = hasChanges i, s_ChildrenAccessCount = childrenAccessCount i,
       s_ChildrenLastAccessMs = time_unix_milli (childrenLastAccess i),
       s_ChildrenCachedAtMs = time_unix_milli (childrenCachedAt i) \<rparr>"

fun NewInodeJSON :: "inode_json \<Rightarrow> inode option" where
  "NewInodeJSON Garbage = None"
| "NewInodeJSON (Json raw) = Some
     \<lparr> DriveItem = s_DriveItem raw, children = s_Children raw, subdir = s_Subdir raw,
       mode = s_Mode raw, hasChanges = s_HasChanges raw,
       childrenAccessCount = s_ChildrenAccessCount raw,
       childrenLastAccess = unix_milli_time (s_ChildrenLastAccessMs raw),
       childrenCachedAt = unix_milli_time (s_ChildrenCachedAtMs raw) \<rparr>"

section \<open>Facts\<close>

lemmas inode_defs =
  ID_def Name_def IsDir_def ParentID_def Children_def IsChildrenFetched_def
  SetChildren_def BumpChildrenAccess_def DecayChildrenAccess_def EvictChildren_def SetSubdir_def

lemma inode_of_item_simps [simp]:
  "DriveItem (inode_of_item d) = d" "children (inode_of_item d) = None"
  by (simp_all add: inode_of_item_def)

lemma fetched_simps [simp]:
  "IsChildrenFetched (SetChildren t cs i) \<longleftrightarrow> cs \<noteq> None"
  "IsChildrenFetched (BumpChildrenAccess t i) = IsChildrenFetched i"
  "IsChildrenFetched (DecayChildrenAccess i) = IsChildrenFetched i"
  "\<not> IsChildrenFetched (EvictChildren i)"
  "IsChildrenFetched (SetSubdir n i) = IsChildrenFetched i"
  "\<not> IsChildrenFetched (inode_of_item d)"
  by (simp_all add: inode_defs)

lemma id_simps [simp]:
  "ID (SetChildren t cs i) = ID i"
  "ID (BumpChildrenAccess t i) = ID i"
  "ID (DecayChildrenAccess i) = ID i"
  "ID (EvictChildren i) = ID i"
  "ID (SetSubdir n i) = ID i"
  "ID (inode_of_item d) = di_ID d"
  by (simp_all add: inode_defs)

text \<open>Rounding the two eviction timestamps down to milliseconds, what a round trip through disk does.\<close>

definition ms_floor :: "time \<Rightarrow> time" where
  "ms_floor t = t div 1000000 * 1000000"

definition inode_ms :: "inode \<Rightarrow> inode" where
  "inode_ms i = i\<lparr>childrenLastAccess := ms_floor (childrenLastAccess i),
                  childrenCachedAt := ms_floor (childrenCachedAt i)\<rparr>"

lemma NewInodeJSON_AsJSON: "NewInodeJSON (AsJSON i) = Some (inode_ms i)"
  by (simp add: AsJSON_def inode_ms_def ms_floor_def time_unix_milli_def unix_milli_time_def)

lemma inode_ms_idem [simp]: "inode_ms (inode_ms i) = inode_ms i"
  by (simp add: inode_ms_def ms_floor_def)

lemma inode_ms_simps [simp]:
  "DriveItem (inode_ms i) = DriveItem i" "children (inode_ms i) = children i"
  "ID (inode_ms i) = ID i" "IsChildrenFetched (inode_ms i) = IsChildrenFetched i"
  "ParentID (inode_ms i) = ParentID i"
  by (simp_all add: inode_ms_def inode_defs)

lemma isLocalID_newLocalID: "rnd \<noteq> Some [] \<Longrightarrow> isLocalID (newLocalID rnd)"
  by (auto simp: isLocalID_def newLocalID_def localIDPrefix_def hex_encode_def hex_byte_def
      split: option.splits)

end
