(* ===== verification/Graph_Error.thy ===== *)
theory Graph_Error
  imports Prelude
begin

text \<open>
  Errors as the program inspects them: a chain of wrapped errors that ends in a plain error, an
  errno, a Graph error or a network-layer error with \<^verbatim>\<open>Timeout()\<close>/\<^verbatim>\<open>Temporary()\<close>.  The sentinels
  and \<^verbatim>\<open>GraphError.Is\<close> come from \<^verbatim>\<open>internal/graph/error.go\<close>; the transient-error tests come from
  \<^verbatim>\<open>internal/fs/root.go\<close> and \<^verbatim>\<open>internal/graph/client.go\<close>, which differ.
\<close>

datatype errno = ECONNREFUSED | ECONNRESET | EHOSTUNREACH | ENETUNREACH | ETIMEDOUT
  | ENOENT | ENOTDIR | EIO | EINVAL | ENOTEMPTY | EISDIR | ENOTSOCK

datatype sentinel = ErrItemNotFound | ErrInvalidToken | ErrEmptyName | ErrEmptyResource
  | ErrNilContent | ErrInvalidName | ErrThrottled | ErrConflict | ErrPreconditionFailed
  | ErrIsRoot | ErrDirNotEmpty | ErrCacheClosed | ErrNotExist | ErrTimeout

datatype go_error =
    Plain string
  | Sentinel sentinel
  | Errno errno
  | GraphErr int string string
  | NetErr string bool bool "go_error option"
  | Wrap string go_error
  | Joined go_error go_error

section \<open>Chains\<close>

text \<open>\<^verbatim>\<open>GraphError.Is\<close>: which sentinel an HTTP status stands for.\<close>

definition GraphError_Is :: "int \<Rightarrow> sentinel \<Rightarrow> bool" where
  "GraphError_Is status target =
     (if target = ErrItemNotFound then status = 404
      else if target = ErrInvalidToken then status = 401
      else if target = ErrThrottled then status = 429
      else if target = ErrConflict then status = 409
      else if target = ErrPreconditionFailed then status = 412
      else False)"

fun errors_Is :: "go_error \<Rightarrow> sentinel \<Rightarrow> bool" where
  "errors_Is (Plain _) _ = False"
| "errors_Is (Sentinel s) target = (s = target)"
| "errors_Is (Errno n) target = (n = ENOENT \<and> target = ErrNotExist)"
| "errors_Is (GraphErr status _ _) target = GraphError_Is status target"
| "errors_Is (NetErr _ _ _ None) target = False"
| "errors_Is (NetErr _ _ _ (Some e)) target = errors_Is e target"
| "errors_Is (Wrap _ e) target = errors_Is e target"
| "errors_Is (Joined e1 e2) target = (errors_Is e1 target \<or> errors_Is e2 target)"

fun errors_Is_errno :: "go_error \<Rightarrow> errno \<Rightarrow> bool" where
  "errors_Is_errno (Errno n) target = (n = target)"
| "errors_Is_errno (NetErr _ _ _ (Some e)) target = errors_Is_errno e target"
| "errors_Is_errno (Wrap _ e) target = errors_Is_errno e target"
| "errors_Is_errno (Joined e1 e2) target = (errors_Is_errno e1 target \<or> errors_Is_errno e2 target)"
| "errors_Is_errno _ _ = False"

text \<open>
  \<^verbatim>\<open>errors.As\<close> with an interface that has \<^verbatim>\<open>Timeout\<close> and \<^verbatim>\<open>Temporary\<close>: the first error of the chain
  that has both methods, as the pair of their answers.  \<^verbatim>\<open>syscall.Errno\<close> has them too.
\<close>

fun errors_As_net :: "go_error \<Rightarrow> (bool \<times> bool) option" where
  "errors_As_net (NetErr _ timeout temporary _) = Some (timeout, temporary)"
| "errors_As_net (Errno n) = Some (n = ETIMEDOUT, n = ETIMEDOUT)"
| "errors_As_net (Wrap _ e) = errors_As_net e"
| "errors_As_net (Joined e1 e2) = (case errors_As_net e1 of Some r \<Rightarrow> Some r | None \<Rightarrow> errors_As_net e2)"
| "errors_As_net _ = None"

definition net_errnos :: "errno list" where
  "net_errnos = [ECONNREFUSED, ECONNRESET, EHOSTUNREACH, ENETUNREACH, ETIMEDOUT]"

text \<open>The test of the file system layer (\<^verbatim>\<open>fs.isNetworkError\<close>); \<open>None\<close> is the nil error.\<close>

definition fs_isNetworkError :: "go_error option \<Rightarrow> bool" where
  "fs_isNetworkError err =
     (case err of
        None \<Rightarrow> False
      | Some e \<Rightarrow>
          (case errors_As_net e of
             Some (timeout, temporary) \<Rightarrow>
               if timeout \<or> temporary then True else list_ex (errors_Is_errno e) net_errnos
           | None \<Rightarrow> list_ex (errors_Is_errno e) net_errnos))"

section \<open>The test of the Graph client\<close>

fun errno_string :: "errno \<Rightarrow> string" where
  "errno_string ECONNREFUSED = ''connection refused''"
| "errno_string ECONNRESET = ''connection reset by peer''"
| "errno_string EHOSTUNREACH = ''no route to host''"
| "errno_string ENETUNREACH = ''network is unreachable''"
| "errno_string ETIMEDOUT = ''connection timed out''"
| "errno_string ENOENT = ''no such file or directory''"
| "errno_string ENOTDIR = ''not a directory''"
| "errno_string EIO = ''input/output error''"
| "errno_string EINVAL = ''invalid argument''"
| "errno_string ENOTEMPTY = ''directory not empty''"
| "errno_string EISDIR = ''is a directory''"
| "errno_string ENOTSOCK = ''socket operation on non-socket''"

definition contains_str :: "string \<Rightarrow> string \<Rightarrow> bool" where
  "contains_str s t = list_ex (\<lambda>k. take (length t) (drop k s) = t) [0..<length s + 1]"

text \<open>
  \<^verbatim>\<open>graph.isNetworkError\<close> reads the message text: \<open>msg\<close> is \<^verbatim>\<open>err.Error()\<close>, \<open>timeout\<close> whether some
  \<^verbatim>\<open>net.Error\<close> of the chain reports a timeout.
\<close>

definition graph_isNetworkError :: "go_error option \<Rightarrow> string \<Rightarrow> bool" where
  "graph_isNetworkError err msg =
     (case err of
        None \<Rightarrow> False
      | Some e \<Rightarrow>
          if (case errors_As_net e of Some (timeout, _) \<Rightarrow> timeout | None \<Rightarrow> False) then True
          else contains_str msg ''connection refused'' \<or>
               contains_str msg ''connection reset'' \<or>
               contains_str msg ''no such host'' \<or>
               contains_str msg ''network is unreachable'' \<or>
               contains_str msg ''i/o timeout'')"

lemma errors_Is_Wrap_iff: "errors_Is (Wrap m e) s = errors_Is e s"
  by simp

text \<open>Wrapping with \<^verbatim>\<open>%w\<close> never hides a transient error from the file system layer.\<close>

lemma fs_isNetworkError_Wrap: "fs_isNetworkError (Some (Wrap m e)) = fs_isNetworkError (Some e)"
  by (auto simp: fs_isNetworkError_def net_errnos_def split: option.split)

end
