(* ===== verification/Go_Heap.thy ===== *)
theory Go_Heap
  imports Prelude
begin

text \<open>
  Go's \<^verbatim>\<open>container/heap\<close>, which both eviction queues of the program are built on.  The
  sift loops are written over an arbitrary heap state with its \<^verbatim>\<open>Less\<close> and \<^verbatim>\<open>Swap\<close> methods, as
  \<^verbatim>\<open>heap.Interface\<close> has them; the instance on slices of values is \<open>lless\<close>/\<open>lswap\<close>.  The locale
  \<open>go_heap_order\<close> collects what the clients rely on: for a strict weak order, \<^verbatim>\<open>Push\<close>, \<^verbatim>\<open>Pop\<close>,
  \<^verbatim>\<open>Fix\<close> and \<^verbatim>\<open>Remove\<close> keep the heap order and the multiset of entries, and \<^verbatim>\<open>Pop\<close> returns a
  least entry.
\<close>

section \<open>The sift loops over heap.Interface\<close>

function heap_up :: "('s \<Rightarrow> nat \<Rightarrow> nat \<Rightarrow> bool) \<Rightarrow> ('s \<Rightarrow> nat \<Rightarrow> nat \<Rightarrow> 's) \<Rightarrow> nat \<Rightarrow> 's \<Rightarrow> 's" where
  "heap_up lessf swapf j s =
     (let i = (j - 1) div 2 in
      if i = j \<or> \<not> lessf s j i then s
      else heap_up lessf swapf i (swapf s i j))"
  by pat_completeness auto
termination
  by (relation "measure (\<lambda>(lessf, swapf, j, s). j)") auto

function heap_down ::
  "('s \<Rightarrow> nat \<Rightarrow> nat \<Rightarrow> bool) \<Rightarrow> ('s \<Rightarrow> nat \<Rightarrow> nat \<Rightarrow> 's) \<Rightarrow> nat \<Rightarrow> nat \<Rightarrow> 's \<Rightarrow> 's \<times> nat" where
  "heap_down lessf swapf i n s =
     (let j1 = 2 * i + 1 in
      if j1 \<ge> n then (s, i)
      else let j = (if j1 + 1 < n \<and> lessf s (j1 + 1) j1 then j1 + 1 else j1) in
        if \<not> lessf s j i then (s, i)
        else heap_down lessf swapf j n (swapf s i j))"
  by pat_completeness auto
termination
  by (relation "measure (\<lambda>(lessf, swapf, i, n, s). n - i)") (auto split: if_splits)

declare heap_up.simps [simp del] heap_down.simps [simp del]

text \<open>The parent of an index and the child that \<open>heap_down\<close> compares with; one unfolding of each loop.\<close>

definition par :: "nat \<Rightarrow> nat" where
  "par k = (k - 1) div 2"

definition pick :: "('s \<Rightarrow> nat \<Rightarrow> nat \<Rightarrow> bool) \<Rightarrow> nat \<Rightarrow> nat \<Rightarrow> 's \<Rightarrow> nat" where
  "pick lessf i n s = (if 2 * i + 2 < n \<and> lessf s (2 * i + 2) (2 * i + 1) then 2 * i + 2 else 2 * i + 1)"

lemma par_less: "0 < k \<Longrightarrow> par k < k"
  by (auto simp: par_def)

lemma par_eq_iff: "0 < k \<Longrightarrow> par k = i \<longleftrightarrow> k = 2 * i + 1 \<or> k = 2 * i + 2"
  by (auto simp: par_def)

lemma pick_props:
  assumes "2 * i + 1 < n"
  shows "i < pick lessf i n s" "pick lessf i n s < n" "par (pick lessf i n s) = i"
  using assms by (auto simp: pick_def par_def)

lemma heap_up_stop: "j = 0 \<or> \<not> lessf s j (par j) \<Longrightarrow> heap_up lessf swapf j s = s"
  by (subst heap_up.simps) (auto simp: par_def Let_def)

lemma heap_up_step:
  "0 < j \<Longrightarrow> lessf s j (par j) \<Longrightarrow>
   heap_up lessf swapf j s = heap_up lessf swapf (par j) (swapf s (par j) j)"
  by (subst heap_up.simps) (auto simp: par_def Let_def)

lemma heap_down_stop:
  "n \<le> 2 * i + 1 \<or> \<not> lessf s (pick lessf i n s) i \<Longrightarrow> heap_down lessf swapf i n s = (s, i)"
  by (subst heap_down.simps) (auto simp: pick_def Let_def)

lemma heap_down_step:
  "2 * i + 1 < n \<Longrightarrow> lessf s (pick lessf i n s) i \<Longrightarrow>
   heap_down lessf swapf i n s =
     heap_down lessf swapf (pick lessf i n s) n (swapf s i (pick lessf i n s))"
  by (subst heap_down.simps) (auto simp: pick_def Let_def)

section \<open>The instance on slices\<close>

definition lless :: "('a \<Rightarrow> 'a \<Rightarrow> bool) \<Rightarrow> 'a list \<Rightarrow> nat \<Rightarrow> nat \<Rightarrow> bool" where
  "lless lt h i j = lt (h ! i) (h ! j)"

definition lswap :: "'a list \<Rightarrow> nat \<Rightarrow> nat \<Rightarrow> 'a list" where
  "lswap h i j = h[i := h ! j, j := h ! i]"

definition heap_Push :: "('a \<Rightarrow> 'a \<Rightarrow> bool) \<Rightarrow> 'a \<Rightarrow> 'a list \<Rightarrow> 'a list" where
  "heap_Push lt x h = heap_up (lless lt) lswap (length h) (h @ [x])"

text \<open>\<^verbatim>\<open>Pop\<close> of an empty slice indexes out of range and panics: \<open>None\<close>.\<close>

definition heap_Pop :: "('a \<Rightarrow> 'a \<Rightarrow> bool) \<Rightarrow> 'a list \<Rightarrow> ('a \<times> 'a list) option" where
  "heap_Pop lt h =
     (if h = [] then None
      else let n = length h - 1; h' = fst (heap_down (lless lt) lswap 0 n (lswap h 0 n))
           in Some (last h', butlast h'))"

definition heap_Fix :: "('a \<Rightarrow> 'a \<Rightarrow> bool) \<Rightarrow> nat \<Rightarrow> 'a list \<Rightarrow> 'a list" where
  "heap_Fix lt i h =
     (let (h', i') = heap_down (lless lt) lswap i (length h) h in
      if i' > i then h' else heap_up (lless lt) lswap i h')"

definition heap_Remove :: "('a \<Rightarrow> 'a \<Rightarrow> bool) \<Rightarrow> nat \<Rightarrow> 'a list \<Rightarrow> 'a \<times> 'a list" where
  "heap_Remove lt i h =
     (let n = length h - 1;
          h1 = (if n \<noteq> i
                then let (h', i') = heap_down (lless lt) lswap i n (lswap h i n) in
                     if i' > i then h' else heap_up (lless lt) lswap i h'
                else h)
      in (last h1, butlast h1))"

lemma length_lswap [simp]: "length (lswap h i j) = length h"
  by (simp add: lswap_def)

lemma mset_lswap: "i < length h \<Longrightarrow> j < length h \<Longrightarrow> mset (lswap h i j) = mset h"
  unfolding lswap_def by (rule mset_swap)

lemma nth_lswap:
  "i < length h \<Longrightarrow> j < length h \<Longrightarrow>
   lswap h i j ! k = (if k = j then h ! i else if k = i then h ! j else h ! k)"
  by (auto simp: lswap_def nth_list_update)

section \<open>Shape lemmas: length and multiset\<close>

lemma heap_up_shape:
  assumes "j < length h"
  shows "length (heap_up (lless lt) lswap j h) = length h
       \<and> mset (heap_up (lless lt) lswap j h) = mset h
       \<and> (\<forall>k > j. heap_up (lless lt) lswap j h ! k = h ! k)"
  using assms
proof (induction j arbitrary: h rule: less_induct)
  case (less j)
  show ?case
  proof (cases "0 < j \<and> lless lt h j (par j)")
    case False
    then show ?thesis by (simp add: heap_up_stop)
  next
    case True
    then have lt: "par j < j" by (simp add: par_less)
    with less.prems have "par j < length (lswap h (par j) j)" by simp
    note IH = less.IH [OF lt this]
    have "mset (lswap h (par j) j) = mset h"
      using lt less.prems by (simp add: mset_lswap)
    moreover have "\<forall>k > j. lswap h (par j) j ! k = h ! k"
      using lt less.prems by (auto simp: nth_lswap)
    ultimately show ?thesis
      using True lt IH by (auto simp: heap_up_step)
  qed
qed

lemma heap_down_shape:
  assumes "i < n" "n \<le> length h"
  shows "length (fst (heap_down (lless lt) lswap i n h)) = length h
       \<and> mset (fst (heap_down (lless lt) lswap i n h)) = mset h
       \<and> (\<forall>k. n \<le> k \<or> k < i \<longrightarrow> fst (heap_down (lless lt) lswap i n h) ! k = h ! k)
       \<and> i \<le> snd (heap_down (lless lt) lswap i n h)
       \<and> (snd (heap_down (lless lt) lswap i n h) = i \<longrightarrow> fst (heap_down (lless lt) lswap i n h) = h)"
  using assms
proof (induction "n - i" arbitrary: i h rule: less_induct)
  case less
  define j where "j = pick (lless lt) i n h"
  show ?case
  proof (cases "2 * i + 1 < n \<and> lless lt h j i")
    case False
    then have "heap_down (lless lt) lswap i n h = (h, i)"
      by (intro heap_down_stop) (auto simp: j_def)
    then show ?thesis by simp
  next
    case True
    then have jn: "j < n" and ij: "i < j" using pick_props [of i n "lless lt" h] by (auto simp: j_def)
    have eq: "heap_down (lless lt) lswap i n h = heap_down (lless lt) lswap j n (lswap h i j)"
      using True unfolding j_def by (intro heap_down_step) auto
    have "n - j < n - i" "n \<le> length (lswap h i j)" using ij jn less.prems by auto
    note IH = less.hyps [OF this(1) jn this(2)]
    have "mset (lswap h i j) = mset h" using ij jn less.prems by (simp add: mset_lswap)
    moreover have "\<forall>k. n \<le> k \<or> k < i \<longrightarrow> lswap h i j ! k = h ! k"
      using ij jn less.prems by (auto simp: nth_lswap)
    ultimately show ?thesis using IH ij jn unfolding eq by auto
  qed
qed

section \<open>The heap order\<close>

text \<open>\<open>edge lt h k\<close>: entry \<open>k\<close> does not precede its parent.\<close>

definition edge :: "('a \<Rightarrow> 'a \<Rightarrow> bool) \<Rightarrow> 'a list \<Rightarrow> nat \<Rightarrow> bool" where
  "edge lt h k \<longleftrightarrow> \<not> lt (h ! k) (h ! par k)"

definition heap_on :: "('a \<Rightarrow> 'a \<Rightarrow> bool) \<Rightarrow> nat \<Rightarrow> 'a list \<Rightarrow> bool" where
  "heap_on lt n h \<longleftrightarrow> (\<forall>k. 0 < k \<and> k < n \<longrightarrow> edge lt h k)"

definition is_heap :: "('a \<Rightarrow> 'a \<Rightarrow> bool) \<Rightarrow> 'a list \<Rightarrow> bool" where
  "is_heap lt h = heap_on lt (length h) h"

text \<open>
  Two weakenings of the heap order at one index: \<open>up_gap\<close> allows entry \<open>j\<close> to precede its parent,
  \<open>down_gap\<close> also allows it to follow its children; in both the children of the index do not
  precede its parent.
\<close>

definition up_gap :: "('a \<Rightarrow> 'a \<Rightarrow> bool) \<Rightarrow> nat \<Rightarrow> nat \<Rightarrow> 'a list \<Rightarrow> bool" where
  "up_gap lt n j h \<longleftrightarrow>
     (\<forall>k. 0 < k \<and> k < n \<and> k \<noteq> j \<longrightarrow> edge lt h k) \<and>
     (0 < j \<longrightarrow> (\<forall>k. 0 < k \<and> k < n \<and> par k = j \<longrightarrow> \<not> lt (h ! k) (h ! par j)))"

definition down_gap :: "('a \<Rightarrow> 'a \<Rightarrow> bool) \<Rightarrow> nat \<Rightarrow> nat \<Rightarrow> 'a list \<Rightarrow> bool" where
  "down_gap lt n i h \<longleftrightarrow>
     (\<forall>k. 0 < k \<and> k < n \<and> k \<noteq> i \<and> par k \<noteq> i \<longrightarrow> edge lt h k) \<and>
     (0 < i \<longrightarrow> (\<forall>k. 0 < k \<and> k < n \<and> par k = i \<longrightarrow> \<not> lt (h ! k) (h ! par i)))"

locale go_heap_order =
  fixes lt :: "'a \<Rightarrow> 'a \<Rightarrow> bool"
  assumes lt_asym: "lt a b \<Longrightarrow> \<not> lt b a"
    and le_trans: "\<not> lt b a \<Longrightarrow> \<not> lt c b \<Longrightarrow> \<not> lt c a"
begin

lemma lt_irrefl: "\<not> lt a a"
  using lt_asym by blast

text \<open>Swapping an entry that precedes its parent moves the gap to the parent.\<close>

lemma up_gap_swap:
  assumes gap: "up_gap lt n j h" and j: "0 < j" "j < n" "n \<le> length h" and lt: "lt (h ! j) (h ! par j)"
  shows "up_gap lt n (par j) (lswap h (par j) j)"
proof -
  have ij: "par j < j" using j by (simp add: par_less)
  have nth: "lswap h (par j) j ! k = (if k = j then h ! par j else if k = par j then h ! j else h ! k)" for k
    using ij j by (simp add: nth_lswap)
  have e: "\<not> lt (h ! k) (h ! par k)" if "0 < k" "k < n" "k \<noteq> j" for k
    using gap that by (auto simp: up_gap_def edge_def)
  have c: "\<not> lt (h ! k) (h ! par j)" if "0 < k" "k < n" "par k = j" for k
    using gap that j by (auto simp: up_gap_def)
  have sib: "\<not> lt (h ! k) (h ! j)" if "0 < k" "k < n" "k \<noteq> j" "par k = par j" for k
    using e [OF that(1-3)] that(4) le_trans lt_asym [OF lt] by metis
  have up: "\<not> lt (h ! par j) (h ! par (par j))" if "0 < par j"
    using e [of "par j"] that ij j by auto
  show ?thesis
    unfolding up_gap_def
  proof (intro conjI allI impI)
    fix k assume k: "0 < k \<and> k < n \<and> k \<noteq> par j"
    then have "par k \<noteq> k" using par_less [of k] by auto
    then show "edge lt (lswap h (par j) j) k"
      using k ij e [of k] c [of k] sib [of k] lt_asym [OF lt] by (auto simp: edge_def nth)
  next
    fix k assume p: "0 < par j" and k: "0 < k \<and> k < n \<and> par k = par j"
    have "par (par j) < par j" using p by (rule par_less)
    moreover have "k \<noteq> par j" using k par_less [of k] by auto
    moreover have "\<not> lt (h ! k) (h ! par (par j))" if "k \<noteq> j"
      using e [of k] k that up [OF p] le_trans by metis
    ultimately show "\<not> lt (lswap h (par j) j ! k) (lswap h (par j) j ! par (par j))"
      using up [OF p] ij by (auto simp: nth)
  qed
qed

lemma heap_up_heap:
  assumes "j < n" "n \<le> length h" "up_gap lt n j h"
  shows "heap_on lt n (heap_up (lless lt) lswap j h)"
  using assms
proof (induction j arbitrary: h rule: less_induct)
  case (less j)
  show ?case
  proof (cases "0 < j \<and> lless lt h j (par j)")
    case False
    then have "j = 0 \<or> edge lt h j" by (auto simp: edge_def lless_def)
    with less.prems(3) have "heap_on lt n h" by (auto simp: up_gap_def heap_on_def)
    with False show ?thesis by (simp add: heap_up_stop)
  next
    case True
    then have ij: "par j < j" by (simp add: par_less)
    have "up_gap lt n (par j) (lswap h (par j) j)"
      using True less.prems by (intro up_gap_swap) (auto simp: lless_def)
    then have "heap_on lt n (heap_up (lless lt) lswap (par j) (lswap h (par j) j))"
      using ij less.prems by (intro less.IH) auto
    with True show ?thesis by (simp add: heap_up_step)
  qed
qed

text \<open>
  \<open>heap_down\<close> from a gap: every edge below is repaired, the edge above the start too when the
  entry moved or when it was right before.
\<close>

lemma pick_least:
  assumes "0 < k" "k < n" "par k = i"
  shows "\<not> lt (h ! k) (h ! pick (lless lt) i n h)"
  using assms par_eq_iff [of k i] lt_asym lt_irrefl unfolding pick_def lless_def
  by (auto split: if_splits)

lemma down_gap_swap:
  assumes gap: "down_gap lt n i h" and i: "2 * i + 1 < n" "n \<le> length h"
    and j: "j = pick (lless lt) i n h" and lt: "lt (h ! j) (h ! i)"
  shows "down_gap lt n j (lswap h i j) \<and> edge lt (lswap h i j) j
       \<and> (0 < i \<longrightarrow> edge lt (lswap h i j) i)"
proof -
  have ij: "i < j" and jn: "j < n" and pj: "par j = i"
    using pick_props [OF i(1), of "lless lt" h] by (auto simp: j)
  have nth: "lswap h i j ! k = (if k = j then h ! i else if k = i then h ! j else h ! k)" for k
    using ij jn i by (simp add: nth_lswap)
  have e: "\<not> lt (h ! k) (h ! par k)" if "0 < k" "k < n" "k \<noteq> i" "par k \<noteq> i" for k
    using gap that by (auto simp: down_gap_def edge_def)
  have c: "\<not> lt (h ! k) (h ! par i)" if "0 < k" "k < n" "par k = i" "0 < i" for k
    using gap that by (auto simp: down_gap_def)
  have sib: "\<not> lt (h ! k) (h ! j)" if "0 < k" "k < n" "par k = i" for k
    using pick_least [OF that] by (simp add: j)
  have pi: "par i \<noteq> i \<and> par i \<noteq> j" if "0 < i" using par_less [OF that] ij by auto
  have edge_i: "edge lt (lswap h i j) i" if "0 < i"
    using c [of j] that pi ij jn pj by (auto simp: edge_def nth)
  have "edge lt (lswap h i j) k" if k: "0 < k \<and> k < n \<and> k \<noteq> j \<and> par k \<noteq> j" for k
  proof (cases "k = i")
    case True with edge_i k show ?thesis by simp
  next
    case False
    with k e [of k] sib [of k] show ?thesis by (auto simp: edge_def nth)
  qed
  moreover have "\<not> lt (lswap h i j ! k) (lswap h i j ! par j)" if k: "0 < k \<and> k < n \<and> par k = j" for k
  proof -
    have "k \<noteq> j" "k \<noteq> i" using k par_less [of k] ij by auto
    with k e [of k] ij pj show ?thesis by (auto simp: nth)
  qed
  ultimately have "down_gap lt n j (lswap h i j)" by (auto simp: down_gap_def)
  moreover have "edge lt (lswap h i j) j"
    using lt_asym [OF lt] ij by (simp add: edge_def nth pj)
  ultimately show ?thesis using edge_i by blast
qed

lemma heap_down_heap:
  assumes "i < n" "n \<le> length h" "down_gap lt n i h" "heap_down (lless lt) lswap i n h = (h', i')"
  shows "(\<forall>k. 0 < k \<and> k < n \<and> k \<noteq> i \<longrightarrow> edge lt h' k)
       \<and> (0 < i \<and> (i' \<noteq> i \<or> edge lt h i) \<longrightarrow> edge lt h' i)"
  using assms
proof (induction "n - i" arbitrary: i h rule: less_induct)
  case less
  define j where "j = pick (lless lt) i n h"
  show ?case
  proof (cases "2 * i + 1 < n \<and> lless lt h j i")
    case False
    then have eq: "h' = h" "i' = i"
      using less.prems(4) heap_down_stop [of n i "lless lt" h lswap] by (auto simp: j_def)
    have "edge lt h k" if k: "0 < k" "k < n" "k \<noteq> i" for k
    proof (cases "par k = i")
      case True
      with k have "2 * i + 1 < n" using par_eq_iff [of k i] by auto
      with False have "\<not> lt (h ! j) (h ! i)" by (auto simp: lless_def)
      moreover have "\<not> lt (h ! k) (h ! j)" using pick_least [OF k(1,2) True] by (simp add: j_def)
      ultimately have "\<not> lt (h ! k) (h ! i)" using le_trans by blast
      with True show ?thesis by (simp add: edge_def)
    next
      case False
      with k less.prems(3) show ?thesis by (auto simp: down_gap_def)
    qed
    with eq show ?thesis by auto
  next
    case True
    then have ij: "i < j" and jn: "j < n"
      using pick_props [of i n "lless lt" h] by (auto simp: j_def)
    have step: "down_gap lt n j (lswap h i j) \<and> edge lt (lswap h i j) j
       \<and> (0 < i \<longrightarrow> edge lt (lswap h i j) i)"
      using True less.prems by (intro down_gap_swap) (auto simp: j_def lless_def)
    have eq: "heap_down (lless lt) lswap j n (lswap h i j) = (h', i')"
      using True less.prems(4) heap_down_step [of i n "lless lt" h lswap] by (auto simp: j_def)
    have "\<forall>k. 0 < k \<and> k < n \<and> k \<noteq> j \<longrightarrow> edge lt h' k" "edge lt h' j"
      using less.hyps [OF _ _ _ _ eq] step ij jn less.prems by auto
    then have "\<forall>k. 0 < k \<and> k < n \<longrightarrow> edge lt h' k" by blast
    with less.prems(1) show ?thesis by auto
  qed
qed

text \<open>The root of a heap is least.\<close>

lemma heap_root_least:
  assumes "is_heap lt h" "k < length h"
  shows "\<not> lt (h ! k) (h ! 0)"
  using assms(2)
proof (induction k rule: less_induct)
  case (less k)
  show ?case
  proof (cases "k = 0")
    case False
    then have "par k < k" by (simp add: par_less)
    with less have "\<not> lt (h ! par k) (h ! 0)" by simp
    moreover have "\<not> lt (h ! k) (h ! par k)"
      using assms(1) False less.prems by (auto simp: is_heap_def heap_on_def edge_def)
    ultimately show ?thesis using le_trans by blast
  qed (simp add: lt_irrefl)
qed

lemma is_heap_Nil: "is_heap lt []"
  by (simp add: is_heap_def heap_on_def)

lemma mset_Push: "mset (heap_Push lt x h) = add_mset x (mset h)"
  using heap_up_shape [of "length h" "h @ [x]" lt] by (simp add: heap_Push_def)

lemma is_heap_Push:
  assumes "is_heap lt h"
  shows "is_heap lt (heap_Push lt x h)"
proof -
  let ?g = "h @ [x]"
  have "edge lt ?g k" if "0 < k" "k < length h" for k
    using assms that par_less [of k] by (auto simp: is_heap_def heap_on_def edge_def nth_append)
  moreover have "par k \<noteq> length h" if "0 < k" "k < length ?g" for k
    using that par_less [of k] by auto
  ultimately have "up_gap lt (length ?g) (length h) ?g"
    by (auto simp: up_gap_def less_Suc_eq)
  then have "heap_on lt (length ?g) (heap_Push lt x h)"
    unfolding heap_Push_def by (intro heap_up_heap) auto
  moreover have "length (heap_Push lt x h) = length ?g"
    using heap_up_shape [of "length h" ?g lt] by (simp add: heap_Push_def)
  ultimately show ?thesis by (simp add: is_heap_def)
qed

lemma heap_on_mono: "heap_on lt n h \<Longrightarrow> m \<le> n \<Longrightarrow> heap_on lt m h"
  by (auto simp: heap_on_def)

lemma is_heap_butlast:
  assumes "heap_on lt (length h - 1) h"
  shows "is_heap lt (butlast h)"
  unfolding is_heap_def heap_on_def
proof (intro allI impI)
  fix k assume k: "0 < k \<and> k < length (butlast h)"
  then have "par k < length (butlast h)" using par_less [of k] by simp
  with k assms show "edge lt (butlast h) k"
    by (simp add: heap_on_def edge_def nth_butlast)
qed

text \<open>Repairing one index, whichever way its entry has to move: the common part of \<open>Fix\<close> and \<open>Remove\<close>.\<close>

lemma down_then_up:
  assumes gap: "down_gap lt n i h" and i: "i < n" "n \<le> length h"
    and eq: "heap_down (lless lt) lswap i n h = (h', i')"
  defines "g \<equiv> if i' > i then h' else heap_up (lless lt) lswap i h'"
  shows "heap_on lt n g" "mset g = mset h" "length g = length h" "\<forall>k \<ge> n. g ! k = h ! k"
proof -
  note shape = heap_down_shape [OF i, of lt]
  have d: "length h' = length h" "mset h' = mset h" "\<forall>k. n \<le> k \<longrightarrow> h' ! k = h ! k" "i \<le> i'"
    "i' = i \<Longrightarrow> h' = h"
    using shape by (auto simp: eq)
  note edges = heap_down_heap [OF i gap eq]
  have up: "up_gap lt n i h'" if "i' = i"
    using gap edges that d(5) by (auto simp: up_gap_def down_gap_def)
  have *: "heap_on lt n g"
  proof (cases "i' > i")
    case True
    with edges have "\<forall>k. 0 < k \<and> k < n \<longrightarrow> edge lt h' k" by (metis not_less_iff_gr_or_eq)
    with True show ?thesis by (simp add: g_def heap_on_def)
  next
    case False
    with d have "i' = i" by simp
    with False up i d show ?thesis unfolding g_def by (simp add: heap_up_heap)
  qed
  have u: "length (heap_up (lless lt) lswap i h') = length h'
      \<and> mset (heap_up (lless lt) lswap i h') = mset h'
      \<and> (\<forall>k > i. heap_up (lless lt) lswap i h' ! k = h' ! k)"
    using i d by (intro heap_up_shape) simp
  show "heap_on lt n g" by (fact *)
  show "mset g = mset h" "length g = length h" using u d by (auto simp: g_def)
  show "\<forall>k \<ge> n. g ! k = h ! k" using u d i by (auto simp: g_def)
qed

lemma heap_on_down_gap: "heap_on lt n h \<Longrightarrow> i < n \<Longrightarrow> down_gap lt n i h"
proof -
  assume heap: "heap_on lt n h" and i: "i < n"
  have "\<not> lt (h ! k) (h ! par i)" if "0 < i" "0 < k" "k < n" "par k = i" for k
  proof -
    have "\<not> lt (h ! k) (h ! i)" "\<not> lt (h ! i) (h ! par i)"
      using heap i that by (auto simp: heap_on_def edge_def)
    then show ?thesis using le_trans by blast
  qed
  with heap show ?thesis by (auto simp: down_gap_def heap_on_def)
qed

text \<open>Changing one entry of a heap opens a gap only there.\<close>

lemma down_gap_update:
  assumes "heap_on lt n h" "i < n" "n \<le> length h"
  shows "down_gap lt n i (h[i := x])"
proof -
  have gap: "down_gap lt n i h" using assms by (intro heap_on_down_gap)
  have "par k \<noteq> k" if "0 < k" for k using par_less [OF that] by simp
  then have "par i \<noteq> i" if "0 < i" using that by blast
  with gap assms show ?thesis
    unfolding down_gap_def edge_def by (metis nth_list_update_neq)
qed

lemma Fix_props:
  assumes "down_gap lt (length h) i h" "i < length h"
  shows "is_heap lt (heap_Fix lt i h) \<and> mset (heap_Fix lt i h) = mset h"
proof -
  obtain h' i' where eq: "heap_down (lless lt) lswap i (length h) h = (h', i')" by fastforce
  have "heap_Fix lt i h = (if i' > i then h' else heap_up (lless lt) lswap i h')"
    by (simp add: heap_Fix_def eq)
  with down_then_up [OF assms(1,2) order_refl eq] show ?thesis
    by (simp add: is_heap_def)
qed

lemma Fix_update:
  assumes "is_heap lt h" "i < length h"
  shows "is_heap lt (heap_Fix lt i (h[i := x]))" "mset (heap_Fix lt i (h[i := x])) = mset (h[i := x])"
  using Fix_props [of "h[i := x]" i] down_gap_update [of "length h" h i x] assms
  by (auto simp: is_heap_def)

lemma lswap_last_gap:
  assumes "is_heap lt h" "i < length h - 1"
  shows "down_gap lt (length h - 1) i (lswap h i (length h - 1))"
proof -
  let ?n = "length h - 1"
  have heap: "heap_on lt ?n h" using assms heap_on_mono by (auto simp: is_heap_def)
  then have gap: "down_gap lt ?n i (h[i := h ! ?n])"
    using assms by (intro down_gap_update) auto
  have same: "lswap h i ?n ! k = h[i := h ! ?n] ! k" if "k < ?n" for k
    using that assms by (auto simp: nth_lswap nth_list_update)
  have par: "par k < ?n" if "k < ?n" "0 < k" for k using par_less [OF that(2)] that by simp
  have "par i < ?n" using assms by (auto simp: par_def)
  with gap show ?thesis
    unfolding down_gap_def edge_def using same par by metis
qed

lemma Pop_props:
  assumes heap: "is_heap lt h" and pop: "heap_Pop lt h = Some (x, g)"
  shows "is_heap lt g" "mset h = add_mset x (mset g)" "x = h ! 0" "\<And>y. y \<in> set h \<Longrightarrow> \<not> lt y x"
proof -
  let ?n = "length h - 1"
  have ne: "h \<noteq> []" using pop by (auto simp: heap_Pop_def)
  define h' where "h' = fst (heap_down (lless lt) lswap 0 ?n (lswap h 0 ?n))"
  have xg: "x = last h'" "g = butlast h'"
    using pop ne by (auto simp: heap_Pop_def h'_def Let_def)
  have *: "heap_on lt ?n h' \<and> mset h' = mset h \<and> length h' = length h \<and> h' ! ?n = h ! 0"
  proof (cases "?n = 0")
    case True
    then obtain a where "h = [a]" using ne by (cases h) auto
    then have "h' = h" by (simp add: h'_def heap_down_stop lswap_def)
    with True show ?thesis by (simp add: heap_on_def)
  next
    case False
    have "length h > 0" using ne by simp
    obtain i' where eq: "heap_down (lless lt) lswap 0 ?n (lswap h 0 ?n) = (h', i')"
      by (metis h'_def prod.collapse)
    have gap: "down_gap lt ?n 0 (lswap h 0 ?n)" using heap False by (intro lswap_last_gap) auto
    have "\<forall>k. 0 < k \<and> k < ?n \<longrightarrow> edge lt h' k"
      using heap_down_heap [OF _ _ gap eq] False by auto
    then have "heap_on lt ?n h'" by (simp add: heap_on_def)
    moreover have "mset h' = mset (lswap h 0 ?n) \<and> length h' = length h \<and> h' ! ?n = lswap h 0 ?n ! ?n"
      using heap_down_shape [of 0 ?n "lswap h 0 ?n" lt] False by (simp add: h'_def)
    ultimately show ?thesis using \<open>length h > 0\<close> by (simp add: mset_lswap nth_lswap)
  qed
  have ne': "h' \<noteq> []" using * ne by auto
  show "is_heap lt g" using * xg is_heap_butlast [of h'] by simp
  have "mset h' = add_mset (last h') (mset (butlast h'))"
    using append_butlast_last_id [OF ne'] by (metis add_mset_add_single mset.simps(1,2) mset_append)
  with * xg show "mset h = add_mset x (mset g)" by simp
  show x: "x = h ! 0" using * xg ne' by (simp add: last_conv_nth)
  show "\<not> lt y x" if "y \<in> set h" for y
    using that heap_root_least [OF heap] x by (auto simp: in_set_conv_nth)
qed

lemma Pop_Some: "h \<noteq> [] \<Longrightarrow> \<exists>x g. heap_Pop lt h = Some (x, g)"
  by (simp add: heap_Pop_def Let_def)

lemma Remove_props:
  assumes heap: "is_heap lt h" and i: "i < length h" and rem: "heap_Remove lt i h = (x, g)"
  shows "is_heap lt g" "x = h ! i" "mset h = add_mset x (mset g)"
proof -
  let ?n = "length h - 1"
  obtain h1 where h1: "x = last h1" "g = butlast h1" "heap_on lt ?n h1" "mset h1 = mset h"
    "length h1 = length h" "h1 ! ?n = h ! i"
  proof (cases "?n = i")
    case True
    with that [of h] heap rem heap_on_mono show ?thesis
      by (auto simp: heap_Remove_def Let_def is_heap_def)
  next
    case False
    with i have in': "i < ?n" by simp
    obtain h' i' where eq: "heap_down (lless lt) lswap i ?n (lswap h i ?n) = (h', i')" by fastforce
    have n: "?n \<le> length (lswap h i ?n)" by simp
    note r = down_then_up [OF lswap_last_gap [OF heap in'] in' n eq]
    have "mset (lswap h i ?n) = mset h" "lswap h i ?n ! ?n = h ! i"
      using in' by (simp_all add: mset_lswap nth_lswap)
    with that r rem False eq show ?thesis
      by (fastforce simp: heap_Remove_def Let_def split: prod.splits)
  qed
  have ne: "h1 \<noteq> []" using h1 i by auto
  show "is_heap lt g" using h1 is_heap_butlast [of h1] by simp
  show "x = h ! i" using h1 ne by (simp add: last_conv_nth)
  have "mset h1 = add_mset (last h1) (mset (butlast h1))"
    using append_butlast_last_id [OF ne] by (metis add_mset_add_single mset.simps(1,2) mset_append)
  with h1 show "mset h = add_mset x (mset g)" by simp
qed

end

text \<open>A pop shortens the slice: the termination argument of the loops that drain a heap.\<close>

lemma length_heap_Pop: "heap_Pop lt h = Some (x, g) \<Longrightarrow> length g < length h"
proof -
  assume pop: "heap_Pop lt h = Some (x, g)"
  then have ne: "h \<noteq> []" by (auto simp: heap_Pop_def)
  let ?n = "length h - 1"
  have "length (fst (heap_down (lless lt) lswap 0 ?n (lswap h 0 ?n))) = length h"
  proof (cases "?n = 0")
    case True
    then show ?thesis by (simp add: heap_down_stop)
  next
    case False
    then show ?thesis using heap_down_shape [of 0 ?n "lswap h 0 ?n" lt] by simp
  qed
  with pop ne show ?thesis by (auto simp: heap_Pop_def Let_def)
qed

end
