(* ===== verification/Inode_Cache.thy ===== *)
theory Inode_Cache
  imports Inode Graph_Error Go_Heap "HOL-Library.Signed_Division"
begin

text \<open>
  The metadata cache of \<^verbatim>\<open>internal/fs/cache.go\<close>, without its BoltDB half (see \<open>Cache_Persist\<close>).
  The record has the struct's fields; \<^verbatim>\<open>sync.Map\<close> is an association list, the two dirty sets are
  duplicate-free lists, the ring of TTL buckets is a list of 60 lists, the eviction heap is the
  slice that \<^verbatim>\<open>container/heap\<close> maintains.  Inodes are held by pointer in Go: a change through a
  pointer that the map holds is \<open>modify_at\<close> on its key.  Every operation takes the current time
  as its first argument and is one atomic step.
\<close>

section \<open>Effective TTL\<close>

definition freqGrowthRate :: rat where "freqGrowthRate = 1 / 2"
definition freqMultiplierMax :: rat where "freqMultiplierMax = 20"
definition ttlBucketCount :: nat where "ttlBucketCount = 60"
definition ttlBucketWidth :: duration where "ttlBucketWidth = second"
definition sizeEvictIdleGrace :: duration where "sizeEvictIdleGrace = 5 * second"

definition effectiveTTL :: "duration \<Rightarrow> 64 word \<Rightarrow> duration" where
  "effectiveTTL baseTTL accessCount =
     (let multiplier = f64 (1 + f64 (f64 (of_nat (unat accessCount)) * freqGrowthRate));
          multiplier = (if multiplier > freqMultiplierMax then freqMultiplierMax else multiplier)
      in f64_to_int (f64 (f64 (of_int baseTTL) * multiplier)))"

section \<open>State\<close>

record ttl_entry =
  te_inodeID :: ident
  te_expiry :: time

record eviction_entry =
  ee_id :: ident
  ee_score :: rat
  ee_age :: time
  ee_generation :: "64 word"

record inode_cache =
  inodes :: "(ident \<times> inode) list"
  rootID :: ident
  hits :: "64 word"
  misses :: "64 word"
  evictions :: "64 word"
  db_open :: bool
  offline :: bool
  maxEntries :: int
  baseTTL :: duration
  sweeping :: bool
  dirty :: "ident list"
  deleted :: "ident list"
  serializedBytes :: "64 word"
  ttlBuckets :: "ttl_entry list list"
  lastSweep :: time
  evictionHeap :: "eviction_entry list"
  evictionGeneration :: "(ident \<times> 64 word) list"
  cachedFolders :: int

definition NewInodeCache :: inode_cache where
  "NewInodeCache = \<lparr> inodes = [], rootID = ''root'', hits = 0, misses = 0, evictions = 0,
     db_open = False, offline = False, maxEntries = 2000, baseTTL = 60 * second,
     sweeping = False, dirty = [], deleted = [], serializedBytes = 0,
     ttlBuckets = replicate ttlBucketCount [], lastSweep = zero_time, evictionHeap = [],
     evictionGeneration = [], cachedFolders = 0 \<rparr>"

section \<open>Parent and children bookkeeping\<close>

fun containsID :: "ident list \<Rightarrow> ident \<Rightarrow> bool" where
  "containsID [] i = False"
| "containsID (c # cs) i = (if c = i then True else containsID cs i)"

definition attachChild :: "inode \<Rightarrow> ident \<Rightarrow> bool \<Rightarrow> bool \<Rightarrow> inode" where
  "attachChild parent childID childIsDir seedNilChildren =
     (let p = (if children parent \<noteq> None \<or> seedNilChildren
               then let cs = (case children parent of None \<Rightarrow> [] | Some cs \<Rightarrow> cs) in
                    if \<not> containsID cs childID
                    then parent\<lparr>children := Some (cs @ [childID])\<rparr> else parent
               else parent)
      in if childIsDir then p\<lparr>subdir := subdir p + 1\<rparr> else p)"

definition detachChild :: "inode \<Rightarrow> ident \<Rightarrow> bool \<Rightarrow> inode" where
  "detachChild parent childID childIsDir =
     (let p = parent\<lparr>children := map_option (filter (\<lambda>i. i \<noteq> childID)) (children parent)\<rparr>
      in if childIsDir \<and> subdir p > 0 then p\<lparr>subdir := subdir p - 1\<rparr> else p)"

definition Get :: "inode_cache \<Rightarrow> ident \<Rightarrow> inode option" where
  "Get c i = map_of (inodes c) i"

definition Store :: "ident \<Rightarrow> inode \<Rightarrow> inode_cache \<Rightarrow> inode_cache" where
  "Store i n c = c\<lparr>inodes := AList.update i n (inodes c)\<rparr>"

definition mutate :: "ident \<Rightarrow> (inode \<Rightarrow> inode) \<Rightarrow> inode_cache \<Rightarrow> inode_cache" where
  "mutate i f c = c\<lparr>inodes := modify_at i f (inodes c)\<rparr>"

section \<open>Dirty tracking\<close>

definition markExclusive :: "ident list \<Rightarrow> ident list \<Rightarrow> ident \<Rightarrow> ident list \<times> ident list" where
  "markExclusive s other i = (List.insert i s, removeAll i other)"

definition markDirty :: "ident \<Rightarrow> inode_cache \<Rightarrow> inode_cache" where
  "markDirty i c = (let (d, x) = markExclusive (dirty c) (deleted c) i in c\<lparr>dirty := d, deleted := x\<rparr>)"

definition markDeleted :: "ident \<Rightarrow> inode_cache \<Rightarrow> inode_cache" where
  "markDeleted i c = (let (x, d) = markExclusive (deleted c) (dirty c) i in c\<lparr>deleted := x, dirty := d\<rparr>)"

section \<open>TTL ring and eviction heap\<close>

text \<open>\<^verbatim>\<open>%\<close> truncates in Go, so the index is corrected for expiries before 1970.\<close>

definition ttlBucketIndex :: "time \<Rightarrow> nat" where
  "ttlBucketIndex expiry =
     (let index = time_unix expiry smod int ttlBucketCount;
          index = (if index < 0 then index + int ttlBucketCount else index)
      in nat index)"

definition inode_expiry :: "duration \<Rightarrow> inode \<Rightarrow> time" where
  "inode_expiry base i = childrenLastAccess i + effectiveTTL base (childrenAccessCount i)"

definition registerTTL :: "inode \<Rightarrow> inode_cache \<Rightarrow> inode_cache" where
  "registerTTL i c =
     (if \<not> IsChildrenFetched i then c
      else let expiry = inode_expiry (baseTTL c) i;
               entry = \<lparr>te_inodeID = ID i, te_expiry = expiry\<rparr>;
               b = ttlBucketIndex expiry
           in c\<lparr>ttlBuckets := (ttlBuckets c)[b := ttlBuckets c ! b @ [entry]]\<rparr>)"

definition less_entry :: "eviction_entry \<Rightarrow> eviction_entry \<Rightarrow> bool" where
  "less_entry a b = (if ee_score a = ee_score b then ee_age a < ee_age b else ee_score a < ee_score b)"

text \<open>\<^verbatim>\<open>Duration.Minutes\<close>: whole minutes plus the remainder as a fraction.\<close>

definition duration_Minutes :: "duration \<Rightarrow> rat" where
  "duration_Minutes d =
     f64 (f64 (of_int (d sdiv minute)) + f64 (f64 (of_int (d smod minute)) / 60000000000))"

definition sizeScore :: "inode \<Rightarrow> time \<Rightarrow> rat" where
  "sizeScore i now =
     (let minutesSinceLastAccess = duration_Minutes (time_sub now (childrenLastAccess i))
      in f64 (f64 (of_nat (unat (childrenAccessCount i))) / f64 (minutesSinceLastAccess + 1)))"

definition generation_of :: "inode_cache \<Rightarrow> ident \<Rightarrow> 64 word" where
  "generation_of c i = (case map_of (evictionGeneration c) i of None \<Rightarrow> 0 | Some g \<Rightarrow> g)"

definition updateEvictionEntry :: "inode \<Rightarrow> time \<Rightarrow> inode_cache \<Rightarrow> inode_cache" where
  "updateEvictionEntry i now c =
     (if \<not> IsChildrenFetched i then c
      else let g = generation_of c (ID i) + 1;
               entry = \<lparr>ee_id = ID i, ee_score = sizeScore i now, ee_age = childrenCachedAt i,
                        ee_generation = g\<rparr>
           in c\<lparr>evictionGeneration := AList.update (ID i) g (evictionGeneration c),
                evictionHeap := heap_Push less_entry entry (evictionHeap c)\<rparr>)"

text \<open>A folder just became populated: the three registrations that Insert, MoveChild and the loader share.\<close>

definition register_folder :: "time \<Rightarrow> inode \<Rightarrow> inode_cache \<Rightarrow> inode_cache" where
  "register_folder now p c =
     (let c = updateEvictionEntry p now (registerTTL p c) in c\<lparr>cachedFolders := cachedFolders c + 1\<rparr>)"

section \<open>Basic operations\<close>

text \<open>Adding a child to a stored parent, with the registration of the nil-to-list transition.\<close>

definition attach_seed :: "time \<Rightarrow> ident \<Rightarrow> ident \<Rightarrow> bool \<Rightarrow> inode_cache \<Rightarrow> inode_cache" where
  "attach_seed now parentID childID childIsDir c =
     (case Get c parentID of
        None \<Rightarrow> c
      | Some parent \<Rightarrow>
          let wasFetched = IsChildrenFetched parent;
              parent' = attachChild parent childID childIsDir True;
              c = mutate parentID (\<lambda>_. parent') c;
              c = (if \<not> wasFetched \<and> IsChildrenFetched parent' then register_folder now parent' c else c)
          in markDirty parentID c)"

definition Insert :: "time \<Rightarrow> inode option \<Rightarrow> inode_cache \<Rightarrow> inode_cache" where
  "Insert now io c =
     (case io of
        None \<Rightarrow> c
      | Some i \<Rightarrow>
          let c = markDirty (ID i) (Store (ID i) i c);
              parentID = ParentID i
          in if parentID \<noteq> '''' then attach_seed now parentID (ID i) (IsDir i) c else c)"

definition Delete :: "ident \<Rightarrow> inode_cache \<Rightarrow> inode_cache" where
  "Delete i c =
     (case Get c i of
        None \<Rightarrow> c
      | Some n \<Rightarrow>
          let parentID = ParentID n;
              c = (if parentID \<noteq> '''' then mutate parentID (\<lambda>p. detachChild p i (IsDir n)) c else c);
              fetched = (case Get c i of None \<Rightarrow> False | Some n' \<Rightarrow> IsChildrenFetched n');
              c = (if fetched then c\<lparr>cachedFolders := cachedFolders c - 1\<rparr> else c);
              c = markDeleted i (c\<lparr>inodes := AList.delete i (inodes c)\<rparr>)
          in if parentID \<noteq> '''' then markDirty parentID c else c)"

section \<open>Children operations\<close>

text \<open>
  A fetcher runs against the cache (the offline fallback reads it and sets the offline flag) and
  returns the listing or an error; \<open>None\<close> is the nil fetcher of cache-only lookups.
\<close>

type_synonym fetcher = "inode_cache \<Rightarrow> ident \<Rightarrow> inode_cache \<times> (go_error + drive_item list)"

type_synonym child_map = "(string \<times> inode) list"

definition isChildrenFresh :: "time \<Rightarrow> inode_cache \<Rightarrow> inode \<Rightarrow> bool" where
  "isChildrenFresh now c i =
     (time_sub now (childrenCachedAt i) < effectiveTTL (baseTTL c) (childrenAccessCount i))"

definition buildChildMap :: "inode_cache \<Rightarrow> ident list \<Rightarrow> child_map" where
  "buildChildMap c ids =
     fold (\<lambda>i m. case Get c i of None \<Rightarrow> m | Some child \<Rightarrow> AList.update (Name child) child m) ids []"

text \<open>The loop over the fetched items: fill in a missing parent, store, mark, collect.\<close>

definition child_inode :: "ident \<Rightarrow> drive_item \<Rightarrow> inode" where
  "child_inode parentID item =
     (let i = inode_of_item item in
      if ParentID i = '''' then i\<lparr>DriveItem := (DriveItem i)\<lparr>di_Parent := Some (parent_ref parentID)\<rparr>\<rparr>
      else i)"

fun store_items ::
  "ident \<Rightarrow> bool \<Rightarrow> drive_item list \<Rightarrow> inode_cache \<times> ident list \<times> child_map
     \<Rightarrow> inode_cache \<times> ident list \<times> child_map"
where
  "store_items parentID mark [] acc = acc"
| "store_items parentID mark (item # items) (c, ids, m) =
     (let i = child_inode parentID item;
          c = Store (ID i) i c;
          c = (if mark then markDirty (ID i) c else c)
      in store_items parentID mark items (c, ids @ [ID i], AList.update (Name i) i m))"

definition minimal_parent :: "ident \<Rightarrow> inode" where
  "minimal_parent parentID =
     inode_of_item (zero_item\<lparr>di_ID := parentID, di_Name := parentID,
                              di_Folder := Some \<lparr>ChildCount = 0\<rparr>\<rparr>)"

text \<open>
  Step 4 of the fetch.  The parent object was read before the items were stored: when the listing
  contains the parent itself, the map now holds another object and the write goes to the old one.
\<close>

definition update_parent ::
  "time \<Rightarrow> ident \<Rightarrow> inode option \<Rightarrow> ident list \<Rightarrow> bool \<Rightarrow> child_map \<Rightarrow> inode_cache \<Rightarrow> inode_cache" where
  "update_parent now parentID known ids mark m c =
     (let (c, parent) =
            (case known of
               None \<Rightarrow> (Store parentID (minimal_parent parentID) c, minimal_parent parentID)
             | Some p \<Rightarrow> (c, p));
          held = (known = None \<or> parentID \<notin> set ids);
          wasFetched = IsChildrenFetched parent;
          parent = BumpChildrenAccess now (SetChildren now (Some ids) parent);
          c = updateEvictionEntry parent now (registerTTL parent c);
          c = (if \<not> wasFetched then c\<lparr>cachedFolders := cachedFolders c + 1\<rparr> else c);
          c = (if mark then markDirty parentID c else c);
          parent = SetSubdir (of_nat (length (filter (\<lambda>(_, i). IsDir i) m))) parent
      in if held then mutate parentID (\<lambda>_. parent) c else c)"

text \<open>The two halves of \<^verbatim>\<open>getChildren\<close>: the cache hit, and the fetch on a miss.\<close>

definition children_hit :: "time \<Rightarrow> ident \<Rightarrow> inode \<Rightarrow> inode_cache \<Rightarrow> inode_cache \<times> (go_error + child_map)" where
  "children_hit now parentID p c =
     (let p' = BumpChildrenAccess now p;
          c = mutate parentID (\<lambda>_. p') (c\<lparr>hits := hits c + 1\<rparr>);
          c = updateEvictionEntry p' now (registerTTL p' c)
      in (c, Inr (buildChildMap c (case Children p' of None \<Rightarrow> [] | Some cs \<Rightarrow> cs))))"

definition children_miss ::
  "time \<Rightarrow> ident \<Rightarrow> inode option \<Rightarrow> fetcher option \<Rightarrow> bool \<Rightarrow> inode_cache \<Rightarrow> inode_cache \<times> (go_error + child_map)" where
  "children_miss now parentID parent fetch mark c =
     (let c = c\<lparr>misses := misses c + 1\<rparr> in
      case fetch of
        None \<Rightarrow> (c, Inl (Plain ''cache miss and no fetcher available''))
      | Some f \<Rightarrow>
          (case f c parentID of
             (c, Inl e) \<Rightarrow> (c, Inl e)
           | (c, Inr items) \<Rightarrow>
               let (c, ids, m) = store_items parentID mark items (c, [], [])
               in (update_parent now parentID parent ids mark m c, Inr m)))"

definition getChildren ::
  "time \<Rightarrow> ident \<Rightarrow> fetcher option \<Rightarrow> bool \<Rightarrow> inode_cache \<Rightarrow> inode_cache \<times> (go_error + child_map)" where
  "getChildren now parentID fetch mark c =
     (case Get c parentID of
        None \<Rightarrow> children_miss now parentID None fetch mark c
      | Some p \<Rightarrow>
          if IsChildrenFetched p \<and> isChildrenFresh now c p then children_hit now parentID p c
          else children_miss now parentID (Some p) fetch mark c)"

definition GetChildren ::
  "time \<Rightarrow> ident \<Rightarrow> fetcher option \<Rightarrow> inode_cache \<Rightarrow> inode_cache \<times> (go_error + child_map)" where
  "GetChildren now parentID fetch c = getChildren now parentID fetch True c"

definition PrefetchChildren ::
  "time \<Rightarrow> ident \<Rightarrow> fetcher option \<Rightarrow> inode_cache \<Rightarrow> inode_cache \<times> (go_error + child_map)" where
  "PrefetchChildren now parentID fetch c = getChildren now parentID fetch False c"

definition GetChild ::
  "time \<Rightarrow> ident \<Rightarrow> string \<Rightarrow> fetcher option \<Rightarrow> inode_cache \<Rightarrow> inode_cache \<times> (go_error + inode option)" where
  "GetChild now parentID name fetch c =
     (case GetChildren now parentID fetch c of
        (c, Inl e) \<Rightarrow> (c, Inl e)
      | (c, Inr m) \<Rightarrow> (c, Inr (map_of m name)))"

definition ItemsByParent :: "ident \<Rightarrow> inode_cache \<Rightarrow> drive_item list" where
  "ItemsByParent parentID c =
     map (\<lambda>(_, i). DriveItem i) (filter (\<lambda>(_, i). ParentID i = parentID) (inodes c))"

section \<open>Path navigation\<close>

fun split_on :: "char \<Rightarrow> string \<Rightarrow> string list" where
  "split_on sep [] = [[]]"
| "split_on sep (ch # s) =
     (if ch = sep then [] # split_on sep s
      else case split_on sep s of
             [] \<Rightarrow> [[ch]]
           | w # ws \<Rightarrow> (ch # w) # ws)"

definition trim_char :: "char \<Rightarrow> string \<Rightarrow> string" where
  "trim_char ch s = rev (dropWhile (\<lambda>x. x = ch) (rev (dropWhile (\<lambda>x. x = ch) s)))"

text \<open>The loop of \<^verbatim>\<open>GetPath\<close>; the last component is the one with nothing after it.\<close>

fun walk_path ::
  "time \<Rightarrow> fetcher option \<Rightarrow> ident \<Rightarrow> string list \<Rightarrow> inode_cache \<Rightarrow> inode_cache \<times> (go_error + inode)" where
  "walk_path now fetch cur [] c = (c, Inl (Wrap ''empty path after cleaning'' (Errno ENOENT)))"
| "walk_path now fetch cur (name # rest) c =
     (if name = '''' \<or> name = ''.'' then walk_path now fetch cur rest c
      else case GetChildren now cur fetch c of
             (c, Inl e) \<Rightarrow> (c, Inl (Wrap ''navigating'' e))
           | (c, Inr m) \<Rightarrow>
               (case map_of m name of
                  None \<Rightarrow> (c, Inl (Wrap ''not found'' (Errno ENOENT)))
                | Some child \<Rightarrow>
                    if rest = [] then (c, Inr child)
                    else if \<not> IsDir child then (c, Inl (Wrap ''is not a folder'' (Errno ENOTDIR)))
                    else walk_path now fetch (ID child) rest c))"

definition GetPath ::
  "time \<Rightarrow> string \<Rightarrow> fetcher option \<Rightarrow> inode_cache \<Rightarrow> inode_cache \<times> (go_error + inode)" where
  "GetPath now path fetch c =
     (let path = trim_char (CHR ''/'') path in
      if path = '''' \<or> path = ''.'' then (c, Inl (Sentinel ErrIsRoot))
      else walk_path now fetch ''root'' (split_on (CHR ''/'') path) c)"

section \<open>TTL sweep\<close>

text \<open>One pass carries the set of inodes it has already handled.\<close>

definition processTTLEntry ::
  "time \<Rightarrow> ttl_entry \<Rightarrow> inode_cache \<times> ident list \<Rightarrow> inode_cache \<times> ident list" where
  "processTTLEntry now entry = (\<lambda>(c, processed).
     case Get c (te_inodeID entry) of
       None \<Rightarrow> (c, processed)
     | Some i \<Rightarrow>
         if \<not> IsChildrenFetched i then (c, processed)
         else if te_inodeID entry \<in> set processed then (c, processed)
         else
           let processed = te_inodeID entry # processed;
               i = DecayChildrenAccess i;
               c = mutate (te_inodeID entry) (\<lambda>_. i) c;
               expiry = inode_expiry (baseTTL c) i
           in if \<not> now > expiry then (registerTTL i c, processed)
              else let c = mutate (te_inodeID entry) EvictChildren c
                   in (c\<lparr>evictions := evictions c + 1, cachedFolders := cachedFolders c - 1\<rparr>, processed))"

definition sweepBucket ::
  "nat \<Rightarrow> time \<Rightarrow> inode_cache \<times> ident list \<Rightarrow> inode_cache \<times> ident list" where
  "sweepBucket index now = (\<lambda>(c, processed).
     let entries = ttlBuckets c ! index;
         c = c\<lparr>ttlBuckets := (ttlBuckets c)[index := []]\<rparr>
     in fold (processTTLEntry now) entries (c, processed))"

definition sweepExpiredBucket :: "time \<Rightarrow> inode_cache \<Rightarrow> inode_cache" where
  "sweepExpiredBucket now c = fst (sweepBucket (ttlBucketIndex now) now (c, []))"

function sweep_range :: "time \<Rightarrow> time \<Rightarrow> inode_cache \<times> ident list \<Rightarrow> inode_cache \<times> ident list" where
  "sweep_range now t s =
     (if t \<le> now then sweep_range now (t + ttlBucketWidth) (sweepBucket (ttlBucketIndex t) now s) else s)"
  by pat_completeness auto
termination
  by (relation "measure (\<lambda>(now, t, s). nat (now - t + 1))") (auto simp: ttlBucketWidth_def)

declare sweep_range.simps [simp del]

definition sweepExpiredBuckets :: "time \<Rightarrow> inode_cache \<Rightarrow> inode_cache" where
  "sweepExpiredBuckets now c =
     (let start = (if lastSweep c = zero_time then now - ttlBucketWidth else lastSweep c);
          (c, _) = (if time_sub now start > int ttlBucketCount * ttlBucketWidth
                    then fold (\<lambda>i. sweepBucket i now) [0..<ttlBucketCount] (c, [])
                    else sweep_range now (start + ttlBucketWidth) (c, []))
      in c\<lparr>lastSweep := now\<rparr>)"

text \<open>The reference implementation that the bucket sweep replaced.\<close>

definition scan_inode :: "time \<Rightarrow> ident \<Rightarrow> inode_cache \<Rightarrow> inode_cache" where
  "scan_inode now k c =
     (case Get c k of
        None \<Rightarrow> c
      | Some i \<Rightarrow>
          if \<not> IsChildrenFetched i then c
          else let i = DecayChildrenAccess i;
                   c = mutate k (\<lambda>_. i) c
               in if now > inode_expiry (baseTTL c) i
                  then let c = mutate k EvictChildren c
                       in c\<lparr>evictions := evictions c + 1, cachedFolders := cachedFolders c - 1\<rparr>
                  else c)"

definition evictExpiredChildrenFullScan :: "time \<Rightarrow> inode_cache \<Rightarrow> inode_cache" where
  "evictExpiredChildrenFullScan now c = fold (scan_inode now) (map fst (inodes c)) c"

section \<open>Size-limit eviction\<close>

function popEvictionCandidate :: "inode_cache \<Rightarrow> ident option \<times> inode_cache" where
  "popEvictionCandidate c =
     (case heap_Pop less_entry (evictionHeap c) of
        None \<Rightarrow> (None, c)
      | Some (entry, h) \<Rightarrow>
          let c' = c\<lparr>evictionHeap := h\<rparr> in
          if ee_generation entry \<noteq> generation_of c (ee_id entry) then popEvictionCandidate c'
          else (case Get c (ee_id entry) of
                  None \<Rightarrow> popEvictionCandidate c'
                | Some i \<Rightarrow> if \<not> IsChildrenFetched i then popEvictionCandidate c'
                            else (Some (ee_id entry), c')))"
  by pat_completeness auto
termination
  by (relation "measure (\<lambda>c. length (evictionHeap c))") (auto dest: length_heap_Pop)

definition sizeEvictable :: "inode option \<Rightarrow> time \<Rightarrow> bool" where
  "sizeEvictable io now =
     (case io of
        None \<Rightarrow> False
      | Some i \<Rightarrow> if \<not> IsChildrenFetched i then False
                  else time_sub now (childrenLastAccess i) \<ge> sizeEvictIdleGrace)"

function popEvictableCandidate :: "time \<Rightarrow> inode_cache \<Rightarrow> (ident \<times> rat) option \<times> inode_cache" where
  "popEvictableCandidate now c =
     (case heap_Pop less_entry (evictionHeap c) of
        None \<Rightarrow> (None, c)
      | Some (entry, h) \<Rightarrow>
          let c' = c\<lparr>evictionHeap := h\<rparr> in
          if ee_generation entry \<noteq> generation_of c (ee_id entry) then popEvictableCandidate now c'
          else (case Get c (ee_id entry) of
                  None \<Rightarrow> popEvictableCandidate now c'
                | Some i \<Rightarrow>
                    if \<not> IsChildrenFetched i then popEvictableCandidate now c'
                    else if \<not> sizeEvictable (Some i) now
                    then (None, c\<lparr>evictionHeap := heap_Push less_entry entry h\<rparr>)
                    else (Some (ee_id entry, ee_score entry), c')))"
  by pat_completeness auto
termination
  by (relation "measure (\<lambda>(now, c). length (evictionHeap c))") (auto dest: length_heap_Pop)

declare popEvictionCandidate.simps [simp del] popEvictableCandidate.simps [simp del]

fun evict_loop :: "nat \<Rightarrow> time \<Rightarrow> inode_cache \<Rightarrow> inode_cache" where
  "evict_loop 0 now c = c"
| "evict_loop (Suc n) now c =
     (case popEvictableCandidate now c of
        (None, c) \<Rightarrow> c
      | (Some (i, score), c) \<Rightarrow>
          (case Get c i of
             None \<Rightarrow> evict_loop n now c
           | Some _ \<Rightarrow>
               let c = mutate i EvictChildren c
               in evict_loop n now (c\<lparr>evictions := evictions c + 1, cachedFolders := cachedFolders c - 1\<rparr>)))"

definition evictChildrenBySizeLimit :: "time \<Rightarrow> inode_cache \<Rightarrow> inode_cache" where
  "evictChildrenBySizeLimit now c =
     (if maxEntries c \<le> 0 then c
      else if cachedFolders c \<le> maxEntries c then c
      else evict_loop (nat (cachedFolders c - maxEntries c)) now c)"

definition sweep :: "time \<Rightarrow> inode_cache \<Rightarrow> inode_cache" where
  "sweep now c = evictChildrenBySizeLimit now (sweepExpiredBuckets now c)"

definition ForceSweep :: "time \<Rightarrow> inode_cache \<Rightarrow> inode_cache" where
  "ForceSweep now c = sweep now c"

definition StartSweep :: "inode_cache \<Rightarrow> inode_cache" where
  "StartSweep c = (if sweeping c then c else c\<lparr>sweeping := True\<rparr>)"

section \<open>Invalidation and statistics\<close>

definition Invalidate :: "time \<Rightarrow> ident \<Rightarrow> inode_cache \<Rightarrow> inode_cache" where
  "Invalidate now parentID c =
     (case Get c parentID of
        None \<Rightarrow> c
      | Some p \<Rightarrow>
          let c = (if IsChildrenFetched p then c\<lparr>cachedFolders := cachedFolders c - 1\<rparr> else c)
          in markDirty parentID (mutate parentID (SetChildren now None) c))"

definition InvalidateAll :: "time \<Rightarrow> inode_cache \<Rightarrow> inode_cache" where
  "InvalidateAll now c =
     fold (\<lambda>(k, i) c.
       if HasChildren i
       then let c = mutate k (SetChildren now None) c;
                c = c\<lparr>cachedFolders := cachedFolders c - 1\<rparr>
            in markDirty (ID i) c
       else c) (inodes c) c"

record inode_cache_stats =
  st_InodeCount :: nat
  st_Hits :: "64 word"
  st_Misses :: "64 word"
  st_Evictions :: "64 word"

definition Stats :: "inode_cache \<Rightarrow> inode_cache_stats" where
  "Stats c = \<lparr> st_InodeCount = length (inodes c), st_Hits = hits c, st_Misses = misses c,
               st_Evictions = evictions c \<rparr>"

section \<open>Tree edits\<close>

definition set_parent :: "ident \<Rightarrow> inode \<Rightarrow> inode" where
  "set_parent parentID i = i\<lparr>DriveItem := (DriveItem i)\<lparr>di_Parent := Some (parent_ref parentID)\<rparr>\<rparr>"

definition InsertChild :: "ident \<Rightarrow> inode option \<Rightarrow> inode_cache \<Rightarrow> inode_cache" where
  "InsertChild parentID io c =
     (case io of
        None \<Rightarrow> c
      | Some child \<Rightarrow>
          let c = Store (ID child) (set_parent parentID child) c;
              c = (case Get c parentID of
                     None \<Rightarrow> c
                   | Some _ \<Rightarrow> markDirty parentID
                       (mutate parentID (\<lambda>p. attachChild p (ID child) (IsDir child) False) c))
          in markDirty (ID child) c)"

definition RemoveChild :: "ident \<Rightarrow> ident \<Rightarrow> inode_cache \<Rightarrow> inode_cache" where
  "RemoveChild parentID childID c =
     (case Get c childID of
        None \<Rightarrow> c
      | Some i \<Rightarrow>
          let c = mutate parentID (\<lambda>p. detachChild p childID (IsDir i)) c;
              c = markDeleted childID (c\<lparr>inodes := AList.delete childID (inodes c)\<rparr>)
          in if parentID \<noteq> '''' then markDirty parentID c else c)"

fun replace_first :: "ident \<Rightarrow> ident \<Rightarrow> ident list \<Rightarrow> ident list" where
  "replace_first old new [] = []"
| "replace_first old new (i # is) = (if i = old then new # is else i # replace_first old new is)"

definition set_id :: "ident \<Rightarrow> inode \<Rightarrow> inode" where
  "set_id newID i = i\<lparr>DriveItem := (DriveItem i)\<lparr>di_ID := newID\<rparr>\<rparr>"

definition MoveID :: "ident \<Rightarrow> ident \<Rightarrow> inode_cache \<Rightarrow> inode_cache" where
  "MoveID oldID newID c =
     (case Get c oldID of
        None \<Rightarrow> c
      | Some i \<Rightarrow>
          let i = set_id newID i;
              c = Store newID i c;
              c = c\<lparr>inodes := AList.delete oldID (inodes c)\<rparr>;
              c = (if oldID \<noteq> newID then markDeleted oldID c else c);
              c = markDirty newID c;
              parentID = ParentID i
          in if parentID \<noteq> ''''
             then case Get c parentID of
                    None \<Rightarrow> c
                  | Some _ \<Rightarrow> markDirty parentID
                      (mutate parentID
                        (\<lambda>p. p\<lparr>children := map_option (replace_first oldID newID) (children p)\<rparr>) c)
             else c)"

definition MoveChild :: "time \<Rightarrow> ident \<Rightarrow> ident \<Rightarrow> ident \<Rightarrow> inode_cache \<Rightarrow> inode_cache" where
  "MoveChild now oldParentID newParentID childID c =
     (case Get c childID of
        None \<Rightarrow> c
      | Some child \<Rightarrow>
          let c = mutate oldParentID (\<lambda>p. detachChild p childID (IsDir child)) c;
              c = attach_seed now newParentID childID (IsDir child) c
          in markDirty childID c)"

section \<open>Modes and configuration\<close>

definition IsOffline :: "inode_cache \<Rightarrow> bool" where
  "IsOffline c = offline c"

definition SetOffline :: "bool \<Rightarrow> inode_cache \<Rightarrow> inode_cache" where
  "SetOffline v c = c\<lparr>offline := v\<rparr>"

definition SetBaseTTL :: "duration \<Rightarrow> inode_cache \<Rightarrow> inode_cache" where
  "SetBaseTTL ttl c = c\<lparr>baseTTL := ttl\<rparr>"

definition SetMaxEntries :: "int \<Rightarrow> inode_cache \<Rightarrow> inode_cache" where
  "SetMaxEntries n c = c\<lparr>maxEntries := n\<rparr>"

end
