(* ===== verification/Inode_Cache_Inv.thy ===== *)
theory Inode_Cache_Inv
  imports Inode_Cache
begin

text \<open>
  Well-formedness of the metadata cache and its preservation by every operation of
  \<open>Inode_Cache\<close>: keys are the identifiers of the inodes they hold, the ring has 60 buckets and each
  registration sits in the bucket of its expiry, the eviction slice is a heap, and the dirty and
  deleted sets are disjoint.  The last part states the contract of a children fetcher as a locale
  and the reachable states of the cache.
\<close>

section \<open>The eviction order\<close>

interpretation evict_heap: go_heap_order less_entry
  by unfold_locales (auto simp: less_entry_def split: if_splits)

section \<open>Primitive updates and the fields they touch\<close>

lemma Get_simps [simp]:
  "Get (Store k i c) k' = (if k' = k then Some i else Get c k')"
  "Get (mutate k f c) k' = (if k' = k then map_option f (Get c k) else Get c k')"
  "Get (markDirty j c) k = Get c k"
  "Get (markDeleted j c) k = Get c k"
  "Get (registerTTL n c) k = Get c k"
  "Get (updateEvictionEntry n now c) k = Get c k"
  "Get (c\<lparr>inodes := AList.delete j (inodes c)\<rparr>) k = (if k = j then None else Get c k)"
  "Get (c\<lparr>hits := h\<rparr>) k = Get c k"
  "Get (c\<lparr>misses := h\<rparr>) k = Get c k"
  "Get (c\<lparr>evictions := h\<rparr>) k = Get c k"
  "Get (c\<lparr>offline := b\<rparr>) k = Get c k"
  "Get (c\<lparr>cachedFolders := n'\<rparr>) k = Get c k"
  "Get (c\<lparr>lastSweep := now\<rparr>) k = Get c k"
  "Get (c\<lparr>ttlBuckets := bs\<rparr>) k = Get c k"
  "Get (c\<lparr>evictionHeap := hp\<rparr>) k = Get c k"
  by (auto simp: Get_def Store_def mutate_def markDirty_def markDeleted_def markExclusive_def
      registerTTL_def updateEvictionEntry_def Let_def alist_simps)

lemma frame_primitives [simp]:
  "baseTTL (Store k i c) = baseTTL c" "baseTTL (mutate k f c) = baseTTL c"
  "baseTTL (markDirty j c) = baseTTL c" "baseTTL (markDeleted j c) = baseTTL c"
  "baseTTL (registerTTL n c) = baseTTL c" "baseTTL (updateEvictionEntry n now c) = baseTTL c"
  "maxEntries (Store k i c) = maxEntries c" "maxEntries (mutate k f c) = maxEntries c"
  "maxEntries (markDirty j c) = maxEntries c" "maxEntries (markDeleted j c) = maxEntries c"
  "maxEntries (registerTTL n c) = maxEntries c" "maxEntries (updateEvictionEntry n now c) = maxEntries c"
  "cachedFolders (Store k i c) = cachedFolders c" "cachedFolders (mutate k f c) = cachedFolders c"
  "cachedFolders (markDirty j c) = cachedFolders c" "cachedFolders (markDeleted j c) = cachedFolders c"
  "cachedFolders (registerTTL n c) = cachedFolders c"
  "cachedFolders (updateEvictionEntry n now c) = cachedFolders c"
  "ttlBuckets (Store k i c) = ttlBuckets c" "ttlBuckets (mutate k f c) = ttlBuckets c"
  "ttlBuckets (markDirty j c) = ttlBuckets c" "ttlBuckets (markDeleted j c) = ttlBuckets c"
  "ttlBuckets (updateEvictionEntry n now c) = ttlBuckets c"
  "evictionHeap (Store k i c) = evictionHeap c" "evictionHeap (mutate k f c) = evictionHeap c"
  "evictionHeap (markDirty j c) = evictionHeap c" "evictionHeap (markDeleted j c) = evictionHeap c"
  "evictionHeap (registerTTL n c) = evictionHeap c"
  "evictionGeneration (Store k i c) = evictionGeneration c"
  "evictionGeneration (mutate k f c) = evictionGeneration c"
  "evictionGeneration (markDirty j c) = evictionGeneration c"
  "evictionGeneration (markDeleted j c) = evictionGeneration c"
  "evictionGeneration (registerTTL n c) = evictionGeneration c"
  "dirty (Store k i c) = dirty c" "dirty (mutate k f c) = dirty c"
  "dirty (registerTTL n c) = dirty c" "dirty (updateEvictionEntry n now c) = dirty c"
  "deleted (Store k i c) = deleted c" "deleted (mutate k f c) = deleted c"
  "deleted (registerTTL n c) = deleted c" "deleted (updateEvictionEntry n now c) = deleted c"
  "lastSweep (mutate k f c) = lastSweep c" "lastSweep (registerTTL n c) = lastSweep c"
  by (simp_all add: Store_def mutate_def markDirty_def markDeleted_def markExclusive_def
      registerTTL_def updateEvictionEntry_def Let_def)

lemma dirty_simps [simp]:
  "dirty (markDirty i c) = List.insert i (dirty c)"
  "deleted (markDirty i c) = removeAll i (deleted c)"
  "dirty (markDeleted i c) = removeAll i (dirty c)"
  "deleted (markDeleted i c) = List.insert i (deleted c)"
  by (simp_all add: markDirty_def markDeleted_def markExclusive_def)

lemma inodes_primitives [simp]:
  "inodes (markDirty i c) = inodes c" "inodes (markDeleted i c) = inodes c"
  "inodes (registerTTL n c) = inodes c" "inodes (updateEvictionEntry n now c) = inodes c"
  by (simp_all add: markDirty_def markDeleted_def markExclusive_def registerTTL_def
      updateEvictionEntry_def Let_def)

lemma containsID_iff [simp]: "containsID cs i \<longleftrightarrow> i \<in> set cs"
  by (induction cs) auto

lemma ID_edits [simp]:
  "ID (attachChild p i d s) = ID p" "ID (detachChild p i d) = ID p"
  "ID (set_parent q p) = ID p" "ID (set_id j p) = j" "ID (child_inode q item) = di_ID item"
  "ID (minimal_parent q) = q" "ID (p\<lparr>children := cs\<rparr>) = ID p"
  by (simp_all add: attachChild_def detachChild_def set_parent_def set_id_def child_inode_def
      minimal_parent_def inode_defs inode_of_item_def Let_def)

section \<open>The index of a bucket\<close>

lemma ttlBucketIndex_eq: "ttlBucketIndex t = nat (time_unix t mod 60)"
proof -
  have "x smod 60 = (if x mod 60 \<noteq> 0 \<and> x < 0 then x mod 60 - 60 else x mod 60)" for x :: int
    by (auto simp: signed_modulo_int_def signed_divide_int_def sgn_if minus_mult_div_eq_mod
        zmod_zminus1_eq_if)
  then show ?thesis
    unfolding ttlBucketIndex_def ttlBucketCount_def Let_def by auto
qed

lemma ttlBucketIndex_less: "ttlBucketIndex t < ttlBucketCount"
  by (simp add: ttlBucketIndex_eq ttlBucketCount_def nat_less_iff)

section \<open>Well-formedness\<close>

definition inodes_wf :: "inode_cache \<Rightarrow> bool" where
  "inodes_wf c \<longleftrightarrow> keys_distinct (inodes c) \<and> (\<forall>k i. Get c k = Some i \<longrightarrow> ID i = k)"

definition ring_wf :: "inode_cache \<Rightarrow> bool" where
  "ring_wf c \<longleftrightarrow> length (ttlBuckets c) = ttlBucketCount \<and>
     (\<forall>b < ttlBucketCount. \<forall>e \<in> set (ttlBuckets c ! b). ttlBucketIndex (te_expiry e) = b)"

definition heap_wf :: "inode_cache \<Rightarrow> bool" where
  "heap_wf c \<longleftrightarrow> is_heap less_entry (evictionHeap c)"

definition dirty_wf :: "inode_cache \<Rightarrow> bool" where
  "dirty_wf c \<longleftrightarrow> distinct (dirty c) \<and> distinct (deleted c) \<and> set (dirty c) \<inter> set (deleted c) = {}"

definition cache_wf :: "inode_cache \<Rightarrow> bool" where
  "cache_wf c \<longleftrightarrow> inodes_wf c \<and> ring_wf c \<and> heap_wf c \<and> dirty_wf c"

lemma cache_wf_new: "cache_wf NewInodeCache"
  by (simp add: cache_wf_def inodes_wf_def ring_wf_def heap_wf_def dirty_wf_def NewInodeCache_def
      Get_def evict_heap.is_heap_Nil)

text \<open>Updates that touch none of the well-formed parts.\<close>

lemma cache_wf_frame [simp]:
  "cache_wf (c\<lparr>hits := h\<rparr>) = cache_wf c" "cache_wf (c\<lparr>misses := h\<rparr>) = cache_wf c"
  "cache_wf (c\<lparr>evictions := h\<rparr>) = cache_wf c" "cache_wf (c\<lparr>offline := b\<rparr>) = cache_wf c"
  "cache_wf (c\<lparr>cachedFolders := n\<rparr>) = cache_wf c" "cache_wf (c\<lparr>lastSweep := t\<rparr>) = cache_wf c"
  "cache_wf (c\<lparr>baseTTL := d\<rparr>) = cache_wf c" "cache_wf (c\<lparr>maxEntries := m\<rparr>) = cache_wf c"
  "cache_wf (c\<lparr>sweeping := b\<rparr>) = cache_wf c"
  by (simp_all add: cache_wf_def inodes_wf_def ring_wf_def heap_wf_def dirty_wf_def Get_def)

lemma cache_wf_dirty [simp, keeps_wf]:
  "cache_wf c \<Longrightarrow> cache_wf (markDirty i c)" "cache_wf c \<Longrightarrow> cache_wf (markDeleted i c)"
  by (auto simp: cache_wf_def inodes_wf_def ring_wf_def heap_wf_def dirty_wf_def distinct_removeAll)

lemma cache_wf_Store [keeps_wf]:
  assumes "cache_wf c" "ID i = k"
  shows "cache_wf (Store k i c)"
proof -
  have "keys_distinct (inodes (Store k i c))"
    using assms(1) by (simp add: cache_wf_def inodes_wf_def Store_def)
  with assms show ?thesis
    by (auto simp: cache_wf_def inodes_wf_def ring_wf_def heap_wf_def dirty_wf_def)
qed

lemma cache_wf_mutate:
  assumes "cache_wf c" and "\<And>i. Get c k = Some i \<Longrightarrow> ID (f i) = k"
  shows "cache_wf (mutate k f c)"
proof -
  have "keys_distinct (inodes (mutate k f c))"
    using assms(1) by (simp add: cache_wf_def inodes_wf_def mutate_def)
  with assms show ?thesis
    by (auto simp: cache_wf_def inodes_wf_def ring_wf_def heap_wf_def dirty_wf_def)
qed

lemma cache_wf_delete [simp, keeps_wf]:
  "cache_wf c \<Longrightarrow> cache_wf (c\<lparr>inodes := AList.delete k (inodes c)\<rparr>)"
  by (auto simp: cache_wf_def inodes_wf_def ring_wf_def heap_wf_def dirty_wf_def)

lemma cache_wf_registerTTL [simp, keeps_wf]: "cache_wf c \<Longrightarrow> cache_wf (registerTTL i c)"
proof -
  assume wf: "cache_wf c"
  define b where "b = ttlBucketIndex (inode_expiry (baseTTL c) i)"
  have "b < ttlBucketCount" by (simp add: b_def ttlBucketIndex_less)
  with wf have "ring_wf (registerTTL i c)"
    by (auto simp: cache_wf_def ring_wf_def registerTTL_def Let_def nth_list_update
        simp flip: b_def)
  with wf show ?thesis
    by (simp add: cache_wf_def inodes_wf_def heap_wf_def dirty_wf_def)
qed

lemma cache_wf_updateEvictionEntry [simp, keeps_wf]:
  "cache_wf c \<Longrightarrow> cache_wf (updateEvictionEntry i now c)"
  by (simp add: cache_wf_def inodes_wf_def ring_wf_def dirty_wf_def)
     (auto simp: heap_wf_def updateEvictionEntry_def Let_def evict_heap.is_heap_Push)

section \<open>Every operation keeps the cache well-formed\<close>

lemma cache_wf_ID: "cache_wf c \<Longrightarrow> Get c k = Some i \<Longrightarrow> ID i = k"
  by (simp add: cache_wf_def inodes_wf_def)

lemma cache_wf_mutate_same:
  "cache_wf c \<Longrightarrow> (\<And>i. ID (f i) = ID i) \<Longrightarrow> cache_wf (mutate k f c)"
  by (rule cache_wf_mutate) (auto dest: cache_wf_ID)

lemma cache_wf_put:
  "cache_wf c \<Longrightarrow> Get c k = Some i \<Longrightarrow> ID j = ID i \<Longrightarrow> cache_wf (mutate k (\<lambda>_. j) c)"
  by (rule cache_wf_mutate) (auto dest: cache_wf_ID)

lemma cache_wf_register_folder [keeps_wf]: "cache_wf c \<Longrightarrow> cache_wf (register_folder now p c)"
  by (simp add: register_folder_def Let_def)

lemma cache_wf_attach_seed [keeps_wf]: "cache_wf c \<Longrightarrow> cache_wf (attach_seed now q i d c)"
  by (auto simp: attach_seed_def Let_def split: option.split intro!: keeps_wf elim!: cache_wf_put)

lemma cache_wf_Insert: "cache_wf c \<Longrightarrow> cache_wf (Insert now io c)"
  by (auto simp: Insert_def Let_def split: option.split intro!: keeps_wf)

lemma cache_wf_Delete: "cache_wf c \<Longrightarrow> cache_wf (Delete i c)"
  by (simp add: Delete_def Let_def cache_wf_mutate_same split: option.split)

lemma cache_wf_InsertChild: "cache_wf c \<Longrightarrow> cache_wf (InsertChild q io c)"
  by (auto simp: InsertChild_def Let_def split: option.split intro!: keeps_wf cache_wf_mutate_same)

lemma cache_wf_RemoveChild: "cache_wf c \<Longrightarrow> cache_wf (RemoveChild q i c)"
  by (simp add: RemoveChild_def Let_def cache_wf_mutate_same split: option.split)

lemma cache_wf_MoveChild: "cache_wf c \<Longrightarrow> cache_wf (MoveChild now p q i c)"
  by (auto simp: MoveChild_def Let_def split: option.split intro!: keeps_wf cache_wf_mutate_same)

lemma cache_wf_MoveID: "cache_wf c \<Longrightarrow> cache_wf (MoveID old new c)"
  by (auto simp: MoveID_def Let_def split: option.split intro!: keeps_wf cache_wf_mutate_same)

lemma cache_wf_Invalidate: "cache_wf c \<Longrightarrow> cache_wf (Invalidate now q c)"
  by (auto simp: Invalidate_def Let_def split: option.split intro!: keeps_wf cache_wf_mutate_same)

lemma cache_wf_InvalidateAll:
  assumes "cache_wf c" shows "cache_wf (InvalidateAll now c)"
  unfolding InvalidateAll_def
  by (rule fold_invariant_step [where P = cache_wf])
     (use assms in \<open>auto simp: Let_def intro!: keeps_wf cache_wf_mutate_same\<close>)

text \<open>What a visit of the TTL sweep does to one inode.\<close>

definition ttl_visit :: "time \<Rightarrow> duration \<Rightarrow> inode \<Rightarrow> inode" where
  "ttl_visit now base i =
     (if \<not> IsChildrenFetched i then i
      else let d = DecayChildrenAccess i in if now > inode_expiry base d then EvictChildren d else d)"

lemma ID_ttl_visit [simp]: "ID (ttl_visit now base i) = ID i"
  by (simp add: ttl_visit_def Let_def)

lemma cache_wf_FullScan:
  assumes "cache_wf c" shows "cache_wf (evictExpiredChildrenFullScan now c)"
  unfolding evictExpiredChildrenFullScan_def
  by (rule fold_invariant_step [where P = cache_wf])
     (use assms in \<open>auto simp: scan_inode_def Let_def split: option.split
        intro!: cache_wf_mutate_same elim!: cache_wf_put\<close>)

lemma cache_wf_processTTLEntry:
  "cache_wf (fst s) \<Longrightarrow> cache_wf (fst (processTTLEntry now e s))"
  by (cases s) (auto simp: processTTLEntry_def Let_def split: option.split
      intro!: cache_wf_registerTTL cache_wf_mutate_same elim!: cache_wf_put)

lemma set_clear_nth: "j < length xs \<Longrightarrow> set (xs[b := []] ! j) \<subseteq> set (xs ! j)"
  by (cases "b = j") auto

lemma cache_wf_clear_bucket: "cache_wf c \<Longrightarrow> cache_wf (c\<lparr>ttlBuckets := (ttlBuckets c)[b := []]\<rparr>)"
  using set_clear_nth [of _ "ttlBuckets c" b]
  by (fastforce simp: cache_wf_def inodes_wf_def ring_wf_def heap_wf_def dirty_wf_def)

lemma cache_wf_sweepBucket:
  assumes "cache_wf (fst s)" shows "cache_wf (fst (sweepBucket b now s))"
proof (cases s)
  case (Pair c p)
  with assms show ?thesis
    unfolding sweepBucket_def Let_def Pair
    by (auto intro!: fold_invariant_step [where P = "\<lambda>s. cache_wf (fst s)"] cache_wf_clear_bucket
        cache_wf_processTTLEntry)
qed

lemma cache_wf_sweep_range: "cache_wf (fst s) \<Longrightarrow> cache_wf (fst (sweep_range now t s))"
proof (induction now t s rule: sweep_range.induct)
  case (1 now t s)
  then show ?case
    by (subst sweep_range.simps) (simp add: cache_wf_sweepBucket)
qed

lemma cache_wf_sweepExpiredBuckets: "cache_wf c \<Longrightarrow> cache_wf (sweepExpiredBuckets now c)"
proof -
  assume wf: "cache_wf c"
  have "cache_wf (fst (fold (\<lambda>i. sweepBucket i now) [0..<ttlBucketCount] (c, [])))"
    by (rule fold_invariant_step [where P = "\<lambda>s. cache_wf (fst s)"])
       (use wf in \<open>auto intro: cache_wf_sweepBucket\<close>)
  moreover have "cache_wf (fst (sweep_range now t (c, [])))" for t
    using wf by (simp add: cache_wf_sweep_range)
  ultimately show ?thesis
    by (simp add: sweepExpiredBuckets_def Let_def split_beta)
qed

section \<open>Popping candidates\<close>

text \<open>
  An entry is live when its generation is current and its folder still has cached children.  Both
  pop loops drop entries until the least one is live; \<open>pop_settles\<close> names the state in which they
  then decide.
\<close>

definition live_entry :: "inode_cache \<Rightarrow> eviction_entry \<Rightarrow> bool" where
  "live_entry c e \<longleftrightarrow> ee_generation e = generation_of c (ee_id e) \<and>
     (\<exists>i. Get c (ee_id e) = Some i \<and> IsChildrenFetched i)"

lemma live_entry_heap [simp]: "live_entry (c\<lparr>evictionHeap := h\<rparr>) = live_entry c"
  by (simp add: live_entry_def generation_of_def fun_eq_iff)

definition drained :: "inode_cache \<Rightarrow> inode_cache \<Rightarrow> bool" where
  "drained c c' \<longleftrightarrow> (\<exists>h. c' = c\<lparr>evictionHeap := h\<rparr> \<and>
     (is_heap less_entry (evictionHeap c) \<longrightarrow> is_heap less_entry h \<and>
        filter_mset (live_entry c) (mset h) = filter_mset (live_entry c) (mset (evictionHeap c))))"

lemma drained_refl: "drained c c"
  unfolding drained_def by (rule exI [of _ "evictionHeap c"]) simp

lemma drained_drop:
  assumes pop: "heap_Pop less_entry (evictionHeap c) = Some (e, h)" and dead: "\<not> live_entry c e"
    and rest: "drained (c\<lparr>evictionHeap := h\<rparr>) c'"
  shows "drained c c'"
proof -
  obtain g where g: "c' = c\<lparr>evictionHeap := g\<rparr>"
    "is_heap less_entry h \<longrightarrow> is_heap less_entry g \<and>
       filter_mset (live_entry c) (mset g) = filter_mset (live_entry c) (mset h)"
    using rest unfolding drained_def live_entry_heap by auto
  have "is_heap less_entry h" "mset (evictionHeap c) = add_mset e (mset h)"
    if "is_heap less_entry (evictionHeap c)"
    using evict_heap.Pop_props [OF that pop] by auto
  with g dead show ?thesis unfolding drained_def by (intro exI [of _ g]) auto
qed

lemma popEvictableCandidate_unfold:
  "popEvictableCandidate now c =
     (case heap_Pop less_entry (evictionHeap c) of
        None \<Rightarrow> (None, c)
      | Some (e, h) \<Rightarrow>
          if \<not> live_entry c e then popEvictableCandidate now (c\<lparr>evictionHeap := h\<rparr>)
          else if \<not> sizeEvictable (Get c (ee_id e)) now
          then (None, c\<lparr>evictionHeap := heap_Push less_entry e h\<rparr>)
          else (Some (ee_id e, ee_score e), c\<lparr>evictionHeap := h\<rparr>))"
  by (subst popEvictableCandidate.simps)
     (auto simp: live_entry_def Let_def split: option.split prod.split)

lemma popEvictionCandidate_unfold:
  "popEvictionCandidate c =
     (case heap_Pop less_entry (evictionHeap c) of
        None \<Rightarrow> (None, c)
      | Some (e, h) \<Rightarrow>
          if \<not> live_entry c e then popEvictionCandidate (c\<lparr>evictionHeap := h\<rparr>)
          else (Some (ee_id e), c\<lparr>evictionHeap := h\<rparr>))"
  by (subst popEvictionCandidate.simps)
     (auto simp: live_entry_def Let_def split: option.split prod.split)

text \<open>The state in which a pop loop decides: nothing is left, or the least entry is live.\<close>

definition settled :: "inode_cache \<Rightarrow> inode_cache \<Rightarrow> bool" where
  "settled c c0 \<longleftrightarrow> drained c c0 \<and>
     (case heap_Pop less_entry (evictionHeap c0) of None \<Rightarrow> True | Some (e, h) \<Rightarrow> live_entry c0 e)"

lemma pop_settles:
  "\<exists>c0. settled c c0 \<and> popEvictableCandidate now c = popEvictableCandidate now c0
      \<and> popEvictionCandidate c = popEvictionCandidate c0"
proof (induction "length (evictionHeap c)" arbitrary: c rule: less_induct)
  case less
  show ?case
  proof (cases "case heap_Pop less_entry (evictionHeap c) of None \<Rightarrow> True | Some (e, h) \<Rightarrow> live_entry c e")
    case True
    then have "settled c c" by (auto simp: settled_def drained_refl)
    then show ?thesis by blast
  next
    case False
    then obtain e h where pop: "heap_Pop less_entry (evictionHeap c) = Some (e, h)" and dead: "\<not> live_entry c e"
      by (auto split: option.splits)
    let ?c = "c\<lparr>evictionHeap := h\<rparr>"
    obtain c0 where c0: "settled ?c c0" "popEvictableCandidate now ?c = popEvictableCandidate now c0"
      "popEvictionCandidate ?c = popEvictionCandidate c0"
      using less.hyps [of ?c] length_heap_Pop [OF pop] by auto
    have "popEvictableCandidate now c = popEvictableCandidate now ?c"
      "popEvictionCandidate c = popEvictionCandidate ?c"
      using pop dead by (simp_all add: popEvictableCandidate_unfold [of now c] popEvictionCandidate_unfold [of c])
    moreover have "settled c c0"
      using c0(1) drained_drop [OF pop dead] by (simp add: settled_def)
    ultimately show ?thesis using c0 by auto
  qed
qed

lemma cache_wf_drained: "cache_wf c \<Longrightarrow> drained c c' \<Longrightarrow> cache_wf c'"
  by (auto simp: drained_def cache_wf_def inodes_wf_def ring_wf_def heap_wf_def dirty_wf_def)

lemma cache_wf_popped_heap:
  assumes wf: "cache_wf c" and pop: "heap_Pop less_entry (evictionHeap c) = Some (e, h)"
  shows "cache_wf (c\<lparr>evictionHeap := h\<rparr>)" "cache_wf (c\<lparr>evictionHeap := heap_Push less_entry e h\<rparr>)"
proof -
  have "is_heap less_entry h"
    using evict_heap.Pop_props(1) [OF _ pop] wf by (simp add: cache_wf_def heap_wf_def)
  with wf show "cache_wf (c\<lparr>evictionHeap := h\<rparr>)" "cache_wf (c\<lparr>evictionHeap := heap_Push less_entry e h\<rparr>)"
    by (simp_all add: cache_wf_def inodes_wf_def ring_wf_def heap_wf_def dirty_wf_def
        evict_heap.is_heap_Push)
qed

lemma cache_wf_pop:
  assumes "cache_wf c"
  shows "cache_wf (snd (popEvictableCandidate now c))" "cache_wf (snd (popEvictionCandidate c))"
proof -
  obtain c0 where c0: "settled c c0" "popEvictableCandidate now c = popEvictableCandidate now c0"
    "popEvictionCandidate c = popEvictionCandidate c0"
    using pop_settles by blast
  then have wf: "cache_wf c0" using assms cache_wf_drained by (auto simp: settled_def)
  have "cache_wf (snd (popEvictableCandidate now c0)) \<and> cache_wf (snd (popEvictionCandidate c0))"
  proof (cases "heap_Pop less_entry (evictionHeap c0)")
    case None
    with wf show ?thesis
      by (simp add: popEvictableCandidate_unfold [of now c0] popEvictionCandidate_unfold [of c0])
  next
    case (Some p)
    obtain e h where p: "p = (e, h)" by fastforce
    with Some c0(1) have "live_entry c0 e" by (simp add: settled_def)
    with Some p wf cache_wf_popped_heap [OF wf] show ?thesis
      by (simp add: popEvictableCandidate_unfold [of now c0] popEvictionCandidate_unfold [of c0])
  qed
  with c0 show "cache_wf (snd (popEvictableCandidate now c))" "cache_wf (snd (popEvictionCandidate c))"
    by simp_all
qed

lemma cache_wf_evict_loop: "cache_wf c \<Longrightarrow> cache_wf (evict_loop n now c)"
proof (induction n arbitrary: c)
  case (Suc n)
  obtain r c' where pop: "popEvictableCandidate now c = (r, c')" by fastforce
  then have "cache_wf c'" using cache_wf_pop(1) [OF Suc.prems, of now] by simp
  with pop Suc.IH show ?case
    by (auto simp: Let_def split: option.split intro!: Suc.IH cache_wf_mutate_same)
qed simp

lemma cache_wf_evictChildrenBySizeLimit: "cache_wf c \<Longrightarrow> cache_wf (evictChildrenBySizeLimit now c)"
  by (simp add: evictChildrenBySizeLimit_def cache_wf_evict_loop)

lemma cache_wf_sweep: "cache_wf c \<Longrightarrow> cache_wf (sweep now c)"
  by (simp add: sweep_def cache_wf_evictChildrenBySizeLimit cache_wf_sweepExpiredBuckets)

section \<open>Fetching children\<close>

text \<open>
  The contract of a children fetcher, the interface between the cache and the file system layer:
  it may read the cache, and the only thing it changes there is the offline flag.
\<close>

locale children_fetcher =
  fixes fetch :: fetcher
  assumes only_offline: "\<exists>b. fst (fetch c i) = c\<lparr>offline := b\<rparr>"

lemma cache_wf_store_items:
  "cache_wf (fst s) \<Longrightarrow> cache_wf (fst (store_items q mark items s))"
proof (induction items arbitrary: s)
  case (Cons item items)
  obtain c ids m where s: "s = (c, ids, m)" by (cases s)
  define c' where "c' = (if mark then markDirty (ID (child_inode q item)) (Store (ID (child_inode q item)) (child_inode q item) c)
                         else Store (ID (child_inode q item)) (child_inode q item) c)"
  have "cache_wf c'" using Cons.prems by (auto simp: c'_def s intro!: keeps_wf)
  then have "cache_wf (fst (store_items q mark items (c', x)))" for x by (simp add: Cons.IH)
  then show ?case by (simp only: s store_items.simps Let_def c'_def [symmetric])
qed simp

lemma cache_wf_update_parent:
  assumes wf: "cache_wf c" and known: "\<And>p. known = Some p \<Longrightarrow> ID p = q"
  shows "cache_wf (update_parent now q known ids mark m c)"
proof -
  have put: "cache_wf (mutate q (\<lambda>_. j) c')" if "cache_wf c'" "ID j = q" for j c'
    using that by (auto intro: cache_wf_mutate)
  show ?thesis
    unfolding update_parent_def Let_def
    by (auto split: option.split dest: known intro!: put keeps_wf wf)
qed

lemma cache_wf_children_hit:
  "cache_wf c \<Longrightarrow> Get c q = Some p \<Longrightarrow> cache_wf (fst (children_hit now q p c))"
  by (auto simp: children_hit_def Let_def intro!: keeps_wf cache_wf_put)

lemma cache_wf_children_miss:
  assumes wf: "cache_wf c" and known: "\<And>p. known = Some p \<Longrightarrow> ID p = q"
    and fetch: "\<And>f. fetch = Some f \<Longrightarrow> children_fetcher f"
  shows "cache_wf (fst (children_miss now q known fetch mark c))"
proof (cases fetch)
  case None
  with wf show ?thesis by (simp add: children_miss_def Let_def)
next
  case (Some f)
  let ?c = "c\<lparr>misses := misses c + 1\<rparr>"
  obtain c1 r where f: "f ?c q = (c1, r)" by fastforce
  have wf1: "cache_wf c1"
    using children_fetcher.only_offline [OF fetch [OF Some], of ?c q] wf f by auto
  show ?thesis
  proof (cases r)
    case (Inl e)
    with Some f wf1 show ?thesis by (simp add: children_miss_def Let_def)
  next
    case (Inr items)
    obtain c2 ids m where st: "store_items q mark items (c1, [], []) = (c2, ids, m)"
      by (cases "store_items q mark items (c1, [], [])")
    have "cache_wf c2" using cache_wf_store_items [of "(c1, [], [])" q mark items] wf1 st by simp
    with Some f Inr st known show ?thesis
      by (simp add: children_miss_def Let_def cache_wf_update_parent)
  qed
qed

lemma cache_wf_getChildren:
  assumes "cache_wf c" and "\<And>f. fetch = Some f \<Longrightarrow> children_fetcher f"
  shows "cache_wf (fst (getChildren now q fetch mark c))"
  using assms unfolding getChildren_def
  by (auto split: option.split intro!: cache_wf_children_hit cache_wf_children_miss dest: cache_wf_ID)

lemma cache_wf_GetChild:
  assumes "cache_wf c" and "\<And>f. fetch = Some f \<Longrightarrow> children_fetcher f"
  shows "cache_wf (fst (GetChild now q name fetch c))"
proof -
  obtain c' r where r: "GetChildren now q fetch c = (c', r)" by fastforce
  have "cache_wf c'" using cache_wf_getChildren [OF assms, of fetch now q True] r by (simp add: GetChildren_def)
  with r show ?thesis by (simp add: GetChild_def split: sum.split)
qed

lemma cache_wf_walk_path:
  assumes "\<And>f. fetch = Some f \<Longrightarrow> children_fetcher f"
  shows "cache_wf c \<Longrightarrow> cache_wf (fst (walk_path now fetch cur names c))"
proof (induction names arbitrary: cur c)
  case (Cons name rest)
  obtain c' r where r: "GetChildren now cur fetch c = (c', r)" by fastforce
  have "cache_wf c'" using cache_wf_getChildren [OF Cons.prems assms, of fetch now cur True] r by (simp add: GetChildren_def)
  with r Cons show ?case by (auto split: sum.split option.split)
qed simp

context children_fetcher
begin

lemma is_fetcher: "Some fetch = Some f \<Longrightarrow> children_fetcher f"
  using children_fetcher_axioms by simp

lemma wf_getChildren: "cache_wf c \<Longrightarrow> cache_wf (fst (getChildren now q (Some fetch) mark c))"
  by (rule cache_wf_getChildren) (auto intro: children_fetcher_axioms)

lemma wf_GetPath: "cache_wf c \<Longrightarrow> cache_wf (fst (GetPath now path (Some fetch) c))"
  unfolding GetPath_def Let_def by (auto intro!: cache_wf_walk_path intro: children_fetcher_axioms)

end

section \<open>Reachable caches\<close>

text \<open>The operations other components call, interleaved in any order and at any times.\<close>

inductive cache_step :: "inode_cache \<Rightarrow> inode_cache \<Rightarrow> bool" where
  insert: "cache_step c (Insert now io c)"
| delete: "cache_step c (Delete i c)"
| fetch: "children_fetcher f \<Longrightarrow> cache_step c (fst (getChildren now q (Some f) mark c))"
| lookup: "cache_step c (fst (getChildren now q None mark c))"
| insert_child: "cache_step c (InsertChild q io c)"
| remove_child: "cache_step c (RemoveChild q i c)"
| move_id: "cache_step c (MoveID old new c)"
| move_child: "cache_step c (MoveChild now p q i c)"
| invalidate: "cache_step c (Invalidate now q c)"
| invalidate_all: "cache_step c (InvalidateAll now c)"
| sweep: "cache_step c (sweep now c)"
| set_offline: "cache_step c (SetOffline b c)"
| configure: "cache_step c (SetBaseTTL ttl (SetMaxEntries n c))"

inductive cache_reachable :: "inode_cache \<Rightarrow> bool" where
  start: "cache_reachable NewInodeCache"
| step: "cache_reachable c \<Longrightarrow> cache_step c c' \<Longrightarrow> cache_reachable c'"

lemma cache_step_wf: "cache_step c c' \<Longrightarrow> cache_wf c \<Longrightarrow> cache_wf c'"
  by (induction rule: cache_step.induct)
     (auto simp: SetOffline_def SetBaseTTL_def SetMaxEntries_def
        intro: cache_wf_Insert cache_wf_Delete cache_wf_getChildren cache_wf_InsertChild
          cache_wf_RemoveChild cache_wf_MoveID cache_wf_MoveChild cache_wf_Invalidate
          cache_wf_InvalidateAll cache_wf_sweep)

lemma cache_reachable_wf: "cache_reachable c \<Longrightarrow> cache_wf c"
  by (induction rule: cache_reachable.induct) (auto intro: cache_wf_new cache_step_wf)

end
