(* ===== verification/Inode_Cache_Sweep.thy ===== *)
theory Inode_Cache_Sweep
  imports Inode_Cache_Inv
begin

text \<open>
  Behaviour of the eviction machinery of the metadata cache: effective TTL, the bucket sweep against
  the full scan it replaced, registrations in the ring, ticks that come early, and the size limit.
\<close>

section \<open>Effective TTL\<close>

lemma f64_nat_half:
  assumes "m < 2 ^ 53"
  shows "f64 (of_nat m) = of_nat m" "f64 (of_nat m / 2) = of_nat m / 2"
proof -
  have m: "int m < 2 ^ 53" using assms by (metis of_nat_less_iff of_nat_numeral of_nat_power)
  then show "f64 (of_nat m) = of_nat m" "f64 (of_nat m / 2) = of_nat m / 2"
    using f64_of_int [of "int m"] f64_exact [of "of_nat m / 2" "int m" 1] by simp_all
qed

lemma multiplier_eq:
  "(let m = f64 (1 + f64 (f64 (of_nat n) * freqGrowthRate))
    in if m > freqMultiplierMax then freqMultiplierMax else m) = of_nat (min (n + 2) 40) / 2"
proof (cases "n < 2 ^ 52")
  case True
  have half: "f64 (f64 (of_nat n) * freqGrowthRate) = of_nat n / 2"
    using True by (simp add: f64_nat_half freqGrowthRate_def)
  have "1 + of_nat n / 2 = (of_nat (n + 2) / 2 :: rat)" by (simp add: field_simps)
  moreover have "f64 (of_nat (n + 2) / 2) = of_nat (n + 2) / 2"
    using True by (intro f64_nat_half) simp
  ultimately have m: "f64 (1 + f64 (f64 (of_nat n) * freqGrowthRate)) = of_nat (n + 2) / 2"
    by (simp only: half)
  have "(of_nat (n + 2) / 2 :: rat) > 20 \<longleftrightarrow> (of_nat (n + 2) :: rat) > of_nat 40" by auto
  then have "(of_nat (n + 2) / 2 :: rat) > 20 \<longleftrightarrow> n + 2 > 40" by (simp only: of_nat_less_iff)
  then show ?thesis unfolding m Let_def freqMultiplierMax_def by (auto simp: min_def)
next
  case False
  then have n: "(2 ^ 52 :: rat) \<le> of_nat n" by (metis not_less of_nat_le_iff of_nat_numeral of_nat_power)
  then have "of_nat n / 2 \<le> f64 (of_nat n)" by (intro f64_ge_half) simp
  then have "2 ^ 50 \<le> f64 (of_nat n) * freqGrowthRate" using n by (simp add: freqGrowthRate_def)
  then have "2 ^ 49 \<le> f64 (f64 (of_nat n) * freqGrowthRate)"
    using f64_ge_half [of "f64 (of_nat n) * freqGrowthRate"] by simp
  then have "20 < f64 (1 + f64 (f64 (of_nat n) * freqGrowthRate))"
    using f64_ge_half [of "1 + f64 (f64 (of_nat n) * freqGrowthRate)"] by simp
  with False show ?thesis by (simp add: Let_def freqMultiplierMax_def min_def)
qed

lemma effectiveTTL_eq:
  assumes "0 \<le> base" "base * 40 < 2 ^ 53"
  shows "effectiveTTL base n = base * int (min (unat n + 2) 40) div 2"
proof -
  define k where "k = min (unat n + 2) 40"
  have base: "f64 (of_int base) = of_int base" using assms by (intro f64_of_int) simp
  have "base * int k \<le> base * 40" using assms by (intro mult_left_mono) (auto simp: k_def)
  then have lt: "\<bar>base * int k\<bar> < 2 ^ 53" using assms by simp
  have prod: "(of_int base * (of_nat k / 2) :: rat) = of_int (base * int k) / 2" by simp
  have "f64 (of_int (base * int k) / 2) = of_int (base * int k) / 2"
    using f64_exact [of "of_int (base * int k) / 2" "base * int k" 1] lt by simp
  then have "effectiveTTL base n = f64_to_int (of_int (base * int k) / 2)"
    unfolding effectiveTTL_def using multiplier_eq [of "unat n"]
    by (simp only: Let_def base prod k_def [symmetric])
  also have "\<dots> = base * int k div 2"
    using assms floor_divide_of_int_eq [of "base * int k" 2, where 'a = rat] by (simp add: f64_to_int_def)
  finally show ?thesis by (simp add: k_def)
qed

lemma effectiveTTL_bounds:
  assumes "0 \<le> base" "base * 40 < 2 ^ 53"
  shows "base \<le> effectiveTTL base n" "effectiveTTL base n \<le> 20 * base"
    "m \<le> n \<Longrightarrow> effectiveTTL base m \<le> effectiveTTL base n"
proof -
  have mono: "base * int a div 2 \<le> base * int b div 2" if "a \<le> b" for a b :: nat
    using assms(1) that by (intro zdiv_mono1 mult_left_mono) auto
  show "base \<le> effectiveTTL base n"
    using mono [of 2 "min (unat n + 2) 40"] by (simp add: effectiveTTL_eq [OF assms])
  show "effectiveTTL base n \<le> 20 * base"
    using mono [of "min (unat n + 2) 40" 40] by (simp add: effectiveTTL_eq [OF assms])
  show "effectiveTTL base m \<le> effectiveTTL base n" if "m \<le> n"
    unfolding effectiveTTL_eq [OF assms] using that by (intro mono) (auto simp: word_le_nat_alt)
qed

section \<open>Bucket sweep and full scan\<close>

lemma processTTLEntry_cases:
  "processTTLEntry now e (c, P) =
     (case Get c (te_inodeID e) of
        None \<Rightarrow> (c, P)
      | Some i \<Rightarrow>
          if \<not> IsChildrenFetched i \<or> te_inodeID e \<in> set P then (c, P)
          else let k = te_inodeID e; d = DecayChildrenAccess i; c' = mutate k (\<lambda>_. d) c in
            (if now > inode_expiry (baseTTL c) d
             then (mutate k EvictChildren c')\<lparr>evictions := evictions c' + 1,
                     cachedFolders := cachedFolders c' - 1\<rparr>
             else registerTTL d c', k # P))"
  by (auto simp: processTTLEntry_def Let_def mutate_def split: option.split)

lemma ttl_visit_unfetched [simp]: "\<not> IsChildrenFetched i \<Longrightarrow> ttl_visit now base i = i"
  by (simp add: ttl_visit_def)

lemma baseTTL_process [simp]: "baseTTL (fst (processTTLEntry now e s)) = baseTTL (fst s)"
  by (cases s) (auto simp: processTTLEntry_cases Let_def split: option.split)

lemma Get_processTTLEntry:
  "Get (fst (processTTLEntry now e (c, P))) k =
     (if k = te_inodeID e \<and> k \<notin> set P then map_option (ttl_visit now (baseTTL c)) (Get c k) else Get c k)"
  by (auto simp: processTTLEntry_cases ttl_visit_def Let_def split: option.split)

lemma processed_processTTLEntry:
  "set (snd (processTTLEntry now e (c, P))) =
     (if \<exists>i. Get c (te_inodeID e) = Some i \<and> IsChildrenFetched i
      then insert (te_inodeID e) (set P) else set P)"
  by (auto simp: processTTLEntry_cases Let_def split: option.split)

lemma Get_process_entries:
  "Get (fst (fold (processTTLEntry now) es (c, P))) k =
     (if k \<in> te_inodeID ` set es \<and> k \<notin> set P then map_option (ttl_visit now (baseTTL c)) (Get c k) else Get c k)"
proof (induction es arbitrary: c P)
  case (Cons e es)
  obtain c1 P1 where s: "processTTLEntry now e (c, P) = (c1, P1)" by fastforce
  have g: "Get c1 k = (if k = te_inodeID e \<and> k \<notin> set P
             then map_option (ttl_visit now (baseTTL c)) (Get c k) else Get c k)"
    and p: "set P1 = (if \<exists>i. Get c (te_inodeID e) = Some i \<and> IsChildrenFetched i
             then insert (te_inodeID e) (set P) else set P)"
    and b: "baseTTL c1 = baseTTL c"
    using Get_processTTLEntry [of now e c P k] processed_processTTLEntry [of now e c P]
      baseTTL_process [of now e "(c, P)"] by (simp_all add: s)
  show ?case
    by (simp only: fold.simps o_apply s Cons.IH b p g) (cases "Get c k"; auto)
qed simp

definition registered_in :: "inode_cache \<Rightarrow> nat \<Rightarrow> ident \<Rightarrow> bool" where
  "registered_in c b k \<longleftrightarrow> k \<in> te_inodeID ` set (ttlBuckets c ! b)"

lemma Get_sweepBucket:
  "Get (fst (sweepBucket b now (c, P))) k =
     (if registered_in c b k \<and> k \<notin> set P then map_option (ttl_visit now (baseTTL c)) (Get c k) else Get c k)"
  by (simp add: sweepBucket_def Let_def Get_process_entries registered_in_def)

lemma ttl_visit_fetched:
  "IsChildrenFetched i \<Longrightarrow> ttl_visit now base i =
     (let d = DecayChildrenAccess i in if now > inode_expiry base d then EvictChildren d else d)"
  by (simp add: ttl_visit_def)

lemma scan_inode_simps:
  "Get (scan_inode now j c) k = (if k = j then map_option (ttl_visit now (baseTTL c)) (Get c k) else Get c k)"
  "baseTTL (scan_inode now j c) = baseTTL c"
  by (auto simp: scan_inode_def ttl_visit_fetched Let_def split: option.split)

lemma Get_scan_fold:
  "distinct ks \<Longrightarrow> Get (fold (scan_inode now) ks c) k =
     (if k \<in> set ks then map_option (ttl_visit now (baseTTL c)) (Get c k) else Get c k)"
  by (induction ks arbitrary: c) (auto simp: scan_inode_simps)

lemma Get_FullScan:
  assumes "inodes_wf c"
  shows "Get (evictExpiredChildrenFullScan now c) k = map_option (ttl_visit now (baseTTL c)) (Get c k)"
proof -
  have "distinct (map fst (inodes c))" using assms by (simp add: inodes_wf_def keys_distinct_def)
  moreover have "Get c k = None" if "k \<notin> set (map fst (inodes c))"
    using that by (simp add: Get_def map_of_eq_None_iff)
  ultimately show ?thesis
    unfolding evictExpiredChildrenFullScan_def by (subst Get_scan_fold) (auto simp del: set_map)
qed

section \<open>Registrations in the ring\<close>

text \<open>Every folder with cached children has an entry somewhere in the ring.\<close>

definition in_ring :: "inode_cache \<Rightarrow> ident \<Rightarrow> bool" where
  "in_ring c k \<longleftrightarrow> (\<exists>b < length (ttlBuckets c). registered_in c b k)"

definition fetched_at :: "inode_cache \<Rightarrow> ident \<Rightarrow> bool" where
  "fetched_at c k \<longleftrightarrow> (\<exists>i. Get c k = Some i \<and> IsChildrenFetched i)"

definition ring_covers :: "inode_cache \<Rightarrow> bool" where
  "ring_covers c \<longleftrightarrow> (\<forall>k. fetched_at c k \<longrightarrow> in_ring c k)"

lemma registerTTL_in_ring:
  assumes "length (ttlBuckets c) = ttlBucketCount"
  shows "in_ring c k \<Longrightarrow> in_ring (registerTTL i c) k"
    and "IsChildrenFetched i \<Longrightarrow> registered_in (registerTTL i c) (ttlBucketIndex (inode_expiry (baseTTL c) i)) (ID i)"
    and "IsChildrenFetched i \<Longrightarrow> in_ring (registerTTL i c) (ID i)"
proof -
  define b where "b = ttlBucketIndex (inode_expiry (baseTTL c) i)"
  have b: "b < length (ttlBuckets c)" using assms by (simp add: b_def ttlBucketIndex_less)
  show "in_ring c k \<Longrightarrow> in_ring (registerTTL i c) k"
    using b by (auto simp: in_ring_def registered_in_def registerTTL_def Let_def nth_list_update
        simp flip: b_def)
  show r: "IsChildrenFetched i \<Longrightarrow> registered_in (registerTTL i c) (ttlBucketIndex (inode_expiry (baseTTL c) i)) (ID i)"
    using b by (auto simp: registered_in_def registerTTL_def Let_def simp flip: b_def)
  have "length (ttlBuckets (registerTTL i c)) = length (ttlBuckets c)"
    by (simp add: registerTTL_def Let_def)
  with r b show "IsChildrenFetched i \<Longrightarrow> in_ring (registerTTL i c) (ID i)"
    unfolding in_ring_def b_def [symmetric] by auto
qed

text \<open>The state inside a pass over one bucket: a folder is covered, or still to be visited.\<close>

definition covers_but :: "ident set \<Rightarrow> inode_cache \<Rightarrow> bool" where
  "covers_but pending c \<longleftrightarrow> (\<forall>k. fetched_at c k \<longrightarrow> in_ring c k \<or> k \<in> pending)"

lemma in_ring_frame [simp]:
  "in_ring (mutate j f c) k = in_ring c k" "in_ring (c\<lparr>evictions := n\<rparr>) k = in_ring c k"
  "in_ring (c\<lparr>cachedFolders := m\<rparr>) k = in_ring c k"
  by (simp_all add: in_ring_def registered_in_def)

lemma process_covers:
  assumes wf: "cache_wf c" and cov: "covers_but (insert (te_inodeID e) S) c"
    and P: "\<forall>k \<in> set P. fetched_at c k \<longrightarrow> in_ring c k"
  shows "covers_but S (fst (processTTLEntry now e (c, P)))"
    "\<forall>k \<in> set (snd (processTTLEntry now e (c, P))).
       fetched_at (fst (processTTLEntry now e (c, P))) k \<longrightarrow> in_ring (fst (processTTLEntry now e (c, P))) k"
proof -
  define k0 where "k0 = te_inodeID e"
  obtain c1 P1 where s: "processTTLEntry now e (c, P) = (c1, P1)" by fastforce
  have keep: "in_ring c1 k" if "in_ring c k" for k
    using that s wf by (auto simp: processTTLEntry_cases Let_def registerTTL_in_ring cache_wf_def ring_wf_def
        split: option.splits if_splits)
  have visited: "fetched_at c1 k0 \<longrightarrow> in_ring c1 k0"
  proof (cases "Get c k0")
    case None
    then show ?thesis using s by (auto simp: processTTLEntry_cases fetched_at_def k0_def)
  next
    case (Some i)
    then have "ID i = k0" using cache_wf_ID [OF wf] by simp
    then show ?thesis
      using Some s P wf registerTTL_in_ring(3) [of "mutate k0 (\<lambda>_. DecayChildrenAccess i) c" "DecayChildrenAccess i"]
      by (auto simp: processTTLEntry_cases fetched_at_def Let_def cache_wf_def ring_wf_def
          simp flip: k0_def split: if_splits)
  qed
  have same: "fetched_at c1 k = fetched_at c k" if "k \<noteq> k0" for k
    using Get_processTTLEntry [of now e c P k] that by (simp add: s fetched_at_def k0_def)
  show "covers_but S (fst (processTTLEntry now e (c, P)))"
    unfolding covers_but_def s fst_conv
    using cov visited same keep unfolding covers_but_def k0_def by (metis insertE)
  have "set P1 \<subseteq> insert k0 (set P)"
    using processed_processTTLEntry [of now e c P] by (auto simp: s k0_def split: if_splits)
  moreover have "fetched_at c1 k \<longrightarrow> in_ring c1 k" if "k \<in> insert k0 (set P)" for k
    using that P visited same [of k] keep [of k] by (cases "k = k0") auto
  ultimately show "\<forall>k \<in> set (snd (processTTLEntry now e (c, P))).
       fetched_at (fst (processTTLEntry now e (c, P))) k \<longrightarrow> in_ring (fst (processTTLEntry now e (c, P))) k"
    unfolding s by auto
qed

lemma process_entries_cover:
  assumes "cache_wf c" "covers_but (te_inodeID ` set es) c" "\<forall>k \<in> set P. fetched_at c k \<longrightarrow> in_ring c k"
  shows "ring_covers (fst (fold (processTTLEntry now) es (c, P)))"
  using assms
proof (induction es arbitrary: c P)
  case Nil
  then show ?case by (simp add: covers_but_def ring_covers_def)
next
  case (Cons e es)
  obtain c1 P1 where s: "processTTLEntry now e (c, P) = (c1, P1)" by fastforce
  have "cache_wf c1" using cache_wf_processTTLEntry [of "(c, P)" now e] Cons.prems(1) by (simp add: s)
  moreover have "covers_but (te_inodeID ` set es) c1" "\<forall>k \<in> set P1. fetched_at c1 k \<longrightarrow> in_ring c1 k"
    using process_covers [of c e "te_inodeID ` set es" P now] Cons.prems by (simp_all add: s)
  ultimately show ?case by (simp add: s Cons.IH)
qed

lemma sweepBucket_covers:
  assumes "cache_wf c" "ring_covers c"
  shows "ring_covers (fst (sweepBucket b now (c, [])))"
proof -
  let ?c = "c\<lparr>ttlBuckets := (ttlBuckets c)[b := []]\<rparr>"
  have "in_ring ?c k" if k: "in_ring c k" "k \<notin> te_inodeID ` set (ttlBuckets c ! b)" for k
  proof -
    from k(1) obtain b' where "b' < length (ttlBuckets c)" "registered_in c b' k" by (auto simp: in_ring_def)
    with k(2) show ?thesis
      by (cases "b' = b") (auto simp: in_ring_def registered_in_def intro!: exI [of _ b'])
  qed
  then have "covers_but (te_inodeID ` set (ttlBuckets c ! b)) ?c"
    using assms(2) by (auto simp: covers_but_def ring_covers_def fetched_at_def)
  with assms(1) show ?thesis
    by (simp add: sweepBucket_def Let_def process_entries_cover cache_wf_clear_bucket)
qed

text \<open>Where a visit puts a folder that is still fresh.\<close>

definition renewed :: "time \<Rightarrow> inode_cache \<Rightarrow> ident \<Rightarrow> nat \<Rightarrow> bool" where
  "renewed now c k b \<longleftrightarrow> (\<exists>i. Get c k = Some i \<and> IsChildrenFetched i \<and>
     \<not> now > inode_expiry (baseTTL c) (DecayChildrenAccess i) \<and>
     b = ttlBucketIndex (inode_expiry (baseTTL c) (DecayChildrenAccess i)))"

lemma registered_registerTTL:
  assumes "length (ttlBuckets c) = ttlBucketCount" "IsChildrenFetched i"
  shows "registered_in (registerTTL i c) b k \<longleftrightarrow>
     registered_in c b k \<or> (k = ID i \<and> b = ttlBucketIndex (inode_expiry (baseTTL c) i))"
  using assms ttlBucketIndex_less [of "inode_expiry (baseTTL c) i"]
  by (auto simp: registered_in_def registerTTL_def Let_def nth_list_update)

lemma registered_frame [simp]:
  "registered_in (mutate j f c) b k = registered_in c b k"
  "registered_in (c\<lparr>evictions := n\<rparr>) b k = registered_in c b k"
  "registered_in (c\<lparr>cachedFolders := m\<rparr>) b k = registered_in c b k"
  "registered_in (c\<lparr>lastSweep := t\<rparr>) b k = registered_in c b k"
  by (simp_all add: registered_in_def)

lemma registered_processTTLEntry:
  assumes wf: "cache_wf c"
  shows "registered_in (fst (processTTLEntry now e (c, P))) b k \<longleftrightarrow>
     registered_in c b k \<or> (k = te_inodeID e \<and> k \<notin> set P \<and> renewed now c k b)"
proof (cases "Get c (te_inodeID e)")
  case (Some i)
  then have "ID i = te_inodeID e" using cache_wf_ID [OF wf] by simp
  moreover have "length (ttlBuckets c) = ttlBucketCount" using wf by (simp add: cache_wf_def ring_wf_def)
  ultimately show ?thesis
    using Some by (auto simp: processTTLEntry_cases registered_registerTTL renewed_def Let_def)
qed (auto simp: processTTLEntry_cases renewed_def)

lemma registered_process_entries:
  "cache_wf c \<Longrightarrow> registered_in (fst (fold (processTTLEntry now) es (c, P))) b k \<longleftrightarrow>
     registered_in c b k \<or> (k \<in> te_inodeID ` set es \<and> k \<notin> set P \<and> renewed now c k b)"
proof (induction es arbitrary: c P)
  case (Cons e es)
  obtain c1 P1 where s: "processTTLEntry now e (c, P) = (c1, P1)" by fastforce
  have wf1: "cache_wf c1" using cache_wf_processTTLEntry [of "(c, P)" now e] Cons.prems by (simp add: s)
  have base: "baseTTL c1 = baseTTL c" using baseTTL_process [of now e "(c, P)"] by (simp add: s)
  have reg: "registered_in c1 b k \<longleftrightarrow>
      registered_in c b k \<or> (k = te_inodeID e \<and> k \<notin> set P \<and> renewed now c k b)"
    using registered_processTTLEntry [OF Cons.prems, of now e P b k] by (simp add: s)
  have P1: "set P1 = (if \<exists>i. Get c (te_inodeID e) = Some i \<and> IsChildrenFetched i
             then insert (te_inodeID e) (set P) else set P)"
    using processed_processTTLEntry [of now e c P] by (simp add: s)
  have step: "registered_in (fst (fold (processTTLEntry now) (e # es) (c, P))) b k \<longleftrightarrow>
      registered_in c1 b k \<or> (k \<in> te_inodeID ` set es \<and> k \<notin> set P1 \<and> renewed now c1 k b)"
    by (simp add: s Cons.IH [OF wf1])
  show ?case
  proof (cases "k = te_inodeID e \<and> k \<notin> set P")
    case True
    then have "k \<notin> set P1 \<Longrightarrow> \<not> renewed now c1 k b"
      using Get_processTTLEntry [of now e c P k] P1 by (auto simp: s renewed_def split: if_splits)
    with True step reg show ?thesis by auto
  next
    case False
    then have "renewed now c1 k b = renewed now c k b"
      using Get_processTTLEntry [of now e c P k] by (auto simp: s renewed_def base)
    with False step reg P1 show ?thesis by (auto split: if_splits)
  qed
qed simp

lemma processed_process_entries:
  "k \<in> set (snd (fold (processTTLEntry now) es (c, P))) \<longleftrightarrow>
     k \<in> set P \<or> (k \<in> te_inodeID ` set es \<and> fetched_at c k)"
proof (induction es arbitrary: c P)
  case (Cons e es)
  obtain c1 P1 where s: "processTTLEntry now e (c, P) = (c1, P1)" by fastforce
  show ?case
    using processed_processTTLEntry [of now e c P] Get_processTTLEntry [of now e c P k]
    by (auto simp: s Cons.IH fetched_at_def split: if_splits)
qed simp

lemma registered_sweepBucket:
  assumes "cache_wf c" "j < ttlBucketCount"
  shows "registered_in (fst (sweepBucket j now (c, P))) b k \<longleftrightarrow>
     (b \<noteq> j \<and> registered_in c b k) \<or> (registered_in c j k \<and> k \<notin> set P \<and> renewed now c k b)"
proof -
  let ?c = "c\<lparr>ttlBuckets := (ttlBuckets c)[j := []]\<rparr>"
  have "registered_in ?c b k \<longleftrightarrow> b \<noteq> j \<and> registered_in c b k"
    using assms by (cases "b = j") (auto simp: registered_in_def cache_wf_def ring_wf_def)
  then show ?thesis
    using registered_process_entries [OF cache_wf_clear_bucket [OF assms(1)]]
    by (simp add: sweepBucket_def Let_def registered_in_def renewed_def)
qed

lemma processed_sweepBucket:
  "k \<in> set (snd (sweepBucket j now (c, P))) \<longleftrightarrow> k \<in> set P \<or> (registered_in c j k \<and> fetched_at c k)"
  by (simp add: sweepBucket_def Let_def processed_process_entries registered_in_def fetched_at_def)

lemma baseTTL_sweepBucket [simp]: "baseTTL (fst (sweepBucket j now s)) = baseTTL (fst s)"
proof -
  have "baseTTL (fst (fold (processTTLEntry now) es s')) = baseTTL (fst s')" for es s'
    by (induction es arbitrary: s') auto
  then show ?thesis by (cases s) (simp add: sweepBucket_def Let_def)
qed

section \<open>Ticks\<close>

lemma sweep_range_stop: "now < t \<Longrightarrow> sweep_range now t s = s"
  by (simp add: sweep_range.simps)

lemma sweep_range_go:
  "t \<le> now \<Longrightarrow> sweep_range now t s = sweep_range now (t + ttlBucketWidth) (sweepBucket (ttlBucketIndex t) now s)"
  by (subst sweep_range.simps) simp

lemma sweepExpiredBuckets_early:
  assumes "lastSweep c \<noteq> zero_time" "now < lastSweep c + second" "lastSweep c \<le> now"
  shows "sweepExpiredBuckets now c = c\<lparr>lastSweep := now\<rparr>"
  using assms
  by (simp add: sweepExpiredBuckets_def sweep_range.simps time_sub_def max_duration_def min_duration_def
      ttlBucketWidth_def ttlBucketCount_def)

lemma sweepExpiredBuckets_regular:
  assumes "lastSweep c \<noteq> zero_time" "lastSweep c + second \<le> now" "now < lastSweep c + 2 * second"
  shows "sweepExpiredBuckets now c =
     (fst (sweepBucket (ttlBucketIndex (lastSweep c + second)) now (c, [])))\<lparr>lastSweep := now\<rparr>"
proof -
  have "sweep_range now (lastSweep c + second) s = sweepBucket (ttlBucketIndex (lastSweep c + second)) now s" for s
    using assms by (simp add: sweep_range_go sweep_range_stop ttlBucketWidth_def)
  then show ?thesis
    using assms by (simp add: sweepExpiredBuckets_def time_sub_def max_duration_def min_duration_def
        ttlBucketWidth_def ttlBucketCount_def split_beta)
qed

text \<open>A run of ticks that each come less than a second after the one before.\<close>

fun early_ticks :: "time \<Rightarrow> time list \<Rightarrow> bool" where
  "early_ticks t [] = True"
| "early_ticks t (n # ns) = (t \<le> n \<and> n < t + second \<and> n \<noteq> zero_time \<and> early_ticks n ns)"

lemma early_ticks_idle:
  "lastSweep c \<noteq> zero_time \<Longrightarrow> early_ticks (lastSweep c) ns \<Longrightarrow>
     fold sweepExpiredBuckets ns c = c\<lparr>lastSweep := last (lastSweep c # ns)\<rparr>"
proof (induction ns arbitrary: c)
  case (Cons n ns)
  then have "sweepExpiredBuckets n c = c\<lparr>lastSweep := n\<rparr>" by (simp add: sweepExpiredBuckets_early)
  with Cons show ?case by simp
qed simp

section \<open>A regular clock evicts what has expired\<close>

text \<open>What the size limit leaves alone.\<close>

text \<open>The least live entry decides what the pop of the size limit does.\<close>

lemma popEvictable_cases:
  obtains (empty) c0 where "settled c c0" "popEvictableCandidate now c = (None, c0)" "evictionHeap c0 = []"
  | (active) c0 e h where "settled c c0" "heap_Pop less_entry (evictionHeap c0) = Some (e, h)" "live_entry c0 e"
      "\<not> sizeEvictable (Get c0 (ee_id e)) now"
      "popEvictableCandidate now c = (None, c0\<lparr>evictionHeap := heap_Push less_entry e h\<rparr>)"
  | (victim) c0 e h where "settled c c0" "heap_Pop less_entry (evictionHeap c0) = Some (e, h)" "live_entry c0 e"
      "sizeEvictable (Get c0 (ee_id e)) now"
      "popEvictableCandidate now c = (Some (ee_id e, ee_score e), c0\<lparr>evictionHeap := h\<rparr>)"
proof -
  obtain c0 where c0: "settled c c0" "popEvictableCandidate now c = popEvictableCandidate now c0"
    using pop_settles by blast
  show thesis
  proof (cases "heap_Pop less_entry (evictionHeap c0)")
    case None
    then have "evictionHeap c0 = []" by (cases "evictionHeap c0") (auto simp: heap_Pop_def Let_def)
    with None c0 show thesis
      by (intro empty [of c0]) (simp_all add: popEvictableCandidate_unfold [of now c0])
  next
    case (Some p)
    obtain e h where p: "p = (e, h)" by fastforce
    with Some c0(1) have "live_entry c0 e" by (simp add: settled_def)
    with Some p c0 show thesis
      by (cases "sizeEvictable (Get c0 (ee_id e)) now")
         (auto simp: popEvictableCandidate_unfold [of now c0] intro: active victim)
  qed
qed

lemma settled_eq: "settled c c0 \<Longrightarrow> c0 = c\<lparr>evictionHeap := evictionHeap c0\<rparr>"
  by (auto simp: settled_def drained_def)

lemma pop_frame: "\<exists>h. snd (popEvictableCandidate now c) = c\<lparr>evictionHeap := h\<rparr>"
proof (rule popEvictable_cases [of c now])
  fix c0 assume "settled c c0" "popEvictableCandidate now c = (None, c0)"
  then show ?thesis by (metis settled_eq snd_conv)
next
  fix c0 e h assume "settled c c0" "popEvictableCandidate now c = (None, c0\<lparr>evictionHeap := heap_Push less_entry e h\<rparr>)"
  then show ?thesis by (auto simp: settled_def drained_def)
next
  fix c0 e h assume "settled c c0" "popEvictableCandidate now c = (Some (ee_id e, ee_score e), c0\<lparr>evictionHeap := h\<rparr>)"
  then show ?thesis by (auto simp: settled_def drained_def)
qed

section \<open>The number of folders with cached children\<close>

definition fetched_folders :: "inode_cache \<Rightarrow> nat" where
  "fetched_folders c = length (filter (\<lambda>(_, i). IsChildrenFetched i) (inodes c))"

text \<open>The counter the code keeps is that number.\<close>

definition folders_counted :: "inode_cache \<Rightarrow> bool" where
  "folders_counted c \<longleftrightarrow> cachedFolders c = int (fetched_folders c)"

lemma fetched_folders_card:
  assumes "inodes_wf c"
  shows "fetched_folders c = card {k. fetched_at c k}" "finite {k. fetched_at c k}"
proof -
  have keys: "keys_distinct (inodes c)" using assms by (simp add: inodes_wf_def)
  let ?xs = "filter (\<lambda>(_, i). IsChildrenFetched i) (inodes c)"
  have "distinct (map fst ?xs)" using keys by (simp add: keys_distinct_def distinct_map_filter)
  then have "fetched_folders c = card (fst ` set ?xs)"
    by (metis distinct_card fetched_folders_def length_map set_map)
  moreover have "fst ` set ?xs = {k. fetched_at c k}"
    using in_set_alist_iff [OF keys] by (force simp: fetched_at_def Get_def)
  ultimately show "fetched_folders c = card {k. fetched_at c k}" "finite {k. fetched_at c k}"
    by (metis, metis finite_imageI finite_set)
qed

lemma fetched_folders_evict:
  assumes "inodes_wf c" "inodes_wf c'" "fetched_at c k"
    and "\<And>j. fetched_at c' j \<longleftrightarrow> fetched_at c j \<and> j \<noteq> k"
  shows "int (fetched_folders c') = int (fetched_folders c) - 1"
proof -
  have "{j. fetched_at c' j} = {j. fetched_at c j} - {k}" using assms(4) by auto
  moreover have "0 < card {j. fetched_at c j}"
    using assms(3) fetched_folders_card(2) [OF assms(1)] by (auto simp: card_gt_0_iff)
  ultimately show ?thesis
    using assms fetched_folders_card by (simp add: card_Diff_singleton of_nat_diff)
qed

lemma fetched_folders_same:
  assumes "inodes_wf c" "inodes_wf c'" and "\<And>j. fetched_at c' j = fetched_at c j"
  shows "fetched_folders c' = fetched_folders c"
  using assms by (simp add: fetched_folders_card)

lemma fetched_folders_add:
  assumes "inodes_wf c" "inodes_wf c'" "\<not> fetched_at c k"
    and "\<And>j. fetched_at c' j \<longleftrightarrow> fetched_at c j \<or> j = k"
  shows "int (fetched_folders c') = int (fetched_folders c) + 1"
proof -
  have "{j. fetched_at c' j} = insert k {j. fetched_at c j}" using assms(4) by auto
  then show ?thesis
    using assms fetched_folders_card by simp
qed

section \<open>Size limit\<close>

text \<open>What a pass of the size limit may change: idle folders lose their children, and the counters follow.\<close>

definition idle :: "time \<Rightarrow> inode \<Rightarrow> bool" where
  "idle now i \<longleftrightarrow> time_sub now (childrenLastAccess i) \<ge> sizeEvictIdleGrace"

definition size_frame :: "inode_cache \<Rightarrow> inode_cache \<Rightarrow> bool" where
  "size_frame c c' \<longleftrightarrow> rootID c' = rootID c \<and> hits c' = hits c \<and> misses c' = misses c \<and>
     db_open c' = db_open c \<and> offline c' = offline c \<and> maxEntries c' = maxEntries c \<and>
     baseTTL c' = baseTTL c \<and> dirty c' = dirty c \<and> deleted c' = deleted c \<and>
     ttlBuckets c' = ttlBuckets c \<and> lastSweep c' = lastSweep c \<and>
     evictionGeneration c' = evictionGeneration c \<and>
     cachedFolders c' - int (fetched_folders c') = cachedFolders c - int (fetched_folders c)"

definition size_visit :: "time \<Rightarrow> inode option \<Rightarrow> inode option \<Rightarrow> bool" where
  "size_visit now io io' \<longleftrightarrow> io' = io \<or>
     (\<exists>i. io = Some i \<and> IsChildrenFetched i \<and> idle now i \<and> io' = Some (EvictChildren i))"

definition size_evicts :: "time \<Rightarrow> inode_cache \<Rightarrow> inode_cache \<Rightarrow> bool" where
  "size_evicts now c c' \<longleftrightarrow> size_frame c c' \<and> (\<forall>k. size_visit now (Get c k) (Get c' k))"

lemma size_evicts_heap: "size_evicts now (c\<lparr>evictionHeap := h\<rparr>) c' \<Longrightarrow> size_evicts now c c'"
  by (simp add: size_evicts_def size_frame_def fetched_folders_def)

lemma size_evicts_refl [simp]: "size_evicts now c (c\<lparr>evictionHeap := h\<rparr>)" "size_evicts now c c"
  by (simp_all add: size_evicts_def size_frame_def size_visit_def fetched_folders_def)

lemma size_evicts_trans:
  assumes "size_evicts now c c1" "size_evicts now c1 c2"
  shows "size_evicts now c c2"
proof -
  have "size_visit now a z" if "size_visit now a b" "size_visit now b z" for a b z
    using that by (auto simp: size_visit_def)
  then have "\<forall>k. size_visit now (Get c k) (Get c2 k)" using assms unfolding size_evicts_def by blast
  with assms show ?thesis by (simp add: size_evicts_def size_frame_def)
qed

lemma size_evicts_one:
  assumes wf: "cache_wf c" and i: "Get c k = Some i" "IsChildrenFetched i" "idle now i"
  shows "size_evicts now c ((mutate k EvictChildren c)\<lparr>evictions := e, cachedFolders := cachedFolders c - 1\<rparr>)"
    (is "size_evicts now c ?c'")
proof -
  have "cache_wf ?c'" using wf by (simp add: cache_wf_mutate_same)
  then have "int (fetched_folders ?c') = int (fetched_folders c) - 1"
    using wf i by (intro fetched_folders_evict [of _ _ k]) (auto simp: cache_wf_def fetched_at_def)
  then have "size_frame c ?c'" by (simp add: size_frame_def mutate_def)
  moreover have "size_visit now (Get c j) (Get ?c' j)" for j using i by (simp add: size_visit_def)
  ultimately show ?thesis by (simp add: size_evicts_def)
qed

lemma size_evicts_loop: "cache_wf c \<Longrightarrow> size_evicts now c (evict_loop n now c)"
proof (induction n arbitrary: c)
  case 0
  then show ?case by simp
next
  case (Suc n)
  show ?case
  proof (rule popEvictable_cases [of c now])
    fix c0 assume "settled c c0" "popEvictableCandidate now c = (None, c0)"
    then show ?thesis by (auto simp: settled_def drained_def)
  next
    fix c0 e h assume "settled c c0" "popEvictableCandidate now c = (None, c0\<lparr>evictionHeap := heap_Push less_entry e h\<rparr>)"
    then show ?thesis by (auto simp: settled_def drained_def)
  next
    fix c0 e h
    assume st: "settled c c0" and pop0: "heap_Pop less_entry (evictionHeap c0) = Some (e, h)"
      and live: "live_entry c0 e" and ev: "sizeEvictable (Get c0 (ee_id e)) now"
      and pop: "popEvictableCandidate now c = (Some (ee_id e, ee_score e), c0\<lparr>evictionHeap := h\<rparr>)"
    from st obtain h0 where c0: "c0 = c\<lparr>evictionHeap := h0\<rparr>" by (auto simp: settled_def drained_def)
    obtain i where i: "Get c (ee_id e) = Some i" "IsChildrenFetched i" "idle now i"
      using live ev by (auto simp: live_entry_def sizeEvictable_def idle_def c0)
    let ?c1 = "c\<lparr>evictionHeap := h\<rparr>"
    let ?c2 = "(mutate (ee_id e) EvictChildren ?c1)\<lparr>evictions := evictions ?c1 + 1, cachedFolders := cachedFolders ?c1 - 1\<rparr>"
    have wf1: "cache_wf ?c1"
      using cache_wf_pop(1) [OF Suc.prems, of now] by (simp add: pop c0)
    have "size_evicts now ?c1 ?c2" using wf1 i by (intro size_evicts_one) simp_all
    then have "size_evicts now c ?c2" by (rule size_evicts_heap)
    moreover have "cache_wf ?c2" using wf1 by (simp add: cache_wf_mutate_same)
    then have "size_evicts now ?c2 (evict_loop n now ?c2)" by (rule Suc.IH)
    ultimately have "size_evicts now c (evict_loop n now ?c2)" by (rule size_evicts_trans)
    moreover have "evict_loop (Suc n) now c = evict_loop n now ?c2"
      using i by (simp add: pop c0 Let_def mutate_def)
    ultimately show ?thesis by (simp only:)
  qed
qed

lemma drained_live:
  assumes "heap_wf c" "drained c c0"
  shows "e \<in> set (evictionHeap c) \<and> live_entry c e \<longleftrightarrow> e \<in> set (evictionHeap c0) \<and> live_entry c e"
proof -
  obtain h where h: "c0 = c\<lparr>evictionHeap := h\<rparr>"
    "filter_mset (live_entry c) (mset h) = filter_mset (live_entry c) (mset (evictionHeap c))"
    using assms by (auto simp: drained_def heap_wf_def)
  from h(2) have "set (filter (live_entry c) h) = set (filter (live_entry c) (evictionHeap c))"
    by (metis mset_filter set_mset_mset)
  with h(1) show ?thesis by auto
qed

text \<open>The folder that is chosen has the least entry among the live ones.\<close>

lemma victim_least:
  assumes wf: "cache_wf c" and pop: "popEvictableCandidate now c = (Some (k, score), c')"
  shows "fetched_at c k" "sizeEvictable (Get c k) now"
    "\<exists>e \<in> set (evictionHeap c). ee_id e = k \<and> ee_score e = score \<and> live_entry c e \<and>
       (\<forall>e' \<in> set (evictionHeap c). live_entry c e' \<longrightarrow> \<not> less_entry e' e)"
proof -
  obtain c0 e h where v: "settled c c0" "heap_Pop less_entry (evictionHeap c0) = Some (e, h)" "live_entry c0 e"
      "sizeEvictable (Get c0 (ee_id e)) now" "k = ee_id e" "score = ee_score e"
    using pop by (rule_tac popEvictable_cases [of c now]) auto
  then have d: "drained c c0" by (simp add: settled_def)
  then have live: "live_entry c0 = live_entry c" and get: "Get c0 = Get c"
    by (auto simp: drained_def fun_eq_iff)
  have hw: "heap_wf c" "is_heap less_entry (evictionHeap c0)"
    using wf cache_wf_drained [OF wf d] by (simp_all add: cache_wf_def heap_wf_def)
  have e: "e \<in> set (evictionHeap c0)"
    and least: "\<forall>e' \<in> set (evictionHeap c0). \<not> less_entry e' e"
    using evict_heap.Pop_props [OF hw(2) v(2)] by (auto dest: mset_eq_setD simp flip: set_mset_mset)
  show "fetched_at c k" "sizeEvictable (Get c k) now"
    using v by (simp_all add: live get live_entry_def fetched_at_def)
  show "\<exists>e \<in> set (evictionHeap c). ee_id e = k \<and> ee_score e = score \<and> live_entry c e \<and>
       (\<forall>e' \<in> set (evictionHeap c). live_entry c e' \<longrightarrow> \<not> less_entry e' e)"
    using drained_live [OF hw(1) d] e least v(3,5,6) by (intro bexI [of _ e]) (auto simp: live)
qed

text \<open>Every folder with cached children has a live entry in the heap.\<close>

definition heap_covers :: "inode_cache \<Rightarrow> bool" where
  "heap_covers c \<longleftrightarrow> (\<forall>k. fetched_at c k \<longrightarrow> (\<exists>e \<in> set (evictionHeap c). ee_id e = k \<and> live_entry c e))"

definition all_idle :: "time \<Rightarrow> inode_cache \<Rightarrow> bool" where
  "all_idle now c \<longleftrightarrow> (\<forall>k i. Get c k = Some i \<longrightarrow> IsChildrenFetched i \<longrightarrow> idle now i)"

lemma heap_covers_drained:
  assumes "cache_wf c" "heap_covers c" "drained c c0"
  shows "heap_covers c0"
proof -
  have "live_entry c0 = live_entry c" "fetched_at c0 = fetched_at c"
    using assms(3) by (auto simp: drained_def fetched_at_def fun_eq_iff)
  then show ?thesis using assms drained_live [of c c0] by (auto simp: heap_covers_def cache_wf_def)
qed

lemma heap_covers_victim:
  assumes wf: "cache_wf c" and cov: "heap_covers c"
    and pop: "heap_Pop less_entry (evictionHeap c) = Some (e, h)"
  shows "heap_covers ((mutate (ee_id e) EvictChildren (c\<lparr>evictionHeap := h\<rparr>))\<lparr>evictions := n, cachedFolders := m\<rparr>)"
    (is "heap_covers ?c2")
  unfolding heap_covers_def
proof (intro allI impI)
  fix j assume "fetched_at ?c2 j"
  then have j: "fetched_at c j" "j \<noteq> ee_id e" by (auto simp: fetched_at_def split: if_splits)
  then obtain e' where e': "e' \<in> set (evictionHeap c)" "ee_id e' = j" "live_entry c e'"
    using cov by (auto simp: heap_covers_def)
  have "set (evictionHeap c) = insert e (set h)"
    using evict_heap.Pop_props(2) [OF _ pop] wf
    by (metis cache_wf_def heap_wf_def set_mset_add_mset_insert set_mset_mset)
  with e' j have "e' \<in> set (evictionHeap ?c2)" by auto
  moreover have "live_entry ?c2 e'"
    using e' j by (simp add: live_entry_def generation_of_def)
  ultimately show "\<exists>e' \<in> set (evictionHeap ?c2). ee_id e' = j \<and> live_entry ?c2 e'" using e'(2) by blast
qed

lemma evict_loop_victim:
  assumes wf: "cache_wf c" and st: "settled c c0"
    and pop0: "heap_Pop less_entry (evictionHeap c0) = Some (e, h)" and live: "live_entry c0 e"
    and pop: "popEvictableCandidate now c = (Some (ee_id e, ee_score e), c0\<lparr>evictionHeap := h\<rparr>)"
  obtains i c2 where "Get c (ee_id e) = Some i" "IsChildrenFetched i"
    "c2 = (mutate (ee_id e) EvictChildren (c0\<lparr>evictionHeap := h\<rparr>))\<lparr>evictions := evictions c0 + 1, cachedFolders := cachedFolders c0 - 1\<rparr>"
    "evict_loop (Suc n) now c = evict_loop n now c2" "cache_wf c2"
    "\<And>j. Get c2 j = (if j = ee_id e then Some (EvictChildren i) else Get c j)"
    "heap_covers c \<Longrightarrow> heap_covers c2"
proof -
  have d: "drained c c0" using st by (simp add: settled_def)
  then obtain h0 where c0: "c0 = c\<lparr>evictionHeap := h0\<rparr>" by (auto simp: drained_def)
  obtain i where i: "Get c (ee_id e) = Some i" "IsChildrenFetched i"
    using live by (auto simp: c0 live_entry_def)
  define c2 where "c2 = (mutate (ee_id e) EvictChildren (c0\<lparr>evictionHeap := h\<rparr>))\<lparr>evictions := evictions c0 + 1, cachedFolders := cachedFolders c0 - 1\<rparr>"
  have "cache_wf (c0\<lparr>evictionHeap := h\<rparr>)" using cache_wf_pop(1) [OF wf, of now] by (simp add: pop)
  then have "cache_wf c2" by (simp add: c2_def cache_wf_mutate_same)
  moreover have "evict_loop (Suc n) now c = evict_loop n now c2"
    using i by (simp add: pop c0 c2_def Let_def mutate_def)
  moreover have "heap_covers c2" if "heap_covers c"
    unfolding c2_def using cache_wf_drained [OF wf d] heap_covers_drained [OF wf that d] pop0
    by (rule heap_covers_victim)
  moreover have "Get c2 j = (if j = ee_id e then Some (EvictChildren i) else Get c j)" for j
    using i by (simp add: c2_def c0)
  ultimately show thesis using that i c2_def by blast
qed

lemma evict_loop_step:
  assumes wf: "cache_wf c" and cov: "heap_covers c" and idle: "all_idle now c" and k: "fetched_at c k"
  obtains c2 where "evict_loop (Suc n) now c = evict_loop n now c2" "cache_wf c2" "heap_covers c2"
    "all_idle now c2" "int (fetched_folders c2) = int (fetched_folders c) - 1"
proof -
  obtain e0 where e0: "e0 \<in> set (evictionHeap c)" "live_entry c e0" using cov k by (auto simp: heap_covers_def)
  have idleD: "sizeEvictable (Get c (ee_id e)) now" if "live_entry c e" for e
    using that idle by (auto simp: live_entry_def sizeEvictable_def all_idle_def idle_def)
  obtain c0 e h where v: "settled c c0" "heap_Pop less_entry (evictionHeap c0) = Some (e, h)" "live_entry c0 e"
      "popEvictableCandidate now c = (Some (ee_id e, ee_score e), c0\<lparr>evictionHeap := h\<rparr>)"
  proof (rule popEvictable_cases [of c now])
    fix c0 assume "settled c c0" "evictionHeap c0 = []"
    then show thesis using e0 wf drained_live [of c c0 e0] by (simp add: settled_def cache_wf_def)
  next
    fix c0 e assume "settled c c0" "live_entry c0 e" "\<not> sizeEvictable (Get c0 (ee_id e)) now"
    then show thesis using idleD [of e] by (auto simp: settled_def drained_def)
  qed (use that in blast)
  obtain i c2 where c2: "Get c (ee_id e) = Some i" "IsChildrenFetched i"
      "evict_loop (Suc n) now c = evict_loop n now c2" "cache_wf c2"
      "\<And>j. Get c2 j = (if j = ee_id e then Some (EvictChildren i) else Get c j)" "heap_covers c2"
    using evict_loop_victim [OF wf v, of n] cov by metis
  moreover have "all_idle now c2" using idle by (auto simp: all_idle_def c2(5))
  moreover have "int (fetched_folders c2) = int (fetched_folders c) - 1"
    using wf c2 by (intro fetched_folders_evict [of _ _ "ee_id e"]) (auto simp: cache_wf_def fetched_at_def)
  ultimately show thesis using that by blast
qed

lemma evict_loop_count:
  "cache_wf c \<Longrightarrow> heap_covers c \<Longrightarrow> all_idle now c \<Longrightarrow> n \<le> fetched_folders c \<Longrightarrow>
     fetched_folders (evict_loop n now c) = fetched_folders c - n"
proof (induction n arbitrary: c)
  case (Suc n)
  then have "fetched_folders c = card {k. fetched_at c k}" by (simp add: fetched_folders_card cache_wf_def)
  with Suc.prems(4) have "card {k. fetched_at c k} \<noteq> 0" by linarith
  then obtain k where "fetched_at c k" by (metis Collect_empty_eq card.empty)
  with Suc.prems obtain c2 where c2: "evict_loop (Suc n) now c = evict_loop n now c2" "cache_wf c2" "heap_covers c2"
    "all_idle now c2" "int (fetched_folders c2) = int (fetched_folders c) - 1"
    using evict_loop_step by metis
  have "n \<le> fetched_folders c2" using Suc.prems c2(5) by linarith
  then have "fetched_folders (evict_loop n now c2) = fetched_folders c2 - n" using Suc.IH c2 by blast
  with c2 show ?case by simp
qed simp

section \<open>A regular clock evicts what has expired\<close>

lemma size_evicts_limit: "cache_wf c \<Longrightarrow> size_evicts now c (evictChildrenBySizeLimit now c)"
  by (simp add: evictChildrenBySizeLimit_def size_evicts_loop)

text \<open>
  Folder \<open>k\<close>, last used at \<open>L\<close>, is gone or still waits in one of the buckets \<open>S\<close>.
\<close>

definition awaits :: "time \<Rightarrow> duration \<Rightarrow> ident \<Rightarrow> nat set \<Rightarrow> inode_cache \<Rightarrow> bool" where
  "awaits L base k S c \<longleftrightarrow> baseTTL c = base \<and>
     (fetched_at c k \<longrightarrow> (\<forall>i. Get c k = Some i \<longrightarrow> childrenLastAccess i = L) \<and> (\<exists>b \<in> S. registered_in c b k))"

lemma awaits_bucket:
  assumes wf: "cache_wf c" and aw: "awaits L base k S c" and j: "j < ttlBucketCount"
    and base: "0 \<le> base" "base * 40 < 2 ^ 53" and late: "L + 20 * base < now"
  shows "awaits L base k (S - {j}) (fst (sweepBucket j now (c, [])))" (is "awaits L base k _ ?c")
proof (cases "registered_in c j k \<and> fetched_at c k")
  case True
  then obtain i where i: "Get c k = Some i" "IsChildrenFetched i" "childrenLastAccess i = L" "baseTTL c = base"
    using aw by (auto simp: awaits_def fetched_at_def)
  then have "inode_expiry base (DecayChildrenAccess i) < now"
    using effectiveTTL_bounds(2) [OF base, of "childrenAccessCount (DecayChildrenAccess i)"] late
    by (simp add: inode_expiry_def) (simp add: DecayChildrenAccess_def)
  then have "Get ?c k = Some (EvictChildren (DecayChildrenAccess i))"
    using True i by (simp add: Get_sweepBucket ttl_visit_fetched Let_def)
  then show ?thesis using i by (simp add: awaits_def fetched_at_def)
next
  case False
  then have same: "Get ?c k = Get c k"
    by (cases "Get c k") (auto simp: Get_sweepBucket fetched_at_def)
  then have f: "fetched_at ?c k = fetched_at c k" by (simp add: fetched_at_def)
  have "\<exists>b \<in> S - {j}. registered_in ?c b k" if "fetched_at c k"
    using that aw False registered_sweepBucket [OF wf j] by (auto simp: awaits_def)
  with aw f same show ?thesis by (auto simp: awaits_def)
qed

lemma awaits_size:
  assumes "cache_wf c" "awaits L base k S c"
  shows "awaits L base k S (evictChildrenBySizeLimit now c)" (is "awaits L base k S ?c")
proof -
  have fr: "size_frame c ?c" and v: "size_visit now (Get c k) (Get ?c k)"
    using size_evicts_limit [OF assms(1), of now] by (simp_all add: size_evicts_def)
  then have "registered_in ?c b k = registered_in c b k" for b by (simp add: size_frame_def registered_in_def)
  with fr v assms(2) show ?thesis by (auto simp: awaits_def size_frame_def size_visit_def fetched_at_def)
qed

lemma awaits_lastSweep: "awaits L base k S (c\<lparr>lastSweep := t\<rparr>) = awaits L base k S c"
  by (simp add: awaits_def fetched_at_def)

lemma awaits_tick:
  assumes wf: "cache_wf c" and aw: "awaits L base k S c"
    and t: "lastSweep c = t" "t \<noteq> zero_time"
    and base: "0 \<le> base" "base * 40 < 2 ^ 53" and late: "L + 20 * base < t + second"
  shows "awaits L base k (S - {ttlBucketIndex (t + second)}) (sweep (t + second) c)"
    "lastSweep (sweep (t + second) c) = t + second"
proof -
  have sw: "sweepExpiredBuckets (t + second) c =
      (fst (sweepBucket (ttlBucketIndex (t + second)) (t + second) (c, [])))\<lparr>lastSweep := t + second\<rparr>"
    using sweepExpiredBuckets_regular [of c "t + second"] t by simp
  have wf': "cache_wf (sweepExpiredBuckets (t + second) c)" using wf by (rule cache_wf_sweepExpiredBuckets)
  then have "size_frame (sweepExpiredBuckets (t + second) c) (sweep (t + second) c)"
    unfolding sweep_def using size_evicts_limit by (simp add: size_evicts_def)
  then show "lastSweep (sweep (t + second) c) = t + second" by (simp add: size_frame_def sw)
  have "awaits L base k (S - {ttlBucketIndex (t + second)}) (sweepExpiredBuckets (t + second) c)"
    unfolding sw awaits_lastSweep using wf aw ttlBucketIndex_less base late by (rule awaits_bucket)
  with wf' show "awaits L base k (S - {ttlBucketIndex (t + second)}) (sweep (t + second) c)"
    unfolding sweep_def by (rule awaits_size)
qed

text \<open>The ticks of a clock with period one second, after time \<open>T\<close>.\<close>

fun run_clock :: "time \<Rightarrow> nat \<Rightarrow> inode_cache \<Rightarrow> inode_cache" where
  "run_clock T 0 c = c"
| "run_clock T (Suc n) c = sweep (T + int (Suc n) * second) (run_clock T n c)"

definition clock_buckets :: "time \<Rightarrow> nat \<Rightarrow> nat set" where
  "clock_buckets T n = (\<lambda>j. ttlBucketIndex (T + int j * second)) ` {1..n}"

lemma clock_buckets_Suc:
  "S - clock_buckets T (Suc n) = S - clock_buckets T n - {ttlBucketIndex (T + int (Suc n) * second)}"
proof -
  have "{1..Suc n} = insert (Suc n) {1..n}" by auto
  then show ?thesis unfolding clock_buckets_def by auto
qed

lemma awaits_clock:
  assumes wf: "cache_wf c" and aw: "awaits L base k S c"
    and T: "lastSweep c = T" "zero_time < T"
    and base: "0 \<le> base" "base * 40 < 2 ^ 53" and late: "L + 20 * base < T + second"
  shows "cache_wf (run_clock T n c) \<and> lastSweep (run_clock T n c) = T + int n * second \<and>
     awaits L base k (S - clock_buckets T n) (run_clock T n c)"
proof (induction n)
  case (Suc n)
  define t where "t = T + int n * second"
  have now: "T + int (Suc n) * second = t + second" by (simp add: t_def)
  have 1: "cache_wf (run_clock T n c)" "lastSweep (run_clock T n c) = t"
      "awaits L base k (S - clock_buckets T n) (run_clock T n c)"
    using Suc.IH unfolding t_def by blast+
  moreover have "t \<noteq> zero_time" "L + 20 * base < t + second" using T late by (simp_all add: t_def)
  ultimately show ?case
    unfolding run_clock.simps clock_buckets_Suc now
    using awaits_tick base cache_wf_sweep [OF 1(1)] by blast
next
  case 0
  then show ?case using assms by (simp add: clock_buckets_def)
qed

lemma clock_meets_all_buckets: "clock_buckets T 60 = {..<ttlBucketCount}"
proof -
  have idx: "ttlBucketIndex (T + int j * second) = nat ((int j + time_unix T) mod 60)" for j
    by (simp add: ttlBucketIndex_eq time_unix_def)
  have "b \<in> clock_buckets T 60" if "b < 60" for b
    unfolding clock_buckets_def
  proof (rule image_eqI)
    let ?j = "nat ((int b - time_unix T - 1) mod 60) + 1"
    have "(1 + (x - u - 1) mod 60 + u) mod 60 = x mod 60" for x u :: int
      using mod_add_left_eq [of "x - u - 1" 60 "1 + u"] by (simp add: algebra_simps)
    then have "(int ?j + time_unix T) mod 60 = int b mod 60" by simp
    with that show "b = ttlBucketIndex (T + int ?j * second)" by (simp only: idx) simp
    show "?j \<in> {1..60}" by (auto simp: nat_le_iff)
  qed
  then show ?thesis using ttlBucketIndex_less by (auto simp: ttlBucketCount_def clock_buckets_def)
qed

section \<open>A sweep of several buckets\<close>

text \<open>
  A pass over several buckets leaves a folder alone that it has handled already or that none of
  them mentions; the entries of the buckets it passes are dropped all the same.
\<close>

lemma untouched_by_buckets:
  assumes "cache_wf c" "set js \<subseteq> {..<ttlBucketCount}" "k \<in> set P \<or> (\<forall>j \<in> set js. \<not> registered_in c j k)"
    and "fold (\<lambda>j. sweepBucket j now) js (c, P) = (c', P')"
  shows "cache_wf c' \<and> Get c' k = Get c k \<and> baseTTL c' = baseTTL c \<and> (k \<in> set P' \<longleftrightarrow> k \<in> set P) \<and>
     (\<forall>b. registered_in c' b k \<longleftrightarrow> b \<notin> set js \<and> registered_in c b k)"
  using assms
proof (induction js arbitrary: c P)
  case (Cons j js)
  obtain c1 P1 where s: "sweepBucket j now (c, P) = (c1, P1)" by fastforce
  have j: "j < ttlBucketCount" using Cons.prems(2) by simp
  have no: "\<not> (registered_in c j k \<and> k \<notin> set P)" using Cons.prems(3) by auto
  have wf1: "cache_wf c1" using cache_wf_sweepBucket [of "(c, P)" j now] Cons.prems(1) by (simp add: s)
  have reg: "registered_in c1 b k \<longleftrightarrow> b \<noteq> j \<and> registered_in c b k" for b
    using registered_sweepBucket [OF Cons.prems(1) j, of now P b k] no by (auto simp: s)
  have same: "Get c1 k = Get c k" "baseTTL c1 = baseTTL c" "k \<in> set P1 \<longleftrightarrow> k \<in> set P"
    using Get_sweepBucket [of j now c P k] processed_sweepBucket [of k j now c P]
      baseTTL_sweepBucket [of j now "(c, P)"] no by (auto simp: s)
  have "k \<in> set P1 \<or> (\<forall>j \<in> set js. \<not> registered_in c1 j k)" using Cons.prems(3) same reg by auto
  moreover have "fold (\<lambda>j. sweepBucket j now) js (c1, P1) = (c', P')" using Cons.prems(4) by (simp add: s)
  ultimately have "cache_wf c' \<and> Get c' k = Get c1 k \<and> baseTTL c' = baseTTL c1 \<and> (k \<in> set P' \<longleftrightarrow> k \<in> set P1) \<and>
     (\<forall>b. registered_in c' b k \<longleftrightarrow> b \<notin> set js \<and> registered_in c1 b k)"
    using Cons.IH [of c1 P1] wf1 Cons.prems(2) by simp
  then show ?case using same reg by auto
qed simp

lemma ring_pass_loses:
  assumes wf: "cache_wf c" and i: "Get c k = Some i" "IsChildrenFetched i"
    and fresh: "now \<le> inode_expiry (baseTTL c) (DecayChildrenAccess i)"
    and only: "\<And>b'. b' < ttlBucketCount \<Longrightarrow> registered_in c b' k \<longleftrightarrow> b' = b"
    and b: "b < ttlBucketIndex (inode_expiry (baseTTL c) (DecayChildrenAccess i))"
    and pass: "fold (\<lambda>j. sweepBucket j now) [0..<ttlBucketCount] (c, []) = (c', P')"
  shows "Get c' k = Some (DecayChildrenAccess i) \<and> \<not> in_ring c' k"
proof -
  define d where "d = ttlBucketIndex (inode_expiry (baseTTL c) (DecayChildrenAccess i))"
  have d: "b < d" "d < ttlBucketCount" using b ttlBucketIndex_less by (simp_all add: d_def)
  have split: "[0..<ttlBucketCount] = [0..<b] @ b # [Suc b..<ttlBucketCount]"
    using d upt_add_eq_append [of 0 b "ttlBucketCount - b"] upt_conv_Cons [of b ttlBucketCount] by simp
  obtain c1 P1 where s1: "fold (\<lambda>j. sweepBucket j now) [0..<b] (c, []) = (c1, P1)" by fastforce
  obtain c2 P2 where s2: "sweepBucket b now (c1, P1) = (c2, P2)" by fastforce
  have s3: "fold (\<lambda>j. sweepBucket j now) [Suc b..<ttlBucketCount] (c2, P2) = (c', P')"
    using pass by (simp add: split s1 s2)
  have sub: "set [0..<b] \<subseteq> {..<ttlBucketCount}" "set [Suc b..<ttlBucketCount] \<subseteq> {..<ttlBucketCount}"
    using d by auto
  have 1: "cache_wf c1" "Get c1 k = Some i" "baseTTL c1 = baseTTL c" "k \<notin> set P1"
      "\<And>x. registered_in c1 x k \<longleftrightarrow> x \<notin> set [0..<b] \<and> registered_in c x k"
    using untouched_by_buckets [OF wf sub(1) _ s1, of k] only d i by auto
  have r: "registered_in c1 b k" using 1(5) only d by simp
  have fetched: "fetched_at c1 k" using 1 i by (simp add: fetched_at_def)
  have 2: "cache_wf c2" "Get c2 k = Some (DecayChildrenAccess i)" "k \<in> set P2"
    using cache_wf_sweepBucket [of "(c1, P1)" b now] Get_sweepBucket [of b now c1 P1 k]
      processed_sweepBucket [of k b now c1 P1] 1 r fetched fresh i
    by (simp_all add: s2 ttl_visit_fetched Let_def)
  have reg2: "registered_in c2 x k \<longleftrightarrow> x = d" if "x < ttlBucketCount" for x
    using registered_sweepBucket [OF 1(1), of b now P1 x k] 1 r d only that i fresh
    by (auto simp: s2 renewed_def simp flip: d_def)
  have 3: "Get c' k = Get c2 k" "\<And>x. registered_in c' x k \<longleftrightarrow> x \<notin> set [Suc b..<ttlBucketCount] \<and> registered_in c2 x k"
    "cache_wf c'"
    using untouched_by_buckets [OF 2(1) sub(2) _ s3, of k] 2(3) by auto
  then have "\<not> in_ring c' k" using reg2 d by (auto simp: in_ring_def cache_wf_def ring_wf_def)
  with 2 3 show ?thesis by simp
qed

end
