(* ===== verification/Inode_Cache_Book.thy ===== *)
theory Inode_Cache_Book
  imports Inode_Cache_Sweep
begin

text \<open>
  The eviction bookkeeping as an invariant: every folder with cached children has a TTL
  registration and a current heap entry, and the counter of such folders is exact.  It holds along
  every run in which listings and renamings do not touch a folder that is itself cached.
\<close>

definition bookkept :: "inode_cache \<Rightarrow> bool" where
  "bookkept c \<longleftrightarrow> cache_wf c \<and> ring_covers c \<and> heap_covers c \<and> folders_counted c"

lemma heap_covers_alt:
  "heap_covers c \<longleftrightarrow> (\<forall>k. fetched_at c k \<longrightarrow>
     (\<exists>e \<in> set (evictionHeap c). ee_id e = k \<and> ee_generation e = generation_of c k))"
proof -
  have "live_entry c e \<longleftrightarrow> ee_generation e = generation_of c (ee_id e) \<and> fetched_at c (ee_id e)" for e
    by (simp add: live_entry_def fetched_at_def)
  then show ?thesis unfolding heap_covers_def by metis
qed

lemma bookkept_new: "bookkept NewInodeCache"
  using cache_wf_new
  by (simp add: bookkept_def ring_covers_def heap_covers_def folders_counted_def fetched_at_def
      Get_def fetched_folders_def) (simp add: NewInodeCache_def)

text \<open>Steps that uncover folders only need to keep ring, heap and generations, and to count.\<close>

lemma bookkept_shrink:
  assumes "bookkept c" "cache_wf c'" and f: "\<And>j. fetched_at c' j \<Longrightarrow> fetched_at c j"
    and "ttlBuckets c' = ttlBuckets c" "evictionHeap c' = evictionHeap c"
    and "evictionGeneration c' = evictionGeneration c" "folders_counted c'"
  shows "bookkept c'"
proof -
  have "in_ring c' j = in_ring c j" "generation_of c' j = generation_of c j" for j
    using assms by (simp_all add: in_ring_def registered_in_def generation_of_def)
  then show ?thesis using assms by (simp add: bookkept_def ring_covers_def heap_covers_alt)
qed

lemma counted_same:
  assumes "bookkept c" "cache_wf c'" "\<And>j. fetched_at c' j = fetched_at c j" "cachedFolders c' = cachedFolders c"
  shows "folders_counted c'"
  using assms fetched_folders_same [of c c'] by (simp add: bookkept_def folders_counted_def cache_wf_def)

lemma counted_evict:
  assumes "bookkept c" "cache_wf c'" "fetched_at c k" "\<And>j. fetched_at c' j \<longleftrightarrow> fetched_at c j \<and> j \<noteq> k"
    and "cachedFolders c' = cachedFolders c - 1"
  shows "folders_counted c'"
  using assms fetched_folders_evict [of c c' k] by (simp add: bookkept_def folders_counted_def cache_wf_def)

lemma bookkept_same:
  assumes "bookkept c" "cache_wf c'" and "\<And>j. fetched_at c' j = fetched_at c j"
    and "ttlBuckets c' = ttlBuckets c" "evictionHeap c' = evictionHeap c"
    and "evictionGeneration c' = evictionGeneration c" "cachedFolders c' = cachedFolders c"
  shows "bookkept c'"
  using assms counted_same [OF assms(1-3,7)] by (intro bookkept_shrink [OF assms(1,2)]) auto

lemma bookkept_evict:
  assumes "bookkept c" "cache_wf c'" "fetched_at c k" "\<And>j. fetched_at c' j \<longleftrightarrow> fetched_at c j \<and> j \<noteq> k"
    and "ttlBuckets c' = ttlBuckets c" "evictionHeap c' = evictionHeap c"
    and "evictionGeneration c' = evictionGeneration c" "cachedFolders c' = cachedFolders c - 1"
  shows "bookkept c'"
  using assms counted_evict [OF assms(1-4,8)] by (intro bookkept_shrink [OF assms(1,2)]) auto

lemma fetched_at_simps [simp]:
  "fetched_at (markDirty j c) k = fetched_at c k" "fetched_at (markDeleted j c) k = fetched_at c k"
  "fetched_at (registerTTL i c) k = fetched_at c k" "fetched_at (updateEvictionEntry i now c) k = fetched_at c k"
  "fetched_at (c\<lparr>hits := h\<rparr>) k = fetched_at c k" "fetched_at (c\<lparr>misses := h\<rparr>) k = fetched_at c k"
  "fetched_at (c\<lparr>cachedFolders := n\<rparr>) k = fetched_at c k" "fetched_at (c\<lparr>offline := b\<rparr>) k = fetched_at c k"
  "fetched_at (c\<lparr>lastSweep := t\<rparr>) k = fetched_at c k"
  "fetched_at (Store j i c) k = (if k = j then IsChildrenFetched i else fetched_at c k)"
  by (simp_all add: fetched_at_def)

lemma bookkept_wf: "bookkept c \<Longrightarrow> cache_wf c"
  by (simp add: bookkept_def)

lemma bookkept_frame [simp]:
  "bookkept c \<Longrightarrow> bookkept (markDirty j c)" "bookkept c \<Longrightarrow> bookkept (markDeleted j c)"
  "bookkept c \<Longrightarrow> bookkept (c\<lparr>hits := h\<rparr>)" "bookkept c \<Longrightarrow> bookkept (c\<lparr>misses := h\<rparr>)"
  "bookkept c \<Longrightarrow> bookkept (c\<lparr>offline := b\<rparr>)" "bookkept c \<Longrightarrow> bookkept (c\<lparr>lastSweep := t\<rparr>)"
  by (frule bookkept_wf, auto intro: bookkept_same [of c])+

text \<open>A folder is registered in ring and heap, newly or again.\<close>

lemma generation_update:
  assumes "IsChildrenFetched p"
  shows "generation_of (updateEvictionEntry p now c) j =
      (if j = ID p then generation_of c j + 1 else generation_of c j)"
    "\<exists>e. ee_id e = ID p \<and> ee_generation e = generation_of c (ID p) + 1 \<and>
       set (evictionHeap (updateEvictionEntry p now c)) = insert e (set (evictionHeap c))"
proof -
  show "generation_of (updateEvictionEntry p now c) j =
      (if j = ID p then generation_of c j + 1 else generation_of c j)"
    using assms by (simp add: updateEvictionEntry_def generation_of_def Let_def alist_simps)
  let ?e = "\<lparr>ee_id = ID p, ee_score = sizeScore p now, ee_age = childrenCachedAt p,
     ee_generation = generation_of c (ID p) + 1\<rparr>"
  have "set (evictionHeap (updateEvictionEntry p now c)) = insert ?e (set (evictionHeap c))"
    using assms evict_heap.mset_Push [of ?e "evictionHeap c"]
    by (simp add: updateEvictionEntry_def Let_def flip: set_mset_mset)
  then show "\<exists>e. ee_id e = ID p \<and> ee_generation e = generation_of c (ID p) + 1 \<and>
       set (evictionHeap (updateEvictionEntry p now c)) = insert e (set (evictionHeap c))"
    by (intro exI [of _ ?e]) simp
qed

lemma bookkept_register:
  assumes bk: "bookkept c" and wf: "cache_wf c'" and p: "IsChildrenFetched p" "ID p = k"
    and f: "\<And>j. fetched_at c' j \<longleftrightarrow> fetched_at c j \<or> j = k"
    and same: "ttlBuckets c' = ttlBuckets c" "evictionHeap c' = evictionHeap c" "baseTTL c' = baseTTL c"
      "evictionGeneration c' = evictionGeneration c"
    and n: "n = cachedFolders c + (if fetched_at c k then 0 else 1)"
  shows "bookkept ((updateEvictionEntry p now (registerTTL p c'))\<lparr>cachedFolders := n\<rparr>)" (is "bookkept ?c")
proof -
  have len: "length (ttlBuckets c') = ttlBucketCount" using wf by (simp add: cache_wf_def ring_wf_def)
  have ring: "in_ring (registerTTL p c') j" if "in_ring c j \<or> j = k" for j
  proof -
    have "in_ring c' j = in_ring c j" using same by (simp add: in_ring_def registered_in_def)
    with that show ?thesis using registerTTL_in_ring [OF len, where i = p] p by auto
  qed
  have "in_ring ?c j = in_ring (registerTTL p c') j" for j by (simp add: in_ring_def registered_in_def)
  with ring bk f have 1: "ring_covers ?c" by (auto simp: bookkept_def ring_covers_def)
  have gen: "generation_of ?c j = generation_of (updateEvictionEntry p now (registerTTL p c')) j" for j
    by (simp add: generation_of_def)
  have gsame: "generation_of (registerTTL p c') = generation_of c"
    using same by (simp add: generation_of_def fun_eq_iff)
  obtain e where e: "ee_id e = k" "ee_generation e = generation_of c k + 1"
      "set (evictionHeap ?c) = insert e (set (evictionHeap c))"
    using generation_update(2) [OF p(1), of "registerTTL p c'" now] p(2) same gsame by auto
  have 2: "heap_covers ?c"
    unfolding heap_covers_alt gen generation_update(1) [OF p(1)] p(2) gsame e(3)
    using bk f e(1,2) by (auto simp: bookkept_def heap_covers_alt)
  have wf2: "cache_wf ?c" using wf by simp
  have "int (fetched_folders ?c) = n"
  proof (cases "fetched_at c k")
    case True
    then have "fetched_folders ?c = fetched_folders c"
      using bk wf2 f by (intro fetched_folders_same) (auto simp: bookkept_def cache_wf_def)
    with True n bk show ?thesis by (simp add: bookkept_def folders_counted_def)
  next
    case False
    then have "int (fetched_folders ?c) = int (fetched_folders c) + 1"
      using bk wf2 f by (intro fetched_folders_add [of _ _ k]) (auto simp: bookkept_def cache_wf_def)
    with False n bk show ?thesis by (simp add: bookkept_def folders_counted_def)
  qed
  with 1 2 wf2 show ?thesis by (simp add: bookkept_def folders_counted_def)
qed

section \<open>Operations that keep the bookkeeping\<close>

lemma fetched_at_put: "fetched_at (mutate k (\<lambda>_. p') c) j =
    (if j = k then Get c k \<noteq> None \<and> IsChildrenFetched p' else fetched_at c j)"
  by (auto simp: fetched_at_def)

lemma bookkept_put:
  assumes "bookkept c" "Get c k = Some p" "ID p' = k" "IsChildrenFetched p' = IsChildrenFetched p"
  shows "bookkept (mutate k (\<lambda>_. p') c)"
proof (rule bookkept_same [OF assms(1)])
  show "cache_wf (mutate k (\<lambda>_. p') c)"
    using assms bookkept_wf [OF assms(1)] by (auto intro!: cache_wf_mutate)
qed (use assms in \<open>auto simp: fetched_at_put fetched_at_def\<close>)

lemma bookkept_mutate:
  assumes "bookkept c" "\<And>p. ID (f p) = ID p" "\<And>p. IsChildrenFetched (f p) = IsChildrenFetched p"
  shows "bookkept (mutate k f c)"
proof (rule bookkept_same [OF assms(1)])
  show "cache_wf (mutate k f c)"
    using assms bookkept_wf [OF assms(1)] by (auto intro!: cache_wf_mutate_same)
qed (use assms(3) in \<open>auto simp: fetched_at_def\<close>)

lemma bookkept_store:
  assumes "bookkept c" "ID i = k" "\<not> IsChildrenFetched i" "\<not> fetched_at c k"
  shows "bookkept (Store k i c)"
  by (rule bookkept_same [OF assms(1)])
     (use assms bookkept_wf [OF assms(1)] in \<open>auto intro!: cache_wf_Store\<close>)

lemma attach_fetched [simp]:
  "IsChildrenFetched (attachChild p i d True)"
  "IsChildrenFetched (attachChild p i d False) = IsChildrenFetched p"
  "IsChildrenFetched (detachChild p i d) = IsChildrenFetched p"
  "IsChildrenFetched (set_parent q p) = IsChildrenFetched p"
  by (cases "children p"; simp add: attachChild_def detachChild_def set_parent_def IsChildrenFetched_def Let_def)+

lemma bookkept_attach_seed:
  assumes "bookkept c"
  shows "bookkept (attach_seed now q i d c)"
proof (cases "Get c q")
  case (Some p)
  define p' where "p' = attachChild p i d True"
  have p': "ID p' = q" "IsChildrenFetched p'"
    using cache_wf_ID [OF bookkept_wf [OF assms] Some] by (simp_all add: p'_def)
  have "bookkept (register_folder now p' (mutate q (\<lambda>_. p') c))" if "\<not> IsChildrenFetched p"
    unfolding register_folder_def Let_def
    using that assms Some p'
    by (intro bookkept_register [of c _ _ q])
       (auto simp: fetched_at_put fetched_at_def intro: cache_wf_mutate [OF bookkept_wf [OF assms]])
  moreover have "bookkept (mutate q (\<lambda>_. p') c)" if "IsChildrenFetched p"
    using bookkept_put [OF assms Some] p' that by simp
  ultimately show ?thesis using Some p' by (simp add: attach_seed_def Let_def flip: p'_def)
qed (use assms in \<open>simp add: attach_seed_def\<close>)

lemma bookkept_Insert:
  assumes "bookkept c" "\<not> IsChildrenFetched i" "\<not> fetched_at c (ID i)"
  shows "bookkept (Insert now (Some i) c)"
  using assms by (simp add: Insert_def Let_def bookkept_attach_seed bookkept_store)

lemma bookkept_delete:
  assumes bk: "bookkept c" and c1: "c1 = (if fetched_at c i then c\<lparr>cachedFolders := cachedFolders c - 1\<rparr> else c)"
  shows "bookkept (c1\<lparr>inodes := AList.delete i (inodes c1)\<rparr>)" (is "bookkept ?c")
proof -
  have wf: "cache_wf ?c" using bookkept_wf [OF bk] by (auto simp: c1 intro!: cache_wf_delete)
  have "Get ?c j = (if j = i then None else Get c j)" for j by (simp add: c1)
  then have f: "fetched_at ?c j \<longleftrightarrow> fetched_at c j \<and> j \<noteq> i" for j by (simp add: fetched_at_def)
  show ?thesis
  proof (cases "fetched_at c i")
    case True
    then show ?thesis by (intro bookkept_evict [OF bk wf, of i]) (simp_all only: f, simp_all add: c1)
  next
    case False
    then show ?thesis by (intro bookkept_same [OF bk wf]) (simp_all only: f, auto simp: c1)
  qed
qed

lemma bookkept_Delete:
  assumes "bookkept c"
  shows "bookkept (Delete i c)"
proof (cases "Get c i")
  case (Some n)
  define c1 where "c1 = (if ParentID n \<noteq> '''' then mutate (ParentID n) (\<lambda>p. detachChild p i (IsDir n)) c else c)"
  have "bookkept c1" using assms by (simp add: c1_def bookkept_mutate)
  moreover define c2 where "c2 = (if fetched_at c1 i then c1\<lparr>cachedFolders := cachedFolders c1 - 1\<rparr> else c1)"
  ultimately have "bookkept (c2\<lparr>inodes := AList.delete i (inodes c2)\<rparr>)" by (rule bookkept_delete)
  moreover have f: "(case Get c1 i of None \<Rightarrow> False | Some n' \<Rightarrow> IsChildrenFetched n') = fetched_at c1 i"
    by (auto simp: fetched_at_def split: option.split)
  ultimately show ?thesis
    unfolding Delete_def Some option.case Let_def c1_def [symmetric] f c2_def [symmetric] by simp
qed (use assms in \<open>simp add: Delete_def\<close>)

lemma bookkept_MoveChild: "bookkept c \<Longrightarrow> bookkept (MoveChild now p q i c)"
  by (simp add: MoveChild_def Let_def bookkept_attach_seed bookkept_mutate split: option.split)

lemma bookkept_InsertChild:
  assumes "bookkept c" "\<not> IsChildrenFetched i" "\<not> fetched_at c (ID i)"
  shows "bookkept (InsertChild q (Some i) c)"
proof -
  have "bookkept (Store (ID i) (set_parent q i) c)"
    using assms by (intro bookkept_store) simp_all
  then show ?thesis by (auto simp: InsertChild_def Let_def bookkept_mutate split: option.split)
qed

lemma bookkept_Invalidate:
  assumes "bookkept c"
  shows "bookkept (Invalidate now q c)"
proof (cases "Get c q")
  case (Some p)
  define c1 where "c1 = (if IsChildrenFetched p then c\<lparr>cachedFolders := cachedFolders c - 1\<rparr> else c)"
  have wf: "cache_wf (mutate q (SetChildren now None) c1)"
    using bookkept_wf [OF assms] by (auto simp: c1_def intro: cache_wf_mutate_same)
  have f: "fetched_at (mutate q (SetChildren now None) c1) j \<longleftrightarrow> fetched_at c j \<and> j \<noteq> q" for j
    by (auto simp: fetched_at_def c1_def)
  have "bookkept (mutate q (SetChildren now None) c1)"
  proof (cases "IsChildrenFetched p")
    case True
    with Some wf f show ?thesis
      by (intro bookkept_evict [OF assms wf, of q]) (auto simp: c1_def fetched_at_def)
  next
    case False
    with Some wf f show ?thesis
      by (intro bookkept_same [OF assms wf]) (auto simp: c1_def fetched_at_def)
  qed
  with Some show ?thesis by (simp add: Invalidate_def Let_def flip: c1_def)
qed (use assms in \<open>simp add: Invalidate_def\<close>)

lemma bookkept_children_hit:
  assumes bk: "bookkept c" and p: "Get c q = Some p" "IsChildrenFetched p"
  shows "bookkept (fst (children_hit now q p c))"
proof -
  let ?p = "BumpChildrenAccess now p" and ?c = "c\<lparr>hits := hits c + 1\<rparr>"
  have id: "ID p = q" using cache_wf_ID [OF bookkept_wf [OF bk] p(1)] .
  have f: "fetched_at c q" using p by (simp add: fetched_at_def)
  define c1 where "c1 = updateEvictionEntry ?p now (registerTTL ?p (mutate q (\<lambda>_. ?p) ?c))"
  have "bookkept (c1\<lparr>cachedFolders := cachedFolders c\<rparr>)"
    unfolding c1_def by (rule bookkept_register [of c _ _ q])
       (use bk p id f in \<open>auto simp: fetched_at_put fetched_at_def
          intro: cache_wf_mutate [of ?c] simp: bookkept_wf\<close>)
  moreover have "c1\<lparr>cachedFolders := cachedFolders c1\<rparr> = c1" by simp
  moreover have "cachedFolders c1 = cachedFolders c" by (simp add: c1_def)
  ultimately have "bookkept c1" by metis
  then show ?thesis by (simp add: children_hit_def Let_def flip: c1_def)
qed

text \<open>A listing none of whose items is a folder with cached children (the parent included).\<close>

lemma bookkept_store_items:
  "bookkept c \<Longrightarrow> \<forall>item \<in> set items. \<not> fetched_at c (di_ID item) \<Longrightarrow>
     store_items q mark items (c, ids, m) = (c', ids', m') \<Longrightarrow>
     bookkept c' \<and> (\<forall>k. fetched_at c' k = fetched_at c k) \<and> ids' = ids @ map di_ID items \<and>
     (\<forall>k. k \<notin> di_ID ` set items \<longrightarrow> Get c' k = Get c k)"
proof (induction items arbitrary: c ids m)
  case (Cons item items)
  define i where "i = child_inode q item"
  have id: "ID i = di_ID item" by (simp add: i_def)
  have nf: "\<not> IsChildrenFetched i" by (simp add: i_def child_inode_def IsChildrenFetched_def Let_def)
  define c1 where "c1 = (if mark then markDirty (ID i) (Store (ID i) i c) else Store (ID i) i c)"
  have bk: "bookkept c1" using Cons.prems(1,2) id nf by (simp add: c1_def bookkept_store)
  have f: "fetched_at c1 k = fetched_at c k" for k using Cons.prems(2) id nf by (simp add: c1_def)
  have g: "Get c1 k = Get c k" if "k \<noteq> di_ID item" for k using that id by (simp add: c1_def)
  have st: "store_items q mark items (c1, ids @ [ID i], AList.update (Name i) i m) = (c', ids', m')"
    using Cons.prems(3) by (simp only: store_items.simps Let_def i_def [symmetric] c1_def)
  have "\<forall>item \<in> set items. \<not> fetched_at c1 (di_ID item)" using Cons.prems(2) f by simp
  from Cons.IH [OF bk this st] show ?case using f g id by auto
qed simp

text \<open>Writing the parent's inode commutes with its registrations.\<close>

lemma mutate_commutes:
  "mutate q f (updateEvictionEntry p now c) = updateEvictionEntry p now (mutate q f c)"
  "mutate q f (registerTTL p c) = registerTTL p (mutate q f c)"
  "mutate q f (markDirty j c) = markDirty j (mutate q f c)"
  "mutate q f (c\<lparr>cachedFolders := n\<rparr>) = (mutate q f c)\<lparr>cachedFolders := n\<rparr>"
  by (simp_all add: mutate_def updateEvictionEntry_def registerTTL_def markDirty_def markExclusive_def
      generation_of_def Let_def)

lemma bookkept_update_parent:
  assumes bk: "bookkept c" and known: "known = Get c q" and q: "q \<notin> set ids"
  shows "bookkept (update_parent now q known ids mark m c)"
proof -
  define p where "p = (case known of None \<Rightarrow> minimal_parent q | Some p \<Rightarrow> p)"
  define c0 where "c0 = (case known of None \<Rightarrow> Store q p c | Some _ \<Rightarrow> c)"
  define p1 where "p1 = BumpChildrenAccess now (SetChildren now (Some ids) p)"
  define p2 where "p2 = SetSubdir (of_nat (length (filter (\<lambda>(_, i). IsDir i) m))) p1"
  have idp: "ID p = q"
    using cache_wf_ID [OF bookkept_wf [OF bk]] known by (auto simp: p_def split: option.split)
  then have p2: "ID p1 = q" "IsChildrenFetched p1" "ID p2 = q" "IsChildrenFetched p2"
    by (simp_all add: p1_def p2_def)
  have c0: "bookkept c0" "Get c0 q = Some p" "cachedFolders c0 = cachedFolders c"
    using bk known idp
    by (auto simp: c0_def p_def fetched_at_def minimal_parent_def split: option.split intro!: bookkept_store)
  define n where "n = cachedFolders c0 + (if IsChildrenFetched p then 0 else 1)"
  define c1 where "c1 = (let c1 = updateEvictionEntry p1 now (registerTTL p1 (mutate q (\<lambda>_. p2) c0))
     in if IsChildrenFetched p then c1 else c1\<lparr>cachedFolders := cachedFolders c1 + 1\<rparr>)"
  have c1: "c1 = (updateEvictionEntry p1 now (registerTTL p1 (mutate q (\<lambda>_. p2) c0)))\<lparr>cachedFolders := n\<rparr>"
    by (simp add: c1_def n_def Let_def)
  have f: "fetched_at c0 q = IsChildrenFetched p" using c0 by (simp add: fetched_at_def)
  have "bookkept ((updateEvictionEntry p1 now (registerTTL p1 (mutate q (\<lambda>_. p2) c0)))\<lparr>cachedFolders := n\<rparr>)"
    by (rule bookkept_register [OF c0(1), of _ _ q])
       (use c0 p2 f bookkept_wf [OF c0(1)] in \<open>auto simp: fetched_at_put n_def intro!: cache_wf_mutate\<close>)
  then have "bookkept (if mark then markDirty q c1 else c1)" using c1 by simp
  moreover have "update_parent now q known ids mark m c =
      mutate q (\<lambda>_. p2) (let c1 = updateEvictionEntry p1 now (registerTTL p1 c0);
         c1 = (if IsChildrenFetched p then c1 else c1\<lparr>cachedFolders := cachedFolders c1 + 1\<rparr>)
       in if mark then markDirty q c1 else c1)"
    using q by (cases known) (simp_all add: update_parent_def Let_def p1_def p2_def p_def c0_def)
  moreover have "\<dots> = (if mark then markDirty q c1 else c1)"
    by (simp add: Let_def mutate_commutes c1_def)
  ultimately show ?thesis by simp
qed

text \<open>What a fetch may bring: no item that is the folder itself or a folder with cached children.\<close>

definition harmless_listing :: "fetcher \<Rightarrow> ident \<Rightarrow> inode_cache \<Rightarrow> bool" where
  "harmless_listing f q c \<longleftrightarrow>
     (case f (c\<lparr>misses := misses c + 1\<rparr>) q of
        (_, Inl _) \<Rightarrow> True
      | (_, Inr items) \<Rightarrow> \<forall>item \<in> set items. di_ID item \<noteq> q \<and> \<not> fetched_at c (di_ID item))"

lemma bookkept_children_miss:
  assumes bk: "bookkept c" and f: "children_fetcher f" "harmless_listing f q c"
  shows "bookkept (fst (children_miss now q (Get c q) (Some f) mark c))"
proof -
  let ?c = "c\<lparr>misses := misses c + 1\<rparr>"
  obtain c1 r where r: "f ?c q = (c1, r)" by fastforce
  then obtain b where c1: "c1 = ?c\<lparr>offline := b\<rparr>" using children_fetcher.only_offline [OF f(1), of ?c q] by auto
  have bk1: "bookkept c1" using bk by (simp add: c1)
  show ?thesis
  proof (cases r)
    case (Inl e)
    with r bk1 show ?thesis by (simp add: children_miss_def Let_def)
  next
    case (Inr items)
    then have items: "\<forall>item \<in> set items. di_ID item \<noteq> q \<and> \<not> fetched_at c1 (di_ID item)"
      using f(2) r by (simp add: harmless_listing_def c1)
    obtain c2 ids m where st: "store_items q mark items (c1, [], []) = (c2, ids, m)"
      by (cases "store_items q mark items (c1, [], [])")
    have s2: "bookkept c2" "ids = map di_ID items" "Get c2 q = Get c q"
      using bookkept_store_items [OF bk1 _ st] items by (simp_all add: c1 image_iff) metis
    have "bookkept (update_parent now q (Get c q) ids mark m c2)"
      using items s2 by (intro bookkept_update_parent) auto
    with r Inr st show ?thesis by (simp add: children_miss_def Let_def)
  qed
qed

lemma bookkept_getChildren:
  assumes bk: "bookkept c" and f: "children_fetcher f" "harmless_listing f q c"
  shows "bookkept (fst (getChildren now q (Some f) mark c))"
  using bookkept_children_miss [OF assms] bookkept_children_hit [OF bk]
  by (auto simp: getChildren_def split: option.split)

text \<open>The part of the bookkeeping that a pass over one bucket keeps at every entry.\<close>

definition counted_heap :: "inode_cache \<Rightarrow> bool" where
  "counted_heap c \<longleftrightarrow> cache_wf c \<and> heap_covers c \<and> folders_counted c"

lemma counted_heap_shrink:
  assumes "counted_heap c" "cache_wf c'" and "\<And>j. fetched_at c' j \<Longrightarrow> fetched_at c j"
    and "evictionHeap c' = evictionHeap c" "evictionGeneration c' = evictionGeneration c" "folders_counted c'"
  shows "counted_heap c'"
  using assms by (simp add: counted_heap_def heap_covers_alt generation_of_def)

lemma counted_heap_same:
  assumes "counted_heap c" "cache_wf c'" "\<And>j. fetched_at c' j = fetched_at c j"
    "evictionHeap c' = evictionHeap c" "evictionGeneration c' = evictionGeneration c" "cachedFolders c' = cachedFolders c"
  shows "counted_heap c'"
proof -
  have "fetched_folders c' = fetched_folders c"
    using assms by (intro fetched_folders_same) (auto simp: counted_heap_def cache_wf_def)
  with assms show ?thesis
    by (intro counted_heap_shrink [of c c']) (auto simp: counted_heap_def folders_counted_def)
qed

lemma counted_heap_process:
  assumes ch: "counted_heap (fst s)"
  shows "counted_heap (fst (processTTLEntry now e s))"
proof (cases s)
  case (Pair c P)
  define k where "k = te_inodeID e"
  have wf: "cache_wf c" using ch Pair by (simp add: counted_heap_def)
  show ?thesis
  proof (cases "\<exists>i. Get c k = Some i \<and> IsChildrenFetched i \<and> k \<notin> set P")
    case False
    then have "processTTLEntry now e (c, P) = (c, P)"
      by (auto simp: processTTLEntry_cases k_def split: option.split)
    with ch Pair show ?thesis by simp
  next
    case True
    then obtain i where i: "Get c k = Some i" "IsChildrenFetched i" "k \<notin> set P" by blast
    define d where "d = DecayChildrenAccess i"
    have d: "ID d = k" "IsChildrenFetched d" using cache_wf_ID [OF wf i(1)] i by (simp_all add: d_def)
    define c1 where "c1 = mutate k (\<lambda>_. d) c"
    have "cache_wf c1" using wf d by (auto simp: c1_def intro: cache_wf_mutate)
    moreover have "counted_heap c1"
      by (rule counted_heap_same [of c])
         (use ch Pair calculation i d in \<open>auto simp: c1_def fetched_at_put fetched_at_def\<close>)
    moreover define c2 where "c2 = (mutate k EvictChildren c1)\<lparr>evictions := evictions c1 + 1, cachedFolders := cachedFolders c1 - 1\<rparr>"
    have f2: "fetched_at c2 j \<longleftrightarrow> fetched_at c1 j \<and> j \<noteq> k" for j by (auto simp: fetched_at_def c2_def)
    moreover have wf2: "cache_wf c2" using \<open>cache_wf c1\<close> by (simp add: c2_def cache_wf_mutate_same)
    moreover have "fetched_at c1 k" using i d by (simp add: c1_def fetched_at_def)
    ultimately have "int (fetched_folders c2) = int (fetched_folders c1) - 1"
      by (intro fetched_folders_evict [of c1 c2 k]) (auto simp: cache_wf_def)
    then have ch2: "counted_heap c2"
      using \<open>counted_heap c1\<close> wf2 f2
      by (intro counted_heap_shrink [of c1 c2]) (auto simp: c2_def counted_heap_def folders_counted_def)
    have ch3: "counted_heap (registerTTL d c1)"
      by (rule counted_heap_same [of c1]) (use \<open>counted_heap c1\<close> \<open>cache_wf c1\<close> in auto)
    have "fst (processTTLEntry now e (c, P)) = (if now > inode_expiry (baseTTL c) d then c2 else registerTTL d c1)"
      using i by (simp add: processTTLEntry_cases Let_def c2_def c1_def d_def flip: k_def)
    with ch2 ch3 Pair show ?thesis by simp
  qed
qed

lemma bookkept_sweepBucket:
  assumes bk: "bookkept c"
  shows "bookkept (fst (sweepBucket b now (c, [])))"
proof -
  have "counted_heap (c\<lparr>ttlBuckets := (ttlBuckets c)[b := []]\<rparr>)"
    by (rule counted_heap_same [of c])
       (use bk in \<open>auto simp: bookkept_def counted_heap_def cache_wf_clear_bucket fetched_at_def\<close>)
  then have "counted_heap (fst (sweepBucket b now (c, [])))"
    unfolding sweepBucket_def Let_def case_prod_conv
    by (intro fold_invariant_step [where P = "\<lambda>s. counted_heap (fst s)"] counted_heap_process) simp_all
  moreover have "ring_covers (fst (sweepBucket b now (c, [])))"
    using bk by (intro sweepBucket_covers) (auto simp: bookkept_def)
  ultimately show ?thesis by (simp add: bookkept_def counted_heap_def)
qed

lemma heap_covers_evict_loop: "cache_wf c \<Longrightarrow> heap_covers c \<Longrightarrow> heap_covers (evict_loop n now c)"
proof (induction n arbitrary: c)
  case (Suc n)
  show ?case
  proof (rule popEvictable_cases [of c now])
    fix c0 assume "settled c c0" "popEvictableCandidate now c = (None, c0)"
    then show ?thesis using heap_covers_drained [OF Suc.prems] by (simp add: settled_def)
  next
    fix c0 e h
    assume st: "settled c c0" and pop0: "heap_Pop less_entry (evictionHeap c0) = Some (e, h)"
      and pop: "popEvictableCandidate now c = (None, c0\<lparr>evictionHeap := heap_Push less_entry e h\<rparr>)"
    have d: "drained c c0" using st by (simp add: settled_def)
    have "is_heap less_entry (evictionHeap c0)"
      using cache_wf_drained [OF Suc.prems(1) d] by (simp add: cache_wf_def heap_wf_def)
    then have "mset (heap_Push less_entry e h) = mset (evictionHeap c0)"
      using evict_heap.Pop_props(2) [OF _ pop0] evict_heap.mset_Push [of e h] by simp
    then have "set (heap_Push less_entry e h) = set (evictionHeap c0)" by (rule mset_eq_setD)
    moreover have "heap_covers c0" using heap_covers_drained [OF Suc.prems d] .
    ultimately have "heap_covers (c0\<lparr>evictionHeap := heap_Push less_entry e h\<rparr>)"
      by (simp add: heap_covers_def fetched_at_def)
    with pop show ?thesis by simp
  next
    fix c0 e h
    assume "settled c c0" "heap_Pop less_entry (evictionHeap c0) = Some (e, h)" "live_entry c0 e"
      "popEvictableCandidate now c = (Some (ee_id e, ee_score e), c0\<lparr>evictionHeap := h\<rparr>)"
    from evict_loop_victim [OF Suc.prems(1) this, of n] show ?thesis
      using Suc.prems(2) Suc.IH by metis
  qed
qed simp

lemma bookkept_evictChildrenBySizeLimit:
  assumes bk: "bookkept c"
  shows "bookkept (evictChildrenBySizeLimit now c)" (is "bookkept ?c")
proof -
  have wf: "cache_wf c" using bk by (rule bookkept_wf)
  have fr: "size_frame c ?c" and v: "\<And>k. size_visit now (Get c k) (Get ?c k)"
    using size_evicts_limit [OF wf, of now] by (simp_all add: size_evicts_def)
  have "fetched_at c k" if "fetched_at ?c k" for k
    using v [of k] that by (auto simp: size_visit_def fetched_at_def)
  moreover have "in_ring ?c k = in_ring c k" for k
    using fr by (simp add: size_frame_def in_ring_def registered_in_def)
  ultimately have "ring_covers ?c" using bk by (simp add: bookkept_def ring_covers_def)
  moreover have "heap_covers ?c"
    using bk by (simp add: bookkept_def evictChildrenBySizeLimit_def heap_covers_evict_loop)
  moreover have "folders_counted ?c" using fr bk by (simp add: size_frame_def bookkept_def folders_counted_def)
  ultimately show ?thesis using cache_wf_evictChildrenBySizeLimit [OF wf] by (simp add: bookkept_def)
qed

text \<open>A tick that comes less than two seconds after the one before.\<close>

lemma bookkept_tick:
  assumes bk: "bookkept c" and t: "lastSweep c \<noteq> zero_time" "lastSweep c \<le> now" "now < lastSweep c + 2 * second"
  shows "bookkept (sweep now c)"
proof (cases "now < lastSweep c + second")
  case True
  with t bk show ?thesis
    by (simp add: sweep_def sweepExpiredBuckets_early bookkept_evictChildrenBySizeLimit)
next
  case False
  with t bk show ?thesis
    by (simp add: sweep_def sweepExpiredBuckets_regular bookkept_sweepBucket bookkept_evictChildrenBySizeLimit)
qed

section \<open>Tracked runs\<close>

text \<open>
  Steps under the conditions the code relies on: new inodes have no cached children and a free
  identifier, a listing does not replace a folder with cached children, the sweeper is on time.
\<close>

inductive tracked_step :: "inode_cache \<Rightarrow> inode_cache \<Rightarrow> bool" where
  insert: "\<not> IsChildrenFetched i \<Longrightarrow> \<not> fetched_at c (ID i) \<Longrightarrow> tracked_step c (Insert now (Some i) c)"
| delete: "tracked_step c (Delete i c)"
| fetch: "children_fetcher f \<Longrightarrow> harmless_listing f q c \<Longrightarrow>
    tracked_step c (fst (getChildren now q (Some f) mark c))"
| insert_child: "\<not> IsChildrenFetched i \<Longrightarrow> \<not> fetched_at c (ID i) \<Longrightarrow> tracked_step c (InsertChild q (Some i) c)"
| move_child: "tracked_step c (MoveChild now p q i c)"
| invalidate: "tracked_step c (Invalidate now q c)"
| tick: "lastSweep c \<noteq> zero_time \<Longrightarrow> lastSweep c \<le> now \<Longrightarrow> now < lastSweep c + 2 * second \<Longrightarrow>
    tracked_step c (sweep now c)"
| size_limit: "tracked_step c (evictChildrenBySizeLimit now c)"

inductive tracked :: "inode_cache \<Rightarrow> bool" where
  start: "tracked (NewInodeCache\<lparr>lastSweep := t, baseTTL := ttl, maxEntries := n\<rparr>)"
| step: "tracked c \<Longrightarrow> tracked_step c c' \<Longrightarrow> tracked c'"

lemma tracked_step_bookkept: "tracked_step c c' \<Longrightarrow> bookkept c \<Longrightarrow> bookkept c'"
  by (induction rule: tracked_step.induct)
     (auto intro: bookkept_Insert bookkept_Delete bookkept_getChildren bookkept_InsertChild bookkept_MoveChild
        bookkept_Invalidate bookkept_tick bookkept_evictChildrenBySizeLimit)

lemma tracked_bookkept: "tracked c \<Longrightarrow> bookkept c"
proof (induction rule: tracked.induct)
  case start
  show ?case by (rule bookkept_same [OF bookkept_new]) (auto simp: cache_wf_new fetched_at_def Get_def)
qed (rule tracked_step_bookkept)

end
