(* ===== verification/Cache_Examples.thy ===== *)
theory Cache_Examples
  imports Inode_Cache_Book
begin

text \<open>
  Concrete caches on which the properties are instantiated: folders that were listed at one time.
\<close>

section \<open>Example caches\<close>

definition ex_folder :: "ident \<Rightarrow> time \<Rightarrow> 64 word \<Rightarrow> inode" where
  "ex_folder k t n = (inode_of_item (zero_item\<lparr>di_ID := k, di_Name := k, di_Folder := Some \<lparr>ChildCount = 0\<rparr>\<rparr>))
     \<lparr>children := Some [], childrenAccessCount := n, childrenLastAccess := t, childrenCachedAt := t\<rparr>"

text \<open>A cache whose folders \<open>ks\<close> were listed at time \<open>t\<close>, each read \<open>n\<close> times.\<close>

definition ex_cache :: "time \<Rightarrow> 64 word \<Rightarrow> ident list \<Rightarrow> inode_cache" where
  "ex_cache t n ks = fold (\<lambda>k c. register_folder t (ex_folder k t n) (Store k (ex_folder k t n) c)) ks
     (NewInodeCache\<lparr>lastSweep := t + 10 * second, maxEntries := 1\<rparr>)"

lemma ex_folder_simps [simp]:
  "ID (ex_folder k t n) = k" "IsChildrenFetched (ex_folder k t n)" "childrenLastAccess (ex_folder k t n) = t"
  "childrenAccessCount (ex_folder k t n) = n" "IsDir (ex_folder k t n)"
  by (simp_all add: ex_folder_def inode_defs IsFolder_def)

lemma register_folder_frame [simp]:
  "Get (register_folder now p c) k = Get c k" "baseTTL (register_folder now p c) = baseTTL c"
  "lastSweep (register_folder now p c) = lastSweep c" "maxEntries (register_folder now p c) = maxEntries c"
  "inodes (register_folder now p c) = inodes c"
  by (simp_all add: register_folder_def Let_def Get_def registerTTL_def updateEvictionEntry_def)

lemma ex_cache_base [simp]:
  "baseTTL (ex_cache t n ks) = 60 * second" "lastSweep (ex_cache t n ks) = t + 10 * second"
  "maxEntries (ex_cache t n ks) = 1"
proof -
  let ?step = "\<lambda>k c. register_folder t (ex_folder k t n) (Store k (ex_folder k t n) c)"
  have "baseTTL (fold ?step ks c) = baseTTL c \<and> lastSweep (fold ?step ks c) = lastSweep c \<and>
      maxEntries (fold ?step ks c) = maxEntries c" for c
    by (induction ks arbitrary: c) (simp_all add: Store_def)
  then show "baseTTL (ex_cache t n ks) = 60 * second" "lastSweep (ex_cache t n ks) = t + 10 * second"
    "maxEntries (ex_cache t n ks) = 1"
    by (simp_all add: ex_cache_def NewInodeCache_def)
qed

lemma Get_ex_cache: "Get (ex_cache t n ks) k = (if k \<in> set ks then Some (ex_folder k t n) else None)"
proof -
  have "Get (fold (\<lambda>k c. register_folder t (ex_folder k t n) (Store k (ex_folder k t n) c)) ks c) k =
      (if k \<in> set ks then Some (ex_folder k t n) else Get c k)" for c
    by (induction ks arbitrary: c) auto
  then show ?thesis by (simp add: ex_cache_def NewInodeCache_def Get_def)
qed

lemma bookkept_ex_cache: "distinct ks \<Longrightarrow> bookkept (ex_cache t n ks)"
proof -
  let ?c0 = "NewInodeCache\<lparr>lastSweep := t + 10 * second, maxEntries := 1\<rparr>"
  let ?step = "\<lambda>k c. register_folder t (ex_folder k t n) (Store k (ex_folder k t n) c)"
  have "distinct ks \<Longrightarrow> bookkept c \<Longrightarrow> \<forall>k \<in> set ks. \<not> fetched_at c k \<Longrightarrow> bookkept (fold ?step ks c)" for c
  proof (induction ks arbitrary: c)
    case (Cons k ks)
    have wf: "cache_wf (Store k (ex_folder k t n) c)"
      using bookkept_wf [OF Cons.prems(2)] by (simp add: cache_wf_Store)
    have "bookkept (?step k c)"
      unfolding register_folder_def Let_def
      by (rule bookkept_register [OF Cons.prems(2) wf, of _ k]) (use Cons.prems in auto)
    moreover have "\<forall>j \<in> set ks. \<not> fetched_at (?step k c) j"
      using Cons.prems by (auto simp: fetched_at_def)
    ultimately have "bookkept (fold ?step ks (?step k c))" using Cons.prems(1) by (intro Cons.IH) auto
    then show ?case by simp
  qed simp
  moreover have "tracked ?c0" using tracked.start [where ttl = "baseTTL NewInodeCache"] by simp
  moreover have "\<not> fetched_at ?c0 k" for k by (simp add: fetched_at_def Get_def NewInodeCache_def)
  ultimately show "distinct ks \<Longrightarrow> bookkept (ex_cache t n ks)"
    unfolding ex_cache_def using tracked_bookkept by auto
qed

end
