(* ===== verification/Inode_Cache_Props.thy ===== *)
theory Inode_Cache_Props
  imports Cache_Examples
begin

text \<open>
  The properties of the metadata cache: its invariants, the parity of the bucket sweep with the
  scan it replaced, TTL eviction under a regular clock and its two gaps, the size limit, listing
  folders, and the tree edits.
\<close>

section \<open>Invariants\<close>

text \<open>
  C2: In every reachable state of the metadata cache each inode is stored once, under its own
  identifier; the TTL ring has 60 buckets and every registration is in the bucket of its expiry
  second; the eviction slice is a heap for \<^verbatim>\<open>less\<close>; and no identifier is both dirty and deleted.
\<close>

theorem cache_invariant:
  assumes "cache_reachable c"
  shows "keys_distinct (inodes c) \<and> (\<forall>k i. Get c k = Some i \<longrightarrow> ID i = k) \<and>
    length (ttlBuckets c) = 60 \<and>
    (\<forall>b < 60. \<forall>e \<in> set (ttlBuckets c ! b). ttlBucketIndex (te_expiry e) = b) \<and>
    is_heap less_entry (evictionHeap c) \<and>
    distinct (dirty c) \<and> distinct (deleted c) \<and> set (dirty c) \<inter> set (deleted c) = {}"
  using cache_reachable_wf [OF assms]
  by (simp add: cache_wf_def inodes_wf_def ring_wf_def heap_wf_def dirty_wf_def ttlBucketCount_def)

theorem cache_invariant_witness:
  "set (dirty (Delete ''A'' (Insert 5 (Some (ex_folder ''A'' 1 2)) NewInodeCache))) \<inter>
   set (deleted (Delete ''A'' (Insert 5 (Some (ex_folder ''A'' 1 2)) NewInodeCache))) = {}"
proof -
  have "cache_reachable (Delete ''A'' (Insert 5 (Some (ex_folder ''A'' 1 2)) NewInodeCache))"
    by (meson cache_reachable.intros cache_step.intros)
  from cache_invariant [OF this] show ?thesis by simp
qed

text \<open>
  C3: In every state of a tracked run each folder with cached children has a registration in the
  TTL ring and an entry of the current generation in the eviction heap, and \<^verbatim>\<open>cachedFolders\<close> is
  exactly the number of such folders.
\<close>

theorem eviction_bookkeeping:
  assumes "tracked c"
  shows "(\<forall>k i. Get c k = Some i \<and> IsChildrenFetched i \<longrightarrow>
       (\<exists>b < 60. \<exists>e \<in> set (ttlBuckets c ! b). te_inodeID e = k) \<and>
       (\<exists>e \<in> set (evictionHeap c). ee_id e = k \<and> ee_generation e = generation_of c k)) \<and>
     cachedFolders c = int (length (filter (\<lambda>(_, i). IsChildrenFetched i) (inodes c)))"
proof -
  have bk: "bookkept c" using assms by (rule tracked_bookkept)
  have len: "length (ttlBuckets c) = 60"
    using bk by (simp add: bookkept_def cache_wf_def ring_wf_def ttlBucketCount_def)
  have "in_ring c k \<and> (\<exists>e \<in> set (evictionHeap c). ee_id e = k \<and> ee_generation e = generation_of c k)"
    if "Get c k = Some i" "IsChildrenFetched i" for k i
    using bk that by (auto simp: bookkept_def ring_covers_def heap_covers_alt fetched_at_def)
  moreover have "in_ring c k \<Longrightarrow> \<exists>b < 60. \<exists>e \<in> set (ttlBuckets c ! b). te_inodeID e = k" for k
    using len by (auto simp: in_ring_def registered_in_def)
  ultimately show ?thesis using bk by (auto simp: bookkept_def folders_counted_def fetched_folders_def)
qed

definition ex_run :: inode_cache where
  "ex_run = Insert 7 (Some (inode_of_item (zero_item\<lparr>di_ID := ''B'', di_Parent := Some (parent_ref ''A'')\<rparr>)))
     (Insert 5 (Some (inode_of_item (zero_item\<lparr>di_ID := ''A'', di_Folder := Some \<lparr>ChildCount = 0\<rparr>\<rparr>)))
       (NewInodeCache\<lparr>lastSweep := 1, baseTTL := 60 * second, maxEntries := 10\<rparr>))"

theorem eviction_bookkeeping_witness:
  "tracked ex_run \<and> cachedFolders ex_run = int (length (filter (\<lambda>(_, i). IsChildrenFetched i) (inodes ex_run))) \<and>
   cachedFolders ex_run = 1"
proof -
  let ?A = "inode_of_item (zero_item\<lparr>di_ID := ''A'', di_Folder := Some \<lparr>ChildCount = 0\<rparr>\<rparr>)"
  let ?B = "inode_of_item (zero_item\<lparr>di_ID := ''B'', di_Parent := Some (parent_ref ''A'')\<rparr>)"
  let ?c = "NewInodeCache\<lparr>lastSweep := 1, baseTTL := 60 * second, maxEntries := 10\<rparr>"
  have 1: "tracked (Insert 5 (Some ?A) ?c)"
    by (rule tracked.step [OF tracked.start], rule tracked_step.insert)
       (simp_all add: fetched_at_def Get_def NewInodeCache_def)
  have A: "Insert 5 (Some ?A) ?c = markDirty ''A'' (Store ''A'' ?A ?c)"
    by (simp add: Insert_def Let_def ParentID_def zero_item_def ID_def)
  have 2: "tracked ex_run"
    unfolding ex_run_def
    by (rule tracked.step [OF 1], rule tracked_step.insert)
       (unfold A, simp_all add: fetched_at_def Get_def NewInodeCache_def Store_def)
  have "ParentID ?B = ''A''" "ID ?B = ''B''" by (simp_all add: ParentID_def parent_ref_def ID_def)
  then have "cachedFolders ex_run = 1"
    unfolding ex_run_def A
    by (simp add: Insert_def Let_def attach_seed_def register_folder_def)
       (simp add: NewInodeCache_def)
  with eviction_bookkeeping [OF 2] 2 show ?thesis by simp
qed

section \<open>TTL eviction\<close>

text \<open>
  C31: \<^verbatim>\<open>effectiveTTL\<close> computes, without rounding error, the base TTL times \<open>1 + n/2\<close>, capped at 20,
  for every base below 62 hours; so it lies between one and twenty base TTLs and never shrinks
  when the access count grows.
\<close>

theorem effectiveTTL_exact:
  assumes "0 \<le> base" "base * 40 < 2 ^ 53"
  shows "effectiveTTL base n = base * int (min (unat n + 2) 40) div 2 \<and>
    base \<le> effectiveTTL base n \<and> effectiveTTL base n \<le> 20 * base \<and>
    (m \<le> n \<longrightarrow> effectiveTTL base m \<le> effectiveTTL base n)"
  using effectiveTTL_eq [OF assms] effectiveTTL_bounds [OF assms] by blast

theorem effectiveTTL_exact_witness:
  "effectiveTTL (60 * second) 3 = 150 * second \<and> effectiveTTL (60 * second) (2 ^ 63) = 20 * 60 * second"
  using effectiveTTL_exact [of "60 * second" 3] effectiveTTL_exact [of "60 * second" "2 ^ 63"] by simp

text \<open>
  C29: The sweep of the bucket of the second \<^verbatim>\<open>now\<close> does to every inode registered there exactly what
  the full scan does to it (one decay, then eviction if the decayed deadline has passed), and does
  nothing to any other inode.
\<close>

theorem bucket_sweep_parity:
  assumes "cache_wf c"
  shows "Get (sweepExpiredBucket now c) k =
    (if k \<in> te_inodeID ` set (ttlBuckets c ! ttlBucketIndex now)
     then Get (evictExpiredChildrenFullScan now c) k else Get c k)"
  using assms
  by (simp add: sweepExpiredBucket_def Get_sweepBucket Get_FullScan registered_in_def cache_wf_def)

theorem bucket_sweep_parity_witness:
  "cache_wf (ex_cache (40 * second) 5 [''A'']) \<and>
   Get (sweepExpiredBucket (250 * second) (ex_cache (40 * second) 5 [''A''])) ''A'' =
     (if ''A'' \<in> te_inodeID ` set (ttlBuckets (ex_cache (40 * second) 5 [''A'']) ! 10)
      then Get (evictExpiredChildrenFullScan (250 * second) (ex_cache (40 * second) 5 [''A''])) ''A''
      else Some (ex_folder ''A'' (40 * second) 5))"
proof -
  have wf: "cache_wf (ex_cache (40 * second) 5 [''A''])" by (rule bookkept_wf) (simp add: bookkept_ex_cache)
  have "ttlBucketIndex (250 * second) = 10" by (simp add: ttlBucketIndex_eq time_unix_def)
  with bucket_sweep_parity [OF wf, of "250 * second" "''A''"] wf show ?thesis by (simp add: Get_ex_cache)
qed

text \<open>
  C30: With ticks one second apart, a folder that has not been used for twenty base TTLs loses its
  cached children within sixty ticks, whatever its access count and however full the cache is.
\<close>

theorem regular_clock_evicts:
  assumes "bookkept c" "lastSweep c = T" "zero_time < T"
    and "0 \<le> baseTTL c" "baseTTL c * 40 < 2 ^ 53"
    and "Get c k = Some i" "childrenLastAccess i + 20 * baseTTL c < T + second"
  shows "case Get (run_clock T 60 c) k of None \<Rightarrow> True | Some i' \<Rightarrow> \<not> IsChildrenFetched i'"
proof -
  have wf: "cache_wf c" using assms(1) by (rule bookkept_wf)
  then have "awaits (childrenLastAccess i) (baseTTL c) k {..<ttlBucketCount} c"
    using assms(1,6)
    by (auto simp: awaits_def bookkept_def ring_covers_def in_ring_def cache_wf_def ring_wf_def)
  from awaits_clock [OF wf this assms(2-5) assms(7), of 60]
  have "\<not> fetched_at (run_clock T 60 c) k"
    unfolding clock_meets_all_buckets by (auto simp: awaits_def)
  then show ?thesis by (auto simp: fetched_at_def split: option.split)
qed

theorem regular_clock_evicts_witness:
  "case Get (run_clock (1500 * second) 60 ((ex_cache (40 * second) 5 [''A''])\<lparr>lastSweep := 1500 * second\<rparr>)) ''A'' of
     None \<Rightarrow> True | Some i' \<Rightarrow> \<not> IsChildrenFetched i'"
proof (rule regular_clock_evicts [where i = "ex_folder ''A'' (40 * second) 5"])
  show "bookkept ((ex_cache (40 * second) 5 [''A''])\<lparr>lastSweep := 1500 * second\<rparr>)"
    by (simp add: bookkept_ex_cache)
qed (simp_all add: zero_time_def Get_ex_cache)

text \<open>
  Ticks that each come less than one second after the tick before sweep nothing at all: over
  any such run the only change is \<^verbatim>\<open>lastSweep\<close>, so no folder is ever evicted by TTL.
\<close>

theorem early_ticks_never_evict:
  assumes "lastSweep c \<noteq> zero_time" "early_ticks (lastSweep c) ns"
  shows "fold sweepExpiredBuckets ns c = c\<lparr>lastSweep := last (lastSweep c # ns)\<rparr>"
  using assms by (rule early_ticks_idle)

theorem early_ticks_never_evict_witness:
  "fold sweepExpiredBuckets [5000 * second, 5000 * second + 999999999, 5001 * second + 999999998]
     ((ex_cache (40 * second) 5 [''A''])\<lparr>lastSweep := 5000 * second\<rparr>)
   = (ex_cache (40 * second) 5 [''A''])\<lparr>lastSweep := 5001 * second + 999999998\<rparr>"
  using early_ticks_never_evict [of "(ex_cache (40 * second) 5 [''A''])\<lparr>lastSweep := 5000 * second\<rparr>"
      "[5000 * second, 5000 * second + 999999999, 5001 * second + 999999998]"]
  by (simp add: zero_time_def)

text \<open>
  When the sweep was late by more than the ring (60 s), a folder that is still fresh and whose
  new deadline falls in a later bucket than its only registration keeps its cached children but
  is left without any registration: the pass clears the bucket it has just put the folder in.
\<close>

lemma late_sweep_drops_registration:
  assumes "cache_wf c" "lastSweep c \<noteq> zero_time" "now - lastSweep c > 60 * second" "now - lastSweep c < 2 ^ 63"
    and "Get c k = Some i" "IsChildrenFetched i"
    and "now \<le> inode_expiry (baseTTL c) (DecayChildrenAccess i)"
    and "\<And>b'. b' < 60 \<Longrightarrow> k \<in> te_inodeID ` set (ttlBuckets c ! b') \<longleftrightarrow> b' = b"
    and "b < ttlBucketIndex (inode_expiry (baseTTL c) (DecayChildrenAccess i))"
  shows "Get (sweepExpiredBuckets now c) k = Some (DecayChildrenAccess i) \<and>
    (\<forall>b < 60. k \<notin> te_inodeID ` set (ttlBuckets (sweepExpiredBuckets now c) ! b))"
proof -
  obtain c' P' where pass: "fold (\<lambda>j. sweepBucket j now) [0..<ttlBucketCount] (c, []) = (c', P')" by fastforce
  have sw: "sweepExpiredBuckets now c = c'\<lparr>lastSweep := now\<rparr>"
    using assms(2-4) pass
    by (simp add: sweepExpiredBuckets_def time_sub_def max_duration_def min_duration_def ttlBucketWidth_def
        ttlBucketCount_def)
  have only: "registered_in c b' k \<longleftrightarrow> b' = b" if "b' < ttlBucketCount" for b'
    using assms(8) that by (simp add: registered_in_def ttlBucketCount_def)
  have "Get c' k = Some (DecayChildrenAccess i) \<and> \<not> in_ring c' k"
    by (rule ring_pass_loses [OF assms(1,5,6,7) only assms(9) pass])
  moreover have "length (ttlBuckets c') = 60"
    using cache_wf_sweepExpiredBuckets [OF assms(1), of now]
    by (simp add: sw cache_wf_def ring_wf_def ttlBucketCount_def)
  ultimately show ?thesis by (simp add: sw in_ring_def registered_in_def)
qed

section \<open>Size limit\<close>

text \<open>
  A pass of the size limit only ever drops the children of folders that have been idle for
  at least five seconds, leaves every other inode and the dirty sets as they are, and keeps the
  difference between \<^verbatim>\<open>cachedFolders\<close> and the true number of cached folders.
\<close>

lemma size_limit_spares_active:
  assumes "cache_wf c"
  shows "(Get (evictChildrenBySizeLimit now c) k = Get c k \<or>
      (\<exists>i. Get c k = Some i \<and> IsChildrenFetched i \<and> 5 * second \<le> time_sub now (childrenLastAccess i) \<and>
           Get (evictChildrenBySizeLimit now c) k = Some (EvictChildren i))) \<and>
    dirty (evictChildrenBySizeLimit now c) = dirty c \<and> deleted (evictChildrenBySizeLimit now c) = deleted c \<and>
    cachedFolders (evictChildrenBySizeLimit now c) - int (fetched_folders (evictChildrenBySizeLimit now c)) =
      cachedFolders c - int (fetched_folders c)"
  using size_evicts_limit [OF assms, of now]
  by (auto simp: size_evicts_def size_frame_def size_visit_def idle_def sizeEvictIdleGrace_def)

text \<open>
  The folder the size limit chooses holds the least live entry of the eviction heap: no other
  folder with a current entry has a lower score, nor an equal score and an older cache time.
\<close>

lemma size_limit_victim_least:
  assumes "cache_wf c" "popEvictableCandidate now c = (Some (k, score), c')"
  shows "\<exists>e \<in> set (evictionHeap c). ee_id e = k \<and> ee_score e = score \<and> live_entry c e \<and>
    sizeEvictable (Get c k) now \<and>
    (\<forall>e' \<in> set (evictionHeap c). live_entry c e' \<longrightarrow>
       score < ee_score e' \<or> score = ee_score e' \<and> ee_age e \<le> ee_age e')"
  using victim_least [OF assms] by (auto simp: less_entry_def) (metis linorder_cases not_less)

lemma ex_pop:
  "\<exists>s c'. popEvictableCandidate (50 * second) (ex_cache (40 * second) 5 [''A'']) = (Some (''A'', s), c')"
proof -
  define c where "c = ex_cache (40 * second) 5 [''A'']"
  let ?f = "ex_folder ''A'' (40 * second) 5"
  define e where "e = \<lparr>ee_id = ''A'', ee_score = sizeScore ?f (40 * second), ee_age = childrenCachedAt ?f, ee_generation = 1\<rparr>"
  have h: "evictionHeap c = [e]" "generation_of c ''A'' = 1"
    by (simp_all add: c_def ex_cache_def register_folder_def updateEvictionEntry_def Let_def e_def generation_of_def
        NewInodeCache_def registerTTL_def Store_def heap_Push_def heap_up_stop)
  have "heap_Pop less_entry [e] = Some (e, [])"
    by (simp add: heap_Pop_def Let_def heap_down_stop lswap_def)
  moreover have "ee_id e = ''A''" "live_entry c e" "sizeEvictable (Get c (ee_id e)) (50 * second)"
    using h(2) by (simp_all add: e_def live_entry_def c_def Get_ex_cache sizeEvictable_def time_sub_def
        max_duration_def min_duration_def sizeEvictIdleGrace_def)
  ultimately show ?thesis unfolding c_def [symmetric] by (subst popEvictableCandidate_unfold) (simp add: h)
qed

text \<open>
  If the bookkeeping is complete and every cached folder has been idle for five seconds, a
  pass of the size limit leaves exactly \<^verbatim>\<open>maxEntries\<close> cached folders, or all of them if there were fewer.
\<close>

lemma size_limit_bound:
  assumes "bookkept c" "0 < maxEntries c"
    and "\<And>k i. Get c k = Some i \<Longrightarrow> IsChildrenFetched i \<Longrightarrow> 5 * second \<le> time_sub now (childrenLastAccess i)"
  shows "int (fetched_folders (evictChildrenBySizeLimit now c)) = min (maxEntries c) (int (fetched_folders c))"
proof -
  have n: "cachedFolders c = int (fetched_folders c)" and wf: "cache_wf c" "heap_covers c"
    using assms(1) by (simp_all add: bookkept_def folders_counted_def)
  have idle: "all_idle now c" using assms(3) by (auto simp: all_idle_def idle_def sizeEvictIdleGrace_def)
  show ?thesis
  proof (cases "cachedFolders c \<le> maxEntries c")
    case True
    with n assms(2) show ?thesis by (simp add: evictChildrenBySizeLimit_def)
  next
    case False
    define d where "d = nat (cachedFolders c - maxEntries c)"
    have "d \<le> fetched_folders c" using n assms(2) False by (simp add: d_def nat_le_iff)
    from evict_loop_count [OF wf idle this] False n assms(2) show ?thesis
      by (simp add: evictChildrenBySizeLimit_def d_def)
  qed
qed

section \<open>Listing a folder\<close>

lemma store_items_result:
  "store_items q mark items (c, ids, m) = (c', ids', m') \<Longrightarrow>
     ids' = ids @ map di_ID items \<and> baseTTL c' = baseTTL c \<and>
     (\<forall>k. Get c' k = (case find (\<lambda>it. di_ID it = k) (rev items) of
        None \<Rightarrow> Get c k | Some it \<Rightarrow> Some (child_inode q it))) \<and>
     (\<forall>n. map_of m' n = (case find (\<lambda>it. di_Name it = n) (rev items) of
        None \<Rightarrow> map_of m n | Some it \<Rightarrow> Some (child_inode q it)))"
proof (induction items arbitrary: c ids m)
  case (Cons item items)
  define i where "i = child_inode q item"
  have i: "ID i = di_ID item" "Name i = di_Name item"
    by (simp_all add: i_def) (simp add: child_inode_def inode_defs Let_def)
  define c1 where "c1 = (if mark then markDirty (ID i) (Store (ID i) i c) else Store (ID i) i c)"
  have c1: "Get c1 k = (if k = di_ID item then Some i else Get c k)" "baseTTL c1 = baseTTL c" for k
    by (simp_all add: c1_def i)
  have st: "store_items q mark items (c1, ids @ [ID i], AList.update (Name i) i m) = (c', ids', m')"
    using Cons.prems by (simp only: store_items.simps Let_def i_def [symmetric] c1_def)
  from Cons.IH [OF st] show ?case
    using c1 i by (auto simp: find_append alist_simps simp flip: i_def split: option.split)
qed simp

lemma find_rev_distinct_id:
  assumes "distinct (map di_ID items)" "it \<in> set items"
  shows "find (\<lambda>x. di_ID x = di_ID it) (rev items) = Some it"
proof (cases "find (\<lambda>x. di_ID x = di_ID it) (rev items)")
  case None
  with assms(2) show ?thesis by (auto simp: find_None_iff)
next
  case (Some x)
  then have "x \<in> set (rev items)" "di_ID x = di_ID it"
    unfolding find_Some_iff by (metis nth_mem, metis)
  then have "x = it" using assms by (auto simp: distinct_map dest: inj_onD)
  with Some show ?thesis by simp
qed

lemma map_of_buildChildMap:
  assumes "\<And>it. it \<in> set items \<Longrightarrow> Get c (di_ID it) = Some (child_inode q it)"
  shows "map_of (buildChildMap c (map di_ID items)) n =
    map_option (child_inode q) (find (\<lambda>it. di_Name it = n) (rev items))"
proof -
  have nm: "Name (child_inode q it) = di_Name it" for it
    by (simp add: child_inode_def inode_defs Let_def)
  have "map_of (fold (\<lambda>i m. case Get c i of None \<Rightarrow> m | Some ch \<Rightarrow> AList.update (Name ch) ch m) (map di_ID items) m) n =
     (case find (\<lambda>it. di_Name it = n) (rev items) of None \<Rightarrow> map_of m n | Some it \<Rightarrow> Some (child_inode q it))" for m
    using assms by (induction items arbitrary: m) (auto simp: find_append alist_simps nm split: option.split)
  from this [of "[]"] show ?thesis by (simp add: buildChildMap_def split: option.split)
qed

text \<open>The cache after a successful fetch: the parent lists the items, each item is stored.\<close>

lemma children_miss_result:
  assumes wf: "cache_wf c" and known: "known = Get c q"
    and fetch: "f (c\<lparr>misses := misses c + 1\<rparr>) q = (c0, Inr items)" "c0 = c\<lparr>misses := misses c + 1, offline := b\<rparr>"
    and items: "distinct (map di_ID items)" "q \<notin> di_ID ` set items"
    and res: "children_miss now q known (Some f) mark c = (c', r)"
  obtains m p where "r = Inr m" "baseTTL c' = baseTTL c"
    "\<And>n. map_of m n = map_option (child_inode q) (find (\<lambda>it. di_Name it = n) (rev items))"
    "Get c' q = Some p" "children p = Some (map di_ID items)" "childrenCachedAt p = now"
    "\<And>it. it \<in> set items \<Longrightarrow> Get c' (di_ID it) = Some (child_inode q it)"
proof -
  obtain c2 ids m where st: "store_items q mark items (c0, [], []) = (c2, ids, m)"
    by (cases "store_items q mark items (c0, [], [])")
  note sr = store_items_result [OF st]
  have ids: "ids = map di_ID items" and base2: "baseTTL c2 = baseTTL c" using sr fetch(2) by auto
  have stored: "Get c2 (di_ID it) = Some (child_inode q it)" if "it \<in> set items" for it
    using sr find_rev_distinct_id [OF items(1) that] by simp
  have nq: "q \<notin> set ids" using items(2) ids by auto
  have r: "c' = update_parent now q known ids mark m c2" "r = Inr m"
    using res fetch(1) st by (simp_all add: children_miss_def Let_def)
  define p where "p = SetSubdir (of_nat (length (filter (\<lambda>(_, i). IsDir i) m)))
     (BumpChildrenAccess now (SetChildren now (Some ids) (case known of None \<Rightarrow> minimal_parent q | Some p \<Rightarrow> p)))"
  have "find (\<lambda>it. di_ID it = q) (rev items) = None" using items(2) by (auto simp: find_None_iff)
  then have getq: "Get c2 q = Get c q" using sr fetch(2) by simp
  have c': "Get c' k = (if k = q then Some p else Get c2 k)" "baseTTL c' = baseTTL c2" for k
    using nq known getq by (auto simp: r update_parent_def Let_def p_def split: option.split)
  have "children p = Some ids" "childrenCachedAt p = now"
    by (simp_all add: p_def SetSubdir_def BumpChildrenAccess_def SetChildren_def)
  moreover have "Get c' (di_ID it) = Some (child_inode q it)" if "it \<in> set items" for it
    using that stored items(2) c' by auto
  moreover have "map_of m n = map_option (child_inode q) (find (\<lambda>it. di_Name it = n) (rev items))" for n
    using sr by (simp split: option.split)
  ultimately show thesis using that [of m p] r(2) c' base2 ids by simp
qed

lemma listing_hit_lemma:
  assumes "Get c q = Some p" "children p = Some cs"
    and "time_sub now (childrenCachedAt p) < effectiveTTL (baseTTL c) (childrenAccessCount p)"
  shows "\<exists>c'. getChildren now q fetch mark c = (c', Inr (buildChildMap c' cs)) \<and>
    hits c' = hits c + 1 \<and> misses c' = misses c \<and> dirty c' = dirty c \<and> offline c' = offline c \<and>
    Get c' q = Some (p\<lparr>childrenAccessCount := childrenAccessCount p + 1, childrenLastAccess := now\<rparr>) \<and>
    (\<forall>k. k \<noteq> q \<longrightarrow> Get c' k = Get c k)"
proof -
  have "getChildren now q fetch mark c = children_hit now q p c"
    using assms by (simp add: getChildren_def isChildrenFresh_def IsChildrenFetched_def)
  moreover have "Children (BumpChildrenAccess now p) = Some cs"
    using assms(2) by (simp add: Children_def BumpChildrenAccess_def)
  ultimately show ?thesis
    using assms(1)
    by (simp add: children_hit_def Let_def)
       (simp add: BumpChildrenAccess_def mutate_def registerTTL_def updateEvictionEntry_def Let_def)
qed

text \<open>
  A folder whose cached children are fresh is served from the cache: the fetcher is never
  called, one hit is counted, the access time and count of the folder move on, and the answer is
  built from the stored children.
\<close>

theorem listing_hit:
  assumes "Get c q = Some p" "children p = Some cs"
    and "time_sub now (childrenCachedAt p) < effectiveTTL (baseTTL c) (childrenAccessCount p)"
  shows "\<exists>c'. getChildren now q fetch mark c = (c', Inr (buildChildMap c' cs)) \<and>
    hits c' = hits c + 1 \<and> misses c' = misses c \<and> dirty c' = dirty c \<and> offline c' = offline c \<and>
    Get c' q = Some (p\<lparr>childrenAccessCount := childrenAccessCount p + 1, childrenLastAccess := now\<rparr>) \<and>
    (\<forall>k. k \<noteq> q \<longrightarrow> Get c' k = Get c k)"
  using assms by (rule listing_hit_lemma)

theorem listing_hit_witness:
  "\<exists>c'. getChildren (50 * second) ''A'' None True (ex_cache (40 * second) 5 [''A'']) = (c', Inr (buildChildMap c' [])) \<and>
     hits c' = hits (ex_cache (40 * second) 5 [''A'']) + 1"
proof -
  have "effectiveTTL (60 * second) 5 = 210 * second" by (simp add: effectiveTTL_eq)
  then have "time_sub (50 * second) (childrenCachedAt (ex_folder ''A'' (40 * second) 5))
      < effectiveTTL (60 * second) 5"
    by (simp add: ex_folder_def time_sub_def max_duration_def min_duration_def)
  moreover have "children (ex_folder ''A'' (40 * second) 5) = Some []" by (simp add: ex_folder_def)
  ultimately have "\<exists>c'. getChildren (50 * second) ''A'' None True (ex_cache (40 * second) 5 [''A'']) = (c', Inr (buildChildMap c' [])) \<and>
      hits c' = hits (ex_cache (40 * second) 5 [''A'']) + 1 \<and> misses c' = misses (ex_cache (40 * second) 5 [''A'']) \<and>
      dirty c' = dirty (ex_cache (40 * second) 5 [''A'']) \<and> offline c' = offline (ex_cache (40 * second) 5 [''A'']) \<and>
      Get c' ''A'' = Some ((ex_folder ''A'' (40 * second) 5)\<lparr>childrenAccessCount := childrenAccessCount (ex_folder ''A'' (40 * second) 5) + 1,
        childrenLastAccess := 50 * second\<rparr>) \<and> (\<forall>k. k \<noteq> ''A'' \<longrightarrow> Get c' k = Get (ex_cache (40 * second) 5 [''A'']) k)"
    by (intro listing_hit) (simp_all add: Get_ex_cache)
  then show ?thesis by blast
qed

text \<open>
  After a successful fetch of a folder, a second listing within the base TTL returns the same
  children without calling its fetcher: the listing is a faithful copy of the fetched items, the
  last one of each name.
\<close>

lemma listing_cached:
  assumes "cache_wf c" "0 \<le> baseTTL c" "baseTTL c * 40 < 2 ^ 53"
    and "case Get c q of None \<Rightarrow> True | Some p \<Rightarrow> \<not> (IsChildrenFetched p \<and> isChildrenFresh now c p)"
    and "f (c\<lparr>misses := misses c + 1\<rparr>) q = (c\<lparr>misses := misses c + 1, offline := b\<rparr>, Inr items)"
    and "distinct (map di_ID items)" "q \<notin> di_ID ` set items"
    and "now \<le> now'" "now' < now + baseTTL c"
  shows "\<exists>c1 m c2 m'. getChildren now q (Some f) mark c = (c1, Inr m) \<and>
    getChildren now' q g mark' c1 = (c2, Inr m') \<and>
    (\<forall>n. map_of m' n = map_of m n) \<and>
    (\<forall>n. map_of m n = map_option (child_inode q) (find (\<lambda>it. di_Name it = n) (rev items))) \<and>
    misses c2 = misses c1 \<and> hits c2 = hits c1 + 1"
proof -
  obtain c1 r where miss: "children_miss now q (Get c q) (Some f) mark c = (c1, r)" by fastforce
  have g1: "getChildren now q (Some f) mark c = (c1, r)"
    using assms(4) miss by (auto simp: getChildren_def split: option.splits)
  from children_miss_result [OF assms(1) refl assms(5) refl assms(6,7) miss]
  obtain m p where m: "r = Inr m" "baseTTL c1 = baseTTL c"
      "\<And>n. map_of m n = map_option (child_inode q) (find (\<lambda>it. di_Name it = n) (rev items))"
      "Get c1 q = Some p" "children p = Some (map di_ID items)" "childrenCachedAt p = now"
      "\<And>it. it \<in> set items \<Longrightarrow> Get c1 (di_ID it) = Some (child_inode q it)" by blast
  have "effectiveTTL (baseTTL c) (childrenAccessCount p) \<ge> baseTTL c"
    using effectiveTTL_bounds(1) [OF assms(2,3)] .
  moreover have "time_sub now' now < baseTTL c"
    using assms(2,3,8,9) by (auto simp: time_sub_def max_duration_def min_duration_def)
  ultimately have "time_sub now' (childrenCachedAt p) < effectiveTTL (baseTTL c1) (childrenAccessCount p)"
    using m(2,6) by simp
  from listing_hit_lemma [OF m(4,5) this]
  obtain c2 where c2: "getChildren now' q g mark' c1 = (c2, Inr (buildChildMap c2 (map di_ID items)))"
      "hits c2 = hits c1 + 1" "misses c2 = misses c1" "\<And>k. k \<noteq> q \<Longrightarrow> Get c2 k = Get c1 k" by blast
  have "Get c2 (di_ID it) = Some (child_inode q it)" if "it \<in> set items" for it
    using m(7) [OF that] c2(4) [of "di_ID it"] assms(7) that by (metis image_eqI)
  from map_of_buildChildMap [OF this] g1 c2 m show ?thesis by auto
qed

section \<open>Tree edits\<close>

lemma replace_first_eq:
  "distinct cs \<Longrightarrow> replace_first old new cs = map (\<lambda>i. if i = old then new else i) cs"
  by (induction cs) (auto intro: map_idI [symmetric])

text \<open>
  \<^verbatim>\<open>InsertChild\<close> stores the child with its new parent reference and appends it once to a known
  children list of the parent, but leaves an unknown list unknown, so that the next listing is
  fetched in full; child and parent are dirty and no other inode changes.
\<close>

lemma InsertChild_spec:
  assumes "ID child \<noteq> q" "Get c q = Some p"
  shows "Get (InsertChild q (Some child) c) (ID child) = Some (set_parent q child) \<and>
    ParentID (set_parent q child) = q \<and>
    (\<exists>p'. Get (InsertChild q (Some child) c) q = Some p' \<and>
       children p' = (case children p of None \<Rightarrow> None
         | Some cs \<Rightarrow> Some (if ID child \<in> set cs then cs else cs @ [ID child])) \<and>
       subdir p' = (if IsDir child then subdir p + 1 else subdir p)) \<and>
    (\<forall>k. k \<noteq> q \<and> k \<noteq> ID child \<longrightarrow> Get (InsertChild q (Some child) c) k = Get c k) \<and>
    {q, ID child} \<subseteq> set (dirty (InsertChild q (Some child) c))"
proof -
  have eq: "InsertChild q (Some child) c = markDirty (ID child) (markDirty q
      (mutate q (\<lambda>p. attachChild p (ID child) (IsDir child) False) (Store (ID child) (set_parent q child) c)))"
    using assms by (simp add: InsertChild_def Let_def)
  show ?thesis
    unfolding eq using assms
    by (auto simp: attachChild_def Let_def ParentID_def set_parent_def parent_ref_def split: option.split)
qed

text \<open>
  \<^verbatim>\<open>RemoveChild\<close> forgets the child, takes it out of the parent's list, lowers the parent's
  directory count (never below zero) for a folder, leaves a tombstone for the child and marks the
  parent dirty.
\<close>

lemma RemoveChild_spec:
  assumes "Get c k = Some i" "k \<noteq> q" "q \<noteq> ''''" "Get c q = Some p"
  shows "Get (RemoveChild q k c) k = None \<and>
    (\<exists>p'. Get (RemoveChild q k c) q = Some p' \<and>
       children p' = map_option (filter (\<lambda>j. j \<noteq> k)) (children p) \<and>
       subdir p' = (if IsDir i \<and> 0 < subdir p then subdir p - 1 else subdir p)) \<and>
    (\<forall>j. j \<noteq> q \<and> j \<noteq> k \<longrightarrow> Get (RemoveChild q k c) j = Get c j) \<and>
    k \<in> set (deleted (RemoveChild q k c)) \<and> k \<notin> set (dirty (RemoveChild q k c)) \<and>
    q \<in> set (dirty (RemoveChild q k c)) \<and> q \<notin> set (deleted (RemoveChild q k c))"
  using assms by (auto simp: RemoveChild_def Let_def detachChild_def)

text \<open>
  \<^verbatim>\<open>MoveID\<close> to a different identifier re-keys the inode with its whole state, renames it in
  place in its parent's list, leaves a tombstone for the old identifier and marks the new one and
  the parent dirty.
\<close>

lemma MoveID_spec:
  assumes "Get c old = Some i" "old \<noteq> new" "Get c q = Some p" "q = ParentID i" "q \<noteq> ''''" "q \<noteq> old" "q \<noteq> new"
    and "children p = Some cs" "distinct cs"
  shows "Get (MoveID old new c) new = Some (i\<lparr>DriveItem := (DriveItem i)\<lparr>di_ID := new\<rparr>\<rparr>) \<and>
    Get (MoveID old new c) old = None \<and>
    Get (MoveID old new c) q = Some (p\<lparr>children := Some (map (\<lambda>j. if j = old then new else j) cs)\<rparr>) \<and>
    (\<forall>j. j \<noteq> old \<and> j \<noteq> new \<and> j \<noteq> q \<longrightarrow> Get (MoveID old new c) j = Get c j) \<and>
    old \<in> set (deleted (MoveID old new c)) \<and> {new, q} \<subseteq> set (dirty (MoveID old new c))"
proof -
  have q: "ParentID (set_id new i) = q" using assms(4) by (simp add: set_id_def ParentID_def)
  have "MoveID old new c = markDirty q (mutate q (\<lambda>p. p\<lparr>children := map_option (replace_first old new) (children p)\<rparr>)
      (markDirty new (markDeleted old ((Store new (set_id new i) c)\<lparr>inodes := AList.delete old (inodes (Store new (set_id new i) c))\<rparr>))))"
    using assms by (simp add: MoveID_def Let_def q)
  then show ?thesis using assms by (auto simp: replace_first_eq set_id_def)
qed

text \<open>
  \<^verbatim>\<open>MoveID\<close> of an inode onto its own identifier removes it from the cache and still reports it
  dirty: the entry is stored and then deleted under the same key.
\<close>

theorem MoveID_same_loses:
  assumes "Get c k = Some i" "ParentID i \<noteq> k"
  shows "Get (MoveID k k c) k = None \<and> k \<in> set (dirty (MoveID k k c)) \<and> k \<notin> set (deleted (MoveID k k c))"
  using assms by (auto simp: MoveID_def Let_def split: option.split)

theorem MoveID_same_loses_witness:
  "Get (MoveID ''A'' ''A'' (ex_cache (40 * second) 5 [''A''])) ''A'' = None"
  using MoveID_same_loses [of "ex_cache (40 * second) 5 [''A'']" "''A''" "ex_folder ''A'' (40 * second) 5"]
  by (simp add: Get_ex_cache ex_folder_def ParentID_def zero_item_def)

text \<open>
  \<^verbatim>\<open>MoveChild\<close> between two different folders takes the child out of the old list, puts it once
  into the new list (which becomes known), moves one directory link for a folder, and marks the
  child and the new parent dirty.
\<close>

lemma MoveChild_spec:
  assumes "Get c k = Some i" "Get c p = Some po" "Get c q = Some qo" "p \<noteq> q" "k \<noteq> p" "k \<noteq> q"
  shows "\<exists>po' qo'. Get (MoveChild now p q k c) p = Some po' \<and> Get (MoveChild now p q k c) q = Some qo' \<and>
    children po' = map_option (filter (\<lambda>j. j \<noteq> k)) (children po) \<and>
    (\<exists>cs. children qo' = Some cs \<and> count_list cs k = max 1 (count_list (case children qo of None \<Rightarrow> [] | Some xs \<Rightarrow> xs) k) \<and>
       set cs = insert k (set (case children qo of None \<Rightarrow> [] | Some xs \<Rightarrow> xs))) \<and>
    subdir qo' = (if IsDir i then subdir qo + 1 else subdir qo) \<and>
    subdir po' = (if IsDir i \<and> 0 < subdir po then subdir po - 1 else subdir po) \<and>
    (\<forall>j. j \<noteq> p \<and> j \<noteq> q \<longrightarrow> Get (MoveChild now p q k c) j = Get c j) \<and>
    {k, q} \<subseteq> set (dirty (MoveChild now p q k c))"
proof -
  let ?q = "attachChild qo k (IsDir i) True" and ?p = "detachChild po k (IsDir i)"
  let ?cs = "case children qo of None \<Rightarrow> [] | Some xs \<Rightarrow> xs"
  have g: "Get (MoveChild now p q k c) j = (if j = p then Some ?p else if j = q then Some ?q else Get c j)" for j
    using assms by (simp add: MoveChild_def attach_seed_def Let_def)
  have d: "{k, q} \<subseteq> set (dirty (MoveChild now p q k c))"
    using assms by (simp add: MoveChild_def attach_seed_def Let_def)
  have q: "children ?q = Some (if k \<in> set ?cs then ?cs else ?cs @ [k])"
    "subdir ?q = (if IsDir i then subdir qo + 1 else subdir qo)"
    by (cases "children qo"; simp add: attachChild_def Let_def)+
  have "count_list (if k \<in> set ?cs then ?cs else ?cs @ [k]) k = max 1 (count_list ?cs k)"
    by (auto simp: count_list_0_iff Suc_le_eq max_def)
  moreover have "set (if k \<in> set ?cs then ?cs else ?cs @ [k]) = insert k (set ?cs)" by auto
  ultimately show ?thesis
    using assms(4) d by (intro exI [of _ ?p] exI [of _ ?q]) (simp add: g q detachChild_def Let_def)
qed

end
