(* ===== verification/Cache_Persist.thy ===== *)
theory Cache_Persist
  imports Cache_Examples "HOL-Library.Char_ord" "HOL-Library.List_Lexorder"
begin

text \<open>
  The BoltDB half of \<^verbatim>\<open>internal/fs/cache.go\<close>: opening, full and incremental serialisation, loading,
  the delta link and the upload sessions.  BoltDB itself is a parameter: a record of the calls the
  code makes, over abstract types of databases and transactions, with \<open>bolt_contract\<close> stating what
  its documentation promises.  The values of the metadata bucket are the transfer objects of
  \<open>Inode\<close>; the length of their JSON text, which only feeds a metric, is the parameter \<open>json_len\<close>.
\<close>

section \<open>The database as a parameter\<close>

datatype bucket = Metadata | DeltaB | Uploads

datatype 's bolt_value = InodeV inode_json | TextV string | SessionV 's

text \<open>
  \<open>b_update\<close> is \<^verbatim>\<open>db.Update\<close>: it runs a function on a transaction; the number is what the function
  adds to the byte metric while it runs.  \<open>b_view\<close> is the snapshot that \<^verbatim>\<open>db.View\<close> hands out.
\<close>

record ('db, 'tx, 's) bolt_ops =
  b_update :: "'db \<Rightarrow> ('tx \<Rightarrow> 'tx \<times> nat \<times> go_error option) \<Rightarrow> 'db \<times> nat \<times> go_error option"
  b_view :: "'db \<Rightarrow> go_error + 'tx"
  b_has :: "'tx \<Rightarrow> bucket \<Rightarrow> bool"
  b_create :: "'tx \<Rightarrow> bucket \<Rightarrow> go_error + 'tx"
  b_put :: "'tx \<Rightarrow> bucket \<Rightarrow> string \<Rightarrow> 's bolt_value \<Rightarrow> go_error + 'tx"
  b_del :: "'tx \<Rightarrow> bucket \<Rightarrow> string \<Rightarrow> go_error + 'tx"
  b_get :: "'tx \<Rightarrow> bucket \<Rightarrow> string \<Rightarrow> 's bolt_value option"
  b_each :: "'tx \<Rightarrow> bucket \<Rightarrow> (string \<times> 's bolt_value) list"
  b_close :: "'db \<Rightarrow> go_error option"

type_synonym 'tx tx_result = "'tx \<times> nat \<times> go_error option"

section \<open>Full serialisation\<close>

text \<open>Pass 1 and 2 of \<^verbatim>\<open>SerializeAll\<close>: the identifiers to write.\<close>

definition to_persist :: "inode_cache \<Rightarrow> ident list" where
  "to_persist c =
     (let (keep, childIDs) =
            fold (\<lambda>(_, i) (keep, childIDs).
              if \<not> IsChildrenFetched i
              then (if ParentID i \<noteq> '''' then List.insert (ID i) keep else keep, childIDs)
              else (List.insert (ID i) keep, childIDs @ (case Children i of None \<Rightarrow> [] | Some cs \<Rightarrow> cs)))
            (inodes c) ([], [])
      in fold (\<lambda>i keep. case Get c i of None \<Rightarrow> keep | Some _ \<Rightarrow> List.insert i keep) childIDs keep)"

text \<open>Pass 3: a failed Put is logged and skipped.\<close>

fun put_all ::
  "('db, 'tx, 's) bolt_ops \<Rightarrow> (inode_json \<Rightarrow> nat) \<Rightarrow> inode_cache \<Rightarrow> ident list \<Rightarrow> 'tx \<times> nat \<Rightarrow> 'tx \<times> nat"
where
  "put_all B json_len c [] s = s"
| "put_all B json_len c (i # is) (tx, n) =
     (case Get c i of
        None \<Rightarrow> put_all B json_len c is (tx, n)
      | Some inode \<Rightarrow>
          let data = AsJSON inode in
          (case b_put B tx Metadata i (InodeV data) of
             Inl _ \<Rightarrow> put_all B json_len c is (tx, n)
           | Inr tx' \<Rightarrow> put_all B json_len c is (tx', n + json_len data)))"

definition serialize_all_tx ::
  "('db, 'tx, 's) bolt_ops \<Rightarrow> (inode_json \<Rightarrow> nat) \<Rightarrow> inode_cache \<Rightarrow> 'tx \<Rightarrow> 'tx tx_result" where
  "serialize_all_tx B json_len c tx =
     (if \<not> b_has B tx Metadata then (tx, 0, Some (Plain ''metadata bucket not found''))
      else let (tx', n) = put_all B json_len c (to_persist c) (tx, 0) in (tx', n, None))"

definition add_serialized :: "nat \<Rightarrow> inode_cache \<Rightarrow> inode_cache" where
  "add_serialized n c = c\<lparr>serializedBytes := serializedBytes c + of_nat n\<rparr>"

definition SerializeAll ::
  "('db, 'tx, 's) bolt_ops \<Rightarrow> (inode_json \<Rightarrow> nat) \<Rightarrow> inode_cache \<times> 'db \<Rightarrow> (inode_cache \<times> 'db) \<times> go_error option" where
  "SerializeAll B json_len = (\<lambda>(c, db).
     if \<not> db_open c then ((c, db), None)
     else case b_update B db (serialize_all_tx B json_len c) of
            (db, n, Some e) \<Rightarrow> ((add_serialized n c, db), Some e)
          | (db, n, None) \<Rightarrow> ((add_serialized n c\<lparr>dirty := [], deleted := []\<rparr>, db), None))"

section \<open>Incremental serialisation\<close>

definition serializeDirtyBatchSize :: nat where "serializeDirtyBatchSize = 500"

definition sortedKeys :: "ident list \<Rightarrow> ident list" where
  "sortedKeys s = sort s"

text \<open>The slices \<^verbatim>\<open>ids[i:end]\<close> of the two batch loops.\<close>

function batches :: "nat \<Rightarrow> 'a list \<Rightarrow> 'a list list" where
  "batches n xs = (if xs = [] \<or> n = 0 then [] else take n xs # batches n (drop n xs))"
  by pat_completeness auto
termination by (relation "measure (\<lambda>(n, xs). length xs)") auto

declare batches.simps [simp del]

text \<open>The function run on the transaction of one batch of dirty inodes.\<close>

fun dirty_batch_loop ::
  "('db, 'tx, 's) bolt_ops \<Rightarrow> (inode_json \<Rightarrow> nat) \<Rightarrow> inode_cache \<Rightarrow> ident list \<Rightarrow> 'tx \<Rightarrow> nat \<Rightarrow> 'tx tx_result"
where
  "dirty_batch_loop B json_len c [] tx n = (tx, n, None)"
| "dirty_batch_loop B json_len c (i # is) tx n =
     (case Get c i of
        None \<Rightarrow>
          (case b_del B tx Metadata i of
             Inl e \<Rightarrow> (tx, n, Some e)
           | Inr tx \<Rightarrow> dirty_batch_loop B json_len c is tx n)
      | Some inode \<Rightarrow>
          if \<not> IsChildrenFetched inode \<and> ParentID inode = '''' then dirty_batch_loop B json_len c is tx n
          else let data = AsJSON inode in
               (case b_put B tx Metadata i (InodeV data) of
                  Inl e \<Rightarrow> (tx, n, Some e)
                | Inr tx \<Rightarrow> dirty_batch_loop B json_len c is tx (n + json_len data)))"

fun deleted_batch_loop ::
  "('db, 'tx, 's) bolt_ops \<Rightarrow> ident list \<Rightarrow> 'tx \<Rightarrow> 'tx tx_result"
where
  "deleted_batch_loop B [] tx = (tx, 0, None)"
| "deleted_batch_loop B (i # is) tx =
     (case b_del B tx Metadata i of
        Inl e \<Rightarrow> (tx, 0, Some e)
      | Inr tx \<Rightarrow> deleted_batch_loop B is tx)"

definition in_metadata ::
  "('db, 'tx, 's) bolt_ops \<Rightarrow> ('tx \<Rightarrow> 'tx tx_result) \<Rightarrow> 'tx \<Rightarrow> 'tx tx_result" where
  "in_metadata B f tx =
     (if \<not> b_has B tx Metadata then (tx, 0, Some (Plain ''metadata bucket not found'')) else f tx)"

text \<open>One batch: a transaction, and on failure the identifiers are marked again.\<close>

definition dirty_batch ::
  "('db, 'tx, 's) bolt_ops \<Rightarrow> (inode_json \<Rightarrow> nat) \<Rightarrow> ident list
     \<Rightarrow> inode_cache \<times> 'db \<times> go_error option \<Rightarrow> inode_cache \<times> 'db \<times> go_error option" where
  "dirty_batch B json_len batch = (\<lambda>(c, db, firstErr).
     case b_update B db (in_metadata B (\<lambda>tx. dirty_batch_loop B json_len c batch tx 0)) of
       (db, n, None) \<Rightarrow> (add_serialized n c, db, firstErr)
     | (db, n, Some e) \<Rightarrow>
         (fold markDirty batch (add_serialized n c), db, if firstErr = None then Some e else firstErr))"

definition deleted_batch ::
  "('db, 'tx, 's) bolt_ops \<Rightarrow> ident list
     \<Rightarrow> inode_cache \<times> 'db \<times> go_error option \<Rightarrow> inode_cache \<times> 'db \<times> go_error option" where
  "deleted_batch B batch = (\<lambda>(c, db, firstErr).
     case b_update B db (in_metadata B (deleted_batch_loop B batch)) of
       (db, n, None) \<Rightarrow> (c, db, firstErr)
     | (db, n, Some e) \<Rightarrow> (fold markDeleted batch c, db, if firstErr = None then Some e else firstErr))"

definition SerializeDirty ::
  "('db, 'tx, 's) bolt_ops \<Rightarrow> (inode_json \<Rightarrow> nat) \<Rightarrow> inode_cache \<times> 'db \<Rightarrow> (inode_cache \<times> 'db) \<times> go_error option" where
  "SerializeDirty B json_len = (\<lambda>(c, db).
     if \<not> db_open c then ((c, db), None)
     else
       let d = dirty c; x = deleted c;
           c = c\<lparr>dirty := [], deleted := []\<rparr>
       in if d = [] \<and> x = [] then ((c, db), None)
          else
            let s = fold (dirty_batch B json_len) (batches serializeDirtyBatchSize (sortedKeys d)) (c, db, None);
                (c, db, firstErr) = fold (deleted_batch B) (batches serializeDirtyBatchSize (sortedKeys x)) s
            in ((c, db), firstErr))"

section \<open>Loading\<close>

definition load_entry :: "time \<Rightarrow> string \<times> 's bolt_value \<Rightarrow> inode_cache \<Rightarrow> inode_cache" where
  "load_entry now = (\<lambda>(k, v) c.
     case (case v of InodeV j \<Rightarrow> NewInodeJSON j | _ \<Rightarrow> None) of
       None \<Rightarrow> c
     | Some i \<Rightarrow>
         (case Get c k of
            Some _ \<Rightarrow> c
          | None \<Rightarrow>
              let c = updateEvictionEntry i now (registerTTL i (Store k i c))
              in if IsChildrenFetched i then c\<lparr>cachedFolders := cachedFolders c + 1\<rparr> else c))"

definition DeserializeFromDisk ::
  "('db, 'tx, 's) bolt_ops \<Rightarrow> time \<Rightarrow> inode_cache \<times> 'db \<Rightarrow> inode_cache \<times> go_error option" where
  "DeserializeFromDisk B now = (\<lambda>(c, db).
     if \<not> db_open c then (c, None)
     else case b_view B db of
            Inl e \<Rightarrow> (c, Some e)
          | Inr tx \<Rightarrow>
              if \<not> b_has B tx Metadata then (c, None)
              else (fold (load_entry now) (b_each B tx Metadata) c, None))"

text \<open>\<open>opened\<close> is what \<^verbatim>\<open>bolt.Open\<close> returned; a closed database keeps the state it had.\<close>

definition create_buckets :: "('db, 'tx, 's) bolt_ops \<Rightarrow> 'tx \<Rightarrow> 'tx tx_result" where
  "create_buckets B tx =
     (case b_create B tx Metadata of
        Inl e \<Rightarrow> (tx, 0, Some e)
      | Inr tx \<Rightarrow>
          (case b_create B tx DeltaB of
             Inl e \<Rightarrow> (tx, 0, Some e)
           | Inr tx \<Rightarrow>
               (case b_create B tx Uploads of
                  Inl e \<Rightarrow> (tx, 0, Some e)
                | Inr tx \<Rightarrow> (tx, 0, None))))"

definition initBoltDB ::
  "('db, 'tx, 's) bolt_ops \<Rightarrow> time \<Rightarrow> go_error + 'db \<Rightarrow> inode_cache \<Rightarrow> (inode_cache \<times> 'db) option \<times> go_error option" where
  "initBoltDB B now opened c =
     (case opened of
        Inl e \<Rightarrow>
          (None, Some (if errors_Is e ErrTimeout then Wrap ''BoltDB is locked by another running instance'' e
                       else Wrap ''error opening BoltDB'' e))
      | Inr db \<Rightarrow>
          (case b_update B db (create_buckets B) of
             (_, _, Some e) \<Rightarrow> (None, Some (Wrap ''error creando buckets en BoltDB'' e))
           | (db, _, None) \<Rightarrow>
               let c = fst (DeserializeFromDisk B now (c\<lparr>db_open := True\<rparr>, db))
               in (Some (c, db), None)))"

datatype stat_result = Exists | Not_exist | Stat_error go_error

definition CacheDirInUse :: "stat_result \<Rightarrow> go_error + 'db \<Rightarrow> go_error + bool" where
  "CacheDirInUse st opened =
     (case st of
        Not_exist \<Rightarrow> Inr False
      | Stat_error e \<Rightarrow> Inl (Wrap ''checking cache database'' e)
      | Exists \<Rightarrow>
          (case opened of
             Inl e \<Rightarrow> if errors_Is e ErrTimeout then Inr True
                       else Inl (Wrap ''probing cache database lock'' e)
           | Inr _ \<Rightarrow> Inr False))"

section \<open>Delta link, upload sessions, closing\<close>

definition GetDeltaLink :: "('db, 'tx, 's) bolt_ops \<Rightarrow> inode_cache \<times> 'db \<Rightarrow> string" where
  "GetDeltaLink B = (\<lambda>(c, db).
     if \<not> db_open c then ''''
     else case b_view B db of
            Inl _ \<Rightarrow> ''''
          | Inr tx \<Rightarrow>
              if \<not> b_has B tx DeltaB then ''''
              else (case b_get B tx DeltaB ''link'' of Some (TextV s) \<Rightarrow> s | _ \<Rightarrow> ''''))"

text \<open>A write of one key in one bucket; failures are only logged.\<close>

definition put_in :: "('db, 'tx, 's) bolt_ops \<Rightarrow> bucket \<Rightarrow> string \<Rightarrow> 's bolt_value \<Rightarrow> 'tx \<Rightarrow> 'tx tx_result" where
  "put_in B b k v tx =
     (if \<not> b_has B tx b then (tx, 0, Some (Plain ''bucket does not exist''))
      else case b_put B tx b k v of Inl e \<Rightarrow> (tx, 0, Some e) | Inr tx \<Rightarrow> (tx, 0, None))"

definition del_in :: "('db, 'tx, 's) bolt_ops \<Rightarrow> bucket \<Rightarrow> string \<Rightarrow> 'tx \<Rightarrow> 'tx tx_result" where
  "del_in B b k tx =
     (if \<not> b_has B tx b then (tx, 0, Some (Plain ''bucket does not exist''))
      else case b_del B tx b k of Inl e \<Rightarrow> (tx, 0, Some e) | Inr tx \<Rightarrow> (tx, 0, None))"

definition SetDeltaLink :: "('db, 'tx, 's) bolt_ops \<Rightarrow> string \<Rightarrow> inode_cache \<times> 'db \<Rightarrow> 'db" where
  "SetDeltaLink B link = (\<lambda>(c, db).
     if \<not> db_open c then db else fst (b_update B db (put_in B DeltaB ''link'' (TextV link))))"

definition SaveUploadSession :: "('db, 'tx, 's) bolt_ops \<Rightarrow> ident \<Rightarrow> 's \<Rightarrow> inode_cache \<times> 'db \<Rightarrow> 'db" where
  "SaveUploadSession B i data = (\<lambda>(c, db).
     if \<not> db_open c then db else fst (b_update B db (put_in B Uploads i (SessionV data))))"

definition DeleteUploadSession :: "('db, 'tx, 's) bolt_ops \<Rightarrow> ident \<Rightarrow> inode_cache \<times> 'db \<Rightarrow> 'db" where
  "DeleteUploadSession B i = (\<lambda>(c, db).
     if \<not> db_open c then db else fst (b_update B db (del_in B Uploads i)))"

definition LoadUploadSessions :: "('db, 'tx, 's) bolt_ops \<Rightarrow> inode_cache \<times> 'db \<Rightarrow> (ident \<times> 's bolt_value) list" where
  "LoadUploadSessions B = (\<lambda>(c, db).
     if \<not> db_open c then []
     else case b_view B db of
            Inl _ \<Rightarrow> []
          | Inr tx \<Rightarrow> if \<not> b_has B tx Uploads then [] else b_each B tx Uploads)"

definition Close :: "('db, 'tx, 's) bolt_ops \<Rightarrow> (inode_json \<Rightarrow> nat) \<Rightarrow> inode_cache \<times> 'db \<Rightarrow> (inode_cache \<times> 'db) \<times> go_error option" where
  "Close B json_len = (\<lambda>(c, db).
     let c = c\<lparr>sweeping := False\<rparr> in
     if \<not> db_open c then ((c, db), None)
     else
       let ((c, db), _) = SerializeAll B json_len (c, db)
       in case b_close B db of
            Some e \<Rightarrow> ((c, db), Some (Wrap ''error cerrando BoltDB'' e))
          | None \<Rightarrow> ((c\<lparr>db_open := False\<rparr>, db), None))"

section \<open>What BoltDB promises\<close>

text \<open>
  \<open>snap\<close> is the transaction that starts from a database, \<open>content\<close> what a transaction sees.  An
  update that succeeds leaves what its function wrote, one that fails leaves the database as it
  was; puts and deletes change one key; iteration lists every key once.
\<close>

definition bolt_update_law ::
  "('db, 'tx, 's) bolt_ops \<Rightarrow> ('db \<Rightarrow> 'tx) \<Rightarrow> ('tx \<Rightarrow> bucket \<Rightarrow> string \<Rightarrow> 's bolt_value option) \<Rightarrow> bool" where
  "bolt_update_law B snap content \<longleftrightarrow> (\<forall>db f db' n err. b_update B db f = (db', n, err) \<longrightarrow>
     (case err of
        None \<Rightarrow> snd (snd (f (snap db))) = None \<and> content (snap db') = content (fst (f (snap db)))
      | Some _ \<Rightarrow> content (snap db') = content (snap db)))"

definition bolt_write_law ::
  "('db, 'tx, 's) bolt_ops \<Rightarrow> ('tx \<Rightarrow> bucket \<Rightarrow> string \<Rightarrow> 's bolt_value option) \<Rightarrow> bool" where
  "bolt_write_law B content \<longleftrightarrow>
     (\<forall>tx b k v tx'. b_put B tx b k v = Inr tx' \<longrightarrow> content tx' = (content tx)(b := (content tx b)(k \<mapsto> v))) \<and>
     (\<forall>tx b k tx'. b_del B tx b k = Inr tx' \<longrightarrow> content tx' = (content tx)(b := (content tx b)(k := None)))"

definition bolt_read_law ::
  "('db, 'tx, 's) bolt_ops \<Rightarrow> ('db \<Rightarrow> 'tx) \<Rightarrow> ('tx \<Rightarrow> bucket \<Rightarrow> string \<Rightarrow> 's bolt_value option) \<Rightarrow> bool" where
  "bolt_read_law B snap content \<longleftrightarrow>
     (\<forall>db tx. b_view B db = Inr tx \<longrightarrow> content tx = content (snap db)) \<and>
     (\<forall>tx b k. b_get B tx b k = content tx b k) \<and>
     (\<forall>tx b. distinct (map fst (b_each B tx b)) \<and> map_of (b_each B tx b) = content tx b)"

definition bolt_contract ::
  "('db, 'tx, 's) bolt_ops \<Rightarrow> ('db \<Rightarrow> 'tx) \<Rightarrow> ('tx \<Rightarrow> bucket \<Rightarrow> string \<Rightarrow> 's bolt_value option) \<Rightarrow> bool" where
  "bolt_contract B snap content \<longleftrightarrow>
     bolt_update_law B snap content \<and> bolt_write_law B content \<and> bolt_read_law B snap content"

lemma contract_update:
  assumes "bolt_contract B snap content" "b_update B db f = (db', n, err)"
  shows "err = None \<Longrightarrow> snd (snd (f (snap db))) = None \<and> content (snap db') = content (fst (f (snap db)))"
    and "err \<noteq> None \<Longrightarrow> content (snap db') = content (snap db)"
  using assms unfolding bolt_contract_def bolt_update_law_def by (auto split: option.splits) (metis option.simps(4,5))+

lemma contract_put:
  "bolt_contract B snap content \<Longrightarrow> b_put B tx b k v = Inr tx' \<Longrightarrow>
     content tx' = (content tx)(b := (content tx b)(k \<mapsto> v))"
  by (simp add: bolt_contract_def bolt_write_law_def)

lemma contract_del:
  "bolt_contract B snap content \<Longrightarrow> b_del B tx b k = Inr tx' \<Longrightarrow>
     content tx' = (content tx)(b := (content tx b)(k := None))"
  by (simp add: bolt_contract_def bolt_write_law_def)

section \<open>Batches\<close>

lemma concat_batches: "0 < n \<Longrightarrow> concat (batches n xs) = xs"
proof (induction n xs rule: batches.induct)
  case (1 n xs)
  then show ?case by (subst batches.simps) simp
qed

lemma batch_length: "b \<in> set (batches n xs) \<Longrightarrow> length b \<le> n"
proof (induction n xs rule: batches.induct)
  case (1 n xs)
  then show ?case by (subst (asm) batches.simps) (auto split: if_splits)
qed

section \<open>One batch\<close>

definition persistable :: "inode \<Rightarrow> bool" where
  "persistable i \<longleftrightarrow> IsChildrenFetched i \<or> ParentID i \<noteq> ''''"

text \<open>What the dirty pass leaves under a key that held \<open>old\<close>.\<close>

definition written :: "inode_cache \<Rightarrow> 's bolt_value option \<Rightarrow> ident \<Rightarrow> 's bolt_value option" where
  "written c old i =
     (case Get c i of
        None \<Rightarrow> None
      | Some n \<Rightarrow> if persistable n then Some (InodeV (AsJSON n)) else old)"

lemma dirty_batch_loop_content:
  assumes "bolt_contract B snap content"
  shows "dirty_batch_loop B json_len c is tx n = (tx', n', None) \<Longrightarrow>
    content tx' Metadata = (\<lambda>i. if i \<in> set is then written c (content tx Metadata i) i else content tx Metadata i)"
proof (induction "is" arbitrary: tx n)
  case (Cons i "is")
  show ?case
  proof (cases "Get c i")
    case None
    then obtain tx1 where tx1: "b_del B tx Metadata i = Inr tx1"
      "dirty_batch_loop B json_len c is tx1 n = (tx', n', None)"
      using Cons.prems by (auto split: sum.splits)
    from Cons.IH [OF tx1(2)] contract_del [OF assms tx1(1)] None show ?thesis
      by (auto simp: fun_eq_iff written_def)
  next
    case (Some inode)
    show ?thesis
    proof (cases "persistable inode")
      case True
      then obtain tx1 m where tx1: "b_put B tx Metadata i (InodeV (AsJSON inode)) = Inr tx1"
        "dirty_batch_loop B json_len c is tx1 m = (tx', n', None)"
        using Cons.prems Some by (auto simp: persistable_def Let_def split: sum.splits if_splits)
      from Cons.IH [OF tx1(2)] contract_put [OF assms tx1(1)] Some True show ?thesis
        by (auto simp: fun_eq_iff written_def)
    next
      case False
      then have "dirty_batch_loop B json_len c is tx n = (tx', n', None)"
        using Cons.prems Some by (simp add: persistable_def)
      from Cons.IH [OF this] Some False show ?thesis by (auto simp: fun_eq_iff written_def)
    qed
  qed
qed simp

lemma deleted_batch_loop_content:
  assumes "bolt_contract B snap content"
  shows "deleted_batch_loop B is tx = (tx', n', None) \<Longrightarrow>
    content tx' Metadata = (\<lambda>i. if i \<in> set is then None else content tx Metadata i)"
proof (induction "is" arbitrary: tx)
  case (Cons i "is")
  then obtain tx1 where tx1: "b_del B tx Metadata i = Inr tx1" "deleted_batch_loop B is tx1 = (tx', n', None)"
    by (auto split: sum.splits)
  from Cons.IH [OF tx1(2)] contract_del [OF assms tx1(1)] show ?case by (auto simp: fun_eq_iff)
qed simp

lemma in_metadata_ok: "snd (snd (in_metadata B f tx)) = None \<Longrightarrow> in_metadata B f tx = f tx"
  by (auto simp: in_metadata_def split: if_splits)

section \<open>The two passes\<close>

lemma fold_mark [simp]:
  "inodes (fold markDirty is c) = inodes c" "inodes (fold markDeleted is c) = inodes c"
  "set (dirty (fold markDirty is c)) = set (dirty c) \<union> set is"
  "set (deleted (fold markDirty is c)) = set (deleted c) - set is"
  "set (dirty (fold markDeleted is c)) = set (dirty c) - set is"
  "set (deleted (fold markDeleted is c)) = set (deleted c) \<union> set is"
  by (induction "is" arbitrary: c) auto

lemma add_serialized_simps [simp]:
  "inodes (add_serialized n c) = inodes c" "dirty (add_serialized n c) = dirty c"
  "deleted (add_serialized n c) = deleted c"
  by (simp_all add: add_serialized_def)

text \<open>A key is in step with memory: its entry is what a write would leave.\<close>

definition in_step :: "inode_cache \<Rightarrow> (ident \<Rightarrow> 's bolt_value option) \<Rightarrow> ident \<Rightarrow> bool" where
  "in_step c disk i \<longleftrightarrow>
     (case Get c i of
        None \<Rightarrow> disk i = None
      | Some n \<Rightarrow> persistable n \<longrightarrow> disk i = Some (InodeV (AsJSON n)))"

lemma written_in_step: "disk i = written c old i \<Longrightarrow> in_step c disk i"
  by (auto simp: in_step_def written_def split: option.splits)

text \<open>After some batches of dirty inodes: each is on disk or marked again, nothing else has moved.\<close>

definition dirty_pass ::
  "inode_cache \<Rightarrow> (ident \<Rightarrow> 's bolt_value option) \<Rightarrow> ident set \<Rightarrow> inode_cache \<Rightarrow> (ident \<Rightarrow> 's bolt_value option) \<Rightarrow> go_error option \<Rightarrow> bool" where
  "dirty_pass c disk done c' disk' err \<longleftrightarrow> inodes c' = inodes c \<and> deleted c' = [] \<and> set (dirty c') \<subseteq> done \<and>
     (\<forall>i \<in> done. i \<in> set (dirty c') \<or> in_step c disk' i) \<and> (\<forall>i. i \<notin> done \<longrightarrow> disk' i = disk i) \<and>
     (err = None \<longrightarrow> dirty c' = [])"

lemma dirty_pass_step:
  assumes con: "bolt_contract B snap content"
    and inv: "dirty_pass c disk done c1 (content (snap db1) Metadata) e1"
    and run: "dirty_batch B json_len batch (c1, db1, e1) = (c2, db2, e2)"
  shows "dirty_pass c disk (done \<union> set batch) c2 (content (snap db2) Metadata) e2"
proof -
  let ?f = "in_metadata B (\<lambda>tx. dirty_batch_loop B json_len c1 batch tx 0)"
  obtain db n err where up: "b_update B db1 ?f = (db, n, err)" by (cases "b_update B db1 ?f")
  have get: "Get c1 i = Get c i" for i using inv by (simp add: dirty_pass_def Get_def)
  show ?thesis
  proof (cases err)
    case None
    then have r: "c2 = add_serialized n c1" "db2 = db" "e2 = e1" using run up by (simp_all add: dirty_batch_def)
    have ok: "snd (snd (?f (snap db1))) = None" "content (snap db) = content (fst (?f (snap db1)))"
      using contract_update(1) [OF con up None] by auto
    obtain tx' n' where loop: "dirty_batch_loop B json_len c1 batch (snap db1) 0 = (tx', n', None)"
      using in_metadata_ok [OF ok(1)] ok(1) by (cases "dirty_batch_loop B json_len c1 batch (snap db1) 0") auto
    have d: "content (snap db2) Metadata =
        (\<lambda>i. if i \<in> set batch then written c (content (snap db1) Metadata i) i else content (snap db1) Metadata i)"
      using dirty_batch_loop_content [OF con loop] ok in_metadata_ok [OF ok(1)] loop
      by (auto simp: r fun_eq_iff written_def get)
    have "in_step c (content (snap db2) Metadata) i" if "i \<in> set batch" for i
      using that d by (intro written_in_step) simp
    moreover have "in_step c (content (snap db2) Metadata) i = in_step c (content (snap db1) Metadata) i"
      if "i \<notin> set batch" for i
      using that d by (simp add: in_step_def)
    ultimately show ?thesis using inv d by (auto simp: dirty_pass_def r)
  next
    case (Some e)
    then have r: "c2 = fold markDirty batch (add_serialized n c1)" "db2 = db" "e2 \<noteq> None"
      using run up by (auto simp: dirty_batch_def)
    have "content (snap db2) = content (snap db1)" using contract_update(2) [OF con up] Some r by simp
    moreover have "deleted c2 = []" using inv by (simp add: r flip: set_empty) (simp add: dirty_pass_def)
    ultimately show ?thesis using inv r(3) by (auto simp: dirty_pass_def r(1))
  qed
qed

lemma dirty_pass_fold:
  assumes con: "bolt_contract B snap content"
  shows "dirty_pass c disk done c1 (content (snap db1) Metadata) e1 \<Longrightarrow>
    fold (dirty_batch B json_len) bs (c1, db1, e1) = (c2, db2, e2) \<Longrightarrow>
    dirty_pass c disk (done \<union> set (concat bs)) c2 (content (snap db2) Metadata) e2"
proof (induction bs arbitrary: "done" c1 db1 e1)
  case (Cons b bs)
  obtain c3 db3 e3 where s: "dirty_batch B json_len b (c1, db1, e1) = (c3, db3, e3)"
    by (cases "dirty_batch B json_len b (c1, db1, e1)")
  from Cons.IH [OF dirty_pass_step [OF con Cons.prems(1) s]] Cons.prems(2) s
  show ?case by (simp add: Un_assoc)
qed simp

definition tomb_pass ::
  "inode_cache \<Rightarrow> (ident \<Rightarrow> 's bolt_value option) \<Rightarrow> go_error option \<Rightarrow> ident set \<Rightarrow> inode_cache \<Rightarrow> (ident \<Rightarrow> 's bolt_value option) \<Rightarrow> go_error option \<Rightarrow> bool" where
  "tomb_pass c disk e done c' disk' err \<longleftrightarrow> inodes c' = inodes c \<and> set (deleted c') \<subseteq> set (deleted c) \<union> done \<and>
     set (dirty c) - done \<subseteq> set (dirty c') \<and> set (dirty c') \<subseteq> set (dirty c) \<and>
     (\<forall>i \<in> done. i \<in> set (deleted c') \<or> disk' i = None) \<and> (\<forall>i. i \<notin> done \<longrightarrow> disk' i = disk i) \<and>
     (err = None \<longrightarrow> deleted c' = deleted c \<and> e = None)"

lemma tomb_pass_step:
  assumes con: "bolt_contract B snap content"
    and inv: "tomb_pass c disk e done c1 (content (snap db1) Metadata) e1"
    and run: "deleted_batch B batch (c1, db1, e1) = (c2, db2, e2)"
  shows "tomb_pass c disk e (done \<union> set batch) c2 (content (snap db2) Metadata) e2"
proof -
  let ?f = "in_metadata B (deleted_batch_loop B batch)"
  obtain db n err where up: "b_update B db1 ?f = (db, n, err)" by (cases "b_update B db1 ?f")
  show ?thesis
  proof (cases err)
    case None
    then have r: "c2 = c1" "db2 = db" "e2 = e1" using run up by (simp_all add: deleted_batch_def)
    have ok: "snd (snd (?f (snap db1))) = None" "content (snap db) = content (fst (?f (snap db1)))"
      using contract_update(1) [OF con up None] by auto
    obtain tx' n' where loop: "deleted_batch_loop B batch (snap db1) = (tx', n', None)"
      using in_metadata_ok [OF ok(1)] ok(1) by (cases "deleted_batch_loop B batch (snap db1)") auto
    have "content (snap db2) Metadata = (\<lambda>i. if i \<in> set batch then None else content (snap db1) Metadata i)"
      using deleted_batch_loop_content [OF con loop] ok in_metadata_ok [OF ok(1)] loop by (simp add: r)
    then show ?thesis using inv by (auto simp: tomb_pass_def r)
  next
    case (Some e')
    then have r: "c2 = fold markDeleted batch c1" "db2 = db" "e2 \<noteq> None"
      using run up by (auto simp: deleted_batch_def)
    have "content (snap db2) = content (snap db1)" using contract_update(2) [OF con up] Some r by simp
    then show ?thesis using inv r(3) by (auto simp: tomb_pass_def r(1))
  qed
qed

lemma tomb_pass_fold:
  assumes con: "bolt_contract B snap content"
  shows "tomb_pass c disk e done c1 (content (snap db1) Metadata) e1 \<Longrightarrow>
    fold (deleted_batch B) bs (c1, db1, e1) = (c2, db2, e2) \<Longrightarrow>
    tomb_pass c disk e (done \<union> set (concat bs)) c2 (content (snap db2) Metadata) e2"
proof (induction bs arbitrary: "done" c1 db1 e1)
  case (Cons b bs)
  obtain c3 db3 e3 where s: "deleted_batch B b (c1, db1, e1) = (c3, db3, e3)"
    by (cases "deleted_batch B b (c1, db1, e1)")
  from Cons.IH [OF tomb_pass_step [OF con Cons.prems(1) s]] Cons.prems(2) s
  show ?case by (simp add: Un_assoc)
qed simp

section \<open>Loading what was written\<close>

lemma load_entry_Get:
  "Get (load_entry now (k, v) c) j =
     (if j = k \<and> Get c k = None then (case v of InodeV x \<Rightarrow> NewInodeJSON x | _ \<Rightarrow> None) else Get c j)"
  by (auto simp: load_entry_def Let_def split: option.split bolt_value.split)

lemma load_fold_Get:
  "distinct (map fst kvs) \<Longrightarrow> Get (fold (load_entry now) kvs c) j =
     (case Get c j of Some i \<Rightarrow> Some i
      | None \<Rightarrow> (case map_of kvs j of Some (InodeV x) \<Rightarrow> NewInodeJSON x | _ \<Rightarrow> None))"
proof (induction kvs arbitrary: c)
  case (Cons kv kvs)
  obtain k v where kv: "kv = (k, v)" by fastforce
  have "map_of kvs k = None" using Cons.prems by (auto simp: kv map_of_eq_None_iff)
  with Cons show ?case by (auto simp: kv load_entry_Get split: option.splits bolt_value.splits)
qed (simp split: option.split)

lemma bookkept_load_entry:
  assumes bk: "bookkept c" and id: "\<And>x i. v = InodeV x \<Longrightarrow> NewInodeJSON x = Some i \<Longrightarrow> ID i = k"
  shows "bookkept (load_entry now (k, v) c)"
proof (cases "case v of InodeV x \<Rightarrow> NewInodeJSON x | _ \<Rightarrow> None")
  case (Some i)
  then have i: "ID i = k" using id by (auto split: bolt_value.splits)
  show ?thesis
  proof (cases "Get c k")
    case None
    have wf: "cache_wf (Store k i c)" using bookkept_wf [OF bk] i by (simp add: cache_wf_Store)
    show ?thesis
    proof (cases "IsChildrenFetched i")
      case True
      have "bookkept ((updateEvictionEntry i now (registerTTL i (Store k i c)))\<lparr>cachedFolders := cachedFolders c + 1\<rparr>)"
        by (rule bookkept_register [OF bk wf, of _ k]) (use True None i in \<open>auto simp: fetched_at_def\<close>)
      then show ?thesis using Some None True by (simp add: load_entry_def Let_def)
    next
      case False
      have "bookkept (Store k i c)" using bk i False None by (intro bookkept_store) (auto simp: fetched_at_def)
      then show ?thesis using Some None False
        by (simp add: load_entry_def Let_def updateEvictionEntry_def registerTTL_def)
    qed
  qed (use bk Some in \<open>simp add: load_entry_def\<close>)
qed (use bk in \<open>simp add: load_entry_def\<close>)

lemma bookkept_load_fold:
  assumes "bookkept c"
    and "\<And>k x i. (k, InodeV x) \<in> set kvs \<Longrightarrow> NewInodeJSON x = Some i \<Longrightarrow> ID i = k"
  shows "bookkept (fold (load_entry now) kvs c)"
  by (rule fold_invariant_step [where P = bookkept])
     (use assms in \<open>auto intro: bookkept_load_entry\<close>)

section \<open>What a full serialisation writes\<close>

lemma put_all_content:
  assumes con: "bolt_contract B snap content" and ok: "\<And>tx k v. \<exists>tx'. b_put B tx Metadata k v = Inr tx'"
  shows "put_all B json_len c is (tx, n) = (tx', n') \<Longrightarrow>
    content tx' Metadata = (\<lambda>i. if i \<in> set is \<and> Get c i \<noteq> None
       then map_option (\<lambda>x. InodeV (AsJSON x)) (Get c i) else content tx Metadata i)"
proof (induction "is" arbitrary: tx n)
  case (Cons i "is")
  show ?case
  proof (cases "Get c i")
    case None
    with Cons show ?thesis by (auto simp: fun_eq_iff)
  next
    case (Some inode)
    obtain tx1 where tx1: "b_put B tx Metadata i (InodeV (AsJSON inode)) = Inr tx1" using ok by blast
    then have "put_all B json_len c is (tx1, n + json_len (AsJSON inode)) = (tx', n')"
      using Cons.prems Some by (simp add: Let_def)
    from Cons.IH [OF this] contract_put [OF con tx1] Some show ?thesis by (auto simp: fun_eq_iff)
  qed
qed simp

definition collect_step :: "ident \<times> inode \<Rightarrow> ident list \<times> ident list \<Rightarrow> ident list \<times> ident list" where
  "collect_step = (\<lambda>(_, i) (keep, childIDs).
     if \<not> IsChildrenFetched i
     then (if ParentID i \<noteq> '''' then List.insert (ID i) keep else keep, childIDs)
     else (List.insert (ID i) keep, childIDs @ (case Children i of None \<Rightarrow> [] | Some cs \<Rightarrow> cs)))"

lemma collect_fold_keep:
  "set (fst (fold collect_step kvs s)) = set (fst s) \<union> ID ` {i \<in> snd ` set kvs. persistable i}"
  by (induction kvs arbitrary: s) (auto simp: collect_step_def persistable_def split: prod.splits)

lemma collect_children_keep:
  "set keep \<subseteq> set (fold (\<lambda>i keep. case Get c i of None \<Rightarrow> keep | Some _ \<Rightarrow> List.insert i keep) ids keep)"
proof (induction ids arbitrary: keep)
  case (Cons i ids)
  have "set keep \<subseteq> set (case Get c i of None \<Rightarrow> keep | Some _ \<Rightarrow> List.insert i keep)"
    by (auto split: option.split)
  with Cons show ?case by (simp) blast
qed simp

text \<open>Every inode of the browsed tree is written.\<close>

lemma to_persist_covers:
  assumes wf: "cache_wf c" and i: "Get c k = Some i" "persistable i"
  shows "k \<in> set (to_persist c)"
proof -
  obtain keep ids where f: "fold collect_step (inodes c) ([], []) = (keep, ids)" by fastforce
  have "(k, i) \<in> set (inodes c)" using i(1) by (simp add: Get_def map_of_SomeD)
  moreover have "ID i = k" using cache_wf_ID [OF wf i(1)] .
  ultimately have "k \<in> ID ` {i \<in> snd ` set (inodes c). persistable i}" using i(2) by force
  then have "k \<in> set keep" using collect_fold_keep [of "inodes c" "([], [])"] f by simp
  moreover have "to_persist c =
      fold (\<lambda>i keep. case Get c i of None \<Rightarrow> keep | Some _ \<Rightarrow> List.insert i keep) ids keep"
    using f unfolding collect_step_def by (simp add: to_persist_def)
  ultimately show ?thesis using collect_children_keep by fastforce
qed

section \<open>A database in memory\<close>

text \<open>An instance of the contract, for the witnesses: every bucket is an association list.\<close>

definition mem_bolt :: "(bucket \<Rightarrow> (string \<times> 's bolt_value) list, bucket \<Rightarrow> (string \<times> 's bolt_value) list, 's) bolt_ops" where
  "mem_bolt = \<lparr>
     b_update = (\<lambda>db f. case f db of (tx, n, None) \<Rightarrow> (tx, n, None) | (tx, n, Some e) \<Rightarrow> (db, n, Some e)),
     b_view = Inr, b_has = (\<lambda>tx b. True), b_create = (\<lambda>tx b. Inr tx),
     b_put = (\<lambda>tx b k v. Inr (tx(b := AList.update k v (tx b)))),
     b_del = (\<lambda>tx b k. Inr (tx(b := AList.delete k (tx b)))),
     b_get = (\<lambda>tx b k. map_of (tx b) k), b_each = (\<lambda>tx b. AList.clearjunk (tx b)),
     b_close = (\<lambda>db. None) \<rparr>"

lemma mem_bolt_contract: "bolt_contract mem_bolt id (\<lambda>tx b. map_of (tx b))"
proof -
  have "bolt_update_law mem_bolt id (\<lambda>tx b. map_of (tx b))"
    by (auto simp: bolt_update_law_def mem_bolt_def split: option.splits prod.splits)
  moreover have "bolt_write_law mem_bolt (\<lambda>tx b. map_of (tx b))"
    unfolding bolt_write_law_def mem_bolt_def
    by (simp, intro conjI allI ext) (auto simp: alist_simps)
  moreover have "bolt_read_law mem_bolt id (\<lambda>tx b. map_of (tx b))"
    by (simp add: bolt_read_law_def mem_bolt_def map_of_clearjunk fun_eq_iff distinct_clearjunk)
  ultimately show ?thesis by (simp add: bolt_contract_def)
qed

section \<open>Properties\<close>

text \<open>
  C32: \<^verbatim>\<open>SerializeDirty\<close> never loses a change, whatever transactions fail: an identifier that was
  dirty is in step on disk or dirty again, one that was deleted is gone from disk or still a
  tombstone, no other entry of the bucket moves, and if the call succeeds nothing is left to write.
\<close>

theorem SerializeDirty_no_loss:
  assumes con: "bolt_contract B snap content" and "db_open c" "dirty_wf c"
    and run: "SerializeDirty B json_len (c, db) = ((c', db'), err)"
  shows "(\<forall>i \<in> set (dirty c). i \<in> set (dirty c') \<or> in_step c (content (snap db') Metadata) i) \<and>
    (\<forall>i \<in> set (deleted c). i \<in> set (deleted c') \<or> content (snap db') Metadata i = None) \<and>
    (\<forall>i. i \<notin> set (dirty c) \<union> set (deleted c) \<longrightarrow> content (snap db') Metadata i = content (snap db) Metadata i) \<and>
    inodes c' = inodes c \<and> (err = None \<longrightarrow> dirty c' = [] \<and> deleted c' = [])"
proof (cases "dirty c = [] \<and> deleted c = []")
  case True
  with assms(2) run show ?thesis by (auto simp: SerializeDirty_def)
next
  case False
  define c0 where "c0 = c\<lparr>dirty := [], deleted := []\<rparr>"
  let ?D = "batches serializeDirtyBatchSize (sortedKeys (dirty c))"
  let ?X = "batches serializeDirtyBatchSize (sortedKeys (deleted c))"
  let ?disk = "content (snap db) Metadata"
  obtain c1 db1 e1 where s1: "fold (dirty_batch B json_len) ?D (c0, db, None) = (c1, db1, e1)"
    by (cases "fold (dirty_batch B json_len) ?D (c0, db, None)")
  obtain c2 db2 e2 where s2: "fold (deleted_batch B) ?X (c1, db1, e1) = (c2, db2, e2)"
    by (cases "fold (deleted_batch B) ?X (c1, db1, e1)")
  have res: "c' = c2" "db' = db2" "err = e2"
    using run False assms(2) s1 s2 by (simp_all add: SerializeDirty_def Let_def flip: c0_def)
  have sets: "set (concat ?D) = set (dirty c)" "set (concat ?X) = set (deleted c)"
    by (simp_all only: concat_batches serializeDirtyBatchSize_def sortedKeys_def set_sort zero_less_numeral)
  have "dirty_pass c ?disk {} c0 ?disk None" by (simp add: dirty_pass_def c0_def)
  from dirty_pass_fold [OF con this s1]
  have p1: "dirty_pass c ?disk (set (dirty c)) c1 (content (snap db1) Metadata) e1" using sets by simp
  have "tomb_pass c1 (content (snap db1) Metadata) e1 {} c1 (content (snap db1) Metadata) e1"
    by (simp add: tomb_pass_def)
  from tomb_pass_fold [OF con this s2]
  have p2: "tomb_pass c1 (content (snap db1) Metadata) e1 (set (deleted c)) c2 (content (snap db2) Metadata) e2"
    using sets by simp
  have disj: "set (dirty c) \<inter> set (deleted c) = {}" using assms(3) by (simp add: dirty_wf_def)
  have keep: "content (snap db2) Metadata i = content (snap db1) Metadata i" if "i \<notin> set (deleted c)" for i
    using p2 that by (simp add: tomb_pass_def)
  have "i \<in> set (dirty c2) \<or> in_step c (content (snap db2) Metadata) i" if "i \<in> set (dirty c)" for i
  proof -
    have i: "i \<notin> set (deleted c)" using that disj by auto
    then have "in_step c (content (snap db2) Metadata) i = in_step c (content (snap db1) Metadata) i"
      using keep [OF i] by (simp add: in_step_def split: option.split)
    with p1 p2 that i show ?thesis by (auto simp: dirty_pass_def tomb_pass_def)
  qed
  moreover have "dirty c2 = [] \<and> deleted c2 = []" if "e2 = None"
    using p1 p2 that by (simp add: dirty_pass_def tomb_pass_def)
  ultimately show ?thesis
    using p1 p2 keep unfolding res by (auto simp: dirty_pass_def tomb_pass_def)
qed

theorem SerializeDirty_no_loss_witness:
  "\<exists>c' db' err. SerializeDirty mem_bolt (\<lambda>_. 1)
      ((markDirty ''A'' (ex_cache 0 1 [''A'']))\<lparr>db_open := True\<rparr>, \<lambda>_. [] :: (string \<times> unit bolt_value) list) = ((c', db'), err) \<and>
     (''A'' \<in> set (dirty c') \<or> in_step (ex_cache 0 1 [''A'']) (map_of (db' Metadata)) ''A'')"
proof -
  let ?c = "(markDirty ''A'' (ex_cache 0 1 [''A'']))\<lparr>db_open := True\<rparr>"
  let ?db = "\<lambda>_. [] :: (string \<times> unit bolt_value) list"
  have wf: "dirty_wf ?c"
    using cache_wf_dirty(1) [OF bookkept_wf [OF bookkept_ex_cache [of "[''A'']" 0 1]], of "''A''"]
    by (simp add: cache_wf_def dirty_wf_def)
  obtain c' db' err where run: "SerializeDirty mem_bolt (\<lambda>_. 1) (?c, ?db) = ((c', db'), err)" by (metis prod.exhaust)
  have in_eq: "in_step ?c d i = in_step (ex_cache 0 1 [''A'']) d i" for d :: "ident \<Rightarrow> unit bolt_value option" and i
    by (simp add: in_step_def Get_def)
  from SerializeDirty_no_loss [OF mem_bolt_contract _ wf run]
  have "''A'' \<in> set (dirty c') \<or> in_step ?c (map_of (db' Metadata)) ''A''" by simp
  with run show ?thesis by (auto simp: in_eq)
qed

text \<open>
  C33: Full serialisation followed by loading into an empty cache restores the browsed tree: every
  folder with fetched children and every inode with a parent comes back under its identifier,
  equal up to the milliseconds of its two eviction timestamps, and the eviction bookkeeping of the
  loaded cache is complete.
\<close>

theorem serialize_load_roundtrip:
  assumes con: "bolt_contract B snap content"
    and puts: "\<And>tx k v. \<exists>tx'. b_put B tx Metadata k v = Inr tx'"
    and c: "cache_wf c" "db_open c" and empty: "content (snap db) Metadata = Map.empty"
    and run: "SerializeAll B json_len (c, db) = ((c', db'), None)"
    and view: "b_view B db' = Inr tx" "b_has B tx Metadata"
  shows "\<exists>c1. DeserializeFromDisk B now (NewInodeCache\<lparr>db_open := True\<rparr>, db') = (c1, None) \<and>
    (\<forall>k i. Get c k = Some i \<and> (IsChildrenFetched i \<or> ParentID i \<noteq> '''') \<longrightarrow>
       Get c1 k = Some (i\<lparr>childrenLastAccess := ms_floor (childrenLastAccess i),
                          childrenCachedAt := ms_floor (childrenCachedAt i)\<rparr>)) \<and>
    (\<forall>k. Get c k = None \<longrightarrow> Get c1 k = None) \<and> bookkept c1"
proof -
  obtain n where up: "b_update B db (serialize_all_tx B json_len c) = (db', n, None)"
    using run c(2) by (auto simp: SerializeAll_def split: prod.splits option.splits)
  have ok: "snd (snd (serialize_all_tx B json_len c (snap db))) = None"
      "content (snap db') = content (fst (serialize_all_tx B json_len c (snap db)))"
    using contract_update(1) [OF con up refl] by auto
  obtain tx1 n1 where pa: "put_all B json_len c (to_persist c) (snap db, 0) = (tx1, n1)" by fastforce
  have "fst (serialize_all_tx B json_len c (snap db)) = tx1"
    using ok(1) pa by (auto simp: serialize_all_tx_def split: if_splits)
  then have "content (snap db') Metadata = (\<lambda>i. if i \<in> set (to_persist c) \<and> Get c i \<noteq> None
      then map_option (\<lambda>x. InodeV (AsJSON x)) (Get c i) else None)"
    using put_all_content [OF con puts pa] ok(2) empty by (simp add: fun_eq_iff)
  moreover have law: "bolt_read_law B snap content" using con by (simp add: bolt_contract_def)
  then have "content tx = content (snap db')" using view(1) by (simp add: bolt_read_law_def)
  ultimately have disk: "map_of (b_each B tx Metadata) = (\<lambda>i. if i \<in> set (to_persist c) \<and> Get c i \<noteq> None
      then map_option (\<lambda>x. InodeV (AsJSON x)) (Get c i) else None)" "distinct (map fst (b_each B tx Metadata))"
    using law by (simp_all add: bolt_read_law_def)
  let ?new = "NewInodeCache\<lparr>db_open := True\<rparr>"
  let ?c1 = "fold (load_entry now) (b_each B tx Metadata) ?new"
  have new: "Get ?new k = None" for k by (simp add: Get_def NewInodeCache_def)
  have get: "Get ?c1 k = (if k \<in> set (to_persist c) then map_option inode_ms (Get c k) else None)" for k
    by (simp add: load_fold_Get [OF disk(2)] new disk(1) NewInodeJSON_AsJSON split: option.split)
  have ids: "ID i = k" if "(k, InodeV x) \<in> set (b_each B tx Metadata)" "NewInodeJSON x = Some i" for k x i
  proof -
    have "map_of (b_each B tx Metadata) k = Some (InodeV x)" using that(1) disk(2) by simp
    then obtain j where j: "Get c k = Some j" "x = AsJSON j" by (auto simp: disk(1) split: if_splits)
    then show ?thesis using that(2) cache_wf_ID [OF c(1) j(1)] by (auto simp: NewInodeJSON_AsJSON)
  qed
  have "bookkept ?new" by (rule bookkept_same [OF bookkept_new])
      (use cache_wf_new in \<open>auto simp: cache_wf_def inodes_wf_def ring_wf_def heap_wf_def dirty_wf_def Get_def fetched_at_def\<close>)
  then have bk: "bookkept ?c1" using ids by (rule bookkept_load_fold)
  have "DeserializeFromDisk B now (?new, db') = (?c1, None)"
    using view by (simp add: DeserializeFromDisk_def)
  moreover have "Get ?c1 k = Some (inode_ms i)" if "Get c k = Some i" "IsChildrenFetched i \<or> ParentID i \<noteq> ''''" for k i
    using that to_persist_covers [OF c(1) that(1)] by (simp add: get persistable_def)
  ultimately show ?thesis using bk by (intro exI [of _ ?c1]) (auto simp: get inode_ms_def)
qed

theorem serialize_load_roundtrip_witness:
  "\<exists>c' db' c1. SerializeAll mem_bolt (\<lambda>_. 1)
      ((ex_cache 1500000 3 [''A''])\<lparr>db_open := True\<rparr>, \<lambda>_. [] :: (string \<times> unit bolt_value) list) = ((c', db'), None) \<and>
     DeserializeFromDisk mem_bolt 0 (NewInodeCache\<lparr>db_open := True\<rparr>, db') = (c1, None) \<and>
     Get c1 ''A'' = Some (ex_folder ''A'' 1000000 3)"
proof -
  let ?c = "(ex_cache 1500000 3 [''A''])\<lparr>db_open := True\<rparr>"
  let ?db = "\<lambda>_. [] :: (string \<times> unit bolt_value) list"
  have wf: "cache_wf ?c"
    using bookkept_wf [OF bookkept_ex_cache [of "[''A'']" 1500000 3]]
    by (simp add: cache_wf_def inodes_wf_def ring_wf_def heap_wf_def dirty_wf_def Get_def)
  obtain c' db' where run: "SerializeAll mem_bolt (\<lambda>_. 1) (?c, ?db) = ((c', db'), None)"
    by (cases "put_all mem_bolt (\<lambda>_. 1) ?c (to_persist ?c) (?db, 0)")
       (simp add: SerializeAll_def serialize_all_tx_def mem_bolt_def)
  have puts: "\<exists>tx'. b_put mem_bolt tx Metadata k v = Inr tx'" for tx :: "bucket \<Rightarrow> (string \<times> unit bolt_value) list" and k v
    by (simp add: mem_bolt_def)
  have e: "map_of (id ?db Metadata) = Map.empty" by simp
  have view: "b_view mem_bolt db' = Inr db'" "b_has mem_bolt db' Metadata" by (simp_all add: mem_bolt_def)
  have "Get ?c ''A'' = Some (ex_folder ''A'' 1500000 3)" using Get_ex_cache [of 1500000 3 "[''A'']"] by (simp add: Get_def)
  moreover obtain c1 where c1: "DeserializeFromDisk mem_bolt 0 (NewInodeCache\<lparr>db_open := True\<rparr>, db') = (c1, None)"
      "\<And>k i. Get ?c k = Some i \<and> (IsChildrenFetched i \<or> ParentID i \<noteq> '''') \<Longrightarrow>
         Get c1 k = Some (i\<lparr>childrenLastAccess := ms_floor (childrenLastAccess i), childrenCachedAt := ms_floor (childrenCachedAt i)\<rparr>)"
    using serialize_load_roundtrip [OF mem_bolt_contract puts wf _ e run view, of 0] by auto
  ultimately have "Get c1 ''A'' = Some ((ex_folder ''A'' 1500000 3)\<lparr>childrenLastAccess := ms_floor (childrenLastAccess (ex_folder ''A'' 1500000 3)),
      childrenCachedAt := ms_floor (childrenCachedAt (ex_folder ''A'' 1500000 3))\<rparr>)"
    by (intro c1(2)) simp
  moreover have "(ex_folder ''A'' 1500000 3)\<lparr>childrenLastAccess := ms_floor (childrenLastAccess (ex_folder ''A'' 1500000 3)),
      childrenCachedAt := ms_floor (childrenCachedAt (ex_folder ''A'' 1500000 3))\<rparr>
      = ex_folder ''A'' 1000000 3"
    by (simp add: ex_folder_def ms_floor_def)
  ultimately show ?thesis using run c1(1) by auto
qed

text \<open>
  \<^verbatim>\<open>SerializeAll\<close> forgets the tombstones without deleting their entries: an inode that was
  removed from memory but is still on disk stays on disk, is no longer marked deleted, and a later
  load brings it back.
\<close>

lemma SerializeAll_resurrects:
  assumes con: "bolt_contract B snap content"
    and c: "db_open c" "k \<in> set (deleted c)" "Get c k = None"
    and disk: "content (snap db) Metadata k = Some (InodeV (AsJSON i))"
    and run: "SerializeAll B json_len (c, db) = ((c', db'), None)"
    and puts: "\<And>tx k v. \<exists>tx'. b_put B tx Metadata k v = Inr tx'"
    and view: "b_view B db' = Inr tx" "b_has B tx Metadata"
  shows "k \<notin> set (deleted c') \<and> k \<notin> set (dirty c') \<and> content (snap db') Metadata k = Some (InodeV (AsJSON i)) \<and>
    Get (fst (DeserializeFromDisk B now (NewInodeCache\<lparr>db_open := True\<rparr>, db'))) k = Some (inode_ms i)"
proof -
  obtain n where up: "b_update B db (serialize_all_tx B json_len c) = (db', n, None)"
    using run c(1) by (auto simp: SerializeAll_def split: prod.splits option.splits)
  have ok: "snd (snd (serialize_all_tx B json_len c (snap db))) = None"
      "content (snap db') = content (fst (serialize_all_tx B json_len c (snap db)))"
    using contract_update(1) [OF con up refl] by auto
  obtain tx1 n1 where pa: "put_all B json_len c (to_persist c) (snap db, 0) = (tx1, n1)" by fastforce
  have "fst (serialize_all_tx B json_len c (snap db)) = tx1"
    using ok(1) pa by (auto simp: serialize_all_tx_def split: if_splits)
  then have d: "content (snap db') Metadata k = Some (InodeV (AsJSON i))"
    using put_all_content [OF con puts pa] ok(2) c(3) disk by (simp add: fun_eq_iff)
  have law: "bolt_read_law B snap content" using con by (simp add: bolt_contract_def)
  then have "map_of (b_each B tx Metadata) k = Some (InodeV (AsJSON i))" "distinct (map fst (b_each B tx Metadata))"
    using view(1) d by (simp_all add: bolt_read_law_def)
  then have "Get (fold (load_entry now) (b_each B tx Metadata) (NewInodeCache\<lparr>db_open := True\<rparr>)) k = Some (inode_ms i)"
    by (simp add: load_fold_Get NewInodeJSON_AsJSON)
       (simp add: Get_def NewInodeCache_def NewInodeJSON_AsJSON)
  moreover have "dirty c' = [] \<and> deleted c' = []"
    using run c(1) up by (auto simp: SerializeAll_def)
  ultimately show ?thesis using view d by (simp add: DeserializeFromDisk_def)
qed

end
