(* ===== verification/Content_Index.thy ===== *)
theory Content_Index
  imports Go_Heap "HOL-Library.Char_ord" "HOL-Library.List_Lexorder"
begin

text \<open>
  The eviction index of the content cache (\<^verbatim>\<open>internal/fs/content_eviction.go\<close>): a heap of pointers
  to entries, each of which records its own position so that it can be fixed or removed in place.
  Pointers are addresses into a store of entries.  Swapping two positions only rewrites the
  \<^verbatim>\<open>index\<close> fields, so on the list of addresses the heap behaves as \<^verbatim>\<open>container/heap\<close> over the order of
  the entries, and the recorded positions stay right.
\<close>

section \<open>Entries and the heap interface\<close>

record evict_entry =
  ev_id :: ident
  ev_path :: string
  ev_modTime :: time
  ev_size :: int
  ev_index :: int

type_synonym addr = nat
type_synonym heap_state = "evict_entry list \<times> addr list"

definition entry_less :: "evict_entry \<Rightarrow> evict_entry \<Rightarrow> bool" where
  "entry_less a b = (if ev_modTime a = ev_modTime b then ev_path a < ev_path b else ev_modTime a < ev_modTime b)"

definition evictHeap_Less :: "heap_state \<Rightarrow> nat \<Rightarrow> nat \<Rightarrow> bool" where
  "evictHeap_Less = (\<lambda>(st, h) i j. entry_less (st ! (h ! i)) (st ! (h ! j)))"

definition set_index :: "addr \<Rightarrow> int \<Rightarrow> evict_entry list \<Rightarrow> evict_entry list" where
  "set_index a i st = st[a := (st ! a)\<lparr>ev_index := i\<rparr>]"

definition evictHeap_Swap :: "heap_state \<Rightarrow> nat \<Rightarrow> nat \<Rightarrow> heap_state" where
  "evictHeap_Swap = (\<lambda>(st, h) i j.
     let h = lswap h i j in (set_index (h ! j) (int j) (set_index (h ! i) (int i) st), h))"

definition evictHeap_Push :: "addr \<Rightarrow> heap_state \<Rightarrow> heap_state" where
  "evictHeap_Push a = (\<lambda>(st, h). (set_index a (int (length h)) st, h @ [a]))"

definition evictHeap_Pop :: "heap_state \<Rightarrow> addr \<times> heap_state" where
  "evictHeap_Pop = (\<lambda>(st, h). let a = last h in (a, (set_index a (- 1) st, butlast h)))"

text \<open>The calls of \<^verbatim>\<open>container/heap\<close> on this implementation of \<^verbatim>\<open>heap.Interface\<close>.\<close>

definition push_entry :: "addr \<Rightarrow> heap_state \<Rightarrow> heap_state" where
  "push_entry a s = heap_up evictHeap_Less evictHeap_Swap (length (snd s)) (evictHeap_Push a s)"

definition pop_entry :: "heap_state \<Rightarrow> (addr \<times> heap_state) option" where
  "pop_entry s =
     (if snd s = [] then None
      else let n = length (snd s) - 1
           in Some (evictHeap_Pop (fst (heap_down evictHeap_Less evictHeap_Swap 0 n (evictHeap_Swap s 0 n)))))"

definition fix_entry :: "nat \<Rightarrow> heap_state \<Rightarrow> heap_state" where
  "fix_entry i s =
     (let (s', i') = heap_down evictHeap_Less evictHeap_Swap i (length (snd s)) s in
      if i' > i then s' else heap_up evictHeap_Less evictHeap_Swap i s')"

definition remove_entry :: "nat \<Rightarrow> heap_state \<Rightarrow> addr \<times> heap_state" where
  "remove_entry i s =
     (let n = length (snd s) - 1;
          s1 = (if n \<noteq> i
                then let (s', i') = heap_down evictHeap_Less evictHeap_Swap i n (evictHeap_Swap s i n) in
                     if i' > i then s' else heap_up evictHeap_Less evictHeap_Swap i s'
                else s)
      in evictHeap_Pop s1)"

section \<open>The order of the entries\<close>

definition addr_less :: "evict_entry list \<Rightarrow> addr \<Rightarrow> addr \<Rightarrow> bool" where
  "addr_less st a b = entry_less (st ! a) (st ! b)"

interpretation entry_order: go_heap_order entry_less
  by unfold_locales (auto simp: entry_less_def split: if_splits)

interpretation addr_order: go_heap_order "addr_less st" for st
  by unfold_locales
     (auto simp: addr_less_def dest: entry_order.lt_asym entry_order.le_trans)

text \<open>Two stores that differ in the recorded positions only.\<close>

definition erase :: "evict_entry \<Rightarrow> evict_entry" where
  "erase e = e\<lparr>ev_index := 0\<rparr>"

definition same_keys :: "evict_entry list \<Rightarrow> evict_entry list \<Rightarrow> bool" where
  "same_keys st st' \<longleftrightarrow> map erase st' = map erase st"

lemma same_keys_refl [simp]: "same_keys st st"
  by (simp add: same_keys_def)

lemma same_keys_trans: "same_keys a b \<Longrightarrow> same_keys b c \<Longrightarrow> same_keys a c"
  by (simp add: same_keys_def)

lemma same_keys_length: "same_keys st st' \<Longrightarrow> length st' = length st"
  unfolding same_keys_def by (metis length_map)

lemma same_keys_nth: "same_keys st st' \<Longrightarrow> a < length st \<Longrightarrow> erase (st' ! a) = erase (st ! a)"
  unfolding same_keys_def by (metis length_map nth_map)

lemma same_keys_fields:
  assumes "same_keys st st'" "a < length st"
  shows "ev_id (st' ! a) = ev_id (st ! a)" "ev_path (st' ! a) = ev_path (st ! a)"
    "ev_modTime (st' ! a) = ev_modTime (st ! a)" "ev_size (st' ! a) = ev_size (st ! a)"
  using same_keys_nth [OF assms] by (cases "st ! a"; cases "st' ! a"; simp add: erase_def)+

lemma same_keys_set_index [simp]: "same_keys st (set_index a i st)"
  by (cases "a < length st")
     (simp_all add: same_keys_def set_index_def map_update erase_def list_update_same_conv list_update_beyond)

lemma addr_less_same_keys:
  assumes "same_keys st st'" "a < length st" "b < length st"
  shows "addr_less st' a b = addr_less st a b"
  using same_keys_fields [OF assms(1,2)] same_keys_fields [OF assms(1,3)]
  by (simp add: addr_less_def entry_less_def)

section \<open>Recorded positions\<close>

definition positions_ok :: "heap_state \<Rightarrow> bool" where
  "positions_ok = (\<lambda>(st, h). distinct h \<and> (\<forall>i < length h. h ! i < length st \<and> ev_index (st ! (h ! i)) = int i))"

lemma swap_state:
  assumes ok: "positions_ok (st, h)" and i: "i < length h" "j < length h"
    and s: "evictHeap_Swap (st, h) i j = (st', h')"
  shows "h' = lswap h i j" "same_keys st st'" "positions_ok (st', h')"
proof -
  have h: "h' = lswap h i j" and st: "st' = set_index (h' ! j) (int j) (set_index (h' ! i) (int i) st)"
    using s by (auto simp: evictHeap_Swap_def Let_def)
  show "h' = lswap h i j" by (rule h)
  show "same_keys st st'" unfolding st by (rule same_keys_trans [OF same_keys_set_index same_keys_set_index])
  have dist: "distinct h'" "length h' = length h" "set h' = set h"
    using ok i unfolding h lswap_def positions_ok_def by (auto simp: distinct_swap set_swap)
  have nth: "h' ! k = (if k = j then h ! i else if k = i then h ! j else h ! k)" if "k < length h" for k
    using that i by (auto simp: h lswap_def nth_list_update)
  have "h' ! k < length st' \<and> ev_index (st' ! (h' ! k)) = int k" if k: "k < length h'" for k
  proof -
    have valid: "h' ! m < length st" if "m < length h'" for m
      using nth_mem [OF that] dist ok by (auto simp: positions_ok_def in_set_conv_nth)
    have len: "length st' = length st" by (simp add: st set_index_def)
    consider "k = j" | "k = i" "k \<noteq> j" | "k \<noteq> i" "k \<noteq> j" by blast
    then show ?thesis
    proof cases
      case 1
      then show ?thesis using valid [OF k] by (simp add: st set_index_def)
    next
      case 2
      then have "h' ! k \<noteq> h' ! j" using dist k i by (simp add: nth_eq_iff_index_eq)
      with 2 show ?thesis using valid [OF k] by (simp add: st set_index_def)
    next
      case 3
      then have "h' ! k \<noteq> h' ! j" "h' ! k \<noteq> h' ! i" using dist k i by (simp_all add: nth_eq_iff_index_eq)
      moreover have "h' ! k = h ! k" "ev_index (st ! (h ! k)) = int k"
        using nth ok 3 k dist by (auto simp: positions_ok_def)
      ultimately show ?thesis using valid [OF k] by (simp add: st set_index_def)
    qed
  qed
  with dist show "positions_ok (st', h')" by (simp add: positions_ok_def)
qed

section \<open>The pointer heap follows container/heap on addresses\<close>

text \<open>What an operation of the pointer heap may do to the store.\<close>

definition follows :: "heap_state \<Rightarrow> heap_state \<Rightarrow> addr list \<Rightarrow> bool" where
  "follows s s' h' \<longleftrightarrow> snd s' = h' \<and> same_keys (fst s) (fst s') \<and> positions_ok s'"

lemma lless_same:
  assumes "positions_ok (st, h)" "same_keys st0 st" "i < length h" "j < length h"
  shows "evictHeap_Less (st, h) i j = lless (addr_less st0) h i j"
proof -
  have "h ! i < length st0" "h ! j < length st0"
    using assms same_keys_length [OF assms(2)] by (auto simp: positions_ok_def)
  then show ?thesis
    using addr_less_same_keys [OF assms(2)] by (simp add: evictHeap_Less_def lless_def addr_less_def)
qed

lemma up_follows:
  "positions_ok (st, h) \<Longrightarrow> same_keys st0 st \<Longrightarrow> j < length h \<Longrightarrow>
     follows (st0, h0) (heap_up evictHeap_Less evictHeap_Swap j (st, h)) (heap_up (lless (addr_less st0)) lswap j h)"
proof (induction j arbitrary: st h rule: less_induct)
  case (less j)
  show ?case
  proof (cases "0 < j \<and> lless (addr_less st0) h j (par j)")
    case False
    then have "j = 0 \<or> \<not> evictHeap_Less (st, h) j (par j)"
      using lless_same [OF less.prems(1,2)] less.prems(3) par_less [of j] by force
    with False less.prems show ?thesis
      by (simp add: heap_up_stop follows_def)
  next
    case True
    then have p: "par j < j" by (simp add: par_less)
    obtain st1 h1 where sw: "evictHeap_Swap (st, h) (par j) j = (st1, h1)" by fastforce
    have s1: "h1 = lswap h (par j) j" "same_keys st st1" "positions_ok (st1, h1)"
      using swap_state [OF less.prems(1) _ less.prems(3) sw] p less.prems(3) by auto
    have "evictHeap_Less (st, h) j (par j)"
      using True lless_same [OF less.prems(1,2,3), of "par j"] p less.prems(3) by simp
    then have "heap_up evictHeap_Less evictHeap_Swap j (st, h) = heap_up evictHeap_Less evictHeap_Swap (par j) (st1, h1)"
      using True by (simp add: heap_up_step sw)
    moreover have "heap_up (lless (addr_less st0)) lswap j h = heap_up (lless (addr_less st0)) lswap (par j) h1"
      using True by (simp add: heap_up_step s1(1))
    ultimately show ?thesis
      using less.IH [OF p s1(3) same_keys_trans [OF less.prems(2) s1(2)]] p less.prems(3) by (simp add: s1(1))
  qed
qed

lemma down_follows:
  "positions_ok (st, h) \<Longrightarrow> same_keys st0 st \<Longrightarrow> i < n \<Longrightarrow> n \<le> length h \<Longrightarrow>
     heap_down evictHeap_Less evictHeap_Swap i n (st, h) = (s', i') \<Longrightarrow>
     follows (st0, h0) s' (fst (heap_down (lless (addr_less st0)) lswap i n h)) \<and>
     i' = snd (heap_down (lless (addr_less st0)) lswap i n h)"
proof (induction "n - i" arbitrary: i st h rule: less_induct)
  case less
  note ll = lless_same [OF less.prems(1,2)]
  show ?case
  proof (cases "2 * i + 1 < n")
    case False
    with less.prems show ?thesis by (simp add: heap_down_stop follows_def) (auto simp: heap_down_stop)
  next
    case True
    define k where "k = pick (lless (addr_less st0)) i n h"
    have pk: "pick evictHeap_Less i n (st, h) = k"
      using ll True less.prems(4) by (auto simp: pick_def k_def)
    have k: "i < k" "k < n" using pick_props [OF True] by (simp_all add: k_def)
    have lt: "evictHeap_Less (st, h) k i = lless (addr_less st0) h k i"
      using ll k less.prems(4) by simp
    show ?thesis
    proof (cases "lless (addr_less st0) h k i")
      case False
      with less.prems lt pk show ?thesis
        by (simp add: heap_down_stop follows_def) (auto simp: heap_down_stop k_def)
    next
      case lk: True
      obtain st1 h1 where sw: "evictHeap_Swap (st, h) i k = (st1, h1)" by fastforce
      have s1: "h1 = lswap h i k" "same_keys st st1" "positions_ok (st1, h1)"
        using swap_state [OF less.prems(1) _ _ sw] k less.prems(4) by auto
      have "heap_down evictHeap_Less evictHeap_Swap k n (st1, h1) = (s', i')"
        using less.prems(5) True lk lt pk by (simp add: heap_down_step sw)
      moreover have "heap_down (lless (addr_less st0)) lswap i n h = heap_down (lless (addr_less st0)) lswap k n h1"
        using True lk by (simp add: heap_down_step k_def s1(1))
      ultimately show ?thesis
        using less.hyps [of k st1 h1] k s1 less.prems same_keys_trans [OF less.prems(2) s1(2)] by simp
    qed
  qed
qed

section \<open>Operations of the index\<close>

definition heap_inv :: "heap_state \<Rightarrow> bool" where
  "heap_inv s \<longleftrightarrow> positions_ok s \<and> is_heap (addr_less (fst s)) (snd s)"

lemma positions_valid: "positions_ok (st, h) \<Longrightarrow> a \<in> set h \<Longrightarrow> a < length st"
  by (auto simp: positions_ok_def in_set_conv_nth)

lemma is_heap_same_keys:
  assumes "same_keys st st'" "\<forall>a \<in> set h. a < length st"
  shows "is_heap (addr_less st') h = is_heap (addr_less st) h"
proof -
  have "addr_less st' (h ! k) (h ! par k) = addr_less st (h ! k) (h ! par k)" if "0 < k" "k < length h" for k
    using assms that par_less [of k] by (intro addr_less_same_keys) auto
  then show ?thesis by (auto simp: is_heap_def heap_on_def edge_def)
qed

lemma heap_inv_follows:
  assumes "follows (st, h0) s' h'" "is_heap (addr_less st) h'"
  shows "heap_inv s'"
proof -
  obtain st' where s': "s' = (st', h')" using assms(1) by (cases s') (auto simp: follows_def)
  then have "same_keys st st'" "positions_ok (st', h')" using assms(1) by (auto simp: follows_def)
  moreover have "\<forall>a \<in> set h'. a < length st"
    using positions_valid [OF calculation(2)] same_keys_length [OF calculation(1)] by auto
  ultimately show ?thesis using assms(2) is_heap_same_keys by (auto simp: heap_inv_def s')
qed

lemma push_entry_props:
  assumes inv: "heap_inv (st, h)" and a: "a < length st" "a \<notin> set h" and p: "push_entry a (st, h) = (st', h')"
  shows "heap_inv (st', h')" "same_keys st st'" "mset h' = add_mset a (mset h)"
proof -
  let ?st = "set_index a (int (length h)) st"
  have ok: "positions_ok (?st, h @ [a])"
    using inv a by (auto simp: heap_inv_def positions_ok_def set_index_def nth_append nth_list_update in_set_conv_nth)
  have "follows (st, h) (st', h') (heap_up (lless (addr_less st)) lswap (length h) (h @ [a]))"
    using up_follows [OF ok same_keys_set_index, of "length h" h] p by (simp add: push_entry_def evictHeap_Push_def)
  then have f: "follows (st, h) (st', h') (heap_Push (addr_less st) a h)" by (simp add: heap_Push_def)
  then show "heap_inv (st', h')"
    using addr_order.is_heap_Push inv by (intro heap_inv_follows) (auto simp: heap_inv_def)
  show "same_keys st st'" "mset h' = add_mset a (mset h)"
    using f addr_order.mset_Push [of st a h] by (simp_all add: follows_def)
qed

lemma evictHeap_Pop_props:
  assumes ok: "positions_ok (st, h)" and ne: "h \<noteq> []" and p: "evictHeap_Pop (st, h) = (a, st', h')"
  shows "a = last h" "h' = butlast h" "same_keys st st'" "positions_ok (st', h')" "a < length st'"
    "ev_index (st' ! a) = - 1" "a \<notin> set h'"
proof -
  have r: "a = last h" "h' = butlast h" "st' = set_index a (- 1) st"
    using p by (auto simp: evictHeap_Pop_def Let_def)
  have d: "distinct (butlast h @ [last h])" using ok ne by (simp add: positions_ok_def)
  have a: "a < length st" using positions_valid [OF ok, of a] ne by (simp add: r)
  show "a = last h" "h' = butlast h" by (fact r)+
  show "same_keys st st'" by (simp add: r)
  show "a < length st'" "ev_index (st' ! a) = - 1" using a by (simp_all add: r(3) set_index_def)
  show na: "a \<notin> set h'" using d by (simp add: r)
  have "h' ! i < length st' \<and> ev_index (st' ! (h' ! i)) = int i" if i: "i < length h'" for i
  proof -
    have "a \<noteq> h' ! i" using na nth_mem [OF i] by metis
    moreover have "h' ! i = h ! i" "i < length h" using i by (simp_all add: r(2) nth_butlast)
    ultimately show ?thesis using ok by (simp add: r(3) set_index_def positions_ok_def)
  qed
  moreover have "distinct h'" using d by (simp add: r(2))
  ultimately show "positions_ok (st', h')" by (simp add: positions_ok_def)
qed

lemma pop_entry_props:
  assumes inv: "heap_inv (st, h)" and p: "pop_entry (st, h) = Some (a, st', h')"
  shows "heap_inv (st', h')" "same_keys st st'" "mset h = add_mset a (mset h')" "a < length st'"
    "ev_index (st' ! a) = - 1" "a \<notin> set h'" "\<And>b. b \<in> set h \<Longrightarrow> \<not> addr_less st b a"
proof -
  have ok: "positions_ok (st, h)" and hp: "is_heap (addr_less st) h" using inv by (auto simp: heap_inv_def)
  have ne: "h \<noteq> []" using p by (auto simp: pop_entry_def)
  let ?n = "length h - 1"
  obtain st1 h1 where sw: "evictHeap_Swap (st, h) 0 ?n = (st1, h1)" by fastforce
  have s1: "h1 = lswap h 0 ?n" "same_keys st st1" "positions_ok (st1, h1)"
    using swap_state [OF ok _ _ sw] ne by auto
  obtain s2 where s2: "fst (heap_down evictHeap_Less evictHeap_Swap 0 ?n (st1, h1)) = s2" by blast
  have f2: "follows (st, h) s2 (fst (heap_down (lless (addr_less st)) lswap 0 ?n h1))"
  proof (cases "?n = 0")
    case True
    then show ?thesis using s1 s2 by (simp add: heap_down_stop follows_def) auto
  next
    case False
    obtain i' where "heap_down evictHeap_Less evictHeap_Swap 0 ?n (st1, h1) = (s2, i')" using s2 by (metis prod.collapse)
    from down_follows [OF s1(3,2) _ _ this, of h] False show ?thesis by (simp add: s1(1))
  qed
  obtain st2 h2 where st2: "s2 = (st2, h2)" by fastforce
  have h2: "h2 = fst (heap_down (lless (addr_less st)) lswap 0 ?n (lswap h 0 ?n))" "same_keys st st2" "positions_ok (st2, h2)"
    using f2 unfolding follows_def st2 s1(1) by auto
  have pop: "heap_Pop (addr_less st) h = Some (last h2, butlast h2)"
    using ne by (simp add: heap_Pop_def Let_def h2(1))
  note pp = addr_order.Pop_props [OF hp pop]
  have ne2: "h2 \<noteq> []"
    using heap_down_shape [of 0 ?n "lswap h 0 ?n" "addr_less st"] ne h2(1)
    by (cases "?n = 0") (auto simp: heap_down_stop lswap_def)
  have "evictHeap_Pop (st2, h2) = (a, st', h')"
    using p ne unfolding pop_entry_def by (simp only: Let_def snd_conv if_False sw s2 st2 option.inject)
  note ep = evictHeap_Pop_props [OF h2(3) ne2 this]
  show "same_keys st st'" using same_keys_trans [OF h2(2) ep(3)] .
  show "mset h = add_mset a (mset h')" "\<And>b. b \<in> set h \<Longrightarrow> \<not> addr_less st b a" using pp ep by simp_all
  show "a < length st'" "ev_index (st' ! a) = - 1" "a \<notin> set h'" by (fact ep)+
  have "follows (st, h) (st', h') h'" using same_keys_trans [OF h2(2) ep(3)] ep by (simp add: follows_def)
  then show "heap_inv (st', h')" using pp(1) ep by (intro heap_inv_follows) auto
qed

text \<open>The common part of \<open>Fix\<close> and \<open>Remove\<close> on the pointer heap.\<close>

lemma down_up_follows:
  assumes ok: "positions_ok (st, h)" and sk: "same_keys st0 st" and i: "i < n" "n \<le> length h"
    and eq: "heap_down evictHeap_Less evictHeap_Swap i n (st, h) = (s', i')"
    and eq': "heap_down (lless (addr_less st0)) lswap i n h = (g, i2)"
  shows "follows (st0, h0) (if i' > i then s' else heap_up evictHeap_Less evictHeap_Swap i s')
           (if i2 > i then g else heap_up (lless (addr_less st0)) lswap i g)"
proof -
  have f: "follows (st0, h0) s' g" "i' = i2"
    using down_follows [OF ok sk i eq, of h0] eq' by simp_all
  obtain st1 where s1: "s' = (st1, g)" using f(1) by (cases s') (auto simp: follows_def)
  have "positions_ok (st1, g)" "same_keys st0 st1" using f(1) by (auto simp: follows_def s1)
  moreover have "i < length g" using heap_down_shape [OF i, of "addr_less st0"] i eq' by simp
  ultimately show ?thesis
    using up_follows [of st1 g st0 i h0] f by (simp add: s1)
qed

text \<open>\<open>Fix\<close> after the key of one entry was changed in place.\<close>

lemma fix_entry_props:
  assumes ok: "positions_ok (st, h)" and i: "i < length h"
    and gap: "down_gap (addr_less st) (length h) i h" and p: "fix_entry i (st, h) = (st', h')"
  shows "heap_inv (st', h')" "same_keys st st'" "mset h' = mset h"
proof -
  obtain s1 i' where eq: "heap_down evictHeap_Less evictHeap_Swap i (length h) (st, h) = (s1, i')" by fastforce
  obtain g i2 where eq': "heap_down (lless (addr_less st)) lswap i (length h) h = (g, i2)" by fastforce
  have f: "follows (st, h) (st', h') (heap_Fix (addr_less st) i h)"
    using down_up_follows [OF ok same_keys_refl i order_refl eq eq', of h] p
    by (simp add: fix_entry_def heap_Fix_def eq eq')
  note fx = addr_order.Fix_props [OF gap i]
  show "heap_inv (st', h')" using heap_inv_follows [OF f] fx by simp
  show "same_keys st st'" "mset h' = mset h" using f fx by (simp_all add: follows_def)
qed

lemma remove_entry_props:
  assumes inv: "heap_inv (st, h)" and i: "i < length h" and p: "remove_entry i (st, h) = (a, st', h')"
  shows "heap_inv (st', h')" "same_keys st st'" "a = h ! i" "mset h = add_mset a (mset h')"
    "a < length st'" "ev_index (st' ! a) = - 1" "a \<notin> set h'"
proof -
  have ok: "positions_ok (st, h)" and hp: "is_heap (addr_less st) h" using inv by (auto simp: heap_inv_def)
  let ?n = "length h - 1"
  obtain st2 h2 where r: "evictHeap_Pop (st2, h2) = (a, st', h')" and f2: "follows (st, h) (st2, h2) h2"
    and rem: "heap_Remove (addr_less st) i h = (last h2, butlast h2)" and len: "length h2 = length h"
  proof (cases "?n = i")
    case True
    then show ?thesis using that [of st h] p ok
      by (simp add: remove_entry_def heap_Remove_def Let_def follows_def)
  next
    case False
    then have in': "i < ?n" using i by simp
    obtain st1 where sw: "evictHeap_Swap (st, h) i ?n = (st1, lswap h i ?n)"
      by (simp add: evictHeap_Swap_def Let_def)
    have s1: "same_keys st st1" "positions_ok (st1, lswap h i ?n)"
      using swap_state [OF ok _ _ sw] i by auto
    obtain s2 i' where eq: "heap_down evictHeap_Less evictHeap_Swap i ?n (st1, lswap h i ?n) = (s2, i')" by fastforce
    obtain g i2 where eq': "heap_down (lless (addr_less st)) lswap i ?n (lswap h i ?n) = (g, i2)" by fastforce
    define s3 where "s3 = (if i' > i then s2 else heap_up evictHeap_Less evictHeap_Swap i s2)"
    define g3 where "g3 = (if i2 > i then g else heap_up (lless (addr_less st)) lswap i g)"
    have f: "follows (st, h) s3 g3"
      using down_up_follows [OF s1(2,1) in' _ eq eq', of h] by (simp add: s3_def g3_def)
    then obtain st3 where s3: "s3 = (st3, g3)" by (cases s3) (auto simp: follows_def)
    have "evictHeap_Pop s3 = (a, st', h')"
      using p False unfolding remove_entry_def s3_def
      by (simp only: Let_def snd_conv sw eq prod.case if_True not_False_eq_True)
    moreover have "heap_Remove (addr_less st) i h = (last g3, butlast g3)"
      using False unfolding heap_Remove_def g3_def
      by (simp only: Let_def eq' prod.case if_True not_False_eq_True)
    moreover have "length g3 = length h"
      using addr_order.down_then_up(3) [OF addr_order.lswap_last_gap [OF hp in'] in' _ eq'] by (simp add: g3_def)
    ultimately show ?thesis using that f by (simp add: s3)
  qed
  note ep = evictHeap_Pop_props [OF _ _ r]
  have ok2: "positions_ok (st2, h2)" "same_keys st st2" using f2 by (auto simp: follows_def)
  have ne: "h2 \<noteq> []" using len i by auto
  note rp = addr_order.Remove_props [OF hp i rem]
  show "same_keys st st'" using same_keys_trans [OF ok2(2)] ep(3) [OF ok2(1) ne] by blast
  show "a = h ! i" "mset h = add_mset a (mset h')" using rp ep(1,2) [OF ok2(1) ne] by simp_all
  show "a < length st'" "ev_index (st' ! a) = - 1" "a \<notin> set h'" using ep(5-7) [OF ok2(1) ne] .
  have "follows (st, h) (st', h') h'"
    using same_keys_trans [OF ok2(2)] ep [OF ok2(1) ne] by (auto simp: follows_def)
  then show "heap_inv (st', h')" using rp(1) ep(2) [OF ok2(1) ne] by (intro heap_inv_follows) auto
qed

text \<open>A pop shortens the heap, whatever state it is in.\<close>

lemma length_evictHeap_Swap: "length (snd (evictHeap_Swap s i j)) = length (snd s)"
  by (cases s) (simp add: evictHeap_Swap_def Let_def)

lemma length_evict_down: "length (snd (fst (heap_down evictHeap_Less evictHeap_Swap i n s))) = length (snd s)"
proof (induction "n - i" arbitrary: i s rule: less_induct)
  case less
  show ?case
  proof (cases "2 * i + 1 < n \<and> evictHeap_Less s (pick evictHeap_Less i n s) i")
    case True
    then have "i < pick evictHeap_Less i n s" "pick evictHeap_Less i n s < n"
      using pick_props [of i n evictHeap_Less s] by auto
    with True show ?thesis by (simp add: heap_down_step less.hyps length_evictHeap_Swap)
  next
    case False
    then show ?thesis by (subst heap_down_stop) auto
  qed
qed

lemma pop_entry_shorter: "pop_entry s = Some (a, sh) \<Longrightarrow> length (snd sh) < length (snd s)"
proof -
  assume "pop_entry s = Some (a, sh)"
  moreover define s1 where
    "s1 = fst (heap_down evictHeap_Less evictHeap_Swap 0 (length (snd s) - 1) (evictHeap_Swap s 0 (length (snd s) - 1)))"
  ultimately have "snd s \<noteq> []" "snd sh = butlast (snd s1)"
    by (auto simp: pop_entry_def Let_def evictHeap_Pop_def split: if_splits prod.splits)
  moreover have "length (snd s1) = length (snd s)"
    by (simp add: s1_def length_evict_down length_evictHeap_Swap)
  ultimately show ?thesis by simp
qed

end
