(* ===== verification/Go_Path.thy ===== *)
theory Go_Path
  imports Prelude
begin

text \<open>
  The parts of Go's \<^verbatim>\<open>path/filepath\<close> (Unix) and \<^verbatim>\<open>encoding/hex\<close> that the content cache builds its file
  names with: \<^verbatim>\<open>Clean\<close>, \<^verbatim>\<open>Join\<close>, \<^verbatim>\<open>IsLocal\<close> and \<^verbatim>\<open>EncodeToString\<close>.  A path is cleaned component by
  component; \<open>clean_comps\<close> keeps the components seen so far on a stack.  The main fact is
  \<open>clean_below\<close>: a local path appended to any other never leaves it.
\<close>

section \<open>Splitting and joining at slashes\<close>

definition slash :: char where "slash = CHR ''/''"
definition nul :: char where "nul = CHR 0x00"
definition dot :: string where "dot = ''.''"
definition dotdot :: string where "dotdot = ''..''"

fun split_path :: "string \<Rightarrow> string list" where
  "split_path [] = [[]]"
| "split_path (x # xs) =
     (if x = slash then [] # split_path xs
      else (case split_path xs of [] \<Rightarrow> [[x]] | p # ps \<Rightarrow> (x # p) # ps))"

fun join_path :: "string list \<Rightarrow> string" where
  "join_path [] = []"
| "join_path [p] = p"
| "join_path (p # q # ps) = p @ slash # join_path (q # ps)"

lemma split_path_ne [simp]: "split_path s \<noteq> []"
  by (induction s) (auto split: list.splits)

lemma split_path_append: "split_path (a @ slash # b) = split_path a @ split_path b"
proof (induction a)
  case (Cons x a)
  then show ?case by (cases "split_path a") auto
qed simp

lemma split_path_id: "slash \<notin> set p \<Longrightarrow> split_path p = [p]"
  by (induction p) auto

lemma split_join:
  "ps \<noteq> [] \<Longrightarrow> \<forall>p \<in> set ps. slash \<notin> set p \<Longrightarrow> split_path (join_path ps) = ps"
  by (induction ps rule: join_path.induct) (auto simp: split_path_append split_path_id)

lemma split_path_no_slash: "p \<in> set (split_path s) \<Longrightarrow> slash \<notin> set p"
  by (induction s arbitrary: p) (auto split: list.splits if_splits)

lemma split_path_chars: "p \<in> set (split_path s) \<Longrightarrow> set p \<subseteq> set s"
proof (induction s arbitrary: p)
  case (Cons x s)
  then show ?case by (cases "split_path s") (fastforce split: if_splits)+
qed simp

lemma join_path_append:
  "ps \<noteq> [] \<Longrightarrow> qs \<noteq> [] \<Longrightarrow> join_path (ps @ qs) = join_path ps @ slash # join_path qs"
proof (induction ps rule: join_path.induct)
  case (2 p)
  then show ?case by (cases qs) auto
qed auto

section \<open>Clean, Join and IsLocal\<close>

fun clean_comps :: "bool \<Rightarrow> string list \<Rightarrow> string list \<Rightarrow> string list" where
  "clean_comps rooted stack [] = rev stack"
| "clean_comps rooted stack (p # ps) =
     (if p = [] \<or> p = dot then clean_comps rooted stack ps
      else if p = dotdot then
        (case stack of
           [] \<Rightarrow> clean_comps rooted (if rooted then [] else [dotdot]) ps
         | q # st \<Rightarrow> clean_comps rooted (if q = dotdot then dotdot # stack else st) ps)
      else clean_comps rooted (p # stack) ps)"

definition is_abs :: "string \<Rightarrow> bool" where
  "is_abs s = (case s of [] \<Rightarrow> False | x # _ \<Rightarrow> x = slash)"

definition Clean :: "string \<Rightarrow> string" where
  "Clean s =
     (let out = clean_comps (is_abs s) [] (split_path s) in
      if is_abs s then slash # join_path out
      else if out = [] then dot else join_path out)"

definition Join :: "string \<Rightarrow> string \<Rightarrow> string" where
  "Join a b = (if a = [] then (if b = [] then [] else Clean b) else Clean (a @ slash # b))"

definition IsLocal :: "string \<Rightarrow> bool" where
  "IsLocal s =
     (if is_abs s \<or> s = [] then False
      else
        let hasDots = list_ex (\<lambda>p. p = dot \<or> p = dotdot) (split_path s);
            s' = (if hasDots then Clean s else s)
        in \<not> (s' = dotdot \<or> take 3 s' = dotdot @ [slash]))"

text \<open>A component that \<^verbatim>\<open>Clean\<close> leaves alone.\<close>

definition plain_comp :: "string \<Rightarrow> bool" where
  "plain_comp p \<longleftrightarrow> p \<noteq> [] \<and> p \<noteq> dot \<and> p \<noteq> dotdot \<and> slash \<notin> set p"

text \<open>Below the root of a relative path the cleaned components are dot-dots, then plain ones.\<close>

lemma clean_dotdot_stays: "dotdot \<in> set stack \<Longrightarrow> last stack = dotdot \<Longrightarrow> dotdot \<in> set (clean_comps False stack ps)"
proof (induction ps arbitrary: stack)
  case (Cons p ps)
  then show ?case
    by (cases stack) (auto split: if_splits)
qed simp

lemma clean_hd_dotdot:
  "(stack \<noteq> [] \<and> last stack = dotdot) \<or> (dotdot \<notin> set stack) \<Longrightarrow>
   dotdot \<in> set (clean_comps False stack ps) \<Longrightarrow>
   \<exists>rest. clean_comps False stack ps = dotdot # rest"
proof (induction ps arbitrary: stack)
  case Nil
  then show ?case by (cases stack rule: rev_cases) auto
next
  case (Cons p ps)
  consider "p = [] \<or> p = dot" | "p \<noteq> []" "p \<noteq> dot" "p = dotdot" | "p \<noteq> []" "p \<noteq> dot" "p \<noteq> dotdot" by blast
  then show ?case
  proof cases
    case 1
    then show ?thesis using Cons by auto
  next
    case 2
    then show ?thesis
    proof (cases stack)
      case Nil
      with 2 Cons.IH [of "[dotdot]"] Cons.prems(2) show ?thesis by simp
    next
      case (Cons q st)
      show ?thesis
      proof (cases "q = dotdot")
        case True
        with 2 Cons Cons.IH [of "dotdot # stack"] Cons.prems show ?thesis by auto
      next
        case False
        then have "(st \<noteq> [] \<and> last st = dotdot) \<or> dotdot \<notin> set st"
          using Cons Cons.prems(1) by (cases st) auto
        with 2 Cons False Cons.IH [of st] Cons.prems(2) show ?thesis by simp
      qed
    qed
  next
    case 3
    have "(p # stack \<noteq> [] \<and> last (p # stack) = dotdot) \<or> dotdot \<notin> set (p # stack)"
      using Cons.prems(1) 3 by auto
    with 3 Cons.IH [of "p # stack"] Cons.prems(2) show ?thesis by simp
  qed
qed

lemma clean_below:
  assumes "dotdot \<notin> set st0" "dotdot \<notin> set (clean_comps False st0 ps)"
  shows "clean_comps r (st0 @ base) ps = rev base @ clean_comps False st0 ps"
  using assms
proof (induction ps arbitrary: st0)
  case (Cons p ps)
  consider "p = [] \<or> p = dot" | "p \<noteq> []" "p \<noteq> dot" "p = dotdot" | "p \<noteq> []" "p \<noteq> dot" "p \<noteq> dotdot" by blast
  then show ?case
  proof cases
    case 1
    then show ?thesis using Cons by auto
  next
    case 2
    show ?thesis
    proof (cases st0)
      case Nil
      then have "dotdot \<in> set (clean_comps False st0 (p # ps))"
        using 2 clean_dotdot_stays [of "[dotdot]" ps] by simp
      with Cons.prems show ?thesis by blast
    next
      case (Cons q st)
      with 2 Cons.prems Cons.IH [of st] show ?thesis by auto
    qed
  next
    case 3
    then show ?thesis using Cons.prems Cons.IH [of "p # st0"] by simp
  qed
qed simp

lemma clean_comps_append: "clean_comps r st (ps @ qs) = clean_comps r (rev (clean_comps r st ps)) qs"
  by (induction ps arbitrary: st) (auto split: list.splits)

lemma clean_comps_plain:
  "dotdot \<notin> set (clean_comps False st ps) \<Longrightarrow> \<forall>p \<in> set st. plain_comp p \<Longrightarrow> \<forall>p \<in> set ps. slash \<notin> set p \<Longrightarrow>
   p \<in> set (clean_comps False st ps) \<Longrightarrow> plain_comp p \<and> (p \<in> set st \<or> p \<in> set ps)"
proof (induction ps arbitrary: st)
  case (Cons q ps)
  consider "q = [] \<or> q = dot" | "q \<noteq> []" "q \<noteq> dot" "q = dotdot" | "q \<noteq> []" "q \<noteq> dot" "q \<noteq> dotdot" by blast
  then show ?case
  proof cases
    case 1
    then show ?thesis using Cons by auto
  next
    case 2
    show ?thesis
    proof (cases st)
      case Nil
      then show ?thesis using 2 Cons.prems(1) clean_dotdot_stays [of "[dotdot]" ps] by simp
    next
      case (Cons x st')
      then have "x \<noteq> dotdot" using Cons.prems(2) by (auto simp: plain_comp_def)
      with 2 Cons Cons.prems Cons.IH [of st'] show ?thesis by auto
    qed
  next
    case 3
    then have "plain_comp q" using Cons.prems(3) by (simp add: plain_comp_def)
    then show ?thesis using 3 Cons.prems Cons.IH [of "q # st"] by auto
  qed
qed auto

lemma clean_comps_all_plain:
  "\<forall>p \<in> set ps. plain_comp p \<Longrightarrow> clean_comps r st ps = rev st @ ps"
  by (induction ps arbitrary: st) (auto simp: plain_comp_def)

lemma clean_no_dots:
  "\<forall>p \<in> set ps. p \<noteq> dot \<and> p \<noteq> dotdot \<Longrightarrow> dotdot \<notin> set st \<Longrightarrow> dotdot \<notin> set (clean_comps r st ps)"
  by (induction ps arbitrary: st) auto

lemma IsLocal_no_escape:
  assumes "IsLocal s"
  shows "dotdot \<notin> set (clean_comps False [] (split_path s))"
proof (cases "list_ex (\<lambda>p. p = dot \<or> p = dotdot) (split_path s)")
  case False
  then show ?thesis by (intro clean_no_dots) (auto simp: list_ex_iff)
next
  case True
  let ?out = "clean_comps False [] (split_path s)"
  have rel: "\<not> is_abs s" using assms by (auto simp: IsLocal_def)
  show ?thesis
  proof
    assume "dotdot \<in> set ?out"
    then obtain rest where out: "?out = dotdot # rest"
      using clean_hd_dotdot [of "[]" "split_path s"] by auto
    have "join_path (dotdot # rest) = dotdot \<or> take 3 (join_path (dotdot # rest)) = dotdot @ [slash]"
      by (cases rest) (auto simp: dotdot_def)
    moreover have "Clean s = join_path (dotdot # rest)" using rel out by (simp add: Clean_def Let_def)
    moreover have "\<not> (Clean s = dotdot \<or> take 3 (Clean s) = dotdot @ [slash])"
      using assms True rel by (simp add: IsLocal_def Let_def split: if_splits)
    ultimately show False by simp
  qed
qed

section \<open>Appending a local path\<close>

lemma is_abs_append: "is_abs a \<Longrightarrow> is_abs (a @ b)"
  by (auto simp: is_abs_def split: list.splits)

lemma Join_local:
  assumes abs: "is_abs a" and loc: "dotdot \<notin> set (clean_comps False [] (split_path b))"
    and ne: "Clean a \<noteq> [slash]"
  defines "rest \<equiv> clean_comps False [] (split_path b)"
  shows "Join a b = (if rest = [] then Clean a else Clean a @ slash # join_path rest)"
    and "\<forall>p \<in> set rest. plain_comp p \<and> set p \<subseteq> set b"
proof -
  have ane: "a \<noteq> []" using abs by (auto simp: is_abs_def)
  let ?A = "clean_comps True [] (split_path a)"
  have "clean_comps True [] (split_path (a @ slash # b)) = ?A @ rest"
    using clean_below [of "[]" "split_path b" True "rev ?A"] loc
    by (simp add: split_path_append clean_comps_append rest_def)
  moreover have "?A \<noteq> []" using ne abs by (auto simp: Clean_def Let_def)
  ultimately show "Join a b = (if rest = [] then Clean a else Clean a @ slash # join_path rest)"
    using abs ane is_abs_append [OF abs, of "slash # b"]
    by (simp add: Join_def Clean_def Let_def join_path_append)
  show "\<forall>p \<in> set rest. plain_comp p \<and> set p \<subseteq> set b"
    using clean_comps_plain [of "[]" "split_path b"] loc split_path_no_slash split_path_chars
    unfolding rest_def by fastforce
qed

section \<open>Hexadecimal encoding\<close>

definition hex_alphabet :: string where "hex_alphabet = ''0123456789abcdef''"

definition hex_of_char :: "char \<Rightarrow> string" where
  "hex_of_char c = (let n = of_char c :: nat in [hex_alphabet ! (n div 16), hex_alphabet ! (n mod 16)])"

definition hex_of_string :: "string \<Rightarrow> string" where
  "hex_of_string s = concat (map hex_of_char s)"

lemma hex_of_string_chars: "set (hex_of_string s) \<subseteq> set hex_alphabet"
proof -
  have d: "hex_alphabet ! k \<in> set hex_alphabet" if "k < 16" for k
    using that by (intro nth_mem) (simp add: hex_alphabet_def)
  have "(of_char c :: nat) < 256" for c by (cases c) (simp add: of_char_def)
  then have "of_char c div 16 < (16 :: nat)" for c by (simp add: less_mult_imp_div_less)
  then have "set (hex_of_char c) \<subseteq> set hex_alphabet" for c
    using d [of "of_char c div 16"] d [of "of_char c mod 16"] by (simp add: hex_of_char_def Let_def)
  then show ?thesis by (auto simp: hex_of_string_def)
qed

lemma hex_of_string_no_special: "slash \<notin> set (hex_of_string s)" "nul \<notin> set (hex_of_string s)" "CHR ''.'' \<notin> set (hex_of_string s)"
  using hex_of_string_chars [of s] by (auto simp: slash_def nul_def hex_alphabet_def)

lemma hex_of_string_local: "dotdot \<notin> set (clean_comps False [] (split_path (hex_of_string s)))"
proof -
  have "hex_of_string s \<noteq> dot" "hex_of_string s \<noteq> dotdot"
    using hex_of_string_no_special(3) [of s] by (auto simp: dot_def dotdot_def)
  then show ?thesis using hex_of_string_no_special(1) [of s]
    by (simp add: split_path_id)
qed

end
