(* ===== verification/QuickXor_Hash.thy ===== *)
theory QuickXor_Hash
  imports Drive_Item Graph_Error
begin

text \<open>
  \<^verbatim>\<open>internal/graph/quickxorhash/quickxorhash.go\<close> and \<^verbatim>\<open>internal/graph/hashes.go\<close>: the checksum that
  OneDrive keeps for every file.  The running hash is a buffer of 1760 bytes into which the input
  is XORed, and the number of bytes seen, a \<^verbatim>\<open>uint64\<close>.  The development shows that any split of
  the input into writes gives the same digest and that the digest is the one of the published
  definition: each byte rotated by 11 bits more than the one before in a 160-bit word.
\<close>

unbundle bit_operations_syntax

section \<open>The hash\<close>

definition hash_Size :: nat where "hash_Size = 20"
definition dataSize :: nat where "dataSize = 1760"

record quickXorHash =
  qx_data :: bytes
  qx_size :: "64 word"

definition qx_New :: quickXorHash where
  "qx_New = \<lparr> qx_data = replicate dataSize 0, qx_size = 0 \<rparr>"

text \<open>\<^verbatim>\<open>subtle.XORBytes(data[off:], src, data[off:])\<close>: as many bytes as both have, and how many.\<close>

definition xorBytes :: "nat \<Rightarrow> bytes \<Rightarrow> bytes \<Rightarrow> bytes \<times> nat" where
  "xorBytes off dst src =
     (let n = min (length dst - off) (length src) in
      (take off dst @ map2 (XOR) (take n src) (take n (drop off dst)) @ drop (off + n) dst, n))"

text \<open>The loop over whole buffers and the rest after it.\<close>

function write_blocks :: "bytes \<Rightarrow> bytes \<Rightarrow> bytes" where
  "write_blocks dat p =
     (if length p \<ge> dataSize \<and> length dat = dataSize
      then let (dat', n) = xorBytes 0 dat p in write_blocks dat' (drop n p)
      else fst (xorBytes 0 dat p))"
  by pat_completeness auto
termination
  by (relation "measure (\<lambda>(dat, p). length p)") (auto simp: xorBytes_def dataSize_def Let_def)

declare write_blocks.simps [simp del]

definition qx_Write :: "bytes \<Rightarrow> quickXorHash \<Rightarrow> quickXorHash" where
  "qx_Write p q =
     (let lastRemain = unat (qx_size q) mod dataSize;
          (dat, i) = (if lastRemain \<noteq> 0 then xorBytes lastRemain (qx_data q) p else (qx_data q, 0));
          dat = (if i \<noteq> length p then write_blocks dat (drop i p) else dat)
      in \<lparr> qx_data = dat, qx_size = qx_size q + of_nat (length p) \<rparr>)"

text \<open>One round of the checksum loop: byte \<open>i\<close> of the buffer goes to two bytes of the result.\<close>

definition sum_round :: "bytes \<Rightarrow> nat \<Rightarrow> bytes \<Rightarrow> bytes" where
  "sum_round dat i h =
     (let sh = i * 11 mod 160;
          shiftBytes = sh div 8;
          shiftBits = sh mod 8;
          shifted = push_bit shiftBits (uint (dat ! i));
          h = h[shiftBytes := h ! shiftBytes XOR of_int shifted]
      in h[shiftBytes + 1 := h ! (shiftBytes + 1) XOR of_int (drop_bit 8 shifted)])"

definition checkSum :: "quickXorHash \<Rightarrow> bytes" where
  "checkSum q =
     (let h = fold (sum_round (qx_data q)) [0..<dataSize] (replicate (hash_Size + 1) 0);
          h = h[0 := h ! 0 XOR h ! 20]
      in fold (\<lambda>i h. h[hash_Size - 8 + i := h ! (hash_Size - 8 + i) XOR ucast (drop_bit (8 * i) (qx_size q))])
           [0..<8] h)"

definition qx_Sum :: "bytes \<Rightarrow> quickXorHash \<Rightarrow> bytes" where
  "qx_Sum b q = b @ take hash_Size (checkSum q)"

definition qx_Reset :: "quickXorHash \<Rightarrow> quickXorHash" where
  "qx_Reset q = qx_New"

definition quickxorhash_Sum :: "bytes \<Rightarrow> bytes" where
  "quickxorhash_Sum dat = take hash_Size (checkSum (qx_Write dat qx_New))"

section \<open>Base64 and the checks on items\<close>

definition base64_digit :: "nat \<Rightarrow> char" where
  "base64_digit n =
     (if n < 26 then char_of (65 + n) else if n < 52 then char_of (71 + n)
      else if n < 62 then char_of (n - 4) else if n = 62 then CHR ''+'' else CHR ''/'')"

fun base64_encode :: "bytes \<Rightarrow> string" where
  "base64_encode (a # b # c # s) =
     (let n = unat a * 65536 + unat b * 256 + unat c in
      base64_digit (n div 262144) # base64_digit (n div 4096 mod 64) # base64_digit (n div 64 mod 64)
        # base64_digit (n mod 64) # base64_encode s)"
| "base64_encode [a, b] =
     (let n = unat a * 65536 + unat b * 256 in
      [base64_digit (n div 262144), base64_digit (n div 4096 mod 64), base64_digit (n div 64 mod 64), CHR ''=''])"
| "base64_encode [a] =
     (let n = unat a * 65536 in [base64_digit (n div 262144), base64_digit (n div 4096 mod 64), CHR ''='', CHR ''=''])"
| "base64_encode [] = []"

definition SumQuickXORHash :: "bytes \<Rightarrow> string" where
  "SumQuickXORHash dat = base64_encode (quickxorhash_Sum dat)"

text \<open>A reader yields chunks and ends with EOF (\<open>None\<close>) or an error; \<^verbatim>\<open>io.Copy\<close> writes each chunk.\<close>

type_synonym reader = "bytes list \<times> go_error option"

definition QuickXORHashStream :: "reader \<Rightarrow> go_error + string" where
  "QuickXORHashStream = (\<lambda>(chunks, err).
     let h = fold qx_Write chunks qx_New in
     case err of Some e \<Rightarrow> Inl e | None \<Rightarrow> Inr (base64_encode (qx_Sum [] h)))"

section \<open>Writes as a run over the bytes\<close>

fun xor_run :: "bytes \<Rightarrow> nat \<Rightarrow> bytes \<Rightarrow> bytes" where
  "xor_run dat k [] = dat"
| "xor_run dat k (b # bs) = xor_run (dat[k mod dataSize := b XOR dat ! (k mod dataSize)]) (Suc k) bs"

lemma xor_run_append: "xor_run dat k (xs @ ys) = xor_run (xor_run dat k xs) (k + length xs) ys"
  by (induction xs arbitrary: dat k) auto

lemma xor_run_period: "xor_run dat (k + dataSize) bs = xor_run dat k bs"
proof (induction bs arbitrary: dat k)
  case (Cons b bs)
  have "(k + dataSize) mod dataSize = k mod dataSize" by simp
  with Cons [of _ "Suc k"] show ?case by (simp only: xor_run.simps) simp
qed simp

lemma xor_run_mod: "xor_run dat (k mod dataSize) bs = xor_run dat k bs"
proof -
  have "xor_run dat (m + n * dataSize) bs = xor_run dat m bs" for m n
  proof (induction n)
    case (Suc n)
    have "m + Suc n * dataSize = (m + n * dataSize) + dataSize" by simp
    with Suc show ?case by (simp only: xor_run_period)
  qed simp
  from this [of "k mod dataSize" "k div dataSize"] show ?thesis by (simp add: mod_mult_div_eq mult.commute)
qed

lemma length_xor_run [simp]: "length (xor_run dat k bs) = length dat"
  by (induction bs arbitrary: dat k) auto

lemma nth_xor_run:
  "length dat = dataSize \<Longrightarrow> k + length bs \<le> dataSize \<Longrightarrow> j < dataSize \<Longrightarrow>
     xor_run dat k bs ! j = (if k \<le> j \<and> j < k + length bs then bs ! (j - k) XOR dat ! j else dat ! j)"
proof (induction bs arbitrary: dat k)
  case (Cons b bs)
  then have k: "k mod dataSize = k" "k < dataSize" by simp_all
  have "xor_run dat k (b # bs) ! j = xor_run (dat[k := b XOR dat ! k]) (Suc k) bs ! j" by (simp add: k)
  also have "\<dots> = (if Suc k \<le> j \<and> j < Suc k + length bs then bs ! (j - Suc k) XOR dat[k := b XOR dat ! k] ! j
      else dat[k := b XOR dat ! k] ! j)"
    using Cons.prems by (intro Cons.IH) auto
  also have "\<dots> = (if k \<le> j \<and> j < k + length (b # bs) then (b # bs) ! (j - k) XOR dat ! j else dat ! j)"
    using Cons.prems k by (auto simp: nth_list_update nth_Cons' Suc_le_eq)
  finally show ?case .
qed auto

lemma nth_patch:
  assumes "off + n \<le> length dat" "n \<le> length src" "j < length dat"
  shows "(take off dat @ map2 (XOR) (take n src) (take n (drop off dat)) @ drop (off + n) dat) ! j =
    (if off \<le> j \<and> j < off + n then src ! (j - off) XOR dat ! j else dat ! j)"
proof -
  consider "j < off" | "off \<le> j" "j < off + n" | "off + n \<le> j" by linarith
  then show ?thesis
  proof cases
    case 3
    then have "off \<le> j" "n \<le> j - off" by linarith+
    with 3 assms show ?thesis by (simp add: nth_append)
  next
    case 2
    then have "j - off < n" by linarith
    with 2 assms show ?thesis by (simp add: nth_append)
  qed (use assms in \<open>simp add: nth_append\<close>)
qed

lemma xorBytes_run:
  assumes "length dat = dataSize" "off < dataSize"
  shows "xorBytes off dat src =
    (xor_run dat off (take (dataSize - off) src), min (dataSize - off) (length src))"
proof -
  let ?n = "min (length dat - off) (length src)"
  have n: "off + ?n \<le> dataSize" using assms by simp
  have "take off dat @ map2 (XOR) (take ?n src) (take ?n (drop off dat)) @ drop (off + ?n) dat
      = xor_run dat off (take (dataSize - off) src)"
  proof (rule nth_equalityI)
    show "length (take off dat @ map2 (XOR) (take ?n src) (take ?n (drop off dat)) @ drop (off + ?n) dat)
        = length (xor_run dat off (take (dataSize - off) src))"
      using assms by simp
    fix j assume "j < length (take off dat @ map2 (XOR) (take ?n src) (take ?n (drop off dat)) @ drop (off + ?n) dat)"
    then have j: "j < dataSize" using assms by simp
    have "xor_run dat off (take (dataSize - off) src) ! j =
        (if off \<le> j \<and> j < off + ?n then src ! (j - off) XOR dat ! j else dat ! j)"
      using assms j by (subst nth_xor_run) auto
    moreover have "(take off dat @ map2 (XOR) (take ?n src) (take ?n (drop off dat)) @ drop (off + ?n) dat) ! j =
        (if off \<le> j \<and> j < off + ?n then src ! (j - off) XOR dat ! j else dat ! j)"
      using assms j by (intro nth_patch) auto
    ultimately show "(take off dat @ map2 (XOR) (take ?n src) (take ?n (drop off dat)) @ drop (off + ?n) dat) ! j
        = xor_run dat off (take (dataSize - off) src) ! j"
      by simp
  qed
  with assms show ?thesis by (simp add: xorBytes_def Let_def)
qed

lemma write_blocks_run: "length dat = dataSize \<Longrightarrow> write_blocks dat p = xor_run dat 0 p"
proof (induction dat p rule: write_blocks.induct)
  case (1 dat p)
  have pos: "0 < dataSize" by (simp add: dataSize_def)
  show ?case
  proof (cases "dataSize \<le> length p")
    case True
    have x: "xorBytes 0 dat p = (xor_run dat 0 (take dataSize p), dataSize)"
      using xorBytes_run [OF 1(2) pos] True by (simp add: min_def)
    have "write_blocks dat p = write_blocks (xor_run dat 0 (take dataSize p)) (drop dataSize p)"
      using True 1(2) by (subst write_blocks.simps) (simp add: x)
    also have "\<dots> = xor_run (xor_run dat 0 (take dataSize p)) 0 (drop dataSize p)"
      using 1(1) [OF _ x [symmetric] refl] True 1(2) by simp
    also have "\<dots> = xor_run dat 0 (take dataSize p @ drop dataSize p)"
      using True xor_run_period [of _ 0] by (simp only: xor_run_append) (simp add: min_def)
    finally show ?thesis by simp
  next
    case False
    then show ?thesis using xorBytes_run [OF 1(2) pos] by (subst write_blocks.simps) simp
  qed
qed

lemma qx_Write_run:
  assumes "length (qx_data q) = dataSize"
  shows "qx_data (qx_Write p q) = xor_run (qx_data q) (unat (qx_size q)) p"
    "qx_size (qx_Write p q) = qx_size q + of_nat (length p)"
proof -
  define r where "r = unat (qx_size q) mod dataSize"
  have r: "r < dataSize" by (simp add: r_def dataSize_def)
  have run: "xor_run d r bs = xor_run d (unat (qx_size q)) bs" for d bs by (simp add: r_def xor_run_mod)
  show "qx_size (qx_Write p q) = qx_size q + of_nat (length p)"
    by (simp add: qx_Write_def Let_def split_beta)
  show "qx_data (qx_Write p q) = xor_run (qx_data q) (unat (qx_size q)) p"
  proof (cases "r = 0")
    case True
    have "qx_data (qx_Write p q) = (if p = [] then qx_data q else write_blocks (qx_data q) p)"
      using True by (simp add: qx_Write_def Let_def flip: r_def)
    then show ?thesis using write_blocks_run [OF assms, of p] True by (simp add: run [symmetric])
  next
    case False
    define i where "i = min (dataSize - r) (length p)"
    have tp: "take (dataSize - r) p = take i p" by (simp add: i_def min_def)
    have "qx_data (qx_Write p q) =
        (let d = xor_run (qx_data q) r (take i p) in if i \<noteq> length p then write_blocks d (drop i p) else d)"
      using False xorBytes_run [OF assms r, of p] by (simp add: qx_Write_def Let_def tp flip: r_def i_def)
    also have "\<dots> = xor_run (qx_data q) r p"
    proof (cases "i = length p")
      case False
      then have "i = dataSize - r" by (auto simp: i_def min_def split: if_splits)
      then have "xor_run (xor_run (qx_data q) r (take i p)) 0 (drop i p) = xor_run (qx_data q) r (take i p @ drop i p)"
        using r False xor_run_period [of _ 0] by (simp only: xor_run_append) (auto simp: i_def min_def split: if_splits)
      with False show ?thesis using assms by (simp add: write_blocks_run)
    qed simp
    finally show ?thesis by (simp add: run)
  qed
qed

section \<open>The digest bit by bit\<close>

definition xsum :: "bool list \<Rightarrow> bool" where
  "xsum bs = foldr (\<noteq>) bs False"

lemma xsum_simps [simp]:
  "xsum [] = False" "xsum (b # bs) = (b \<noteq> xsum bs)" "xsum (xs @ ys) = (xsum xs \<noteq> xsum ys)"
proof -
  show "xsum [] = False" "xsum (b # bs) = (b \<noteq> xsum bs)" for b bs by (simp_all add: xsum_def)
  then show "xsum (xs @ ys) = (xsum xs \<noteq> xsum ys)" by (induction xs) auto
qed

lemma xsum_xor: "xsum (map (\<lambda>i. f i \<noteq> g i) xs) = (xsum (map f xs) \<noteq> xsum (map g xs))"
  by (induction xs) auto

lemma xsum_at:
  assumes "distinct xs" "j \<in> set xs" "\<And>i. i \<in> set xs \<Longrightarrow> i \<noteq> j \<Longrightarrow> f i = g i" "f j = (g j \<noteq> d)"
  shows "xsum (map f xs) = (xsum (map g xs) \<noteq> d)"
  using assms
proof (induction xs)
  case (Cons x xs)
  show ?case
  proof (cases "x = j")
    case True
    with Cons.prems have "map f xs = map g xs" by auto
    then have "xsum (map f xs) = xsum (map g xs)" by (rule arg_cong)
    with True Cons.prems(4) show ?thesis by auto
  next
    case False
    with Cons show ?thesis by auto
  qed
qed simp

text \<open>Bit \<open>n\<close> of a byte string read as one little-endian number.\<close>

definition sbit :: "bytes \<Rightarrow> nat \<Rightarrow> bool" where
  "sbit h n = bit (h ! (n div 8)) (n mod 8)"

text \<open>Where byte \<open>i\<close> of the buffer puts bit \<open>n\<close> of the 168-bit sum.\<close>

definition spread :: "bytes \<Rightarrow> nat \<Rightarrow> nat \<Rightarrow> bool" where
  "spread dat i n \<longleftrightarrow> i * 11 mod 160 \<le> n \<and> bit (dat ! i) (n - i * 11 mod 160)"

lemma byte_bit_less: "bit (b :: byte) k \<Longrightarrow> k < 8"
  using bit_imp_le_length [of b k] by simp

lemma low_high_bits:
  fixes b :: byte
  assumes "s < 8" "k < 8"
  shows "bit (of_int (push_bit s (uint b)) :: byte) k \<longleftrightarrow> s \<le> k \<and> bit b (k - s)"
    "bit (of_int (drop_bit 8 (push_bit s (uint b))) :: byte) k \<longleftrightarrow> bit b (8 + k - s)"
  using assms by (auto simp: bit_simps dest: byte_bit_less)

lemma sbit_sum_round:
  assumes "length h = 21" "n < 168"
  shows "sbit (sum_round dat i h) n = (sbit h n \<noteq> spread dat i n)"
proof -
  define s where "s = i * 11 mod 160"
  define q r where "q = s div 8" and "r = s mod 8"
  have s: "s = q * 8 + r" "r < 8" "q < 20" by (auto simp: q_def r_def s_def)
  have n: "n div 8 < 21" "n mod 8 < 8" using assms by auto
  define m k where "m = n div 8" and "k = n mod 8"
  have nm: "n = m * 8 + k" "k < 8" by (simp_all add: m_def k_def)
  define h1 where "h1 = h[q := h ! q XOR of_int (push_bit r (uint (dat ! i)))]"
  have round: "sum_round dat i h = h1[q + 1 := h1 ! (q + 1) XOR of_int (drop_bit 8 (push_bit r (uint (dat ! i))))]"
    by (simp add: sum_round_def Let_def h1_def q_def r_def s_def)
  have bit: "sbit (sum_round dat i h) n = (sbit h n \<noteq>
      ((m = q \<and> r \<le> k \<and> bit (dat ! i) (k - r)) \<or> (m = q + 1 \<and> bit (dat ! i) (8 + k - r))))"
    using assms(1) s n low_high_bits [OF s(2) nm(2), of "dat ! i"]
    by (auto simp: sbit_def round h1_def nth_list_update bit_xor_iff simp flip: m_def k_def)
  have "spread dat i n \<longleftrightarrow> (m = q \<and> r \<le> k \<and> bit (dat ! i) (k - r)) \<or> (m = q + 1 \<and> bit (dat ! i) (8 + k - r))"
  proof -
    have sp: "spread dat i n \<longleftrightarrow> s \<le> n \<and> bit (dat ! i) (n - s)" by (simp add: spread_def s_def)
    consider "m < q" | "m = q" | "m = q + 1" | "q + 2 \<le> m" by linarith
    then show ?thesis
    proof cases
      case 1
      then have "\<not> s \<le> n" using nm s by linarith
      with 1 sp show ?thesis by simp
    next
      case 2
      then have "s \<le> n \<longleftrightarrow> r \<le> k" "n - s = k - r" using nm s by linarith+
      with 2 sp show ?thesis by simp
    next
      case 3
      then have "s \<le> n" "n - s = 8 + k - r" using nm s by linarith+
      with 3 sp show ?thesis by simp
    next
      case 4
      then have "8 \<le> n - s" using nm s by linarith
      with 4 sp show ?thesis by (auto dest: byte_bit_less)
    qed
  qed
  with bit show ?thesis by simp
qed

lemma length_sum_round [simp]: "length (sum_round dat i h) = length h"
  by (simp add: sum_round_def Let_def)

lemma sbit_sum_rounds:
  "length h = 21 \<Longrightarrow> n < 168 \<Longrightarrow>
     sbit (fold (sum_round dat) is h) n = (sbit h n \<noteq> xsum (map (\<lambda>i. spread dat i n) is))"
  by (induction "is" arbitrary: h) (auto simp: sbit_sum_round)

lemma length_sum_rounds [simp]: "length (fold (sum_round dat) is h) = length h"
  by (induction "is" arbitrary: h) auto

section \<open>The reference definition\<close>

text \<open>
  The published algorithm: a 160-bit word, each input byte XORed in after a rotation by 11 bits
  more than the byte before it, and the length XORed into the most significant 64 bits.
\<close>

fun ref_acc :: "nat \<Rightarrow> bytes \<Rightarrow> 160 word" where
  "ref_acc k [] = 0"
| "ref_acc k (b # bs) = word_rotl (11 * k) (ucast b) XOR ref_acc (Suc k) bs"

definition quickxor_reference :: "bytes \<Rightarrow> 160 word" where
  "quickxor_reference p = ref_acc 0 p XOR push_bit 96 (of_nat (length p))"

lemma bit_rot_byte:
  fixes b :: byte
  assumes "n < 160"
  shows "bit (word_rotl m (ucast b :: 160 word)) n \<longleftrightarrow> bit b ((n + (160 - m mod 160)) mod 160)"
  using assms by (simp add: bit_word_rotl_iff bit_simps)

text \<open>A spread byte, with the overflow of the last byte folded back, is a rotated byte.\<close>

lemma spread_is_rotation:
  assumes "n < 160"
  shows "bit (word_rotl (11 * i) (ucast (dat ! i) :: 160 word)) n =
    (spread dat i n \<noteq> (n < 8 \<and> spread dat i (n + 160)))"
proof -
  define s where "s = i * 11 mod 160"
  define b where "b = dat ! i"
  have s: "s < 160" by (simp add: s_def)
  have rot: "bit (word_rotl (11 * i) (ucast b :: 160 word)) n \<longleftrightarrow> bit b ((n + (160 - s)) mod 160)"
    using bit_rot_byte [OF assms, of "11 * i" b] by (simp add: s_def mult.commute)
  have sp: "spread dat i k \<longleftrightarrow> s \<le> k \<and> bit b (k - s)" for k by (simp add: spread_def s_def b_def)
  have hi: "\<not> bit b k" if "8 \<le> k" for k using that by (auto dest: byte_bit_less)
  show ?thesis
  proof (cases "s \<le> n")
    case True
    then have "n + (160 - s) = (n - s) + 160" using s by linarith
    then have "(n + (160 - s)) mod 160 = n - s" using assms by (metis mod_add_self2 mod_less less_imp_diff_less)
    moreover have "\<not> (n < 8 \<and> bit b (n + 160 - s))" using True hi by auto
    ultimately show ?thesis using True rot sp by (simp add: b_def)
  next
    case False
    then have "(n + (160 - s)) mod 160 = n + 160 - s" using s assms by simp
    moreover have "bit b (n + 160 - s) \<Longrightarrow> n < 8"
      using s hi [of "n + 160 - s"] by linarith
    ultimately show ?thesis using False s rot sp by (auto simp: b_def)
  qed
qed

definition core_bit :: "bytes \<Rightarrow> nat \<Rightarrow> bool" where
  "core_bit dat n = xsum (map (\<lambda>i. bit (word_rotl (11 * i) (ucast (dat ! i) :: 160 word)) n) [0..<dataSize])"

lemma core_bit_spread:
  assumes "n < 160"
  shows "core_bit dat n = (xsum (map (\<lambda>i. spread dat i n) [0..<dataSize]) \<noteq>
    (n < 8 \<and> xsum (map (\<lambda>i. spread dat i (n + 160)) [0..<dataSize])))"
proof (cases "n < 8")
  case True
  then show ?thesis
    unfolding core_bit_def spread_is_rotation [OF assms]
    using xsum_xor [of "\<lambda>i. spread dat i n" "\<lambda>i. spread dat i (n + 160)" "[0..<dataSize]"]
    by (simp only: True simp_thms)
next
  case False
  then show ?thesis unfolding core_bit_def spread_is_rotation [OF assms] by simp
qed

lemma rot_period: "word_rotl (11 * (k mod dataSize)) w = word_rotl (11 * k) (w :: 160 word)"
proof -
  have "11 * k = 11 * (k mod 1760) + 160 * (121 * (k div 1760))" using div_mult_mod_eq [of k 1760] by linarith
  then have "11 * (k mod 1760) mod 160 = 11 * k mod 160" by (simp only: mod_mult_self2)
  then show ?thesis by (intro bit_word_eqI) (simp add: bit_word_rotl_iff dataSize_def)
qed

lemma core_bit_run:
  "length dat = dataSize \<Longrightarrow> n < 160 \<Longrightarrow> core_bit (xor_run dat k bs) n = (core_bit dat n \<noteq> bit (ref_acc k bs) n)"
proof (induction bs arbitrary: dat k)
  case (Cons b bs)
  define j where "j = k mod dataSize"
  have j: "j < dataSize" by (simp add: j_def dataSize_def)
  let ?d = "dat[j := b XOR dat ! j]"
  have "core_bit ?d n = (core_bit dat n \<noteq> bit (word_rotl (11 * j) (ucast b :: 160 word)) n)"
    unfolding core_bit_def
  proof (rule xsum_at [where j = j])
    show "bit (word_rotl (11 * j) (ucast (?d ! j) :: 160 word)) n =
        (bit (word_rotl (11 * j) (ucast (dat ! j) :: 160 word)) n \<noteq> bit (word_rotl (11 * j) (ucast b :: 160 word)) n)"
      using Cons.prems j by (auto simp: bit_rot_byte bit_xor_iff)
  qed (use j in auto)
  also have "word_rotl (11 * j) (ucast b :: 160 word) = word_rotl (11 * k) (ucast b)"
    by (simp add: j_def rot_period)
  finally show ?case
    using Cons.IH [of ?d "Suc k"] Cons.prems by (auto simp: bit_xor_iff simp flip: j_def)
qed simp

section \<open>The checksum\<close>

lemma nth_length_fold:
  "m \<le> 8 \<Longrightarrow> length h = 21 \<Longrightarrow> j < 21 \<Longrightarrow>
     fold (\<lambda>i h. h[12 + i := h ! (12 + i) XOR f i]) [0..<m] h ! j =
       (if 12 \<le> j \<and> j < 12 + m then h ! j XOR f (j - 12) else h ! j)
     \<and> length (fold (\<lambda>i h. h[12 + i := h ! (12 + i) XOR f i]) [0..<m] h) = 21"
proof (induction m arbitrary: j)
  case (Suc m)
  let ?F = "fold (\<lambda>i h. h[12 + i := h ! (12 + i) XOR f i]) [0..<m] h"
  have len: "length ?F = 21" and m: "?F ! (12 + m) = h ! (12 + m)" and old: "?F ! j = (if 12 \<le> j \<and> j < 12 + m then h ! j XOR f (j - 12) else h ! j)"
    using Suc.IH [of "12 + m"] Suc.IH [of j] Suc.prems by auto
  show ?case using len m old Suc.prems by (auto simp: nth_list_update)
qed auto

lemma sbit_zero: "k < 168 \<Longrightarrow> \<not> sbit (replicate 21 0) k"
  by (simp add: sbit_def div_less_iff_less_mult)

lemma sbit_checkSum:
  assumes "n < 160"
  shows "sbit (checkSum q) n = (core_bit (qx_data q) n \<noteq> (96 \<le> n \<and> bit (qx_size q) (n - 96)))"
proof -
  define h1 where "h1 = fold (sum_round (qx_data q)) [0..<dataSize] (replicate 21 0)"
  define h2 where "h2 = h1[0 := h1 ! 0 XOR h1 ! 20]"
  have len: "length h1 = 21" "length h2 = 21" by (simp_all add: h1_def h2_def)
  have b1: "sbit h1 k = xsum (map (\<lambda>i. spread (qx_data q) i k) [0..<dataSize])" if "k < 168" for k
    using that by (simp add: h1_def sbit_sum_rounds sbit_zero)
  have "(n + 160) div 8 = 20 \<and> (n + 160) mod 8 = n" if "n < 8" using that by presburger
  then have "sbit h2 n = (sbit h1 n \<noteq> (n < 8 \<and> sbit h1 (n + 160)))"
    using len assms by (cases "n < 8") (auto simp: sbit_def h2_def nth_list_update bit_xor_iff div_eq_0_iff)
  then have b2: "sbit h2 n = core_bit (qx_data q) n"
    using assms by (simp add: core_bit_spread b1)
  have cs: "checkSum q = fold (\<lambda>i h. h[12 + i := h ! (12 + i) XOR ucast (drop_bit (8 * i) (qx_size q))]) [0..<8] h2"
    by (simp add: checkSum_def Let_def h1_def h2_def hash_Size_def)
  have "n div 8 < 21" using assms by simp
  then have "checkSum q ! (n div 8) = (if 12 \<le> n div 8 \<and> n div 8 < 20
      then h2 ! (n div 8) XOR ucast (drop_bit (8 * (n div 8 - 12)) (qx_size q)) else h2 ! (n div 8))"
    unfolding cs using nth_length_fold [of 8 h2 "n div 8"] len by simp
  moreover have "12 \<le> n div 8 \<longleftrightarrow> 96 \<le> n" "n div 8 < 20" using assms by auto
  moreover have "8 * (n div 8 - 12) + n mod 8 = n - 96" if "96 \<le> n"
  proof -
    have "12 \<le> n div 8" "n = 8 * (n div 8) + n mod 8" using that by auto
    then show ?thesis by linarith
  qed
  ultimately show ?thesis
    using b2 by (auto simp: sbit_def bit_xor_iff bit_simps)
qed

section \<open>Properties\<close>

lemma length_checkSum: "length (checkSum q) = 21"
proof -
  define h where "h = fold (sum_round (qx_data q)) [0..<dataSize] (replicate 21 0)"
  have "length h = 21" by (simp add: h_def)
  then have "length (fold (\<lambda>i h. h[12 + i := h ! (12 + i) XOR ucast (drop_bit (8 * i) (qx_size q))]) [0..<8]
      (h[0 := h ! 0 XOR h ! 20])) = 21"
    using nth_length_fold [of 8 "h[0 := h ! 0 XOR h ! 20]" 0] by simp
  then show ?thesis by (simp add: checkSum_def Let_def h_def hash_Size_def)
qed

lemma core_bit_zero: "n < 160 \<Longrightarrow> \<not> core_bit (replicate dataSize 0) n"
proof -
  assume n: "n < 160"
  have z: "\<not> xsum (map f xs)" if "\<And>x. x \<in> set xs \<Longrightarrow> \<not> f x" for f and xs :: "nat list"
    using that by (induction xs) auto
  show ?thesis unfolding core_bit_def by (rule z) (use n in \<open>simp add: bit_rot_byte\<close>)
qed

lemma digest_bits:
  assumes "n < 160" "length p < 2 ^ 64"
  shows "sbit (checkSum (qx_Write p qx_New)) n = bit (quickxor_reference p) n"
proof -
  have new: "length (qx_data qx_New) = dataSize" "qx_size qx_New = 0" "qx_data qx_New = replicate dataSize 0"
    by (simp_all add: qx_New_def)
  have "core_bit (qx_data (qx_Write p qx_New)) n = bit (ref_acc 0 p) n"
    using core_bit_run [of "replicate dataSize 0" n 0 p] core_bit_zero [OF assms(1)] assms(1)
    by (simp add: qx_Write_run(1) [OF new(1)] new)
  then have "sbit (checkSum (qx_Write p qx_New)) n =
      (bit (ref_acc 0 p) n \<noteq> (96 \<le> n \<and> bit (of_nat (length p) :: 64 word) (n - 96)))"
    using assms(1) by (simp only: sbit_checkSum qx_Write_run(2) [OF new(1)] new add_0)
  moreover have "bit (quickxor_reference p) n =
      (bit (ref_acc 0 p) n \<noteq> (96 \<le> n \<and> bit (of_nat (length p) :: 160 word) (n - 96)))"
    using assms(1) by (simp add: quickxor_reference_def bit_xor_iff bit_push_bit_iff)
  moreover have "bit (of_nat (length p) :: 64 word) k = bit (of_nat (length p) :: 160 word) k" if "k < 64" for k
    using that by (simp add: bit_simps)
  moreover have "n - 96 < 64" using assms(1) by linarith
  ultimately show ?thesis by (simp only:)
qed

text \<open>
  C34: For every input shorter than \<open>2 ^ 64\<close> bytes the optimised hash computes the digest of the
  published definition: its 20 bytes are the 160-bit reference word in little-endian order.
\<close>

theorem quickxorhash_correct:
  assumes "length p < 2 ^ 64"
  shows "quickxorhash_Sum p = map (\<lambda>j. ucast (drop_bit (8 * j) (quickxor_reference p))) [0..<20]"
proof (rule nth_equalityI)
  show "length (quickxorhash_Sum p) = length (map (\<lambda>j. ucast (drop_bit (8 * j) (quickxor_reference p)) :: byte) [0..<20])"
    by (simp add: quickxorhash_Sum_def length_checkSum hash_Size_def)
  fix j assume "j < length (quickxorhash_Sum p)"
  then have j: "j < 20" by (simp add: quickxorhash_Sum_def length_checkSum hash_Size_def)
  have "bit (checkSum (qx_Write p qx_New) ! j) k = bit (quickxor_reference p) (8 * j + k)" if "k < 8" for k
  proof -
    have "8 * j + k < 160" using j that by linarith
    from digest_bits [OF this assms] that show ?thesis by (simp add: sbit_def)
  qed
  then have "checkSum (qx_Write p qx_New) ! j = ucast (drop_bit (8 * j) (quickxor_reference p))"
    by (intro bit_word_eqI) (auto simp: bit_simps)
  with j show "quickxorhash_Sum p ! j = map (\<lambda>j. ucast (drop_bit (8 * j) (quickxor_reference p))) [0..<20] ! j"
    by (simp add: quickxorhash_Sum_def hash_Size_def)
qed

theorem quickxorhash_correct_witness:
  "quickxorhash_Sum [1, 2, 3] = map (\<lambda>j. ucast (drop_bit (8 * j) (quickxor_reference [1, 2, 3]))) [0..<20]"
  by (rule quickxorhash_correct) simp

lemma qx_Write_append:
  assumes "length (qx_data q) = dataSize" "unat (qx_size q) + length a + length b < 2 ^ 64"
  shows "qx_Write b (qx_Write a q) = qx_Write (a @ b) q"
proof -
  have len: "length (qx_data (qx_Write a q)) = dataSize" using assms(1) by (simp add: qx_Write_run)
  have "unat (qx_size q + of_nat (length a)) = unat (qx_size q) + length a"
    using assms(2) by (simp add: unat_word_ariths unat_of_nat)
  then have "qx_data (qx_Write b (qx_Write a q)) = qx_data (qx_Write (a @ b) q)"
    using assms(1) len by (simp add: qx_Write_run xor_run_append)
  moreover have "qx_size (qx_Write b (qx_Write a q)) = qx_size (qx_Write (a @ b) q)"
    using assms(1) len by (simp add: qx_Write_run)
  ultimately show ?thesis by simp
qed

lemma qx_Write_chunks:
  "length (qx_data q) = dataSize \<Longrightarrow> unat (qx_size q) + length (concat cs) < 2 ^ 64 \<Longrightarrow>
     fold qx_Write cs q = qx_Write (concat cs) q"
proof (induction cs arbitrary: q)
  case Nil
  have "qx_Write [] q = q" using qx_Write_run [OF Nil(1), of "[]"] by (intro quickXorHash.equality) simp_all
  then show ?case by simp
next
  case (Cons c cs)
  have len: "length (qx_data (qx_Write c q)) = dataSize" using Cons.prems(1) by (simp add: qx_Write_run)
  have "unat (qx_size (qx_Write c q)) = unat (qx_size q) + length c"
    using Cons.prems by (simp add: qx_Write_run unat_word_ariths unat_of_nat)
  then have "fold qx_Write cs (qx_Write c q) = qx_Write (concat cs) (qx_Write c q)"
    using Cons.IH [OF len] Cons.prems(2) by simp
  with Cons.prems show ?case by (simp add: qx_Write_append)
qed

text \<open>
  Hashing a stream gives the checksum of its contents however the reader splits them into
  chunks, and an error of the reader is returned instead of a checksum.
\<close>

lemma QuickXORHashStream_spec:
  assumes "length (concat chunks) < 2 ^ 64"
  shows "QuickXORHashStream (chunks, None) = Inr (SumQuickXORHash (concat chunks)) \<and>
    QuickXORHashStream (chunks, Some e) = Inl e"
proof -
  have "fold qx_Write chunks qx_New = qx_Write (concat chunks) qx_New"
    using assms by (intro qx_Write_chunks) (simp_all add: qx_New_def)
  then show ?thesis
    by (simp add: QuickXORHashStream_def SumQuickXORHash_def quickxorhash_Sum_def qx_Sum_def)
qed

lemma fold_case_ascii:
  assumes "c \<noteq> CHR 0xE2" "c \<noteq> CHR 0xC5"
  shows "fold_case (c # s) = lower c # fold_case s"
proof (cases s)
  case (Cons b t)
  with assms show ?thesis by (cases t) auto
qed simp

text \<open>
  The checksum test accepts a downloaded file whose checksum the server reports, but the
  comparison ignores case although Base64 does not: some pairs of different digests are accepted
  as equal.
\<close>

theorem VerifyChecksum_case:
  assumes "di_File d = Some f" "QuickXorHash (Hashes f) = base64_encode h" "h \<noteq> []"
  shows "VerifyChecksum (Some d) (base64_encode h) \<and>
    (\<exists>h1 h2 :: bytes. length h1 = 20 \<and> length h2 = 20 \<and> h1 \<noteq> h2 \<and>
       EqualFold (base64_encode h1) (base64_encode h2))"
proof -
  have "base64_encode h \<noteq> ''''" using assms(3) by (cases h rule: base64_encode.cases) (simp_all add: Let_def)
  then have "VerifyChecksum (Some d) (base64_encode h)"
    using assms by (simp add: VerifyChecksum_def EqualFold_def)
  moreover have "EqualFold (base64_encode (replicate 20 0)) (base64_encode (104 # replicate 19 0))"
  proof -
    have e: "replicate 20 (0 :: byte) = 0 # 0 # 0 # replicate 17 0" "replicate 19 (0 :: byte) = 0 # 0 # replicate 17 0"
      by (simp_all add: numeral_eq_Suc)
    have d: "base64_digit 0 = CHR ''A''" "base64_digit 26 = CHR ''a''" by code_simp+
    have "lower (CHR ''A'') = lower (CHR ''a'')" by code_simp
    then show ?thesis by (simp add: e EqualFold_def Let_def d fold_case_ascii)
  qed
  moreover have "replicate 20 0 ! 0 \<noteq> ((104 :: byte) # replicate 19 0) ! 0" by simp
  then have "replicate 20 0 \<noteq> (104 :: byte) # replicate 19 0" by metis
  moreover have "length ((104 :: byte) # replicate 19 0) = 20" by simp
  ultimately show ?thesis by (metis length_replicate)
qed

theorem VerifyChecksum_case_witness:
  "VerifyChecksum (Some (zero_item\<lparr>di_File := Some \<lparr>Hashes = \<lparr>SHA1Hash = '''', QuickXorHash = base64_encode [1, 2, 3]\<rparr>\<rparr>\<rparr>))
     (base64_encode [1, 2, 3])"
  using VerifyChecksum_case [of "zero_item\<lparr>di_File := Some \<lparr>Hashes = \<lparr>SHA1Hash = '''', QuickXorHash = base64_encode [1, 2, 3]\<rparr>\<rparr>\<rparr>"
      "\<lparr>Hashes = \<lparr>SHA1Hash = '''', QuickXorHash = base64_encode [1, 2, 3]\<rparr>\<rparr>" "[1, 2, 3]"]
  by simp

end
