(* ===== verification/Content_Cache.thy ===== *)
theory Content_Cache
  imports Content_Index Go_Path QuickXor_Hash
begin

text \<open>
  The content cache (\<^verbatim>\<open>internal/fs/content_cache.go\<close>, \<^verbatim>\<open>internal/fs/content_eviction.go\<close>): file contents
  kept as files of one directory, open descriptors shared through \<^verbatim>\<open>fds\<close>, and an index of the
  files by age with which the oldest closed ones are removed once a size limit is exceeded.

  The operating system is an explicit state: names bound to i-nodes, whose contents outlive the
  name while a descriptor refers to them, and the directories.  A descriptor is its i-node; the
  offset is left out because every use of it seeks to the start first.  Each operation takes an
  environment with the time, the random suffix of temporary files and a possible failure of every
  system call.  An operation holds the per-id mutex and \<^verbatim>\<open>evictMu\<close> around its accesses and is one
  step here; the eviction goroutine of \<^verbatim>\<open>maybeEvict\<close> is a separate step, in flight while \<^verbatim>\<open>evicting\<close>
  is set.
\<close>

section \<open>The file system under the cache\<close>

type_synonym file_info = "int \<times> time"

record os_file =
  of_data :: bytes
  of_mtime :: time

record os_state =
  os_dirs :: "(string \<times> file_info) list"
  os_names :: "(string \<times> nat) list"
  os_files :: "nat \<Rightarrow> os_file"
  os_next :: nat

record os_env =
  e_now :: time
  e_temp :: string
  f_mkdir :: "string \<Rightarrow> go_error option"
  f_open :: "string \<Rightarrow> go_error option"
  f_write :: "(nat \<times> go_error) option"
  f_read :: "(nat \<times> go_error) option"
  f_stat :: "string \<Rightarrow> go_error option"
  f_fstat :: "go_error option"
  f_seek :: "go_error option"
  f_trunc :: "go_error option"
  f_close :: "go_error option"
  f_remove :: "string \<Rightarrow> go_error option"
  f_readdir :: "go_error option"
  f_info :: "string \<Rightarrow> go_error option"

definition no_faults :: "time \<Rightarrow> string \<Rightarrow> os_env" where
  "no_faults t tmp =
     \<lparr>e_now = t, e_temp = tmp, f_mkdir = (\<lambda>_. None), f_open = (\<lambda>_. None), f_write = None, f_read = None,
      f_stat = (\<lambda>_. None), f_fstat = None, f_seek = None, f_trunc = None, f_close = None,
      f_remove = (\<lambda>_. None), f_readdir = None, f_info = (\<lambda>_. None)\<rparr>"

definition parent_dir :: "string \<Rightarrow> string" where
  "parent_dir p = (let d = join_path (butlast (split_path p)) in if d = [] then [slash] else d)"

definition base_name :: "string \<Rightarrow> string" where
  "base_name p = last (split_path p)"

definition file_stat :: "nat \<Rightarrow> os_state \<Rightarrow> file_info" where
  "file_stat i s = (int (length (of_data (os_files s i))), of_mtime (os_files s i))"

definition os_IsNotExist :: "go_error \<Rightarrow> bool" where
  "os_IsNotExist e \<longleftrightarrow> e = Errno ENOENT \<or> e = Sentinel ErrNotExist"

definition set_data :: "nat \<Rightarrow> bytes \<Rightarrow> time \<Rightarrow> os_state \<Rightarrow> os_state" where
  "set_data i d t s = s\<lparr>os_files := (os_files s)(i := \<lparr>of_data = d, of_mtime = t\<rparr>)\<rparr>"

text \<open>\<^verbatim>\<open>os.OpenFile\<close> with \<^verbatim>\<open>O_CREATE\<close>.\<close>

definition os_open :: "os_env \<Rightarrow> string \<Rightarrow> os_state \<Rightarrow> (go_error + nat) \<times> os_state" where
  "os_open E p s =
     (case f_open E p of
        Some e \<Rightarrow> (Inl e, s)
      | None \<Rightarrow>
          (case map_of (os_names s) p of
             Some i \<Rightarrow> (Inr i, s)
           | None \<Rightarrow>
               if map_of (os_dirs s) p \<noteq> None then (Inl (Errno EISDIR), s)
               else if map_of (os_names s) (parent_dir p) \<noteq> None then (Inl (Errno ENOTDIR), s)
               else if map_of (os_dirs s) (parent_dir p) = None then (Inl (Errno ENOENT), s)
               else (Inr (os_next s),
                     set_data (os_next s) [] (e_now E)
                       (s\<lparr>os_names := AList.update p (os_next s) (os_names s), os_next := os_next s + 1\<rparr>))))"

text \<open>\<^verbatim>\<open>os.WriteFile\<close> truncates, writes and closes; a failed write leaves a prefix behind.\<close>

definition os_writefile :: "os_env \<Rightarrow> string \<Rightarrow> bytes \<Rightarrow> os_state \<Rightarrow> go_error option \<times> os_state" where
  "os_writefile E p d s =
     (case os_open E p s of
        (Inl e, s) \<Rightarrow> (Some e, s)
      | (Inr i, s) \<Rightarrow>
          (case f_write E of
             Some (n, e) \<Rightarrow> (Some e, set_data i (take n d) (e_now E) s)
           | None \<Rightarrow> (f_close E, set_data i d (e_now E) s)))"

definition os_stat :: "os_env \<Rightarrow> string \<Rightarrow> os_state \<Rightarrow> go_error + file_info" where
  "os_stat E p s =
     (case f_stat E p of
        Some e \<Rightarrow> Inl e
      | None \<Rightarrow>
          (case map_of (os_names s) p of
             Some i \<Rightarrow> Inr (file_stat i s)
           | None \<Rightarrow> (case map_of (os_dirs s) p of Some info \<Rightarrow> Inr info | None \<Rightarrow> Inl (Errno ENOENT))))"

definition os_fstat :: "os_env \<Rightarrow> nat \<Rightarrow> os_state \<Rightarrow> go_error + file_info" where
  "os_fstat E i s = (case f_fstat E of Some e \<Rightarrow> Inl e | None \<Rightarrow> Inr (file_stat i s))"

text \<open>\<^verbatim>\<open>os.Remove\<close> unlinks a file or removes an empty directory.\<close>

definition os_remove :: "os_env \<Rightarrow> string \<Rightarrow> os_state \<Rightarrow> go_error option \<times> os_state" where
  "os_remove E p s =
     (case f_remove E p of
        Some e \<Rightarrow> (Some e, s)
      | None \<Rightarrow>
          if map_of (os_names s) p \<noteq> None then (None, s\<lparr>os_names := AList.delete p (os_names s)\<rparr>)
          else if map_of (os_dirs s) p = None then (Some (Errno ENOENT), s)
          else if list_ex (\<lambda>q. parent_dir q = p) (map fst (os_names s) @ map fst (os_dirs s))
          then (Some (Errno ENOTEMPTY), s)
          else (None, s\<lparr>os_dirs := AList.delete p (os_dirs s)\<rparr>))"

definition os_mkdir :: "os_env \<Rightarrow> string \<Rightarrow> os_state \<Rightarrow> go_error option \<times> os_state" where
  "os_mkdir E p s =
     (case f_mkdir E p of
        Some e \<Rightarrow> (Some e, s)
      | None \<Rightarrow>
          if map_of (os_names s) p \<noteq> None then (Some (Errno ENOTDIR), s)
          else if map_of (os_dirs s) p \<noteq> None then (None, s)
          else (None, s\<lparr>os_dirs := (p, (4096, e_now E)) # os_dirs s\<rparr>))"

text \<open>The regular files of a directory in the order of \<^verbatim>\<open>os.ReadDir\<close>: by name.\<close>

definition readdir_files :: "string \<Rightarrow> os_state \<Rightarrow> (string \<times> nat) list" where
  "readdir_files d s =
     sort_key fst (map (\<lambda>(p, i). (base_name p, i)) (filter (\<lambda>(p, i). parent_dir p = d) (os_names s)))"

section \<open>The cache\<close>

record content_cache =
  cc_directory :: string
  cc_fds :: "(ident \<times> nat) list"
  cc_maxSize :: int
  cc_totalSize :: int
  cc_evicting :: bool
  cc_store :: "evict_entry list"
  cc_heap :: "addr list"
  cc_entries :: "(string \<times> addr) list"
  cc_closed :: bool

type_synonym cc_state = "content_cache \<times> os_state"

definition contentPath :: "content_cache \<Rightarrow> ident \<Rightarrow> string" where
  "contentPath c i =
     (let safe = (if nul \<in> set i then filter (\<lambda>x. x \<noteq> nul) i else i);
          safe = (if \<not> IsLocal safe then hex_of_string i else safe)
      in Join (cc_directory c) safe)"

subsection \<open>The eviction index\<close>

definition new_entry :: "ident \<Rightarrow> string \<Rightarrow> file_info \<Rightarrow> evict_entry" where
  "new_entry i path info = \<lparr>ev_id = i, ev_path = path, ev_modTime = snd info, ev_size = fst info, ev_index = - 1\<rparr>"

definition set_index_state :: "heap_state \<Rightarrow> content_cache \<Rightarrow> content_cache" where
  "set_index_state sh c = c\<lparr>cc_store := fst sh, cc_heap := snd sh\<rparr>"

text \<open>Allocating an entry for a path and pushing it.\<close>

definition add_entry :: "ident \<Rightarrow> string \<Rightarrow> file_info \<Rightarrow> content_cache \<Rightarrow> content_cache" where
  "add_entry i path info c =
     (let a = length (cc_store c);
          sh = push_entry a (cc_store c @ [new_entry i path info], cc_heap c)
      in (set_index_state sh c)\<lparr>cc_entries := AList.update path a (cc_entries c)\<rparr>)"

definition trackFileInfoLocked :: "ident \<Rightarrow> string \<Rightarrow> file_info \<Rightarrow> content_cache \<Rightarrow> content_cache" where
  "trackFileInfoLocked i path info c =
     (case map_of (cc_entries c) path of
        None \<Rightarrow> let c = add_entry i path info c in c\<lparr>cc_totalSize := cc_totalSize c + fst info\<rparr>
      | Some a \<Rightarrow>
          let e = cc_store c ! a;
              c = c\<lparr>cc_totalSize := cc_totalSize c + (fst info - ev_size e)\<rparr>;
              st = (cc_store c)[a := e\<lparr>ev_id := i, ev_modTime := snd info, ev_size := fst info\<rparr>];
              sh = (if 0 \<le> ev_index e then fix_entry (nat (ev_index e)) (st, cc_heap c)
                    else push_entry a (st, cc_heap c))
          in set_index_state sh c)"

definition trackFileLocked :: "os_env \<Rightarrow> ident \<Rightarrow> cc_state \<Rightarrow> go_error option \<times> content_cache" where
  "trackFileLocked E i = (\<lambda>(c, s).
     let path = contentPath c i in
     case os_stat E path s of
       Inl e \<Rightarrow> (Some e, c)
     | Inr info \<Rightarrow> (None, trackFileInfoLocked i path info c))"

definition trackOpenFileLocked :: "os_env \<Rightarrow> ident \<Rightarrow> string \<Rightarrow> nat \<Rightarrow> cc_state \<Rightarrow> go_error option \<times> content_cache" where
  "trackOpenFileLocked E i path fd = (\<lambda>(c, s).
     if map_of (cc_entries c) path \<noteq> None then (None, c)
     else case os_fstat E fd s of
            Inl e \<Rightarrow> (Some e, c)
          | Inr info \<Rightarrow> (None, trackFileInfoLocked i path info c))"

definition forgetEvictionEntryLocked :: "string \<Rightarrow> content_cache \<Rightarrow> content_cache" where
  "forgetEvictionEntryLocked path c =
     (case map_of (cc_entries c) path of
        None \<Rightarrow> c
      | Some a \<Rightarrow>
          let e = cc_store c ! a;
              sh = (if 0 \<le> ev_index e then snd (remove_entry (nat (ev_index e)) (cc_store c, cc_heap c))
                    else (cc_store c, cc_heap c))
          in (set_index_state sh c)\<lparr>cc_entries := AList.delete path (cc_entries c)\<rparr>)"

definition index_file :: "os_env \<Rightarrow> os_state \<Rightarrow> string \<times> nat \<Rightarrow> content_cache \<times> int \<Rightarrow> content_cache \<times> int" where
  "index_file E s = (\<lambda>(name, fd) (c, total).
     case f_info E name of
       Some _ \<Rightarrow> (c, total)
     | None \<Rightarrow>
         let info = file_stat fd s in
         (add_entry name (Join (cc_directory c) name) info c, total + fst info))"

definition initializeEvictionIndex :: "os_env \<Rightarrow> cc_state \<Rightarrow> go_error option \<times> content_cache" where
  "initializeEvictionIndex E = (\<lambda>(c, s).
     case f_readdir E of
       Some e \<Rightarrow> (Some e, c)
     | None \<Rightarrow>
         let (c, total) = fold (index_file E s) (readdir_files (cc_directory c) s) (c\<lparr>cc_entries := [], cc_heap := []\<rparr>, 0)
         in (None, c\<lparr>cc_totalSize := total\<rparr>))"

definition NewContentCache :: "os_env \<Rightarrow> string \<Rightarrow> os_state \<Rightarrow> (go_error + content_cache) \<times> os_state" where
  "NewContentCache E dir s =
     (case os_mkdir E dir s of
        (Some e, s) \<Rightarrow> (Inl e, s)
      | (None, s) \<Rightarrow>
          let c = \<lparr>cc_directory = dir, cc_fds = [], cc_maxSize = 0, cc_totalSize = 0, cc_evicting = False,
                   cc_store = [], cc_heap = [], cc_entries = [], cc_closed = False\<rparr>
          in case initializeEvictionIndex E (c, s) of
               (Some e, _) \<Rightarrow> (Inl e, s)
             | (None, c) \<Rightarrow> (Inr c, s))"

subsection \<open>Eviction by size\<close>

definition cc_IsOpen :: "content_cache \<Rightarrow> ident \<Rightarrow> bool" where
  "cc_IsOpen c i \<longleftrightarrow> map_of (cc_fds c) i \<noteq> None"

definition evictEntryIsOpen :: "content_cache \<Rightarrow> evict_entry \<Rightarrow> bool" where
  "evictEntryIsOpen c e \<longleftrightarrow>
     ev_id e \<noteq> [] \<and> cc_IsOpen c (ev_id e) \<or> list_ex (\<lambda>(i, _). contentPath c i = ev_path e) (cc_fds c)"

definition drop_entry :: "evict_entry \<Rightarrow> content_cache \<Rightarrow> content_cache" where
  "drop_entry e c =
     c\<lparr>cc_entries := AList.delete (ev_path e) (cc_entries c), cc_totalSize := cc_totalSize c - ev_size e\<rparr>"

text \<open>What becomes of one popped entry: \<open>True\<close> in the first component defers it.\<close>

definition evict_popped :: "os_env \<Rightarrow> addr \<Rightarrow> cc_state \<Rightarrow> bool \<times> cc_state" where
  "evict_popped E a = (\<lambda>(c, s).
     let e = cc_store c ! a in
     if map_of (cc_entries c) (ev_path e) \<noteq> Some a then (False, (c, s))
     else if evictEntryIsOpen c e then (True, (c, s))
     else case os_remove E (ev_path e) s of
            (None, s) \<Rightarrow> (False, (drop_entry e c, s))
          | (Some err, s) \<Rightarrow>
              if os_IsNotExist err then (False, (drop_entry e c, s)) else (True, (c, s)))"

lemma evict_popped_heap: "evict_popped E a cs = (b, cs') \<Longrightarrow> cc_heap (fst cs') = cc_heap (fst cs) \<and> cc_store (fst cs') = cc_store (fst cs)"
  by (auto simp: evict_popped_def drop_entry_def Let_def split: prod.splits option.splits if_splits)

function evict_loop :: "os_env \<Rightarrow> addr list \<Rightarrow> cc_state \<Rightarrow> addr list \<times> cc_state" where
  "evict_loop E deferred (c, s) =
     (if cc_totalSize c \<le> cc_maxSize c then (deferred, (c, s))
      else case pop_entry (cc_store c, cc_heap c) of
             None \<Rightarrow> (deferred, (c, s))
           | Some (a, sh) \<Rightarrow>
               (case evict_popped E a (set_index_state sh c, s) of
                  (defer_it, cs) \<Rightarrow> evict_loop E (if defer_it then deferred @ [a] else deferred) cs))"
  by pat_completeness auto

termination
  by (relation "measure (\<lambda>(E, deferred, cs). length (cc_heap (fst cs)))")
     (auto dest!: evict_popped_heap [OF sym] pop_entry_shorter simp: set_index_state_def)

declare evict_loop.simps [simp del]

definition push_back :: "addr \<Rightarrow> content_cache \<Rightarrow> content_cache" where
  "push_back a c = set_index_state (push_entry a (cc_store c, cc_heap c)) c"

definition evictBySize :: "os_env \<Rightarrow> cc_state \<Rightarrow> cc_state" where
  "evictBySize E = (\<lambda>(c, s).
     if cc_maxSize c \<le> 0 \<or> cc_totalSize c \<le> cc_maxSize c \<or> cc_heap c = [] then (c, s)
     else case evict_loop E [] (c, s) of (deferred, (c, s)) \<Rightarrow> (fold push_back deferred c, s))"

definition maybeEvict :: "content_cache \<Rightarrow> content_cache" where
  "maybeEvict c = (if cc_maxSize c \<le> 0 then c else c\<lparr>cc_evicting := True\<rparr>)"

text \<open>The goroutine that \<^verbatim>\<open>maybeEvict\<close> starts.\<close>

definition evict_task :: "os_env \<Rightarrow> cc_state \<Rightarrow> cc_state" where
  "evict_task E cs = (case evictBySize E cs of (c, s) \<Rightarrow> (c\<lparr>cc_evicting := False\<rparr>, s))"

definition ForceEvict :: "os_env \<Rightarrow> cc_state \<Rightarrow> cc_state" where
  "ForceEvict = evictBySize"

subsection \<open>Operations\<close>

definition cc_Open :: "os_env \<Rightarrow> ident \<Rightarrow> cc_state \<Rightarrow> (go_error + nat) \<times> cc_state" where
  "cc_Open E i = (\<lambda>(c, s).
     case map_of (cc_fds c) i of
       Some fd \<Rightarrow> (Inr fd, (c, s))
     | None \<Rightarrow>
         let path = contentPath c i in
         (case os_open E path s of
            (Inl e, s) \<Rightarrow> (Inl e, (c, s))
          | (Inr fd, s) \<Rightarrow>
              let c = c\<lparr>cc_fds := AList.update i fd (cc_fds c)\<rparr> in
              (case trackOpenFileLocked E i path fd (c, s) of
                 (None, c) \<Rightarrow> (Inr fd, (c, s))
               | (Some e, c) \<Rightarrow>
                   (Inl (case f_close E of None \<Rightarrow> e | Some ce \<Rightarrow> Joined e ce),
                    (c\<lparr>cc_fds := AList.delete i (cc_fds c)\<rparr>, s)))))"

definition cc_Insert :: "os_env \<Rightarrow> ident \<Rightarrow> bytes \<Rightarrow> cc_state \<Rightarrow> go_error option \<times> cc_state" where
  "cc_Insert E i content = (\<lambda>(c, s).
     if cc_closed c then (Some (Sentinel ErrCacheClosed), (c, s))
     else case os_writefile E (contentPath c i) content s of
            (Some e, s) \<Rightarrow> (Some e, (c, s))
          | (None, s) \<Rightarrow>
              (case trackFileLocked E i (c, s) of
                 (Some e, c) \<Rightarrow> (Some e, (c, s))
               | (None, c) \<Rightarrow> (None, (maybeEvict c, s))))"

text \<open>\<^verbatim>\<open>io.Copy\<close> from a reader into the truncated file: the bytes that arrived and the first error.\<close>

definition copied :: "os_env \<Rightarrow> reader \<Rightarrow> bytes \<times> go_error option" where
  "copied E = (\<lambda>(chunks, err).
     case f_write E of
       Some (n, e) \<Rightarrow> (take n (concat chunks), Some e)
     | None \<Rightarrow> (concat chunks, err))"

definition cc_InsertStream :: "os_env \<Rightarrow> ident \<Rightarrow> reader \<Rightarrow> cc_state \<Rightarrow> (nat \<times> go_error option) \<times> cc_state" where
  "cc_InsertStream E i r = (\<lambda>(c, s).
     if cc_closed c then ((0, Some (Sentinel ErrCacheClosed)), (c, s))
     else case cc_Open E i (c, s) of
            (Inl e, cs) \<Rightarrow> ((0, Some e), cs)
          | (Inr fd, (c, s)) \<Rightarrow>
              (case f_seek E of
                 Some e \<Rightarrow> ((0, Some e), (c, s))
               | None \<Rightarrow>
                   (case f_trunc E of
                      Some e \<Rightarrow> ((0, Some e), (c, s))
                    | None \<Rightarrow>
                        let (d, err) = copied E r; s = set_data fd d (e_now E) s in
                        (case err of
                           Some e \<Rightarrow> ((0, Some e), (c, s))
                         | None \<Rightarrow>
                             (case trackFileLocked E i (c, s) of
                                (Some e, c) \<Rightarrow> ((length d, Some e), (c, s))
                              | (None, c) \<Rightarrow> ((length d, None), (maybeEvict c, s)))))))"

text \<open>\<^verbatim>\<open>closeLocked\<close> reports whether the caller has to start an eviction.\<close>

definition closeLocked :: "os_env \<Rightarrow> ident \<Rightarrow> cc_state \<Rightarrow> bool \<times> content_cache" where
  "closeLocked E i = (\<lambda>(c, s).
     case map_of (cc_fds c) i of
       None \<Rightarrow> (False, c)
     | Some fd \<Rightarrow>
         let c = c\<lparr>cc_fds := AList.delete i (cc_fds c)\<rparr>;
             c = (case os_fstat E fd s of
                    Inl _ \<Rightarrow> c
                  | Inr info \<Rightarrow> trackFileInfoLocked i (contentPath c i) info c)
         in (0 < cc_maxSize c \<and> cc_maxSize c < cc_totalSize c, c))"

definition cc_Close :: "os_env \<Rightarrow> ident \<Rightarrow> cc_state \<Rightarrow> cc_state" where
  "cc_Close E i = (\<lambda>(c, s).
     case closeLocked E i (c, s) of (shouldEvict, c) \<Rightarrow> (if shouldEvict then maybeEvict c else c, s))"

definition cc_Size :: "os_env \<Rightarrow> ident \<Rightarrow> cc_state \<Rightarrow> int" where
  "cc_Size E i = (\<lambda>(c, s).
     let on_disk = (case os_stat E (contentPath c i) s of Inl _ \<Rightarrow> 0 | Inr info \<Rightarrow> fst info) in
     case map_of (cc_fds c) i of
       Some fd \<Rightarrow> (case os_fstat E fd s of Inr info \<Rightarrow> fst info | Inl _ \<Rightarrow> on_disk)
     | None \<Rightarrow> on_disk)"

definition cc_Delete :: "os_env \<Rightarrow> ident \<Rightarrow> cc_state \<Rightarrow> go_error option \<times> cc_state" where
  "cc_Delete E i = (\<lambda>(c, s).
     if cc_closed c then (Some (Sentinel ErrCacheClosed), (c, s))
     else
       let prevSize = cc_Size E i (c, s);
           (_, c) = closeLocked E i (c, s);
           path = contentPath c i;
           indexed = map_of (cc_entries c) path
       in case os_remove E path s of
            (None, s) \<Rightarrow>
              let removedSize = (case indexed of Some a \<Rightarrow> ev_size (cc_store c ! a) | None \<Rightarrow> prevSize);
                  c = forgetEvictionEntryLocked path c
              in (None, (c\<lparr>cc_totalSize := cc_totalSize c - removedSize\<rparr>, s))
          | (Some err, s) \<Rightarrow>
              (case indexed of
                 Some a \<Rightarrow>
                   if os_IsNotExist err
                   then let sz = ev_size (cc_store c ! a); c = forgetEvictionEntryLocked path c
                        in (Some err, (c\<lparr>cc_totalSize := cc_totalSize c - sz\<rparr>, s))
                   else (Some err, (c, s))
               | None \<Rightarrow> (Some err, (c, s))))"

definition HasContent :: "os_env \<Rightarrow> ident \<Rightarrow> cc_state \<Rightarrow> bool" where
  "HasContent E i = (\<lambda>(c, s).
     map_of (cc_fds c) i \<noteq> None \<or> (case os_stat E (contentPath c i) s of Inr _ \<Rightarrow> True | Inl _ \<Rightarrow> False))"

text \<open>Writing at an offset; a gap before it reads as zeros.\<close>

definition splice :: "nat \<Rightarrow> bytes \<Rightarrow> bytes \<Rightarrow> bytes" where
  "splice off b d =
     (if b = [] then d
      else take off d @ replicate (off - length d) 0 @ b @ drop (off + length b) d)"

definition fd_WriteAt :: "os_env \<Rightarrow> nat \<Rightarrow> bytes \<Rightarrow> int \<Rightarrow> os_state \<Rightarrow> (nat \<times> go_error option) \<times> os_state" where
  "fd_WriteAt E fd b off s =
     (if off < 0 then ((0, Some (Plain ''negative offset'')), s)
      else
        let d = of_data (os_files s fd);
            put = (\<lambda>b. if b = [] then s else set_data fd (splice (nat off) b d) (e_now E) s)
        in case f_write E of
             Some (n, e) \<Rightarrow> ((min n (length b), Some e), put (take n b))
           | None \<Rightarrow> ((length b, None), put b))"

definition cc_WriteAt :: "os_env \<Rightarrow> ident \<Rightarrow> bytes \<Rightarrow> int \<Rightarrow> cc_state \<Rightarrow> (nat \<times> go_error option) \<times> cc_state" where
  "cc_WriteAt E i b off = (\<lambda>(c, s).
     if cc_closed c then ((0, Some (Sentinel ErrCacheClosed)), (c, s))
     else
       let prevSize = cc_Size E i (c, s) in
       case cc_Open E i (c, s) of
         (Inl e, cs) \<Rightarrow> ((0, Some e), cs)
       | (Inr fd, (c, s)) \<Rightarrow>
           (case fd_WriteAt E fd b off s of
              ((n, Some e), s) \<Rightarrow> ((n, Some e), (c, s))
            | ((n, None), s) \<Rightarrow>
                (case trackFileLocked E i (c, s) of
                   (Some e, c) \<Rightarrow> ((n, Some e), (c, s))
                 | (None, c) \<Rightarrow>
                     ((n, None), (if prevSize < off + int n then maybeEvict c else c, s)))))"

text \<open>The descriptor positioned at the start and its contents, or the error of opening, seeking or reading.\<close>

definition cc_read :: "os_env \<Rightarrow> ident \<Rightarrow> cc_state \<Rightarrow> (go_error + bytes) \<times> cc_state" where
  "cc_read E i cs =
     (case cc_Open E i cs of
        (Inl e, cs) \<Rightarrow> (Inl e, cs)
      | (Inr fd, cs) \<Rightarrow>
          (case f_seek E of
             Some e \<Rightarrow> (Inl e, cs)
           | None \<Rightarrow>
               (case f_read E of
                  Some (_, e) \<Rightarrow> (Inl e, cs)
                | None \<Rightarrow> (Inr (of_data (os_files (snd cs) fd)), cs))))"

definition ReadAll :: "os_env \<Rightarrow> ident \<Rightarrow> cc_state \<Rightarrow> bytes option \<times> cc_state" where
  "ReadAll E i cs =
     (case cc_read E i cs of (Inl _, cs) \<Rightarrow> (None, cs) | (Inr d, cs) \<Rightarrow> (Some d, cs))"

definition SumQuickXorHash :: "os_env \<Rightarrow> ident \<Rightarrow> cc_state \<Rightarrow> string option \<times> cc_state" where
  "SumQuickXorHash E i cs =
     (if \<not> HasContent E i cs then (None, cs)
      else case cc_read E i cs of
             (Inl _, cs) \<Rightarrow> (None, cs)
           | (Inr d, cs) \<Rightarrow> (Some (base64_encode (qx_Sum [] (qx_Write d qx_New))), cs))"

definition snapshotsDir :: "content_cache \<Rightarrow> string" where
  "snapshotsDir c = Join (cc_directory c) ''snapshots''"

text \<open>\<^verbatim>\<open>os.CreateTemp\<close>: a new file with a random suffix.\<close>

definition os_createtemp :: "os_env \<Rightarrow> string \<Rightarrow> string \<Rightarrow> os_state \<Rightarrow> (go_error + string \<times> nat) \<times> os_state" where
  "os_createtemp E dir prefix s =
     (let p = Join dir (prefix @ e_temp E) in
      if map_of (os_names s) p \<noteq> None then (Inl (Plain ''file exists''), s)
      else case os_open E p s of (Inl e, s) \<Rightarrow> (Inl e, s) | (Inr fd, s) \<Rightarrow> (Inr (p, fd), s))"

definition Snapshot :: "os_env \<Rightarrow> ident \<Rightarrow> cc_state \<Rightarrow> (go_error + string \<times> nat) \<times> cc_state" where
  "Snapshot E i cs =
     (if \<not> HasContent E i cs then (Inl (Sentinel ErrNotExist), cs)
      else case cc_Open E i cs of
        (Inl e, cs) \<Rightarrow> (Inl e, cs)
      | (Inr fd, (c, s)) \<Rightarrow>
          (case f_seek E of
             Some e \<Rightarrow> (Inl e, (c, s))
           | None \<Rightarrow>
          (case os_mkdir E (snapshotsDir c) s of
             (Some e, s) \<Rightarrow> (Inl e, (c, s))
           | (None, s) \<Rightarrow>
          (case os_createtemp E (snapshotsDir c) ''snapshot-'' s of
             (Inl e, s) \<Rightarrow> (Inl e, (c, s))
           | (Inr (path, tmp), s) \<Rightarrow>
               let d = of_data (os_files s fd);
                   (d', copyErr) = (case f_read E of
                       Some (n, e) \<Rightarrow> (take n d, Some e)
                     | None \<Rightarrow> (case f_write E of Some (n, e) \<Rightarrow> (take n d, Some e) | None \<Rightarrow> (d, None)));
                   s = set_data tmp d' (e_now E) s
               in case copyErr of
                    Some e \<Rightarrow> (Inl e, (c, snd (os_remove E path s)))
                  | None \<Rightarrow>
                      (case f_close E of
                         Some e \<Rightarrow> (Inl e, (c, snd (os_remove E path s)))
                       | None \<Rightarrow>
                           if d' = [] then (Inr ([], 0), (c, snd (os_remove E path s)))
                           else (Inr (path, length d'), (c, s)))))))"

definition SetMaxSize :: "int \<Rightarrow> content_cache \<Rightarrow> content_cache" where
  "SetMaxSize n c = c\<lparr>cc_maxSize := n\<rparr>"

definition TotalDiskUsage :: "os_env \<Rightarrow> cc_state \<Rightarrow> int" where
  "TotalDiskUsage E = (\<lambda>(c, s).
     case f_readdir E of
       Some _ \<Rightarrow> cc_totalSize c
     | None \<Rightarrow>
         fold (\<lambda>(name, fd) total. case f_info E name of Some _ \<Rightarrow> total | None \<Rightarrow> total + fst (file_stat fd s))
           (readdir_files (cc_directory c) s) 0)"

definition CloseAll :: "content_cache \<Rightarrow> content_cache" where
  "CloseAll c = c\<lparr>cc_closed := True, cc_fds := []\<rparr>"

end
