(* ===== verification/Content_Cache_Inv.thy ===== *)
theory Content_Cache_Inv
  imports Content_Cache
begin

text \<open>
  The invariant of the eviction index of the content cache and its preservation.  \<open>indexed xs c\<close>
  says that the map of entries and the heap agree, up to the addresses \<open>xs\<close> that an eviction pass
  has popped and put aside; \<open>debt\<close> is the difference between the tracked total and the sum of the
  sizes of the indexed files.  Every operation keeps the first; all but one way of deleting keep
  the second.
\<close>

section \<open>Sizes of indexed files\<close>

definition sizes :: "evict_entry list \<Rightarrow> addr list \<Rightarrow> int" where
  "sizes st h = (\<Sum>a \<leftarrow> h. ev_size (st ! a))"

lemma sizes_mset: "sizes st h = (\<Sum>a \<in># mset h. ev_size (st ! a))"
  by (simp add: sizes_def sum_mset_sum_list flip: mset_map)

lemma sizes_add: "mset h' = add_mset a (mset h) \<Longrightarrow> sizes st h' = ev_size (st ! a) + sizes st h"
  by (simp add: sizes_mset)

lemma sizes_same_mset: "mset h' = mset h \<Longrightarrow> sizes st h' = sizes st h"
  by (simp add: sizes_mset)

lemma sizes_cong: "(\<And>a. a \<in> set h \<Longrightarrow> ev_size (st' ! a) = ev_size (st ! a)) \<Longrightarrow> sizes st' h = sizes st h"
  by (simp add: sizes_def cong: map_cong)

lemma sizes_same_keys: "same_keys st st' \<Longrightarrow> \<forall>a \<in> set h. a < length st \<Longrightarrow> sizes st' h = sizes st h"
  by (rule sizes_cong) (simp add: same_keys_fields)

lemma sizes_append [simp]: "sizes st (xs @ ys) = sizes st xs + sizes st ys"
  by (simp add: sizes_def)

section \<open>The invariant\<close>

definition entries_ok :: "content_cache \<Rightarrow> bool" where
  "entries_ok c \<longleftrightarrow> keys_distinct (cc_entries c) \<and>
     (\<forall>p a. map_of (cc_entries c) p = Some a \<longrightarrow> a < length (cc_store c) \<and> ev_path (cc_store c ! a) = p)"

definition indexed :: "addr list \<Rightarrow> content_cache \<Rightarrow> bool" where
  "indexed xs c \<longleftrightarrow> heap_inv (cc_store c, cc_heap c) \<and> entries_ok c \<and> distinct xs \<and>
     set xs \<inter> set (cc_heap c) = {} \<and> set xs \<union> set (cc_heap c) = ran (map_of (cc_entries c))"

definition debt :: "addr list \<Rightarrow> content_cache \<Rightarrow> int" where
  "debt xs c = cc_totalSize c - sizes (cc_store c) (xs @ cc_heap c)"

text \<open>The two halves of the invariant between operations.\<close>

definition index_wf :: "content_cache \<Rightarrow> bool" where
  "index_wf c = indexed [] c"

definition accounted :: "content_cache \<Rightarrow> bool" where
  "accounted c \<longleftrightarrow> debt [] c = 0"

lemma ran_iff: "a \<in> ran m \<longleftrightarrow> (\<exists>p. m p = Some a)"
  by (auto simp: ran_def)

lemma indexed_valid:
  assumes "indexed xs c"
  shows "\<forall>a \<in> set (cc_heap c). a < length (cc_store c)" "\<forall>a \<in> set xs. a < length (cc_store c)"
proof -
  have "a < length (cc_store c)" if "a \<in> set xs \<union> set (cc_heap c)" for a
    using assms that by (auto simp: indexed_def entries_ok_def ran_iff)
  then show "\<forall>a \<in> set (cc_heap c). a < length (cc_store c)" "\<forall>a \<in> set xs. a < length (cc_store c)" by auto
qed

text \<open>Entries of different paths have different addresses.\<close>

lemma entries_inj:
  "entries_ok c \<Longrightarrow> map_of (cc_entries c) p = Some a \<Longrightarrow> map_of (cc_entries c) q = Some a \<Longrightarrow> p = q"
  unfolding entries_ok_def by metis

lemma ran_delete:
  assumes "m p = Some a" "\<And>q q'. m q = Some a \<Longrightarrow> m q' = Some a \<Longrightarrow> q = q'"
  shows "ran (m(p := None)) = ran m - {a}"
proof -
  have "q = p" if "m q = Some a" for q using assms that by blast
  then have iff: "m q = Some b \<and> q \<noteq> p \<longleftrightarrow> m q = Some b \<and> b \<noteq> a" for q b using assms(1) by (metis option.inject)
  have "ran (m(p := None)) = {b. \<exists>q. m q = Some b \<and> q \<noteq> p}" by (auto simp: ran_def)
  also have "\<dots> = ran m - {a}" unfolding iff by (auto simp: ran_def)
  finally show ?thesis .
qed

lemma entries_ok_store:
  assumes "entries_ok c" "length st = length (cc_store c)"
    "\<And>a. a < length (cc_store c) \<Longrightarrow> ev_path (st ! a) = ev_path (cc_store c ! a)"
    "cc_entries c' = cc_entries c" "cc_store c' = st"
  shows "entries_ok c'"
  using assms by (auto simp: entries_ok_def)

lemma entries_ok_same_keys:
  assumes "entries_ok c" "same_keys (cc_store c) (cc_store c')" "cc_entries c' = cc_entries c"
  shows "entries_ok c'"
  using assms same_keys_length [OF assms(2)] same_keys_fields(2) [OF assms(2)]
  by (auto simp: entries_ok_def)

section \<open>Adding, refreshing and forgetting an entry\<close>

lemma heap_inv_grow:
  assumes "heap_inv (st, h)"
  shows "heap_inv (st @ [e], h)"
proof -
  have pos: "positions_ok (st, h)" and hp: "is_heap (addr_less st) h" using assms by (auto simp: heap_inv_def)
  have v: "h ! k < length st" if "k < length h" for k using pos that by (simp add: positions_ok_def)
  have "addr_less (st @ [e]) (h ! k) (h ! par k) = addr_less st (h ! k) (h ! par k)" if "0 < k" "k < length h" for k
    using v [OF that(2)] v [of "par k"] par_less [OF that(1)] that by (simp add: addr_less_def nth_append)
  then have "is_heap (addr_less (st @ [e])) h" using hp by (auto simp: is_heap_def heap_on_def edge_def)
  moreover have "positions_ok (st @ [e], h)"
    using pos v by (auto simp: positions_ok_def nth_append less_SucI)
  ultimately show ?thesis by (simp add: heap_inv_def)
qed

lemma add_entry_keeps:
  fixes i :: ident and info :: file_info
  assumes ix: "indexed [] c" and new: "map_of (cc_entries c) path = None"
  defines "c' \<equiv> add_entry i path info c"
  shows "indexed [] c'" "sizes (cc_store c') (cc_heap c') = fst info + sizes (cc_store c) (cc_heap c)"
    "map_of (cc_entries c') = (map_of (cc_entries c))(path \<mapsto> length (cc_store c))"
    "cc_totalSize c' = cc_totalSize c"
proof -
  let ?a = "length (cc_store c)" and ?st = "cc_store c @ [new_entry i path info]"
  obtain st' h' where p: "push_entry ?a (?st, cc_heap c) = (st', h')" by fastforce
  have c': "cc_store c' = st'" "cc_heap c' = h'" "cc_entries c' = AList.update path ?a (cc_entries c)"
    "cc_totalSize c' = cc_totalSize c"
    by (simp_all add: c'_def add_entry_def Let_def p set_index_state_def)
  show ent: "map_of (cc_entries c') = (map_of (cc_entries c))(path \<mapsto> ?a)" by (simp add: c'(3) update_conv')
  show "cc_totalSize c' = cc_totalSize c" by (fact c'(4))
  have valid: "\<forall>a \<in> set (cc_heap c). a < ?a" using indexed_valid(1) [OF ix] .
  then have fresh: "?a \<notin> set (cc_heap c)" by auto
  have hi: "heap_inv (?st, cc_heap c)" using ix heap_inv_grow by (simp add: indexed_def)
  note pp = push_entry_props [OF hi _ fresh p]
  have sk: "same_keys ?st st'" "mset h' = add_mset ?a (mset (cc_heap c))" and hi': "heap_inv (st', h')"
    using pp by simp_all
  have nth: "ev_path (st' ! a) = ev_path (?st ! a) \<and> ev_size (st' ! a) = ev_size (?st ! a)" if "a < Suc ?a" for a
    using same_keys_fields(2,4) [OF sk(1), of a] that by simp
  have "entries_ok c'"
    unfolding entries_ok_def ent c'(1)
    using ix nth same_keys_length [OF sk(1)]
    by (auto simp: indexed_def entries_ok_def c'(3) nth_append new_entry_def less_SucI)
  moreover have "set h' = insert ?a (set (cc_heap c))" using sk(2) by (metis set_mset_mset set_mset_add_mset_insert)
  moreover have "ran (map_of (cc_entries c')) = insert ?a (ran (map_of (cc_entries c)))"
    unfolding ent using new by simp
  ultimately show "indexed [] c'" using hi' ix by (simp add: indexed_def c')
  have "sizes st' h' = ev_size (st' ! ?a) + sizes st' (cc_heap c)" using sizes_add [OF sk(2)] .
  moreover have "sizes st' (cc_heap c) = sizes (cc_store c) (cc_heap c)"
    using nth valid by (intro sizes_cong) (auto simp: nth_append less_SucI)
  moreover have "ev_size (st' ! ?a) = fst info" using nth [of ?a] by (simp add: new_entry_def)
  ultimately show "sizes (cc_store c') (cc_heap c') = fst info + sizes (cc_store c) (cc_heap c)" by (simp add: c')
qed

text \<open>Position and address of an indexed path.\<close>

lemma indexed_position:
  assumes "indexed [] c" "map_of (cc_entries c) path = Some a"
  obtains k where "k < length (cc_heap c)" "cc_heap c ! k = a" "ev_index (cc_store c ! a) = int k"
    "a < length (cc_store c)" "ev_path (cc_store c ! a) = path"
proof -
  have "a \<in> set (cc_heap c)" using assms by (auto simp: indexed_def ran_iff)
  then obtain k where k: "k < length (cc_heap c)" "cc_heap c ! k = a" by (auto simp: in_set_conv_nth)
  then have "ev_index (cc_store c ! a) = int k"
    using assms(1) by (auto simp: indexed_def heap_inv_def positions_ok_def)
  then show ?thesis using that k assms by (auto simp: indexed_def entries_ok_def)
qed

text \<open>Changing the key of the entry at one position opens a gap there only.\<close>

lemma gap_at_update:
  assumes inv: "heap_inv (st, h)" and k: "k < length h" and a: "h ! k = a"
    and e: "ev_index e = ev_index (st ! a)"
  shows "positions_ok (st[a := e], h)" "down_gap (addr_less (st[a := e])) (length h) k h"
proof -
  have pos: "positions_ok (st, h)" and hp: "is_heap (addr_less st) h" using inv by (auto simp: heap_inv_def)
  have al: "a < length st" and dist: "distinct h" using pos k a by (auto simp: positions_ok_def)
  show "positions_ok (st[a := e], h)"
    using pos al e by (auto simp: positions_ok_def nth_list_update)
  have ne: "h ! m \<noteq> a" if "m < length h" "m \<noteq> k" for m
    using dist a k that by (auto simp: nth_eq_iff_index_eq)
  have same: "addr_less (st[a := e]) (h ! m) (h ! n) = addr_less st (h ! m) (h ! n)"
    if "m < length h" "n < length h" "m \<noteq> k" "n \<noteq> k" for m n
  proof -
    have "a \<noteq> h ! m" "a \<noteq> h ! n" using ne that by metis+
    then show ?thesis by (simp add: addr_less_def)
  qed
  have gap: "down_gap (addr_less st) (length h) k h"
    using hp k by (intro addr_order.heap_on_down_gap) (auto simp: is_heap_def)
  have pl: "par m < length h" "par m \<noteq> m" if "0 < m" "m < length h" for m
    using par_less [OF that(1)] that by auto
  show "down_gap (addr_less (st[a := e])) (length h) k h"
    unfolding down_gap_def edge_def
  proof (intro conjI allI impI)
    fix m assume m: "0 < m \<and> m < length h \<and> m \<noteq> k \<and> par m \<noteq> k"
    then show "\<not> addr_less (st[a := e]) (h ! m) (h ! par m)"
      using gap same [of m "par m"] pl [of m] by (auto simp: down_gap_def edge_def)
  next
    fix m assume k0: "0 < k" and m: "0 < m \<and> m < length h \<and> par m = k"
    then have "m \<noteq> k" using pl(2) [of m] by auto
    moreover have "par k \<noteq> k" "par k < length h" using pl [OF k0 k] by auto
    ultimately show "\<not> addr_less (st[a := e]) (h ! m) (h ! par k)"
      using gap same [of m "par k"] m k0 by (auto simp: down_gap_def)
  qed
qed

lemma trackFileInfoLocked_keeps:
  fixes i :: ident and info :: file_info and path :: string
  assumes ix: "indexed [] c"
  defines "c' \<equiv> trackFileInfoLocked i path info c"
  shows "indexed [] c'" "debt [] c' = debt [] c"
    "dom (map_of (cc_entries c')) = insert path (dom (map_of (cc_entries c)))"
proof -
  have "indexed [] c' \<and> debt [] c' = debt [] c \<and>
    dom (map_of (cc_entries c')) = insert path (dom (map_of (cc_entries c)))"
  proof (cases "map_of (cc_entries c) path")
    case None
    note ad = add_entry_keeps [OF ix None, of i info]
    have "c' = (add_entry i path info c)\<lparr>cc_totalSize := cc_totalSize c + fst info\<rparr>"
      using ad(4) by (simp add: c'_def trackFileInfoLocked_def None Let_def)
    then show ?thesis using ad by (simp add: indexed_def entries_ok_def debt_def)
  next
    case (Some a)
    obtain k where k: "k < length (cc_heap c)" "cc_heap c ! k = a" "ev_index (cc_store c ! a) = int k"
      "a < length (cc_store c)" "ev_path (cc_store c ! a) = path"
      using indexed_position [OF ix Some] .
    let ?e = "(cc_store c ! a)\<lparr>ev_id := i, ev_modTime := snd info, ev_size := fst info\<rparr>"
    let ?st = "(cc_store c)[a := ?e]"
    have inv: "heap_inv (cc_store c, cc_heap c)" using ix by (simp add: indexed_def)
    obtain st' h' where f: "fix_entry k (?st, cc_heap c) = (st', h')" by fastforce
    have c': "cc_store c' = st'" "cc_heap c' = h'" "cc_entries c' = cc_entries c"
      "cc_totalSize c' = cc_totalSize c + (fst info - ev_size (cc_store c ! a))"
      using f k by (simp_all add: c'_def trackFileInfoLocked_def Some Let_def set_index_state_def)
    note gu = gap_at_update [OF inv k(1,2), of ?e]
    have fp: "heap_inv (st', h')" "same_keys ?st st'" "mset h' = mset (cc_heap c)"
      using fix_entry_props [OF _ k(1) _ f] gu by simp_all
    have path: "ev_path (st' ! b) = ev_path (cc_store c ! b)" if "b < length (cc_store c)" for b
      using same_keys_fields(2) [OF fp(2)] that by (cases "b = a") simp_all
    have "entries_ok c'"
      using entries_ok_store [of c st' c'] ix path same_keys_length [OF fp(2)] by (simp add: indexed_def c')
    moreover have "set h' = set (cc_heap c)" using mset_eq_setD [OF fp(3)] .
    ultimately have "indexed [] c'" using fp(1) ix by (simp add: indexed_def c')
    moreover have "sizes st' h' = sizes (cc_store c) (cc_heap c) + (fst info - ev_size (cc_store c ! a))"
    proof -
      have "a \<in> set (cc_heap c)" using k nth_mem by metis
      then obtain g where g: "mset (cc_heap c) = add_mset a (mset g)"
        by (metis ex_mset mset_add set_mset_mset)
      have an: "a \<notin> set g"
      proof -
        have "distinct (cc_heap c)" using inv by (simp add: heap_inv_def positions_ok_def)
        then have "distinct (a # g)" using mset_eq_imp_distinct_iff [of "cc_heap c" "a # g"] g by simp
        then show ?thesis by simp
      qed
      have v: "\<forall>b \<in> set (cc_heap c). b < length (cc_store c)" using indexed_valid(1) [OF ix] .
      have sz: "ev_size (st' ! b) = ev_size (?st ! b)" if "b < length (cc_store c)" for b
        using same_keys_fields(4) [OF fp(2)] that by simp
      have "set g \<subseteq> set (cc_heap c)" using g by (metis set_mset_mset set_mset_add_mset_insert subset_insertI)
      then have "sizes st' g = sizes (cc_store c) g"
        using v an sz by (intro sizes_cong) (metis nth_list_update_neq subsetD)
      moreover have "ev_size (st' ! a) = fst info" using sz [OF k(4)] k(4) by simp
      ultimately show ?thesis
        using sizes_add [OF g, of "cc_store c"] sizes_add [of h' a g st'] fp(3) g by simp
    qed
    ultimately show ?thesis using Some by (auto simp: debt_def c')
  qed
  then show "indexed [] c'" "debt [] c' = debt [] c"
    "dom (map_of (cc_entries c')) = insert path (dom (map_of (cc_entries c)))" by auto
qed

lemma forget_keeps:
  fixes path :: string
  assumes ix: "indexed [] c"
  defines "c' \<equiv> forgetEvictionEntryLocked path c"
  shows "indexed [] c'" "map_of (cc_entries c') = (map_of (cc_entries c))(path := None)"
    "cc_totalSize c' = cc_totalSize c"
    "sizes (cc_store c) (cc_heap c) = sizes (cc_store c') (cc_heap c') +
       (case map_of (cc_entries c) path of None \<Rightarrow> 0 | Some a \<Rightarrow> ev_size (cc_store c ! a))"
proof -
  have "indexed [] c' \<and> map_of (cc_entries c') = (map_of (cc_entries c))(path := None) \<and> cc_totalSize c' = cc_totalSize c
    \<and> sizes (cc_store c) (cc_heap c) = sizes (cc_store c') (cc_heap c') +
       (case map_of (cc_entries c) path of None \<Rightarrow> 0 | Some a \<Rightarrow> ev_size (cc_store c ! a))"
  proof (cases "map_of (cc_entries c) path")
    case None
    then show ?thesis using ix by (simp add: c'_def forgetEvictionEntryLocked_def fun_upd_idem)
  next
    case (Some a)
    obtain k where k: "k < length (cc_heap c)" "cc_heap c ! k = a" "ev_index (cc_store c ! a) = int k"
      "a < length (cc_store c)" "ev_path (cc_store c ! a) = path"
      using indexed_position [OF ix Some] .
    have inv: "heap_inv (cc_store c, cc_heap c)" using ix by (simp add: indexed_def)
    obtain b st' h' where r: "remove_entry k (cc_store c, cc_heap c) = (b, st', h')" by (metis prod_cases3)
    note rp = remove_entry_props [OF inv k(1) r]
    have b: "b = a" using rp(3) k(2) by simp
    have c': "cc_store c' = st'" "cc_heap c' = h'" "cc_entries c' = AList.delete path (cc_entries c)"
      "cc_totalSize c' = cc_totalSize c"
      using r k by (simp_all add: c'_def forgetEvictionEntryLocked_def Some Let_def set_index_state_def)
    have ent: "map_of (cc_entries c') = (map_of (cc_entries c))(path := None)" by (simp add: c' delete_conv')
    have eo: "entries_ok c" using ix by (simp add: indexed_def)
    have "entries_ok c'"
      unfolding entries_ok_def ent c'(1)
      using eo same_keys_length [OF rp(2)] same_keys_fields(2) [OF rp(2)]
      by (auto simp: entries_ok_def c'(3))
    moreover have "set (cc_heap c) = insert a (set h')" "a \<notin> set h'"
      using rp(4,7) b by (metis set_mset_mset set_mset_add_mset_insert, simp)
    moreover have "ran ((map_of (cc_entries c))(path := None)) = ran (map_of (cc_entries c)) - {a}"
      using ran_delete [of "map_of (cc_entries c)" path a] Some entries_inj [OF eo] by blast
    ultimately have "indexed [] c'" using rp(1) ix by (auto simp: indexed_def c' ent [unfolded c'])
    moreover have "sizes (cc_store c) (cc_heap c) = sizes st' h' + ev_size (cc_store c ! a)"
    proof -
      have "\<forall>d \<in> set h'. d < length (cc_store c)"
        using indexed_valid(1) [OF ix] \<open>set (cc_heap c) = insert a (set h')\<close> by auto
      then have "sizes st' h' = sizes (cc_store c) h'" using sizes_same_keys [OF rp(2)] by blast
      then show ?thesis using sizes_add [OF rp(4), of "cc_store c"] b by simp
    qed
    ultimately show ?thesis using Some ent by (simp add: c')
  qed
  then show "indexed [] c'" "map_of (cc_entries c') = (map_of (cc_entries c))(path := None)"
    "cc_totalSize c' = cc_totalSize c"
    "sizes (cc_store c) (cc_heap c) = sizes (cc_store c') (cc_heap c') +
       (case map_of (cc_entries c) path of None \<Rightarrow> 0 | Some a \<Rightarrow> ev_size (cc_store c ! a))" by blast+
qed

section \<open>An eviction pass\<close>

text \<open>Popping moves the least address of the heap to the addresses put aside; pushing back undoes that.\<close>

lemma pop_keeps:
  assumes ix: "indexed xs c" and p: "pop_entry (cc_store c, cc_heap c) = Some (a, sh)"
  defines "c' \<equiv> set_index_state sh c"
  shows "indexed (xs @ [a]) c'" "debt (xs @ [a]) c' = debt xs c" "same_keys (cc_store c) (cc_store c')"
    "\<And>b. b \<in> set (cc_heap c') \<Longrightarrow> \<not> addr_less (cc_store c) b a" "set (cc_heap c') \<subseteq> set (cc_heap c)"
proof -
  obtain st h where sh: "sh = (st, h)" by fastforce
  have inv: "heap_inv (cc_store c, cc_heap c)" using ix by (simp add: indexed_def)
  note pp = pop_entry_props [OF inv p [unfolded sh]]
  have c': "cc_store c' = st" "cc_heap c' = h" "cc_entries c' = cc_entries c" "cc_totalSize c' = cc_totalSize c"
    by (simp_all add: c'_def sh set_index_state_def)
  have hs: "set (cc_heap c) = insert a (set h)" using pp(3) by (metis set_mset_mset set_mset_add_mset_insert)
  have "entries_ok c'" using entries_ok_same_keys [of c c'] pp(2) ix by (simp add: c' indexed_def)
  then show "indexed (xs @ [a]) c'" using pp(1,6) ix hs by (auto simp: indexed_def c')
  show "same_keys (cc_store c) (cc_store c')" using pp(2) by (simp add: c')
  show "\<not> addr_less (cc_store c) b a" if "b \<in> set (cc_heap c')" for b using that hs pp(7) by (auto simp: c')
  show "set (cc_heap c') \<subseteq> set (cc_heap c)" using hs by (auto simp: c')
  have v: "\<forall>b \<in> set (xs @ a # h). b < length (cc_store c)" using indexed_valid [OF ix] hs by auto
  have "sizes st (xs @ a # h) = sizes (cc_store c) (xs @ a # h)" using sizes_same_keys [OF pp(2) v] .
  moreover have "sizes (cc_store c) (xs @ cc_heap c) = sizes (cc_store c) (xs @ a # h)"
    using pp(3) by (intro sizes_same_mset) simp
  ultimately show "debt (xs @ [a]) c' = debt xs c" by (simp add: debt_def c')
qed

lemma push_back_keeps:
  assumes ix: "indexed (a # xs) c"
  defines "c' \<equiv> push_back a c"
  shows "indexed xs c'" "debt xs c' = debt (a # xs) c" "same_keys (cc_store c) (cc_store c')"
    "cc_entries c' = cc_entries c"
proof -
  obtain st h where p: "push_entry a (cc_store c, cc_heap c) = (st, h)" by fastforce
  have inv: "heap_inv (cc_store c, cc_heap c)" using ix by (simp add: indexed_def)
  have a: "a < length (cc_store c)" "a \<notin> set (cc_heap c)"
    using indexed_valid [OF ix] ix by (auto simp: indexed_def)
  note pp = push_entry_props [OF inv a p]
  have c': "cc_store c' = st" "cc_heap c' = h" "cc_entries c' = cc_entries c" "cc_totalSize c' = cc_totalSize c"
    by (simp_all add: c'_def push_back_def p set_index_state_def)
  have hs: "set h = insert a (set (cc_heap c))" using pp(3) by (metis set_mset_mset set_mset_add_mset_insert)
  have "entries_ok c'" using entries_ok_same_keys [of c c'] pp(2) ix by (simp add: c' indexed_def)
  then show "indexed xs c'" using pp(1) ix hs by (auto simp: indexed_def c')
  show "same_keys (cc_store c) (cc_store c')" "cc_entries c' = cc_entries c" using pp(2) by (simp_all add: c')
  have v: "\<forall>b \<in> set (xs @ h). b < length (cc_store c)" using indexed_valid [OF ix] hs by auto
  have "sizes st (xs @ h) = sizes (cc_store c) (xs @ h)" using sizes_same_keys [OF pp(2) v] .
  moreover have "sizes (cc_store c) (xs @ h) = sizes (cc_store c) ((a # xs) @ cc_heap c)"
    using pp(3) by (intro sizes_same_mset) simp
  ultimately show "debt xs c' = debt (a # xs) c" by (simp add: debt_def c')
qed

text \<open>What an eviction pass leaves alone.\<close>

definition same_frame :: "content_cache \<Rightarrow> content_cache \<Rightarrow> bool" where
  "same_frame c c' \<longleftrightarrow> cc_directory c' = cc_directory c \<and> cc_fds c' = cc_fds c \<and> cc_maxSize c' = cc_maxSize c \<and>
     cc_evicting c' = cc_evicting c \<and> cc_closed c' = cc_closed c"

lemma same_frame_refl [simp]: "same_frame c c"
  by (simp add: same_frame_def)

lemma same_frame_trans: "same_frame a b \<Longrightarrow> same_frame b c \<Longrightarrow> same_frame a c"
  by (simp add: same_frame_def)

lemma same_frame_index [simp]: "same_frame c (set_index_state sh c)" "same_frame c (push_back a c)" "same_frame c (drop_entry e c)"
  by (simp_all add: same_frame_def set_index_state_def push_back_def drop_entry_def)

lemma contentPath_frame: "cc_directory c' = cc_directory c \<Longrightarrow> contentPath c' i = contentPath c i"
  by (simp add: contentPath_def)

lemma evictEntryIsOpen_frame:
  assumes "same_frame c c'" "erase e' = erase e"
  shows "evictEntryIsOpen c' e' = evictEntryIsOpen c e"
proof -
  have "ev_id e' = ev_id e" "ev_path e' = ev_path e" using assms(2) by (cases e; cases e'; simp add: erase_def)+
  moreover have "contentPath c' i = contentPath c i" for i
    using assms(1) contentPath_frame [of c' c] unfolding same_frame_def by blast
  ultimately show ?thesis using assms(1) by (simp add: evictEntryIsOpen_def cc_IsOpen_def same_frame_def)
qed

lemma fold_push_back:
  "indexed xs c \<Longrightarrow> c' = fold push_back xs c \<Longrightarrow>
   indexed [] c' \<and> debt [] c' = debt xs c \<and> same_frame c c' \<and> same_keys (cc_store c) (cc_store c') \<and>
   cc_entries c' = cc_entries c \<and> cc_totalSize c' = cc_totalSize c"
proof (induction xs arbitrary: c)
  case (Cons a xs)
  note k = push_back_keeps [OF Cons.prems(1)]
  have tot: "cc_totalSize (push_back a c) = cc_totalSize c" by (simp add: push_back_def set_index_state_def)
  have c': "c' = fold push_back xs (push_back a c)" using Cons.prems(2) by simp
  note IH = Cons.IH [OF k(1) c']
  have "same_frame c c'" using IH same_frame_trans [OF same_frame_index(2)] by blast
  moreover have "same_keys (cc_store c) (cc_store c')" using IH same_keys_trans [OF k(3)] by blast
  ultimately show ?case using IH k(2,4) tot by simp
qed simp

section \<open>Removing files\<close>

text \<open>A failing \<^verbatim>\<open>os.Remove\<close> other than for a missing file does not claim that the file is missing.\<close>

definition honest :: "os_env \<Rightarrow> bool" where
  "honest E \<longleftrightarrow> (\<forall>p e. f_remove E p = Some e \<longrightarrow> \<not> os_IsNotExist e)"

lemma os_remove_cases:
  assumes "os_remove E p s = (r, s')"
  shows "os_files s' = os_files s" "os_next s' = os_next s" "dom (map_of (os_dirs s')) \<subseteq> dom (map_of (os_dirs s))"
    "r = None \<Longrightarrow> map_of (os_names s') = (map_of (os_names s))(p := None)"
    "r = Some e \<Longrightarrow> s' = s"
    "r = Some e \<Longrightarrow> os_IsNotExist e \<Longrightarrow> honest E \<Longrightarrow> map_of (os_names s) p = None"
    "r = Some e \<Longrightarrow> \<not> os_IsNotExist e \<Longrightarrow> f_remove E p \<noteq> None \<or> map_of (os_dirs s) p \<noteq> None"
  using assms by (auto simp: os_remove_def honest_def os_IsNotExist_def delete_conv' fun_upd_idem
      split: option.splits if_splits)

text \<open>Entries that a pass puts aside: open files, and files that cannot be removed.\<close>

definition stuck :: "os_env \<Rightarrow> cc_state \<Rightarrow> evict_entry \<Rightarrow> bool" where
  "stuck E = (\<lambda>(c, s) e. evictEntryIsOpen c e \<or> f_remove E (ev_path e) \<noteq> None \<or> map_of (os_dirs s) (ev_path e) \<noteq> None)"

lemma evict_popped_cases:
  assumes ix: "indexed (xs @ [a]) c" and run: "evict_popped E a (c, s) = (b, (c', s'))"
  defines "e \<equiv> cc_store c ! a"
  shows "b \<Longrightarrow> c' = c \<and> s' = s \<and> stuck E (c, s) e"
    and "\<not> b \<Longrightarrow> c' = drop_entry e c \<and> map_of (cc_entries c) (ev_path e) = Some a \<and> \<not> evictEntryIsOpen c e \<and>
      os_files s' = os_files s \<and> os_next s' = os_next s \<and> dom (map_of (os_dirs s')) \<subseteq> dom (map_of (os_dirs s)) \<and>
      (honest E \<longrightarrow> map_of (os_names s') = (map_of (os_names s))(ev_path e := None))"
proof -
  have "a \<in> ran (map_of (cc_entries c))" using ix by (auto simp: indexed_def)
  then obtain p where p: "map_of (cc_entries c) p = Some a" by (auto simp: ran_iff)
  then have "ev_path e = p" using ix by (simp add: indexed_def entries_ok_def e_def)
  note p = p this
  obtain r s1 where r: "os_remove E p s = (r, s1)" by fastforce
  note rc = os_remove_cases [OF r]
  show "c' = c \<and> s' = s \<and> stuck E (c, s) e" if b
    using run that p r rc
    by (auto simp: evict_popped_def Let_def stuck_def simp flip: e_def split: if_splits option.splits)
  show "c' = drop_entry e c \<and> map_of (cc_entries c) (ev_path e) = Some a \<and> \<not> evictEntryIsOpen c e \<and>
      os_files s' = os_files s \<and> os_next s' = os_next s \<and> dom (map_of (os_dirs s')) \<subseteq> dom (map_of (os_dirs s)) \<and>
      (honest E \<longrightarrow> map_of (os_names s') = (map_of (os_names s))(ev_path e := None))" if "\<not> b"
    using run that p r rc
    by (auto simp: evict_popped_def Let_def fun_upd_idem simp flip: e_def split: if_splits option.splits)
qed

lemma drop_entry_keeps:
  assumes ix: "indexed (xs @ [a]) c" and e: "e = cc_store c ! a" "map_of (cc_entries c) (ev_path e) = Some a"
  shows "indexed xs (drop_entry e c)" "debt xs (drop_entry e c) = debt (xs @ [a]) c"
    "map_of (cc_entries (drop_entry e c)) = (map_of (cc_entries c))(ev_path e := None)"
proof -
  show ent: "map_of (cc_entries (drop_entry e c)) = (map_of (cc_entries c))(ev_path e := None)"
    by (simp add: drop_entry_def delete_conv')
  have eo: "entries_ok c" using ix by (simp add: indexed_def)
  have "ran ((map_of (cc_entries c))(ev_path e := None)) = ran (map_of (cc_entries c)) - {a}"
    using ran_delete [of "map_of (cc_entries c)" "ev_path e" a] e(2) entries_inj [OF eo] by blast
  moreover have "entries_ok (drop_entry e c)"
    unfolding entries_ok_def ent using eo by (auto simp: entries_ok_def drop_entry_def)
  ultimately show "indexed xs (drop_entry e c)"
    using ix unfolding indexed_def ent by (auto simp: drop_entry_def)
  show "debt xs (drop_entry e c) = debt (xs @ [a]) c"
    using e by (simp add: debt_def drop_entry_def sizes_def)
qed

section \<open>The outcome of a pass\<close>

text \<open>
  \<open>evict_pass E cs R more cs'\<close>: the files \<open>R\<close> are gone from the index and from disk, each of them
  closed and no younger than what is left in the heap; the entries \<open>more\<close> were put aside because
  they are open or cannot be removed; nothing else changed.
\<close>

definition evict_pass :: "os_env \<Rightarrow> cc_state \<Rightarrow> string set \<Rightarrow> addr list \<Rightarrow> cc_state \<Rightarrow> bool" where
  "evict_pass E = (\<lambda>(c, s) R more (c', s').
     same_frame c c' \<and> same_keys (cc_store c) (cc_store c') \<and> set (cc_heap c') \<subseteq> set (cc_heap c) \<and>
     map_of (cc_entries c') = map_of (cc_entries c) |` (- R) \<and>
     (honest E \<longrightarrow> map_of (os_names s') = map_of (os_names s) |` (- R)) \<and>
     os_files s' = os_files s \<and> os_next s' = os_next s \<and> dom (map_of (os_dirs s')) \<subseteq> dom (map_of (os_dirs s)) \<and>
     (\<forall>a \<in> set more. a < length (cc_store c) \<and> stuck E (c, s) (cc_store c ! a)) \<and>
     (\<forall>p \<in> R. \<exists>a. map_of (cc_entries c) p = Some a \<and> a < length (cc_store c) \<and>
        \<not> evictEntryIsOpen c (cc_store c ! a) \<and> (\<forall>b \<in> set (cc_heap c'). \<not> addr_less (cc_store c) b a)))"

lemma upd_None_restrict: "m(p := None) = m |` (- {p})"
  by (auto simp: restrict_map_def)

lemma evict_pass_refl: "evict_pass E cs {} [] cs"
  by (cases cs) (simp add: evict_pass_def restrict_map_def)

lemma stuck_frame:
  assumes "same_frame c c1" "dom (map_of (os_dirs s1)) \<subseteq> dom (map_of (os_dirs s))" "erase e1 = erase e"
    and "stuck E (c1, s1) e1"
  shows "stuck E (c, s) e"
proof -
  have "ev_path e1 = ev_path e" using assms(3) by (cases e; cases e1) (simp add: erase_def)
  then show ?thesis
    using assms(2,4) evictEntryIsOpen_frame [OF assms(1,3)] unfolding stuck_def by (auto simp: dom_def)
qed

lemma evict_pass_trans:
  assumes p1: "evict_pass E (c, s) R1 m1 (c1, s1)" and p2: "evict_pass E (c1, s1) R2 m2 (c2, s2)"
    and h: "\<forall>a \<in> set (cc_heap c). a < length (cc_store c)"
  shows "evict_pass E (c, s) (R1 \<union> R2) (m1 @ m2) (c2, s2)"
proof -
  have fr: "same_frame c c1" "same_frame c1 c2" and sk: "same_keys (cc_store c) (cc_store c1)"
    "same_keys (cc_store c1) (cc_store c2)" and hs: "set (cc_heap c1) \<subseteq> set (cc_heap c)" "set (cc_heap c2) \<subseteq> set (cc_heap c1)"
    and dirs: "dom (map_of (os_dirs s1)) \<subseteq> dom (map_of (os_dirs s))"
    using p1 p2 by (auto simp: evict_pass_def)
  have len: "length (cc_store c1) = length (cc_store c)" using same_keys_length [OF sk(1)] .
  have st: "\<forall>a \<in> set (m1 @ m2). a < length (cc_store c) \<and> stuck E (c, s) (cc_store c ! a)"
  proof
    fix a assume "a \<in> set (m1 @ m2)"
    then consider "a \<in> set m1" | "a \<in> set m2" by auto
    then show "a < length (cc_store c) \<and> stuck E (c, s) (cc_store c ! a)"
    proof cases
      case 2
      then have "a < length (cc_store c1)" "stuck E (c1, s1) (cc_store c1 ! a)" using p2 by (auto simp: evict_pass_def)
      then show ?thesis using stuck_frame [OF fr(1) dirs same_keys_nth [OF sk(1)]] len by auto
    qed (use p1 in \<open>auto simp: evict_pass_def\<close>)
  qed
  have gone: "\<exists>a. map_of (cc_entries c) p = Some a \<and> a < length (cc_store c) \<and>
        \<not> evictEntryIsOpen c (cc_store c ! a) \<and> (\<forall>b \<in> set (cc_heap c2). \<not> addr_less (cc_store c) b a)" if p: "p \<in> R1 \<union> R2" for p
  proof (cases "p \<in> R1")
    case True
    then obtain a where "map_of (cc_entries c) p = Some a" "a < length (cc_store c)"
      "\<not> evictEntryIsOpen c (cc_store c ! a)" "\<forall>b \<in> set (cc_heap c1). \<not> addr_less (cc_store c) b a"
      using p1 by (auto simp: evict_pass_def)
    then show ?thesis using hs by blast
  next
    case False
    then obtain a where a: "map_of (cc_entries c1) p = Some a" "a < length (cc_store c1)"
      "\<not> evictEntryIsOpen c1 (cc_store c1 ! a)" "\<forall>b \<in> set (cc_heap c2). \<not> addr_less (cc_store c1) b a"
      using p p2 by (auto simp: evict_pass_def)
    have "map_of (cc_entries c) p = Some a" using a(1) p1 by (auto simp: evict_pass_def restrict_map_def split: if_splits)
    moreover have "\<not> evictEntryIsOpen c (cc_store c ! a)"
      using a evictEntryIsOpen_frame [OF fr(1) same_keys_nth [OF sk(1)]] len by simp
    moreover have "\<not> addr_less (cc_store c) b a" if "b \<in> set (cc_heap c2)" for b
      using a(2,4) addr_less_same_keys [OF sk(1), of b a] that hs h len by auto
    ultimately show ?thesis using a(2) len by auto
  qed
  have "R1 \<union> R2 = - (- R1 \<inter> - R2)" by auto
  then have "map_of (cc_entries c2) = map_of (cc_entries c) |` (- (R1 \<union> R2))"
    "honest E \<longrightarrow> map_of (os_names s2) = map_of (os_names s) |` (- (R1 \<union> R2))"
    using p1 p2 by (auto simp: evict_pass_def)
  moreover have "dom (map_of (os_dirs s2)) \<subseteq> dom (map_of (os_dirs s))"
    using p2 dirs unfolding evict_pass_def prod.case by blast
  moreover have "os_files s2 = os_files s" "os_next s2 = os_next s" using p1 p2 by (simp_all add: evict_pass_def)
  ultimately show ?thesis
    unfolding evict_pass_def prod.case
    using same_frame_trans [OF fr] same_keys_trans [OF sk] hs st gone by (intro conjI) blast+
qed

text \<open>One turn of the loop.\<close>

lemma evict_turn:
  assumes ix: "indexed d c" and p: "pop_entry (cc_store c, cc_heap c) = Some (a, sh)"
    and run: "evict_popped E a (set_index_state sh c, s) = (b, (c1, s1))"
  defines "d1 \<equiv> (if b then d @ [a] else d)"
  shows "indexed d1 c1 \<and> debt d1 c1 = debt d c \<and>
    evict_pass E (c, s) (if b then {} else {ev_path (cc_store c ! a)}) (if b then [a] else []) (c1, s1)"
proof -
  let ?c = "set_index_state sh c"
  note pk = pop_keeps [OF ix p]
  note pc = evict_popped_cases [OF pk(1) run]
  have ent: "cc_entries ?c = cc_entries c" by (simp add: set_index_state_def)
  have a: "a < length (cc_store ?c)" using indexed_valid(2) [OF pk(1)] by simp
  then have al: "a < length (cc_store c)" using same_keys_length [OF pk(3)] by simp
  have er: "erase (cc_store ?c ! a) = erase (cc_store c ! a)" using same_keys_nth [OF pk(3) al] .
  have pth: "ev_path (cc_store ?c ! a) = ev_path (cc_store c ! a)" using same_keys_fields(2) [OF pk(3) al] .
  have op: "evictEntryIsOpen ?c (cc_store ?c ! a) = evictEntryIsOpen c (cc_store c ! a)"
    using evictEntryIsOpen_frame [OF same_frame_index(1) er] .
  show ?thesis
  proof (cases b)
    case True
    then have r: "c1 = ?c" "s1 = s" "stuck E (?c, s) (cc_store ?c ! a)" using pc(1) by auto
    have "stuck E (c, s) (cc_store c ! a)" using stuck_frame [OF same_frame_index(1) subset_refl er r(3)] .
    with True r pk al show ?thesis by (simp add: d1_def evict_pass_def restrict_map_def ent)
  next
    case False
    note f = pc(2) [OF False]
    have c1: "c1 = drop_entry (cc_store ?c ! a) ?c" using f by simp
    have m: "map_of (cc_entries ?c) (ev_path (cc_store ?c ! a)) = Some a" using f by simp
    note dk = drop_entry_keeps [OF pk(1) refl m]
    have "same_frame c c1" unfolding c1 by (rule same_frame_trans [OF same_frame_index(1) same_frame_index(3)])
    moreover have "cc_store c1 = cc_store ?c" "cc_heap c1 = cc_heap ?c" by (simp_all add: c1 drop_entry_def)
    ultimately have "evict_pass E (c, s) {ev_path (cc_store c ! a)} [] (c1, s1)"
      using f pk(3,4,5) al op dk(3) pth m ent unfolding evict_pass_def prod.case
      by (simp add: c1 upd_None_restrict)
    then show ?thesis using False dk pk(2) by (simp add: d1_def c1)
  qed
qed

lemma pop_entry_None: "pop_entry (st, h) = None \<longleftrightarrow> h = []"
  by (simp add: pop_entry_def Let_def)

lemma evict_loop_stop:
  "cc_totalSize c \<le> cc_maxSize c \<or> cc_heap c = [] \<Longrightarrow> evict_loop E d (c, s) = (d, (c, s))"
  by (subst evict_loop.simps) (auto simp: pop_entry_def)

lemma evict_loop_outcome:
  "indexed d c \<Longrightarrow> evict_loop E d (c, s) = (d', (c', s')) \<Longrightarrow>
   \<exists>R more. d' = d @ more \<and> indexed d' c' \<and> debt d' c' = debt d c \<and> evict_pass E (c, s) R more (c', s') \<and>
     (cc_totalSize c' \<le> cc_maxSize c' \<or> cc_heap c' = [])"
proof (induction E d "(c, s)" arbitrary: c s rule: evict_loop.induct)
  case (1 E d c s)
  show ?case
  proof (cases "cc_totalSize c \<le> cc_maxSize c \<or> cc_heap c = []")
    case True
    then have "d' = d" "c' = c" "s' = s" using "1.prems"(2) evict_loop_stop [OF True, of E d s] by auto
    then show ?thesis using True "1.prems"(1) evict_pass_refl [of E "(c, s)"] by force
  next
    case False
    then obtain a sh where p: "pop_entry (cc_store c, cc_heap c) = Some (a, sh)"
      using pop_entry_None [of "cc_store c" "cc_heap c"] by fastforce
    obtain b c1 s1 where ev: "evict_popped E a (set_index_state sh c, s) = (b, (c1, s1))" by (metis prod_cases3)
    let ?d = "if b then d @ [a] else d"
    let ?R = "if b then {} else {ev_path (cc_store c ! a)}" and ?m = "if b then [a] else []"
    have run: "evict_loop E ?d (c1, s1) = (d', (c', s'))"
      using "1.prems"(2) False p ev by (subst (asm) evict_loop.simps) auto
    note t = evict_turn [OF "1.prems"(1) p ev]
    obtain R more where IH: "d' = ?d @ more" "indexed d' c'" "debt d' c' = debt ?d c1"
      "evict_pass E (c1, s1) R more (c', s')" "cc_totalSize c' \<le> cc_maxSize c' \<or> cc_heap c' = []"
      using "1.hyps" [OF _ p refl ev [symmetric] _ run] False t by auto
    have "evict_pass E (c, s) (?R \<union> R) (?m @ more) (c', s')"
      using evict_pass_trans [OF _ IH(4)] t indexed_valid(1) [OF "1.prems"(1)] by blast
    moreover have "d' = d @ ?m @ more" using IH(1) by simp
    ultimately show ?thesis using IH t by metis
  qed
qed

lemma evictBySize_outcome:
  assumes ix: "indexed [] c" and run: "evictBySize E (c, s) = (c', s')"
  shows "indexed [] c' \<and> debt [] c' = debt [] c \<and> same_frame c c' \<and> same_keys (cc_store c) (cc_store c') \<and>
    (\<exists>R more c1. evict_pass E (c, s) R more (c1, s') \<and> cc_entries c' = cc_entries c1 \<and>
       cc_totalSize c' = cc_totalSize c1 \<and> ran (map_of (cc_entries c')) = set more \<union> set (cc_heap c1) \<and>
       (cc_maxSize c \<le> 0 \<or> cc_totalSize c' \<le> cc_maxSize c \<or> cc_heap c1 = []))"
proof (cases "cc_maxSize c \<le> 0 \<or> cc_totalSize c \<le> cc_maxSize c \<or> cc_heap c = []")
  case True
  then have "c' = c" "s' = s" using run by (auto simp: evictBySize_def)
  then show ?thesis using True ix evict_pass_refl [of E "(c, s)"] by (force simp: indexed_def)
next
  case False
  obtain d c1 s1 where l: "evict_loop E [] (c, s) = (d, (c1, s1))" by (metis prod_cases3)
  have c': "c' = fold push_back d c1" "s' = s1" using run False l by (auto simp: evictBySize_def)
  obtain R where R: "indexed d c1" "debt d c1 = debt [] c" "evict_pass E (c, s) R d (c1, s1)"
    "cc_totalSize c1 \<le> cc_maxSize c1 \<or> cc_heap c1 = []"
    using evict_loop_outcome [OF ix l] by auto
  note f = fold_push_back [OF R(1) c'(1)]
  have fr: "same_frame c c1" "same_keys (cc_store c) (cc_store c1)" using R(3) by (auto simp: evict_pass_def)
  have "ran (map_of (cc_entries c')) = set d \<union> set (cc_heap c1)" using R(1) f by (simp add: indexed_def)
  moreover have "cc_totalSize c' \<le> cc_maxSize c \<or> cc_heap c1 = []" using R(4) f fr(1) by (auto simp: same_frame_def)
  ultimately show ?thesis
    using f R c'(2) same_frame_trans [OF fr(1)] same_keys_trans [OF fr(2)] by auto
qed

section \<open>Preservation by the operations\<close>

text \<open>An operation that keeps the index and the account.\<close>

definition keeps :: "content_cache \<Rightarrow> content_cache \<Rightarrow> bool" where
  "keeps c c' \<longleftrightarrow> (indexed [] c \<longrightarrow> indexed [] c' \<and> debt [] c' = debt [] c \<and> cc_directory c' = cc_directory c)"

lemma keeps_refl [simp, intro]: "keeps c c"
  by (simp add: keeps_def)

lemma keeps_trans: "keeps a b \<Longrightarrow> keeps b c \<Longrightarrow> keeps a c"
  by (auto simp: keeps_def)

lemma keeps_fields [simp]:
  "keeps c (c'\<lparr>cc_fds := f\<rparr>) = keeps c c'" "keeps c (c'\<lparr>cc_evicting := b\<rparr>) = keeps c c'"
  "keeps (c\<lparr>cc_fds := f\<rparr>) c' = keeps c c'" "keeps c (c'\<lparr>cc_closed := b\<rparr>) = keeps c c'"
  "keeps c (c'\<lparr>cc_maxSize := n\<rparr>) = keeps c c'"
  by (simp_all add: keeps_def indexed_def entries_ok_def debt_def)

lemma trackFileInfoLocked_dir: "cc_directory (trackFileInfoLocked i path info c) = cc_directory c"
  by (simp add: trackFileInfoLocked_def add_entry_def set_index_state_def Let_def split: option.splits)

lemma keeps_track [simp]: "keeps c (trackFileInfoLocked i path info c)"
  using trackFileInfoLocked_keeps [of c i path info] by (simp add: keeps_def trackFileInfoLocked_dir)

lemma keeps_maybeEvict [simp]: "keeps c (maybeEvict c') = keeps c c'"
  by (simp add: maybeEvict_def)

lemma keeps_trackFile: "trackFileLocked E i (c, s) = (r, c') \<Longrightarrow> keeps c c'"
  by (auto simp: trackFileLocked_def Let_def split: sum.splits)

lemma keeps_trackOpenFile: "trackOpenFileLocked E i p fd (c, s) = (r, c') \<Longrightarrow> keeps c c'"
  by (auto simp: trackOpenFileLocked_def split: sum.splits if_splits)

lemma keeps_Open: "cc_Open E i (c, s) = (r, (c', s')) \<Longrightarrow> keeps c c'"
  by (auto simp: cc_Open_def Let_def split: option.splits sum.splits prod.splits dest!: keeps_trackOpenFile)

lemma keeps_Insert: "cc_Insert E i d (c, s) = (r, (c', s')) \<Longrightarrow> keeps c c'"
  by (auto simp: cc_Insert_def split: option.splits prod.splits if_splits dest!: keeps_trackFile)

lemma keeps_InsertStream: "cc_InsertStream E i rd (c, s) = (r, (c', s')) \<Longrightarrow> keeps c c'"
  by (auto simp: cc_InsertStream_def Let_def split: option.splits prod.splits sum.splits if_splits
      dest!: keeps_trackFile keeps_Open intro: keeps_trans)

lemma keeps_WriteAt: "cc_WriteAt E i b off (c, s) = (r, (c', s')) \<Longrightarrow> keeps c c'"
  by (auto simp: cc_WriteAt_def Let_def split: option.splits prod.splits sum.splits if_splits
      dest!: keeps_trackFile keeps_Open intro: keeps_trans)

lemma keeps_closeLocked: "closeLocked E i (c, s) = (b, c') \<Longrightarrow> keeps c c'"
  by (auto simp: closeLocked_def Let_def split: option.splits sum.splits
      intro: keeps_trans [of c "c\<lparr>cc_fds := AList.delete i (cc_fds c)\<rparr>"])

lemma keeps_Close: "cc_Close E i (c, s) = (c', s') \<Longrightarrow> keeps c c'"
  by (auto simp: cc_Close_def split: prod.splits if_splits dest!: keeps_closeLocked)

lemma keeps_read: "cc_read E i (c, s) = (r, (c', s')) \<Longrightarrow> keeps c c'"
  by (auto simp: cc_read_def split: option.splits prod.splits sum.splits dest!: keeps_Open)

lemma keeps_ReadAll: "ReadAll E i (c, s) = (r, (c', s')) \<Longrightarrow> keeps c c'"
  by (auto simp: ReadAll_def split: prod.splits sum.splits dest!: keeps_read)

lemma keeps_SumQuickXorHash: "SumQuickXorHash E i (c, s) = (r, (c', s')) \<Longrightarrow> keeps c c'"
  by (auto simp: SumQuickXorHash_def split: prod.splits sum.splits if_splits dest!: keeps_read)

lemma keeps_Snapshot: "Snapshot E i (c, s) = (r, (c', s')) \<Longrightarrow> keeps c c'"
  by (auto simp: Snapshot_def Let_def split: prod.splits sum.splits option.splits if_splits dest!: keeps_Open)

lemma keeps_evictBySize: "evictBySize E (c, s) = (c', s') \<Longrightarrow> keeps c c'"
  using evictBySize_outcome [of c E s c' s'] 
  by (cases "indexed [] c") (auto simp: keeps_def same_frame_def)

end
