(* ===== verification/Content_Cache_Props.thy ===== *)
theory Content_Cache_Props
  imports Content_Cache_Inv
begin

text \<open>
  Runs of the content cache and its properties: the index and the account along any run with any
  failures, what an eviction pass removes, where contents are stored, and that contents come back.
\<close>

section \<open>Deleting\<close>

lemma Delete_index:
  assumes run: "cc_Delete E i (c, s) = (r, (c', s'))" and ix: "indexed [] c"
  defines "unindexed \<equiv> map_of (cc_entries (snd (closeLocked E i (c, s)))) (contentPath c i) = None"
  shows "indexed [] c' \<and> cc_directory c' = cc_directory c \<and>
    debt [] c' = debt [] c - (if r = None \<and> unindexed then cc_Size E i (c, s) else 0)"
proof (cases "cc_closed c")
  case True
  then show ?thesis using run ix by (auto simp: cc_Delete_def)
next
  case False
  obtain b c1 where cl: "closeLocked E i (c, s) = (b, c1)" by fastforce
  have c1: "indexed [] c1" "debt [] c1 = debt [] c" "cc_directory c1 = cc_directory c"
    using keeps_closeLocked [OF cl] ix by (auto simp: keeps_def)
  have path: "contentPath c1 i = contentPath c i" using contentPath_frame [OF c1(3)] .
  define p where "p = contentPath c i"
  let ?f = "forgetEvictionEntryLocked p c1"
  note fk = forget_keeps [OF c1(1), of p]
  have dir: "cc_directory ?f = cc_directory c1"
    by (simp add: forgetEvictionEntryLocked_def set_index_state_def Let_def split: option.splits)
  have sub: "indexed [] (?f\<lparr>cc_totalSize := cc_totalSize ?f - n\<rparr>) \<and>
      debt [] (?f\<lparr>cc_totalSize := cc_totalSize ?f - n\<rparr>) = debt [] c1 +
        (case map_of (cc_entries c1) p of None \<Rightarrow> 0 | Some a \<Rightarrow> ev_size (cc_store c1 ! a)) - n" for n
    using fk by (simp add: indexed_def entries_ok_def debt_def)
  obtain e s1 where rm: "os_remove E p s = (e, s1)" by fastforce
  show ?thesis
  proof (cases "map_of (cc_entries c1) p")
    case None
    then show ?thesis
      using run False cl path rm c1 dir sub [of "cc_Size E i (c, s)"] None
      by (cases e) (auto simp: cc_Delete_def Let_def unindexed_def simp flip: p_def)
  next
    case (Some a)
    then show ?thesis
      using run False cl path rm c1 dir sub [of "ev_size (cc_store c1 ! a)"]
      by (cases e) (auto simp: cc_Delete_def Let_def unindexed_def simp flip: p_def split: if_splits)
  qed
qed

section \<open>Construction\<close>

text \<open>A directory tree whose names are stored in clean form.\<close>

definition os_ok :: "os_state \<Rightarrow> bool" where
  "os_ok s \<longleftrightarrow> keys_distinct (os_names s) \<and>
     list_all (\<lambda>p. Join (parent_dir p) (base_name p) = p) (map fst (os_names s))"

lemma index_files_keep:
  "indexed [] c \<Longrightarrow> debt [] (c\<lparr>cc_totalSize := tot\<rparr>) = 0 \<Longrightarrow>
   distinct (map (\<lambda>(n, _). Join (cc_directory c) n) xs) \<Longrightarrow>
   \<forall>(n, _) \<in> set xs. map_of (cc_entries c) (Join (cc_directory c) n) = None \<Longrightarrow>
   fold (index_file E s) xs (c, tot) = (c', tot') \<Longrightarrow>
   indexed [] c' \<and> debt [] (c'\<lparr>cc_totalSize := tot'\<rparr>) = 0 \<and> cc_directory c' = cc_directory c"
proof (induction xs arbitrary: c tot)
  case (Cons x xs)
  obtain n fd where x: "x = (n, fd)" by fastforce
  show ?case
  proof (cases "f_info E n")
    case (Some e)
    then have "index_file E s x (c, tot) = (c, tot)" by (simp add: x index_file_def)
    with Cons show ?thesis by simp
  next
    case None
    let ?p = "Join (cc_directory c) n" and ?i = "file_stat fd s"
    let ?c = "add_entry n ?p ?i c"
    have new: "map_of (cc_entries c) ?p = None" using Cons.prems(4) by (simp add: x)
    note ad = add_entry_keeps [OF Cons.prems(1) new, of n ?i]
    have dir: "cc_directory ?c = cc_directory c" by (simp add: add_entry_def set_index_state_def Let_def)
    have "index_file E s x (c, tot) = (?c, tot + fst ?i)" using None by (simp add: x index_file_def Let_def)
    then have run: "fold (index_file E s) xs (?c, tot + fst ?i) = (c', tot')" using Cons.prems(5) by simp
    have "debt [] (?c\<lparr>cc_totalSize := tot + fst ?i\<rparr>) = 0" using ad(2) Cons.prems(2) by (simp add: debt_def)
    moreover have "distinct (map (\<lambda>(n, _). Join (cc_directory ?c) n) xs)" using Cons.prems(3) dir by simp
    moreover have "\<forall>(m, _) \<in> set xs. map_of (cc_entries ?c) (Join (cc_directory ?c) m) = None"
    proof -
      have "Join (cc_directory c) m \<noteq> ?p" if "(m, g) \<in> set xs" for m g
        using Cons.prems(3) that by (force simp: x)
      then show ?thesis using Cons.prems(4) by (auto simp: ad(3) dir)
    qed
    ultimately show ?thesis using Cons.IH [OF ad(1) _ _ _ run] dir by simp
  qed
qed simp

lemma readdir_distinct:
  assumes "os_ok s"
  shows "distinct (map (\<lambda>(n, _). Join d n) (readdir_files d s))"
proof -
  let ?xs = "filter (\<lambda>(p, i). parent_dir p = d) (os_names s)"
  have "map (\<lambda>(n, _). Join d n) (map (\<lambda>(p, i). (base_name p, i)) ?xs) = map fst ?xs"
    using assms unfolding map_map by (intro map_cong) (auto simp: os_ok_def list_all_iff)
  moreover have "distinct (map fst ?xs)"
    using assms by (auto simp: os_ok_def keys_distinct_def distinct_map_filter)
  ultimately have "distinct (map (\<lambda>(n, _). Join d n) (map (\<lambda>(p, i). (base_name p, i)) ?xs))"
    by (simp only:)
  moreover have "mset (map (\<lambda>(n, _). Join d n) (readdir_files d s))
      = mset (map (\<lambda>(n, _). Join d n) (map (\<lambda>(p, i). (base_name p, i)) ?xs))"
    unfolding readdir_files_def by (simp only: mset_map mset_sort)
  ultimately show ?thesis using mset_eq_imp_distinct_iff by blast
qed

lemma NewContentCache_index:
  assumes run: "NewContentCache E dir s = (Inr c, s')" and ok: "os_ok s"
  shows "indexed [] c \<and> debt [] c = 0 \<and> cc_directory c = dir"
proof -
  let ?c0 = "\<lparr>cc_directory = dir, cc_fds = [], cc_maxSize = 0, cc_totalSize = 0, cc_evicting = False,
       cc_store = [], cc_heap = [], cc_entries = [], cc_closed = False\<rparr>"
  have mk: "os_mkdir E dir s = (None, s')" and init: "initializeEvictionIndex E (?c0, s') = (None, c)"
    using run by (auto simp: NewContentCache_def Let_def split: prod.splits option.splits)
  have names: "os_names s' = os_names s"
    using mk by (auto simp: os_mkdir_def split: option.splits if_splits)
  obtain c1 t where f: "fold (index_file E s') (readdir_files dir s') (?c0, 0) = (c1, t)" by fastforce
  have c: "c = c1\<lparr>cc_totalSize := t\<rparr>"
    using init f by (auto simp: initializeEvictionIndex_def split: option.splits)
  have "indexed [] ?c0" "debt [] (?c0\<lparr>cc_totalSize := 0\<rparr>) = 0"
    by (simp_all add: indexed_def heap_inv_def positions_ok_def entries_ok_def addr_order.is_heap_Nil debt_def sizes_def)
  moreover have "distinct (map (\<lambda>(n, _). Join dir n) (readdir_files dir s'))"
    using readdir_distinct [of s'] ok names by (simp add: os_ok_def)
  ultimately have "indexed [] c1 \<and> debt [] (c1\<lparr>cc_totalSize := t\<rparr>) = 0 \<and> cc_directory c1 = dir"
    using index_files_keep [OF _ _ _ _ f] by auto
  then show ?thesis by (simp add: c indexed_def entries_ok_def debt_def)
qed

section \<open>Runs\<close>

text \<open>
  Runs of the cache after its construction, with every operation in any order and under any
  environment; the world may change the disk in between.  The second argument counts the bytes of
  files that were deleted although the index did not know them.
\<close>

inductive cc_reach :: "cc_state \<Rightarrow> int \<Rightarrow> bool" where
  create: "NewContentCache E dir s = (Inr c, s') \<Longrightarrow> os_ok s \<Longrightarrow> cc_reach (c, s') 0"
| open_: "cc_reach cs n \<Longrightarrow> cc_Open E i cs = (r, cs') \<Longrightarrow> cc_reach cs' n"
| insert_: "cc_reach cs n \<Longrightarrow> cc_Insert E i d cs = (r, cs') \<Longrightarrow> cc_reach cs' n"
| stream: "cc_reach cs n \<Longrightarrow> cc_InsertStream E i rd cs = (q, cs') \<Longrightarrow> cc_reach cs' n"
| write_at: "cc_reach cs n \<Longrightarrow> cc_WriteAt E i b off cs = (q, cs') \<Longrightarrow> cc_reach cs' n"
| close: "cc_reach cs n \<Longrightarrow> cc_Close E i cs = cs' \<Longrightarrow> cc_reach cs' n"
| delete: "cc_reach cs n \<Longrightarrow> cc_Delete E i cs = (r', cs') \<Longrightarrow>
    m = (if r' = None \<and> map_of (cc_entries (snd (closeLocked E i cs))) (contentPath (fst cs) i) = None
         then cc_Size E i cs else 0) \<Longrightarrow> cc_reach cs' (n + m)"
| read_all: "cc_reach cs n \<Longrightarrow> ReadAll E i cs = (d', cs') \<Longrightarrow> cc_reach cs' n"
| hash: "cc_reach cs n \<Longrightarrow> SumQuickXorHash E i cs = (h, cs') \<Longrightarrow> cc_reach cs' n"
| snapshot: "cc_reach cs n \<Longrightarrow> Snapshot E i cs = (w, cs') \<Longrightarrow> cc_reach cs' n"
| evict: "cc_reach cs n \<Longrightarrow> ForceEvict E cs = cs' \<Longrightarrow> cc_reach cs' n"
| evict_bg: "cc_reach cs n \<Longrightarrow> evict_task E cs = cs' \<Longrightarrow> cc_reach cs' n"
| max_size: "cc_reach (c, s) n \<Longrightarrow> cc_reach (SetMaxSize k c, s) n"
| close_all: "cc_reach (c, s) n \<Longrightarrow> cc_reach (CloseAll c, s) n"
| world: "cc_reach (c, s) n \<Longrightarrow> cc_reach (c, s') n"

lemma keeps_run:
  assumes "keeps c c'" "indexed [] c \<and> debt [] c = - n"
  shows "indexed [] c' \<and> debt [] c' = - n"
  using assms by (simp add: keeps_def)

lemma cc_reach_indexed: "cc_reach cs n \<Longrightarrow> indexed [] (fst cs) \<and> debt [] (fst cs) = - n"
proof (induction rule: cc_reach.induct)
  case (create E dir s c s')
  then show ?case using NewContentCache_index by simp
next
  case (open_ cs n E i r cs')
  then show ?case using keeps_run keeps_Open [of E i "fst cs" "snd cs" r "fst cs'" "snd cs'"] by simp
next
  case (insert_ cs n E i d r cs')
  then show ?case using keeps_run keeps_Insert [of E i d "fst cs" "snd cs" r "fst cs'" "snd cs'"] by simp
next
  case (stream cs n E i rd q cs')
  then show ?case using keeps_run keeps_InsertStream [of E i rd "fst cs" "snd cs" q "fst cs'" "snd cs'"] by simp
next
  case (write_at cs n E i b off q cs')
  then show ?case using keeps_run keeps_WriteAt [of E i b off "fst cs" "snd cs" q "fst cs'" "snd cs'"] by simp
next
  case (close cs n E i cs')
  then show ?case using keeps_run keeps_Close [of E i "fst cs" "snd cs" "fst cs'" "snd cs'"] by simp
next
  case (delete cs n E i r' cs' m)
  then show ?case using Delete_index [of E i "fst cs" "snd cs" r' "fst cs'" "snd cs'"] by simp
next
  case (read_all cs n E i d' cs')
  then show ?case using keeps_run keeps_ReadAll [of E i "fst cs" "snd cs" d' "fst cs'" "snd cs'"] by simp
next
  case (hash cs n E i h cs')
  then show ?case using keeps_run keeps_SumQuickXorHash [of E i "fst cs" "snd cs" h "fst cs'" "snd cs'"] by simp
next
  case (snapshot cs n E i w cs')
  then show ?case using keeps_run keeps_Snapshot [of E i "fst cs" "snd cs" w "fst cs'" "snd cs'"] by simp
next
  case (evict cs n E cs')
  then show ?case
    using keeps_run keeps_evictBySize [of E "fst cs" "snd cs" "fst cs'" "snd cs'"] by (simp add: ForceEvict_def)
next
  case (evict_bg cs n E cs')
  obtain c1 s1 where e: "evictBySize E cs = (c1, s1)" by fastforce
  then have "keeps (fst cs) c1" using keeps_evictBySize [of E "fst cs" "snd cs"] by simp
  then show ?case using e evict_bg keeps_run [of "fst cs" "fst cs'"] by (auto simp: evict_task_def)
next
  case (max_size c s n k)
  then show ?case by (simp add: SetMaxSize_def indexed_def entries_ok_def debt_def)
next
  case (close_all c s n)
  then show ?case by (simp add: CloseAll_def indexed_def entries_ok_def debt_def)
qed simp

section \<open>The index and the account\<close>

text \<open>
  C4: Along every run of the content cache, with any failures and any changes of the disk from
  outside, the eviction index is sound: the heap is ordered by age, every entry knows its
  position, the heap and the path map hold the same entries, one per path; and the tracked total
  is the sum of their sizes less the sizes of files that were deleted without being indexed.
\<close>

theorem content_index_invariant:
  assumes "cc_reach (c, s) leak"
  shows "index_wf c \<and> cc_totalSize c = (\<Sum>a \<leftarrow> cc_heap c. ev_size (cc_store c ! a)) - leak \<and>
    dom (map_of (cc_entries c)) = (\<lambda>a. ev_path (cc_store c ! a)) ` set (cc_heap c)"
proof -
  have ix: "indexed [] c" "debt [] c = - leak" using cc_reach_indexed [OF assms] by auto
  have "dom (map_of (cc_entries c)) = (\<lambda>a. ev_path (cc_store c ! a)) ` set (cc_heap c)"
  proof (intro set_eqI iffI)
    fix p assume "p \<in> dom (map_of (cc_entries c))"
    then obtain a where "map_of (cc_entries c) p = Some a" by auto
    then have "a \<in> set (cc_heap c)" "ev_path (cc_store c ! a) = p"
      using ix(1) by (auto simp: indexed_def entries_ok_def ran_iff)
    then show "p \<in> (\<lambda>a. ev_path (cc_store c ! a)) ` set (cc_heap c)" by blast
  next
    fix p assume "p \<in> (\<lambda>a. ev_path (cc_store c ! a)) ` set (cc_heap c)"
    then obtain a where a: "a \<in> set (cc_heap c)" "p = ev_path (cc_store c ! a)" by blast
    then obtain q where "map_of (cc_entries c) q = Some a" using ix(1) by (auto simp: indexed_def ran_iff)
    then show "p \<in> dom (map_of (cc_entries c))" using ix(1) a by (auto simp: indexed_def entries_ok_def)
  qed
  then show ?thesis using ix by (simp add: index_wf_def debt_def sizes_def)
qed

text \<open>A small disk: the cache directory with one file in it.\<close>

definition ex_disk :: os_state where
  "ex_disk = \<lparr>os_dirs = [(''/c'', (4096, 0))], os_names = [(''/c/old'', 0)],
     os_files = (\<lambda>_. \<lparr>of_data = [1, 2, 3], of_mtime = 5\<rparr>), os_next = 1\<rparr>"

definition ex_cc :: content_cache where
  "ex_cc = \<lparr>cc_directory = ''/c'', cc_fds = [], cc_maxSize = 0, cc_totalSize = 3, cc_evicting = False,
     cc_store = [\<lparr>ev_id = ''old'', ev_path = ''/c/old'', ev_modTime = 5, ev_size = 3, ev_index = 0\<rparr>],
     cc_heap = [0], cc_entries = [(''/c/old'', 0)], cc_closed = False\<rparr>"

lemmas path_eval = Join_def Clean_def is_abs_def slash_def nul_def dot_def dotdot_def IsLocal_def Let_def
  parent_dir_def base_name_def

lemma ex_create: "NewContentCache (no_faults 7 []) ''/c'' ex_disk = (Inr ex_cc, ex_disk)"
  by (simp add: NewContentCache_def os_mkdir_def no_faults_def ex_disk_def initializeEvictionIndex_def
      readdir_files_def path_eval index_file_def add_entry_def new_entry_def file_stat_def push_entry_def
      evictHeap_Push_def heap_up_stop set_index_def set_index_state_def ex_cc_def)

lemma ex_disk_ok: "os_ok ex_disk"
  by (simp add: os_ok_def keys_distinct_def ex_disk_def path_eval)

lemma ex_reach: "cc_reach (ex_cc, ex_disk) 0"
  using cc_reach.create [OF ex_create ex_disk_ok] .

theorem content_index_invariant_witness:
  "index_wf ex_cc \<and> cc_totalSize ex_cc = (\<Sum>a \<leftarrow> cc_heap ex_cc. ev_size (cc_store ex_cc ! a))"
  using content_index_invariant [OF ex_reach] by simp

section \<open>Size eviction\<close>

definition entry_at :: "content_cache \<Rightarrow> string \<Rightarrow> evict_entry" where
  "entry_at c p = cc_store c ! the (map_of (cc_entries c) p)"

text \<open>
  C5: A size-eviction pass removes a set \<open>R\<close> of indexed files from the index and from disk, and
  nothing else: no content changes, no file that is open under any identifier is removed, no file
  that could have been removed instead is older than one that was, and when the pass ends the
  total is within the limit or every file left is open or cannot be removed.
\<close>

theorem evictBySize_spec:
  assumes ix: "index_wf c" and hon: "honest E" and max: "0 < cc_maxSize c"
    and run: "evictBySize E (c, s) = (c', s')"
  shows "\<exists>R \<subseteq> dom (map_of (cc_entries c)).
    map_of (cc_entries c') = map_of (cc_entries c) |` (- R) \<and>
    map_of (os_names s') = map_of (os_names s) |` (- R) \<and> os_files s' = os_files s \<and> cc_fds c' = cc_fds c \<and>
    (\<forall>p \<in> R. \<forall>i. cc_IsOpen c i \<longrightarrow> contentPath c i \<noteq> p) \<and>
    (\<forall>p \<in> R. \<forall>q \<in> dom (map_of (cc_entries c')). stuck E (c, s) (entry_at c q) \<or>
       \<not> entry_less (entry_at c q) (entry_at c p)) \<and>
    (cc_totalSize c' \<le> cc_maxSize c \<or> (\<forall>q \<in> dom (map_of (cc_entries c')). stuck E (c, s) (entry_at c q)))"
proof -
  have ix: "indexed [] c" using ix by (simp add: index_wf_def)
  obtain R more c1 where out: "evict_pass E (c, s) R more (c1, s')" "cc_entries c' = cc_entries c1"
    "ran (map_of (cc_entries c')) = set more \<union> set (cc_heap c1)" "same_frame c c'"
    "cc_totalSize c' \<le> cc_maxSize c \<or> cc_heap c1 = []"
    using evictBySize_outcome [OF ix run] max by auto
  have ent: "map_of (cc_entries c') = map_of (cc_entries c) |` (- R)" using out(1,2) by (simp add: evict_pass_def)
  have names: "map_of (os_names s') = map_of (os_names s) |` (- R)" "os_files s' = os_files s"
    using out(1) hon by (simp_all add: evict_pass_def)
  have gone: "\<exists>a. map_of (cc_entries c) p = Some a \<and> \<not> evictEntryIsOpen c (cc_store c ! a) \<and>
      (\<forall>b \<in> set (cc_heap c1). \<not> addr_less (cc_store c) b a)" if "p \<in> R" for p
    using out(1) that by (auto simp: evict_pass_def)
  have closed: "contentPath c i \<noteq> p" if p: "p \<in> R" and open_i: "cc_IsOpen c i" for p i
  proof -
    obtain a where a: "map_of (cc_entries c) p = Some a" "\<not> evictEntryIsOpen c (cc_store c ! a)"
      using gone [OF p] by blast
    then have "ev_path (cc_store c ! a) = p" using ix by (simp add: indexed_def entries_ok_def)
    moreover obtain fd where "(i, fd) \<in> set (cc_fds c)"
      using open_i by (auto simp: cc_IsOpen_def dest: map_of_SomeD)
    ultimately show ?thesis using a(2) by (auto simp: evictEntryIsOpen_def list_ex_iff)
  qed
  have left: "stuck E (c, s) (entry_at c q) \<or> the (map_of (cc_entries c) q) \<in> set (cc_heap c1)"
    if q: "q \<in> dom (map_of (cc_entries c'))" for q
  proof -
    obtain b where b: "map_of (cc_entries c') q = Some b" using q by auto
    then have "b \<in> set more \<union> set (cc_heap c1)" using out(3) by (auto simp: ran_iff)
    moreover have "map_of (cc_entries c) q = Some b" using b ent by (auto simp: restrict_map_def split: if_splits)
    moreover have "b \<in> set more \<Longrightarrow> stuck E (c, s) (cc_store c ! b)" using out(1) by (simp add: evict_pass_def)
    ultimately show ?thesis by (auto simp: entry_at_def)
  qed
  have older: "stuck E (c, s) (entry_at c q) \<or> \<not> entry_less (entry_at c q) (entry_at c p)"
    if "p \<in> R" "q \<in> dom (map_of (cc_entries c'))" for p q
    using gone [OF that(1)] left [OF that(2)] by (auto simp: entry_at_def addr_less_def)
  have limit: "cc_totalSize c' \<le> cc_maxSize c \<or> (\<forall>q \<in> dom (map_of (cc_entries c')). stuck E (c, s) (entry_at c q))"
    using out(5) left by fastforce
  have "R \<subseteq> dom (map_of (cc_entries c))" using gone by auto
  then show ?thesis
    using ent names out(4) closed older limit by (intro exI [of _ R]) (simp add: same_frame_def)
qed

theorem evictBySize_spec_witness:
  "\<exists>R \<subseteq> dom (map_of (cc_entries (SetMaxSize 2 ex_cc))).
    map_of (cc_entries (fst (evictBySize (no_faults 9 []) (SetMaxSize 2 ex_cc, ex_disk)))) =
      map_of (cc_entries (SetMaxSize 2 ex_cc)) |` (- R)"
proof -
  have "index_wf (SetMaxSize 2 ex_cc)"
    using cc_reach_indexed [OF cc_reach.max_size [OF ex_reach, of 2]] by (simp add: index_wf_def)
  moreover have "honest (no_faults 9 [])" by (simp add: honest_def no_faults_def)
  moreover have "0 < cc_maxSize (SetMaxSize 2 ex_cc)" by (simp add: SetMaxSize_def)
  ultimately show ?thesis
    using evictBySize_spec [of "SetMaxSize 2 ex_cc" "no_faults 9 []" ex_disk
        "fst (evictBySize (no_faults 9 []) (SetMaxSize 2 ex_cc, ex_disk))"
        "snd (evictBySize (no_faults 9 []) (SetMaxSize 2 ex_cc, ex_disk))"]
    unfolding prod.collapse by blast
qed

section \<open>Where contents are stored\<close>

text \<open>
  C22: Whatever the identifier, its content lies in the cache directory or below it: the path is the
  directory followed by ordinary components, none of them empty, dot, dot-dot or with a null byte.
  An identifier that is itself an ordinary component is used as it is, so different ones get
  different files.
\<close>

theorem contentPath_inside:
  assumes abs: "is_abs (cc_directory c)" and dir: "Clean (cc_directory c) \<noteq> [slash]"
  shows "(\<exists>rest. contentPath c i =
      (if rest = [] then Clean (cc_directory c) else Clean (cc_directory c) @ slash # join_path rest) \<and>
      list_all (\<lambda>p. plain_comp p \<and> nul \<notin> set p) rest) \<and>
    (plain_comp i \<and> nul \<notin> set i \<longrightarrow> contentPath c i = Clean (cc_directory c) @ slash # i)"
proof
  define safe where "safe = (if nul \<in> set i then filter (\<lambda>x. x \<noteq> nul) i else i)"
  define name where "name = (if \<not> IsLocal safe then hex_of_string i else safe)"
  have cp: "contentPath c i = Join (cc_directory c) name" by (simp add: contentPath_def Let_def safe_def name_def)
  have loc: "dotdot \<notin> set (clean_comps False [] (split_path name))"
    using IsLocal_no_escape hex_of_string_local by (simp add: name_def)
  have "nul \<notin> set safe" by (simp add: safe_def)
  then have "nul \<notin> set name" using hex_of_string_no_special(2) by (simp add: name_def)
  then have "list_all (\<lambda>p. plain_comp p \<and> nul \<notin> set p) (clean_comps False [] (split_path name))"
    using Join_local(2) [OF abs loc dir] by (auto simp: list_all_iff)
  then show "\<exists>rest. contentPath c i =
      (if rest = [] then Clean (cc_directory c) else Clean (cc_directory c) @ slash # join_path rest) \<and>
      list_all (\<lambda>p. plain_comp p \<and> nul \<notin> set p) rest"
    unfolding cp Join_local(1) [OF abs loc dir] by blast
  show "plain_comp i \<and> nul \<notin> set i \<longrightarrow> contentPath c i = Clean (cc_directory c) @ slash # i"
  proof
    assume pl: "plain_comp i \<and> nul \<notin> set i"
    then have sp: "split_path i = [i]" "\<not> is_abs i" "i \<noteq> []" "i \<noteq> dot" "i \<noteq> dotdot"
      by (auto simp: plain_comp_def split_path_id is_abs_def split: list.splits)
    have "take 3 i \<noteq> dotdot @ [slash]"
      using pl by (auto simp: plain_comp_def dest!: arg_cong [of _ _ set] dest: in_set_takeD)
    then have "IsLocal i" using sp by (simp add: IsLocal_def Let_def)
    then have "name = i" using pl by (simp add: name_def safe_def)
    then show "contentPath c i = Clean (cc_directory c) @ slash # i"
      using cp Join_local(1) [OF abs loc dir] sp by simp
  qed
qed

theorem contentPath_inside_witness:
  "contentPath ex_cc ''item-1'' = ''/c/item-1'' \<and>
   (\<exists>rest. contentPath ex_cc ''../../etc/passwd'' = ''/c'' @ (if rest = [] then [] else slash # join_path rest))"
proof -
  have a: "is_abs (cc_directory ex_cc)" "Clean (cc_directory ex_cc) \<noteq> [slash]" "Clean (cc_directory ex_cc) = ''/c''"
    by (simp_all add: ex_cc_def path_eval)
  have "plain_comp ''item-1'' \<and> nul \<notin> set ''item-1''" by (simp add: plain_comp_def path_eval)
  then have "contentPath ex_cc ''item-1'' = ''/c/item-1''"
    using contentPath_inside [OF a(1,2), of "''item-1''"] a(3) by (simp add: slash_def)
  moreover obtain rest where "contentPath ex_cc ''../../etc/passwd'' =
      (if rest = [] then ''/c'' else ''/c'' @ slash # join_path rest)"
    using contentPath_inside [OF a(1,2), of "''../../etc/passwd''"] unfolding a(3) by blast
  ultimately show ?thesis by (intro conjI exI [of _ rest]) auto
qed

section \<open>Contents\<close>

text \<open>The descriptor of an identifier, if any, is the file its path names.\<close>

definition fd_linked :: "cc_state \<Rightarrow> ident \<Rightarrow> bool" where
  "fd_linked = (\<lambda>(c, s) i. case map_of (cc_fds c) i of
     None \<Rightarrow> True | Some fd \<Rightarrow> map_of (os_names s) (contentPath c i) = Some fd)"

text \<open>Calls on the content of one identifier succeed.\<close>

definition calm :: "os_env \<Rightarrow> string \<Rightarrow> bool" where
  "calm E p \<longleftrightarrow> f_open E p = None \<and> f_stat E p = None \<and> f_fstat E = None \<and> f_seek E = None \<and> f_read E = None"

lemma trackFileInfoLocked_frame:
  "cc_fds (trackFileInfoLocked i p info c) = cc_fds c \<and> cc_directory (trackFileInfoLocked i p info c) = cc_directory c \<and>
   cc_closed (trackFileInfoLocked i p info c) = cc_closed c \<and> cc_maxSize (trackFileInfoLocked i p info c) = cc_maxSize c"
  by (simp add: trackFileInfoLocked_def add_entry_def set_index_state_def Let_def split: option.splits)

lemma trackOpen_calm: "calm E p \<Longrightarrow> \<exists>c'. trackOpenFileLocked E i q fd (c, s) = (None, c') \<and> cc_fds c' = cc_fds c \<and> cc_directory c' = cc_directory c"
  using trackFileInfoLocked_frame by (auto simp: trackOpenFileLocked_def calm_def os_fstat_def split: option.splits)

text \<open>Opening an identifier whose file exists gives that file and touches no content.\<close>

lemma Open_existing:
  assumes "calm E (contentPath c i)" "fd_linked (c, s) i" "map_of (os_names s) (contentPath c i) = Some fd"
  shows "\<exists>c'. cc_Open E i (c, s) = (Inr fd, (c', s))"
proof (cases "map_of (cc_fds c) i")
  case None
  obtain c' where "trackOpenFileLocked E i (contentPath c i) fd (c\<lparr>cc_fds := AList.update i fd (cc_fds c)\<rparr>, s) = (None, c')"
    using trackOpen_calm [OF assms(1)] by blast
  then show ?thesis using assms None by (simp add: cc_Open_def Let_def os_open_def calm_def)
qed (use assms in \<open>auto simp: cc_Open_def fd_linked_def\<close>)

lemma read_existing:
  assumes "calm E (contentPath c i)" "fd_linked (c, s) i" "map_of (os_names s) (contentPath c i) = Some fd"
  shows "fst (ReadAll E i (c, s)) = Some (of_data (os_files s fd))"
  using Open_existing [OF assms] assms(1) by (auto simp: ReadAll_def cc_read_def calm_def)

text \<open>
  Content that \<^verbatim>\<open>Insert\<close> accepted is what \<^verbatim>\<open>ReadAll\<close> returns and what \<^verbatim>\<open>SumQuickXorHash\<close> hashes, also
  when the eviction goroutine has been started meanwhile but has not run, and \<^verbatim>\<open>Size\<close> is its length.
\<close>

lemma Insert_ReadAll:
  assumes ins: "cc_Insert E i content (c, s) = (None, (c', s'))" and link: "fd_linked (c, s) i"
    and calm: "calm E' (contentPath c i)"
  shows "fst (ReadAll E' i (c', s')) = Some content \<and> cc_Size E' i (c', s') = int (length content) \<and>
    fst (SumQuickXorHash E' i (c', s')) = Some (SumQuickXORHash content)"
proof -
  let ?p = "contentPath c i"
  obtain s1 where w: "os_writefile E ?p content s = (None, s1)"
    and t: "trackFileLocked E i (c, s1) = (None, c') \<or> (\<exists>c1. trackFileLocked E i (c, s1) = (None, c1) \<and> c' = maybeEvict c1)"
    and s': "s' = s1"
    using ins by (auto simp: cc_Insert_def split: if_splits prod.splits option.splits)
  have frame: "cc_fds c' = cc_fds c" "cc_directory c' = cc_directory c"
    using t trackFileInfoLocked_frame by (auto simp: trackFileLocked_def Let_def maybeEvict_def split: sum.splits)
  have path: "contentPath c' i = ?p" using contentPath_frame [OF frame(2)] .
  obtain fd s0 where o: "os_open E ?p s = (Inr fd, s0)" and s1: "s1 = set_data fd content (e_now E) s0"
    using w by (auto simp: os_writefile_def split: prod.splits sum.splits option.splits)
  have name: "map_of (os_names s1) ?p = Some fd"
    using o s1 by (auto simp: os_open_def set_data_def update_conv' split: option.splits if_splits)
  have cont: "of_data (os_files s1 fd) = content" by (simp add: s1 set_data_def)
  have "map_of (os_names s) ?p = Some f \<Longrightarrow> fd = f" for f
    using o by (auto simp: os_open_def split: option.splits)
  then have link': "fd_linked (c', s') i"
    using link name unfolding fd_linked_def by (auto simp: frame path s' split: option.splits)
  have rd: "fst (ReadAll E' i (c', s')) = Some content"
    using read_existing [of E' c' i s' fd] calm link' name cont by (simp add: path s')
  have "os_stat E' ?p s1 = Inr (file_stat fd s1)" using calm name by (simp add: os_stat_def calm_def)
  moreover have "map_of (cc_fds c') i = Some f \<Longrightarrow> f = fd" for f
    using link' name unfolding fd_linked_def by (auto simp: path s')
  ultimately have "cc_Size E' i (c', s') = int (length content)"
    using calm cont by (auto simp: cc_Size_def path s' Let_def os_fstat_def calm_def file_stat_def split: option.splits)
  moreover have "HasContent E' i (c', s')" using \<open>os_stat E' ?p s1 = _\<close> by (simp add: HasContent_def path s')
  moreover have "fst (cc_read E' i (c', s')) = Inr content"
    using rd by (auto simp: ReadAll_def split: prod.splits sum.splits)
  then have "fst (SumQuickXorHash E' i (c', s')) = Some (SumQuickXORHash content)" if "HasContent E' i (c', s')"
    using that by (auto simp: SumQuickXorHash_def SumQuickXORHash_def quickxorhash_Sum_def qx_Sum_def split: prod.splits)
  ultimately show ?thesis using rd by blast
qed

lemma calm_no_faults [simp]: "calm (no_faults t x) p"
  by (simp add: calm_def no_faults_def)

lemma ex_plain: "plain_comp ''new'' \<and> nul \<notin> set ''new''" "plain_comp ''x'' \<and> nul \<notin> set ''x''"
  by (simp_all add: plain_comp_def path_eval)

lemma ex_contentPath: "contentPath ex_cc ''new'' = ''/c/new''" "contentPath ex_cc ''x'' = ''/c/x''"
  by (simp_all add: contentPath_def ex_cc_def path_eval)

text \<open>Bytes of a spliced file.\<close>

lemma splice_bytes:
  assumes "b \<noteq> []"
  shows "length (splice off b d) = max (length d) (off + length b)"
    and "k < length (splice off b d) \<Longrightarrow> splice off b d ! k =
      (if off \<le> k \<and> k < off + length b then b ! (k - off) else if k < length d then d ! k else 0)"
  using assms by (auto simp: splice_def nth_append min_def max_def)

text \<open>What a successful \<^verbatim>\<open>Open\<close> establishes.\<close>

lemma os_open_result:
  assumes "os_open E p s = (Inr fd, s1)"
  shows "map_of (os_names s1) p = Some fd \<and>
    of_data (os_files s1 fd) = (case map_of (os_names s) p of None \<Rightarrow> [] | Some fd \<Rightarrow> of_data (os_files s fd))"
  using assms by (auto simp: os_open_def set_data_def update_conv' split: option.splits if_splits)

lemma trackOpen_frame:
  "trackOpenFileLocked E i p fd (c, s) = (r, c') \<Longrightarrow> cc_fds c' = cc_fds c \<and> cc_directory c' = cc_directory c"
  using trackFileInfoLocked_frame by (auto simp: trackOpenFileLocked_def split: if_splits sum.splits)

lemma Open_opened:
  assumes o: "cc_Open E i (c, s) = (Inr fd, (c1, s1))" and link: "fd_linked (c, s) i"
  shows "map_of (cc_fds c1) i = Some fd" "cc_directory c1 = cc_directory c"
    "map_of (os_names s1) (contentPath c i) = Some fd"
    "of_data (os_files s1 fd) =
       (case map_of (os_names s) (contentPath c i) of None \<Rightarrow> [] | Some fd \<Rightarrow> of_data (os_files s fd))"
proof -
  have "map_of (cc_fds c1) i = Some fd \<and> cc_directory c1 = cc_directory c \<and>
    map_of (os_names s1) (contentPath c i) = Some fd \<and> of_data (os_files s1 fd) =
       (case map_of (os_names s) (contentPath c i) of None \<Rightarrow> [] | Some fd \<Rightarrow> of_data (os_files s fd))"
  proof (cases "map_of (cc_fds c) i")
    case None
    obtain r s2 where op: "os_open E (contentPath c i) s = (r, s2)" by fastforce
    with o None have r: "r = Inr fd" "s2 = s1"
      by (auto simp: cc_Open_def Let_def split: sum.splits prod.splits option.splits)
    obtain q c2 where t: "trackOpenFileLocked E i (contentPath c i) fd (c\<lparr>cc_fds := AList.update i fd (cc_fds c)\<rparr>, s1) = (q, c2)"
      by fastforce
    with o None op r have "q = None" "c1 = c2" by (auto simp: cc_Open_def Let_def split: option.splits)
    with os_open_result [of E "contentPath c i" s fd s1] op r trackOpen_frame [OF t] show ?thesis
      by (simp add: update_conv')
  qed (use o link in \<open>auto simp: cc_Open_def fd_linked_def\<close>)
  then show "map_of (cc_fds c1) i = Some fd" "cc_directory c1 = cc_directory c"
    "map_of (os_names s1) (contentPath c i) = Some fd"
    "of_data (os_files s1 fd) =
       (case map_of (os_names s) (contentPath c i) of None \<Rightarrow> [] | Some fd \<Rightarrow> of_data (os_files s fd))" by blast+
qed

text \<open>
  A successful \<^verbatim>\<open>WriteAt\<close> writes all of its data at the offset of the cached file and leaves the
  other bytes as they were, with zeros between the old end and the offset; \<^verbatim>\<open>ReadAll\<close> returns the
  result.  A negative offset is never accepted.
\<close>

lemma WriteAt_spec:
  assumes run: "cc_WriteAt E i b off (c, s) = ((n, None), (c', s'))" and link: "fd_linked (c, s) i"
    and ne: "b \<noteq> []" and calm: "calm E' (contentPath c i)"
  defines "old \<equiv> (case map_of (os_names s) (contentPath c i) of None \<Rightarrow> [] | Some fd \<Rightarrow> of_data (os_files s fd))"
  shows "n = length b \<and> 0 \<le> off \<and> (\<exists>d. fst (ReadAll E' i (c', s')) = Some d \<and>
    length d = max (length old) (nat off + length b) \<and>
    (\<forall>k < length d. d ! k = (if nat off \<le> k \<and> k < nat off + length b then b ! (k - nat off)
       else if k < length old then old ! k else 0)))"
proof -
  let ?p = "contentPath c i"
  obtain fd c1 s1 where o: "cc_Open E i (c, s) = (Inr fd, (c1, s1))"
    and w: "fd_WriteAt E fd b off s1 = ((n, None), s')"
    and t: "\<exists>c2. trackFileLocked E i (c1, s') = (None, c2) \<and> (c' = c2 \<or> c' = maybeEvict c2)"
    using run by (auto simp: cc_WriteAt_def Let_def split: if_splits prod.splits sum.splits option.splits)
  have frame: "cc_fds c' = cc_fds c1" "cc_directory c' = cc_directory c1"
    using t trackFileInfoLocked_frame by (auto simp: trackFileLocked_def Let_def maybeEvict_def split: sum.splits)
  have op: "map_of (cc_fds c1) i = Some fd" "cc_directory c1 = cc_directory c" "map_of (os_names s1) ?p = Some fd"
    "of_data (os_files s1 fd) = old"
    using Open_opened [OF o link] by (simp_all add: old_def)
  have res: "n = length b" "0 \<le> off" "s' = set_data fd (splice (nat off) b old) (e_now E) s1"
    using w ne op(4) by (auto simp: fd_WriteAt_def Let_def split: if_splits option.splits)
  have "cc_directory c' = cc_directory c" using frame(2) op(2) by simp
  then have path: "contentPath c' i = ?p" by (rule contentPath_frame)
  have "fd_linked (c', s') i" using op by (simp add: fd_linked_def frame path res(3) set_data_def)
  then have "fst (ReadAll E' i (c', s')) = Some (splice (nat off) b old)"
    using read_existing [of E' c' i s' fd] calm op(3) by (simp add: path res(3) set_data_def)
  then show ?thesis using res splice_bytes [OF ne, where off = "nat off" and d = old] by auto
qed

text \<open>
  After \<^verbatim>\<open>CloseAll\<close> no operation that changes content is accepted: each reports that the cache is
  closed and leaves the cache and the disk as they are, while content that exists can still be read.
\<close>

lemma closed_rejects:
  assumes "cc_closed c"
  shows "cc_Insert E i d (c, s) = (Some (Sentinel ErrCacheClosed), (c, s)) \<and>
    cc_InsertStream E i rd (c, s) = ((0, Some (Sentinel ErrCacheClosed)), (c, s)) \<and>
    cc_WriteAt E i b off (c, s) = ((0, Some (Sentinel ErrCacheClosed)), (c, s)) \<and>
    cc_Delete E i (c, s) = (Some (Sentinel ErrCacheClosed), (c, s)) \<and>
    (calm E (contentPath c i) \<and> fd_linked (c, s) i \<and> map_of (os_names s) (contentPath c i) = Some fd \<longrightarrow>
       fst (ReadAll E i (c, s)) = Some (of_data (os_files s fd)))"
  using assms read_existing by (simp add: cc_Insert_def cc_InsertStream_def cc_WriteAt_def cc_Delete_def)

text \<open>
  Deleting content whose file is on disk but not in the index, for example what a failed write
  left behind, subtracts the file's size from the tracked total although it was never added: the
  total falls below the sum of the indexed files.
\<close>

theorem Delete_undercounts:
  assumes "\<not> cc_closed c" "map_of (cc_fds c) i = None" "map_of (cc_entries c) (contentPath c i) = None"
    "map_of (os_names s) (contentPath c i) = Some fd" "f_stat E (contentPath c i) = None" "f_remove E (contentPath c i) = None"
  shows "\<exists>c' s'. cc_Delete E i (c, s) = (None, (c', s')) \<and> cc_heap c' = cc_heap c \<and> cc_store c' = cc_store c \<and>
    cc_totalSize c' = cc_totalSize c - int (length (of_data (os_files s fd)))"
  using assms
  by (simp add: cc_Delete_def closeLocked_def Let_def os_remove_def forgetEvictionEntryLocked_def cc_Size_def os_stat_def file_stat_def)

theorem Delete_undercounts_witness:
  "fst (cc_Insert ((no_faults 8 [])\<lparr>f_write := Some (2, Errno EIO)\<rparr>) ''x'' [1, 2, 3] (ex_cc, ex_disk)) = Some (Errno EIO) \<and>
   (\<exists>c' s'. cc_Delete (no_faults 9 []) ''x''
      (snd (cc_Insert ((no_faults 8 [])\<lparr>f_write := Some (2, Errno EIO)\<rparr>) ''x'' [1, 2, 3] (ex_cc, ex_disk))) = (None, (c', s')) \<and>
      cc_totalSize c' = 1 \<and> (\<Sum>a \<leftarrow> cc_heap c'. ev_size (cc_store c' ! a)) = 3)"
proof -
  let ?s = "set_data 1 [1, 2] 8 (ex_disk\<lparr>os_names := AList.update ''/c/x'' 1 (os_names ex_disk), os_next := 2\<rparr>)"
  have ins: "cc_Insert ((no_faults 8 [])\<lparr>f_write := Some (2, Errno EIO)\<rparr>) ''x'' [1, 2, 3] (ex_cc, ex_disk) =
      (Some (Errno EIO), (ex_cc, ?s))"
    by (simp add: cc_Insert_def ex_cc_def [THEN arg_cong [of _ _ cc_closed]] ex_contentPath os_writefile_def
        os_open_def no_faults_def ex_disk_def path_eval set_data_def fun_upd_twist)
  have "\<exists>c' s'. cc_Delete (no_faults 9 []) ''x'' (ex_cc, ?s) = (None, (c', s')) \<and> cc_heap c' = cc_heap ex_cc \<and>
      cc_store c' = cc_store ex_cc \<and> cc_totalSize c' = cc_totalSize ex_cc - int (length (of_data (os_files ?s 1)))"
    using Delete_undercounts [of ex_cc "''x''" ?s 1 "no_faults 9 []"] unfolding ex_contentPath
    by (simp add: ex_cc_def no_faults_def set_data_def update_conv' ex_disk_def)
  then obtain c' s' where del: "cc_Delete (no_faults 9 []) ''x'' (ex_cc, ?s) = (None, (c', s'))"
    "cc_heap c' = cc_heap ex_cc" "cc_store c' = cc_store ex_cc"
    "cc_totalSize c' = cc_totalSize ex_cc - int (length (of_data (os_files ?s 1)))" by blast
  have "cc_totalSize c' = 1" "(\<Sum>a \<leftarrow> cc_heap c'. ev_size (cc_store c' ! a)) = 3"
    unfolding del(2-4) by (simp_all add: ex_cc_def set_data_def)
  with del(1) show ?thesis unfolding ins by simp
qed

end
