(* ===== verification/Content_Refine.thy ===== *)
theory Content_Refine
  imports Content_Cache_Props
begin

text \<open>
  The content cache as an abstract data type: a partial map from identifiers to bytes.  The operations
  over descriptors, paths, the disk and the eviction index refine operations on that map; a forward
  simulation carries over to whole runs.  Identifiers are ordinary file names other than the
  directory of the snapshots.
\<close>

section \<open>Simulations\<close>

inductive runs :: "('l \<Rightarrow> 's \<Rightarrow> 's \<Rightarrow> bool) \<Rightarrow> 'l list \<Rightarrow> 's \<Rightarrow> 's \<Rightarrow> bool" for step where
  runs_Nil: "runs step [] s s"
| runs_Cons: "step l s s1 \<Longrightarrow> runs step ls s1 s2 \<Longrightarrow> runs step (l # ls) s s2"

locale simulation =
  fixes step :: "'l \<Rightarrow> 's \<Rightarrow> 's \<Rightarrow> bool" and spec :: "'l \<Rightarrow> 'a \<Rightarrow> 'a \<Rightarrow> bool"
    and invar :: "'s \<Rightarrow> bool" and abstr :: "'s \<Rightarrow> 'a"
  assumes simulates: "invar s \<Longrightarrow> step l s s' \<Longrightarrow> invar s' \<and> spec l (abstr s) (abstr s')"
begin

lemma runs_simulate: "runs step ls s s' \<Longrightarrow> invar s \<Longrightarrow> invar s' \<and> runs spec ls (abstr s) (abstr s')"
proof (induction rule: runs.induct)
  case (runs_Cons l s s1 ls s2)
  then show ?case using simulates [of s l s1] runs.runs_Cons [of spec l "abstr s" "abstr s1" ls "abstr s2"] by blast
qed (simp add: runs.runs_Nil)

end

section \<open>The specification\<close>

type_synonym contents = "ident \<Rightarrow> bytes option"

definition content_of :: "contents \<Rightarrow> ident \<Rightarrow> bytes" where
  "content_of m i = (case m i of None \<Rightarrow> [] | Some d \<Rightarrow> d)"

text \<open>What an observer sees of an operation: its arguments and whether it succeeded, or what it returned.\<close>

datatype cc_event =
    Opened ident bool
  | Inserted ident bytes bool
  | Streamed ident bytes bool
  | Wrote ident bytes int bool
  | Deleted ident bool
  | WasRead ident "bytes option"
  | Closed ident
  | Evicted

text \<open>
  An operation that fails may have changed its own identifier only; an operation that only opens a
  file may have created it; an eviction forgets some contents.
\<close>

definition only_at :: "ident \<Rightarrow> contents \<Rightarrow> contents \<Rightarrow> bool" where
  "only_at i m m' \<longleftrightarrow> (\<forall>j. j \<noteq> i \<longrightarrow> m' j = m j)"

definition touched :: "ident \<Rightarrow> contents \<Rightarrow> contents \<Rightarrow> bool" where
  "touched i m m' \<longleftrightarrow> m' = m \<or> m' = m(i \<mapsto> content_of m i)"

fun contents_spec :: "cc_event \<Rightarrow> contents \<Rightarrow> contents \<Rightarrow> bool" where
  "contents_spec (Opened i True) m m' = (m' = m(i \<mapsto> content_of m i))"
| "contents_spec (Opened i False) m m' = touched i m m'"
| "contents_spec (Inserted i d True) m m' = (m' = m(i \<mapsto> d))"
| "contents_spec (Inserted i d False) m m' = only_at i m m'"
| "contents_spec (Streamed i d True) m m' = (m' = m(i \<mapsto> d))"
| "contents_spec (Streamed i d False) m m' = only_at i m m'"
| "contents_spec (Wrote i b off True) m m' = (0 \<le> off \<and> m' = m(i \<mapsto> splice (nat off) b (content_of m i)))"
| "contents_spec (Wrote i b off False) m m' = only_at i m m'"
| "contents_spec (Deleted i True) m m' = (m' = m(i := None))"
| "contents_spec (Deleted i False) m m' = (m' = m)"
| "contents_spec (WasRead i (Some d)) m m' = (d = content_of m i \<and> m' = m(i \<mapsto> d))"
| "contents_spec (WasRead i None) m m' = touched i m m'"
| "contents_spec (Closed i) m m' = (m' = m)"
| "contents_spec Evicted m m' = (\<exists>X. m' = m |` X)"

section \<open>The implementation\<close>

definition plain_id :: "ident \<Rightarrow> bool" where
  "plain_id i \<longleftrightarrow> plain_comp i \<and> nul \<notin> set i \<and> i \<noteq> ''snapshots''"

inductive cc_op :: "cc_event \<Rightarrow> cc_state \<Rightarrow> cc_state \<Rightarrow> bool" where
  op_open: "plain_id i \<Longrightarrow> cc_Open E i cs = (r, cs') \<Longrightarrow> cc_op (Opened i (\<not> isl r)) cs cs'"
| op_insert: "plain_id i \<Longrightarrow> cc_Insert E i d cs = (e, cs') \<Longrightarrow> cc_op (Inserted i d (e = None)) cs cs'"
| op_stream: "plain_id i \<Longrightarrow> cc_InsertStream E i r cs = ((n, e), cs') \<Longrightarrow> cc_op (Streamed i (concat (fst r)) (e = None)) cs cs'"
| op_write: "plain_id i \<Longrightarrow> cc_WriteAt E i b off cs = ((n, e), cs') \<Longrightarrow> cc_op (Wrote i b off (e = None)) cs cs'"
| op_delete: "plain_id i \<Longrightarrow> cc_Delete E i cs = (e, cs') \<Longrightarrow> cc_op (Deleted i (e = None)) cs cs'"
| op_read: "plain_id i \<Longrightarrow> ReadAll E i cs = (d, cs') \<Longrightarrow> cc_op (WasRead i d) cs cs'"
| op_close: "plain_id i \<Longrightarrow> cc_Close E i cs = cs' \<Longrightarrow> cc_op (Closed i) cs cs'"
| op_evict: "honest E \<Longrightarrow> evictBySize E cs = cs' \<Longrightarrow> cc_op Evicted cs cs'"

section \<open>Abstraction and invariant\<close>

definition disk_ok :: "os_state \<Rightarrow> bool" where
  "disk_ok s \<longleftrightarrow>
     (\<forall>p f. map_of (os_names s) p = Some f \<longrightarrow> f < os_next s) \<and>
     (\<forall>p q f. map_of (os_names s) p = Some f \<longrightarrow> map_of (os_names s) q = Some f \<longrightarrow> p = q)"

definition cached :: "cc_state \<Rightarrow> contents" where
  "cached = (\<lambda>(c, s) i.
     if plain_id i then map_option (\<lambda>f. of_data (os_files s f)) (map_of (os_names s) (contentPath c i)) else None)"

definition cache_ok :: "cc_state \<Rightarrow> bool" where
  "cache_ok = (\<lambda>(c, s).
     is_abs (cc_directory c) \<and> Clean (cc_directory c) \<noteq> [slash] \<and> indexed [] c \<and> disk_ok s \<and>
     (\<forall>i fd. map_of (cc_fds c) i = Some fd \<longrightarrow> plain_id i \<and> map_of (os_names s) (contentPath c i) = Some fd))"

lemma cached_at:
  "plain_id i \<Longrightarrow> map_of (os_names s) (contentPath c i) = Some fd \<Longrightarrow> cached (c, s) i = Some (of_data (os_files s fd))"
  by (simp add: cached_def)

lemma contentPath_plain:
  assumes "is_abs (cc_directory c)" "Clean (cc_directory c) \<noteq> [slash]" "plain_id i"
  shows "contentPath c i = Clean (cc_directory c) @ slash # i"
proof -
  have i: "split_path i = [i]" "\<not> is_abs i" "i \<noteq> []" "i \<noteq> dot" "i \<noteq> dotdot" "nul \<notin> set i"
    using assms(3) by (auto simp: plain_id_def plain_comp_def split_path_id is_abs_def split: list.splits)
  have "take 3 i \<noteq> dotdot @ [slash]"
    using assms(3) by (auto simp: plain_id_def plain_comp_def dest!: arg_cong [of _ _ set] dest: in_set_takeD)
  then have "IsLocal i" using i by (simp add: IsLocal_def Let_def)
  then have "contentPath c i = Join (cc_directory c) i" using i by (simp add: contentPath_def Let_def)
  then show ?thesis using Join_local(1) [OF assms(1) _ assms(2), of i] i by simp
qed

lemma contentPath_inj:
  "cache_ok (c, s) \<Longrightarrow> plain_id i \<Longrightarrow> plain_id j \<Longrightarrow> contentPath c i = contentPath c j \<longleftrightarrow> i = j"
  using contentPath_plain [of c i] contentPath_plain [of c j] by (auto simp: cache_ok_def)

text \<open>Changes of the cache record that neither the descriptors nor the directory notice.\<close>

lemma cache_ok_frame:
  assumes "cache_ok (c, s)" "indexed [] c'" "cc_directory c' = cc_directory c" "cc_fds c' = cc_fds c"
  shows "cache_ok (c', s)" "cached (c', s) = cached (c, s)"
  using assms contentPath_frame [OF assms(3)] by (auto simp: cache_ok_def cached_def)

text \<open>Writing to the file of an identifier changes that identifier only.\<close>

lemma set_data_cached:
  assumes ok: "cache_ok (c, s)" and i: "plain_id i" "map_of (os_names s) (contentPath c i) = Some fd"
  shows "cache_ok (c, set_data fd d t s)" "cached (c, set_data fd d t s) = (cached (c, s))(i \<mapsto> d)"
proof -
  show "cache_ok (c, set_data fd d t s)" using ok by (simp add: cache_ok_def disk_ok_def set_data_def)
  have "cached (c, set_data fd d t s) j = ((cached (c, s))(i \<mapsto> d)) j" for j
  proof (cases "plain_id j \<and> j \<noteq> i")
    case True
    then have "contentPath c j \<noteq> contentPath c i" using contentPath_inj [OF ok] i(1) by blast
    then have "map_of (os_names s) (contentPath c j) \<noteq> Some fd" using ok i(2) by (auto simp: cache_ok_def disk_ok_def)
    then show ?thesis using True
      by (cases "map_of (os_names s) (contentPath c j)") (auto simp: cached_def set_data_def)
  next
    case False
    then show ?thesis using i by (cases "j = i") (simp_all add: cached_def set_data_def)
  qed
  then show "cached (c, set_data fd d t s) = (cached (c, s))(i \<mapsto> d)" by blast
qed

text \<open>Changes of the cache record that drop descriptors or add the one of a stored file.\<close>

lemma cache_ok_change:
  assumes ok: "cache_ok (c, s)" and k: "keeps c c'"
    and fds: "\<And>j fd. map_of (cc_fds c') j = Some fd \<Longrightarrow> map_of (cc_fds c) j = Some fd \<or>
      plain_id j \<and> map_of (os_names s) (contentPath c j) = Some fd"
  shows "cache_ok (c', s)" "cached (c', s) = cached (c, s)"
proof -
  have d: "cc_directory c' = cc_directory c" "indexed [] c'" using ok k by (simp_all add: keeps_def cache_ok_def)
  note p = contentPath_frame [OF d(1)]
  have "plain_id j \<and> map_of (os_names s) (contentPath c j) = Some fd" if "map_of (cc_fds c') j = Some fd" for j fd
    using fds [OF that] ok by (auto simp: cache_ok_def)
  then show "cache_ok (c', s)" using ok d by (simp add: cache_ok_def p)
  show "cached (c', s) = cached (c, s)" by (auto simp: cached_def p)
qed

text \<open>A new, empty file under the path of an identifier.\<close>

lemma new_file_cached:
  fixes t :: time
  assumes ok: "cache_ok (c, s)" and i: "plain_id i" and none: "map_of (os_names s) (contentPath c i) = None"
  defines "s1 \<equiv> set_data (os_next s) [] t
    (s\<lparr>os_names := AList.update (contentPath c i) (os_next s) (os_names s), os_next := os_next s + 1\<rparr>)"
  shows "cache_ok (c, s1)" "cached (c, s1) = (cached (c, s))(i \<mapsto> [])"
proof -
  have fresh: "f < os_next s" if "map_of (os_names s) p = Some f" for p f
    using ok that by (simp add: cache_ok_def disk_ok_def)
  have names: "map_of (os_names s1) = (map_of (os_names s))(contentPath c i \<mapsto> os_next s)"
    by (simp add: s1_def set_data_def update_conv')
  have files: "os_files s1 = (os_files s)(os_next s := \<lparr>of_data = [], of_mtime = t\<rparr>)"
    by (simp add: s1_def set_data_def)
  have "disk_ok s1" unfolding disk_ok_def names using ok fresh
    by (auto simp: s1_def set_data_def cache_ok_def disk_ok_def less_SucI)
  moreover have "map_of (os_names s1) (contentPath c j) = Some fd" if "map_of (cc_fds c) j = Some fd" for j fd
    using ok that none by (fastforce simp: names cache_ok_def)
  ultimately show "cache_ok (c, s1)" using ok by (simp add: cache_ok_def)
  have "cached (c, s1) j = ((cached (c, s))(i \<mapsto> [])) j" for j
  proof (cases "plain_id j \<and> j \<noteq> i")
    case True
    then have "contentPath c j \<noteq> contentPath c i" using contentPath_inj [OF ok] i by blast
    then show ?thesis using True fresh [of "contentPath c j"]
      by (cases "map_of (os_names s) (contentPath c j)") (simp_all add: cached_def names files)
  next
    case False
    then show ?thesis using i by (cases "j = i") (simp_all add: cached_def names files)
  qed
  then show "cached (c, s1) = (cached (c, s))(i \<mapsto> [])" by blast
qed

lemma os_open_cached:
  assumes ok: "cache_ok (c, s)" and i: "plain_id i" and o: "os_open E (contentPath c i) s = (Inr fd, s1)"
  shows "cache_ok (c, s1) \<and> map_of (os_names s1) (contentPath c i) = Some fd \<and>
    cached (c, s1) = (cached (c, s))(i \<mapsto> content_of (cached (c, s)) i)"
proof (cases "map_of (os_names s) (contentPath c i)")
  case None
  then have "content_of (cached (c, s)) i = []" using i by (simp add: cached_def content_of_def)
  then show ?thesis
    using new_file_cached [OF ok i None, of "e_now E"] o None os_open_result [OF o]
    by (auto simp: os_open_def split: option.splits if_splits)
next
  case (Some f)
  then have "fd = f" "s1 = s" using o by (auto simp: os_open_def split: option.splits)
  moreover have "cached (c, s) i = Some (of_data (os_files s f))" using Some i by (simp add: cached_def)
  ultimately show ?thesis using ok Some by (auto simp: content_of_def)
qed

lemma os_open_fails: "os_open E p s = (Inl e, s1) \<Longrightarrow> s1 = s"
  by (auto simp: os_open_def split: option.splits if_splits)

section \<open>The operations\<close>

lemma Open_cached:
  assumes ok: "cache_ok (c, s)" and i: "plain_id i" and o: "cc_Open E i (c, s) = (r, (c1, s1))"
  shows "cache_ok (c1, s1)"
    "r = Inl e \<Longrightarrow> touched i (cached (c, s)) (cached (c1, s1))"
    "r = Inr fd \<Longrightarrow> map_of (os_names s1) (contentPath c1 i) = Some fd \<and>
       cached (c1, s1) = (cached (c, s))(i \<mapsto> content_of (cached (c, s)) i)"
proof -
  have "cache_ok (c1, s1) \<and> (case r of Inl e \<Rightarrow> touched i (cached (c, s)) (cached (c1, s1)) | Inr fd \<Rightarrow>
    map_of (os_names s1) (contentPath c1 i) = Some fd \<and>
    cached (c1, s1) = (cached (c, s))(i \<mapsto> content_of (cached (c, s)) i))"
  proof (cases "map_of (cc_fds c) i")
    case (Some f)
    then have "r = Inr f" "c1 = c" "s1 = s" using o by (auto simp: cc_Open_def)
    moreover have n: "map_of (os_names s) (contentPath c i) = Some f" using ok Some by (simp add: cache_ok_def)
    moreover have "cached (c, s) i = Some (of_data (os_files s f))" using n i by (simp add: cached_def)
    ultimately show ?thesis using ok by (auto simp: content_of_def)
  next
    case None
    obtain q s2 where op: "os_open E (contentPath c i) s = (q, s2)" by fastforce
    show ?thesis
    proof (cases q)
      case (Inl e)
      then have "r = Inl e" "c1 = c" "s1 = s" using o None op os_open_fails [of E "contentPath c i" s e s2]
        by (auto simp: cc_Open_def)
      then show ?thesis using ok by (simp add: touched_def)
    next
      case (Inr f)
      then have s2: "cache_ok (c, s2)" "map_of (os_names s2) (contentPath c i) = Some f"
        "cached (c, s2) = (cached (c, s))(i \<mapsto> content_of (cached (c, s)) i)"
        using os_open_cached [OF ok i] op by auto
      obtain t c2 where t: "trackOpenFileLocked E i (contentPath c i) f (c\<lparr>cc_fds := AList.update i f (cc_fds c)\<rparr>, s2) = (t, c2)"
        by fastforce
      then have c1: "s1 = s2" "c1 = (if t = None then c2 else c2\<lparr>cc_fds := AList.delete i (cc_fds c2)\<rparr>)"
        "r = Inr f \<and> t = None \<or> isl r" using o None op Inr by (auto simp: cc_Open_def Let_def split: option.splits)
      have fr: "cc_fds c2 = AList.update i f (cc_fds c)" "cc_directory c2 = cc_directory c"
        using trackOpen_frame [OF t] by auto
      have "map_of (cc_fds c) j = Some g \<or> plain_id j \<and> map_of (os_names s2) (contentPath c j) = Some g"
        if "map_of (cc_fds c1) j = Some g" for j g
        using that c1(2) i s2(2) by (auto simp: fr update_conv' delete_conv' split: if_splits)
      note ch = cache_ok_change [OF s2(1) keeps_Open [OF o] this]
      have "contentPath c1 i = contentPath c i" using contentPath_frame [of c1 c] c1(2) fr(2) by simp
      then show ?thesis using c1 s2 ch by (auto simp: touched_def split: sum.splits)
    qed
  qed
  then show "cache_ok (c1, s1)" "r = Inl e \<Longrightarrow> touched i (cached (c, s)) (cached (c1, s1))"
    "r = Inr fd \<Longrightarrow> map_of (os_names s1) (contentPath c1 i) = Some fd \<and>
       cached (c1, s1) = (cached (c, s))(i \<mapsto> content_of (cached (c, s)) i)" by auto
qed

text \<open>Tracking a file and starting an eviction leave the descriptors and the disk alone.\<close>

lemma track_cached:
  assumes "cache_ok (c, s)" "trackFileLocked E i (c, s0) = (r, c1)" "c2 = c1 \<or> c2 = maybeEvict c1"
  shows "cache_ok (c2, s) \<and> cached (c2, s) = cached (c, s)"
proof -
  have "cc_fds c2 = cc_fds c" "keeps c c2"
    using assms(2,3) trackFileInfoLocked_frame keeps_trackFile [OF assms(2)]
    by (auto simp: trackFileLocked_def maybeEvict_def Let_def split: sum.splits if_splits)
  then show ?thesis using cache_ok_change [OF assms(1), of c2] by auto
qed

lemma only_at_upd [simp]: "only_at i m (m(i := v))" "only_at i m m"
  by (simp_all add: only_at_def)

lemma only_at_trans: "only_at i m m1 \<Longrightarrow> only_at i m1 m2 \<Longrightarrow> only_at i m m2"
  by (simp add: only_at_def)

lemma touched_only_at: "touched i m m' \<Longrightarrow> only_at i m m'"
  by (auto simp: touched_def)

lemma Insert_cached:
  assumes ok: "cache_ok (c, s)" and i: "plain_id i" and run: "cc_Insert E i d (c, s) = (e, (c', s'))"
  shows "cache_ok (c', s') \<and> contents_spec (Inserted i d (e = None)) (cached (c, s)) (cached (c', s'))"
proof (cases "cc_closed c")
  case True
  then show ?thesis using run ok by (auto simp: cc_Insert_def)
next
  case False
  obtain q s1 where op: "os_open E (contentPath c i) s = (q, s1)" by fastforce
  show ?thesis
  proof (cases q)
    case (Inl x)
    then have "e = Some x" "c' = c" "s' = s" using run False op os_open_fails [of E "contentPath c i" s x s1]
      by (auto simp: cc_Insert_def os_writefile_def)
    then show ?thesis using ok by simp
  next
    case (Inr fd)
    note o = os_open_cached [OF ok i op [unfolded Inr]]
    have put: "cache_ok (c, set_data fd b t s1) \<and> cached (c, set_data fd b t s1) = (cached (c, s))(i \<mapsto> b)" for b t
      using set_data_cached [of c s1 i fd b t] o i by simp
    obtain w s2 where w: "os_writefile E (contentPath c i) d s = (w, s2)" by fastforce
    have s2: "cache_ok (c, s2)" "only_at i (cached (c, s)) (cached (c, s2))"
      "w = None \<Longrightarrow> cached (c, s2) = (cached (c, s))(i \<mapsto> d)"
      using w op Inr put by (auto simp: os_writefile_def split: option.splits)
    obtain t c1 where t: "trackFileLocked E i (c, s2) = (t, c1)" by fastforce
    show ?thesis
    proof (cases w)
      case None
      then have "s' = s2" "c' = c1 \<or> c' = maybeEvict c1"
        using run False w t by (auto simp: cc_Insert_def split: option.splits)
      then show ?thesis using track_cached [OF s2(1) t] s2(3) None by (cases e) auto
    next
      case (Some x)
      then show ?thesis using run False w s2 by (auto simp: cc_Insert_def)
    qed
  qed
qed

lemma InsertStream_cached:
  assumes ok: "cache_ok (c, s)" and i: "plain_id i" and run: "cc_InsertStream E i r (c, s) = ((n, e), (c', s'))"
  shows "cache_ok (c', s') \<and> contents_spec (Streamed i (concat (fst r)) (e = None)) (cached (c, s)) (cached (c', s'))"
proof (cases "cc_closed c")
  case True
  then show ?thesis using run ok by (auto simp: cc_InsertStream_def)
next
  case False
  obtain q c1 s1 where op: "cc_Open E i (c, s) = (q, (c1, s1))" by (metis prod_cases3)
  note o = Open_cached [OF ok i op]
  show ?thesis
  proof (cases q)
    case (Inl x)
    then show ?thesis using run False op o(1) touched_only_at [OF o(2) [OF Inl]] by (auto simp: cc_InsertStream_def)
  next
    case (Inr fd)
    note o = o(1) o(3) [OF Inr]
    obtain d err where cp: "copied E r = (d, err)" by fastforce
    let ?s2 = "set_data fd d (e_now E) s1"
    have s2: "cache_ok (c1, ?s2)" "cached (c1, ?s2) = (cached (c, s))(i \<mapsto> d)"
      using set_data_cached [of c1 s1 i fd d "e_now E"] o i by simp_all
    obtain t c2 where t: "trackFileLocked E i (c1, ?s2) = (t, c2)" by fastforce
    consider (early) "f_seek E \<noteq> None \<or> f_trunc E \<noteq> None" | (broken) "f_seek E = None" "f_trunc E = None" "err \<noteq> None"
      | (copy) "f_seek E = None" "f_trunc E = None" "err = None" by blast
    then show ?thesis
    proof cases
      case early
      then have "e \<noteq> None" "c' = c1" "s' = s1"
        using run False op Inr by (auto simp: cc_InsertStream_def split: option.splits dest!: sym [of "Some _"])
      then show ?thesis using o by auto
    next
      case broken
      then have "e \<noteq> None" "c' = c1" "s' = ?s2"
        using run False op Inr cp by (auto simp: cc_InsertStream_def Let_def split: option.splits)
      then show ?thesis using s2 by auto
    next
      case copy
      then have "d = concat (fst r)" using cp by (auto simp: copied_def split: prod.splits option.splits)
      moreover have "s' = ?s2" "c' = c2 \<or> c' = maybeEvict c2"
        using run False op Inr cp t copy by (auto simp: cc_InsertStream_def Let_def split: option.splits)
      ultimately show ?thesis using track_cached [OF s2(1) t] s2(2) by (cases e) auto
    qed
  qed
qed

lemma WriteAt_cached:
  assumes ok: "cache_ok (c, s)" and i: "plain_id i" and run: "cc_WriteAt E i b off (c, s) = ((n, e), (c', s'))"
  shows "cache_ok (c', s') \<and> contents_spec (Wrote i b off (e = None)) (cached (c, s)) (cached (c', s'))"
proof (cases "cc_closed c")
  case True
  then show ?thesis using run ok by (auto simp: cc_WriteAt_def)
next
  case False
  obtain q c1 s1 where op: "cc_Open E i (c, s) = (q, (c1, s1))" by (metis prod_cases3)
  note o = Open_cached [OF ok i op]
  show ?thesis
  proof (cases q)
    case (Inl x)
    then show ?thesis using run False op o(1) touched_only_at [OF o(2) [OF Inl]] by (auto simp: cc_WriteAt_def)
  next
    case (Inr fd)
    note o = o(1) o(3) [OF Inr]
    let ?old = "content_of (cached (c, s)) i"
    have old: "of_data (os_files s1 fd) = ?old"
    proof -
      have "cached (c1, s1) i = Some (of_data (os_files s1 fd))" using cached_at [OF i] o by blast
      then show ?thesis using o by simp
    qed
    have put: "cache_ok (c1, set_data fd d (e_now E) s1)"
        "cached (c1, set_data fd d (e_now E) s1) = (cached (c, s))(i \<mapsto> d)" for d
      using set_data_cached [of c1 s1 i fd d "e_now E"] o i by simp_all
    obtain m w s2 where w: "fd_WriteAt E fd b off s1 = ((m, w), s2)" by (metis prod.exhaust)
    have s2: "cache_ok (c1, s2)" "only_at i (cached (c, s)) (cached (c1, s2))"
      "w = None \<Longrightarrow> 0 \<le> off \<and> cached (c1, s2) = (cached (c, s))(i \<mapsto> splice (nat off) b ?old)"
      using w o put old by (auto simp: fd_WriteAt_def Let_def splice_def split: if_splits option.splits)
    obtain t c2 where t: "trackFileLocked E i (c1, s2) = (t, c2)" by fastforce
    show ?thesis
    proof (cases w)
      case None
      then have "s' = s2" "c' = c2 \<or> c' = maybeEvict c2"
        using run False op Inr w t by (auto simp: cc_WriteAt_def Let_def split: option.splits if_splits)
      then show ?thesis using track_cached [OF s2(1) t] s2(3) None by (cases e) auto
    next
      case (Some x)
      then show ?thesis using run False op Inr w s2 by (auto simp: cc_WriteAt_def Let_def)
    qed
  qed
qed

lemma ReadAll_cached:
  assumes ok: "cache_ok (c, s)" and i: "plain_id i" and run: "ReadAll E i (c, s) = (d, (c', s'))"
  shows "cache_ok (c', s') \<and> contents_spec (WasRead i d) (cached (c, s)) (cached (c', s'))"
proof -
  obtain q where op: "cc_Open E i (c, s) = (q, (c', s'))"
    using run by (auto simp: ReadAll_def cc_read_def split: prod.splits sum.splits option.splits)
  note o = Open_cached [OF ok i op]
  show ?thesis
  proof (cases q)
    case (Inl x)
    then show ?thesis using run op o(1) o(2) [OF Inl] by (auto simp: ReadAll_def cc_read_def)
  next
    case (Inr fd)
    note o = o(1) o(3) [OF Inr]
    have "cached (c', s') i = Some (of_data (os_files s' fd))" using cached_at [OF i] o by blast
    then have "of_data (os_files s' fd) = content_of (cached (c, s)) i" using o by simp
    then have "d = None \<or> d = Some (content_of (cached (c, s)) i)"
      using run op Inr by (auto simp: ReadAll_def cc_read_def split: option.splits)
    then show ?thesis using o by (auto simp: touched_def)
  qed
qed

lemma closeLocked_cached:
  assumes ok: "cache_ok (c, s)" and run: "closeLocked E i (c, s) = (b, c')"
  shows "cache_ok (c', s)" "cached (c', s) = cached (c, s)" "map_of (cc_fds c') = (map_of (cc_fds c))(i := None)"
    "cc_directory c' = cc_directory c"
proof -
  show fds: "map_of (cc_fds c') = (map_of (cc_fds c))(i := None)" and "cc_directory c' = cc_directory c"
    using run trackFileInfoLocked_frame
    by (auto simp: closeLocked_def Let_def delete_conv' fun_upd_idem split: option.splits sum.splits)
  show "cache_ok (c', s)" "cached (c', s) = cached (c, s)"
    by (rule cache_ok_change [OF ok keeps_closeLocked [OF run]], simp add: fds split: if_splits)+
qed

lemma Close_cached:
  assumes ok: "cache_ok (c, s)" and run: "cc_Close E i (c, s) = (c', s')"
  shows "cache_ok (c', s') \<and> cached (c', s') = cached (c, s)"
proof -
  obtain b c1 where cl: "closeLocked E i (c, s) = (b, c1)" by fastforce
  note k = closeLocked_cached [OF ok cl]
  have "s' = s" "c' = c1 \<or> c' = maybeEvict c1" using run cl by (auto simp: cc_Close_def)
  then show ?thesis using k cache_ok_change [OF k(1), of c'] by (auto simp: maybeEvict_def)
qed

text \<open>Unlinking a path that no descriptor uses.\<close>

lemma unlink_cached:
  assumes ok: "cache_ok (c, s)" and names: "map_of (os_names s') = map_of (os_names s) |` (- R)"
    and rest: "os_files s' = os_files s" "os_next s' = os_next s"
    and closed: "\<And>j fd. map_of (cc_fds c) j = Some fd \<Longrightarrow> contentPath c j \<notin> R"
  shows "cache_ok (c, s')" "cached (c, s') = cached (c, s) |` {i. contentPath c i \<notin> R}"
proof -
  have "disk_ok s'" using ok unfolding cache_ok_def disk_ok_def names
    by (auto simp: rest restrict_map_def split: if_splits)
  moreover have "map_of (os_names s') (contentPath c j) = Some fd" if "map_of (cc_fds c) j = Some fd" for j fd
    using ok closed [OF that] that by (simp add: names cache_ok_def)
  ultimately show "cache_ok (c, s')" using ok by (simp add: cache_ok_def)
  show "cached (c, s') = cached (c, s) |` {i. contentPath c i \<notin> R}"
    by (rule ext) (simp add: cached_def names rest restrict_map_def)
qed

lemma Delete_cached:
  assumes ok: "cache_ok (c, s)" and i: "plain_id i" and run: "cc_Delete E i (c, s) = (e, (c', s'))"
  shows "cache_ok (c', s') \<and> contents_spec (Deleted i (e = None)) (cached (c, s)) (cached (c', s'))"
proof (cases "cc_closed c")
  case True
  then show ?thesis using run ok by (auto simp: cc_Delete_def)
next
  case False
  obtain b c1 where cl: "closeLocked E i (c, s) = (b, c1)" by fastforce
  note k = closeLocked_cached [OF ok cl]
  let ?p = "contentPath c1 i"
  obtain r s1 where rm: "os_remove E ?p s = (r, s1)" by fastforce
  have s': "s' = s1" "e = r" and fds: "cc_fds c' = cc_fds c1"
    using run False cl rm
    by (auto simp: cc_Delete_def Let_def forgetEvictionEntryLocked_def set_index_state_def
        split: option.splits if_splits)
  have ix: "indexed [] c'" "cc_directory c' = cc_directory c"
    using Delete_index [OF run] ok by (simp_all add: cache_ok_def)
  have s1: "cache_ok (c1, s1) \<and> cached (c1, s1) = (if r = None then (cached (c, s))(i := None) else cached (c, s))"
  proof (cases r)
    case None
    then have names: "map_of (os_names s1) = map_of (os_names s) |` (- {?p})"
      using os_remove_cases(4) [OF rm] by (simp add: upd_None_restrict)
    have other: "contentPath c1 j \<notin> {?p}" if "map_of (cc_fds c1) j = Some fd" for j fd
    proof -
      have "plain_id j" "j \<noteq> i" using k(1,3) that by (auto simp: cache_ok_def split: if_splits)
      then show ?thesis using contentPath_inj [OF k(1) _ i] by simp
    qed
    note u = unlink_cached [OF k(1) names os_remove_cases(1,2) [OF rm] other]
    have "cached (c1, s) |` {j. contentPath c1 j \<notin> {?p}} = (cached (c, s))(i := None)"
      using contentPath_inj [OF k(1) _ i] i by (auto simp: k(2) restrict_map_def cached_def fun_eq_iff contentPath_frame [OF k(4)])
    then show ?thesis using u None by simp
  next
    case (Some x)
    then show ?thesis using k os_remove_cases(5) [OF rm Some] by simp
  qed
  then show ?thesis
    using cache_ok_frame [of c1 s1 c'] ix fds k(4) s' by (cases r) auto
qed

lemma evict_cached:
  assumes ok: "cache_ok (c, s)" and hon: "honest E" and run: "evictBySize E (c, s) = (c', s')"
  shows "cache_ok (c', s') \<and> contents_spec Evicted (cached (c, s)) (cached (c', s'))"
proof -
  have ix: "indexed [] c" using ok by (simp add: cache_ok_def)
  obtain R more c1 where out: "evict_pass E (c, s) R more (c1, s')" "same_frame c c'" "indexed [] c'"
    using evictBySize_outcome [OF ix run] by auto
  have names: "map_of (os_names s') = map_of (os_names s) |` (- R)" "os_files s' = os_files s" "os_next s' = os_next s"
    using out(1) hon by (simp_all add: evict_pass_def)
  have "contentPath c j \<notin> R" if "map_of (cc_fds c) j = Some fd" for j fd
  proof
    assume "contentPath c j \<in> R"
    then obtain a where "map_of (cc_entries c) (contentPath c j) = Some a" "\<not> evictEntryIsOpen c (cc_store c ! a)"
      using out(1) by (auto simp: evict_pass_def)
    then show False
      using ix map_of_SomeD [OF that] by (auto simp: evictEntryIsOpen_def list_ex_iff indexed_def entries_ok_def)
  qed
  note u = unlink_cached [OF ok names this]
  have "cc_directory c' = cc_directory c" "cc_fds c' = cc_fds c" using out(2) by (simp_all add: same_frame_def)
  then show ?thesis using cache_ok_frame [OF u(1) out(3)] u(2) by auto
qed

section \<open>The refinement\<close>

lemma cc_op_simulates:
  assumes ok: "cache_ok (c, s)" and op: "cc_op l (c, s) (c', s')"
  shows "cache_ok (c', s') \<and> contents_spec l (cached (c, s)) (cached (c', s'))"
  using op
proof cases
  case (op_open i E r)
  then show ?thesis using Open_cached [OF ok, of i E r c' s'] by (cases r) auto
next
  case (op_insert i E d e)
  then show ?thesis using Insert_cached [OF ok] by blast
next
  case (op_stream i E r n e)
  then show ?thesis using InsertStream_cached [OF ok] by blast
next
  case (op_write i E b off n e)
  then show ?thesis using WriteAt_cached [OF ok] by blast
next
  case (op_delete i E e)
  then show ?thesis using Delete_cached [OF ok] by blast
next
  case (op_read i E d)
  then show ?thesis using ReadAll_cached [OF ok] by blast
next
  case (op_close i E)
  then show ?thesis using Close_cached [OF ok] by simp
next
  case (op_evict E)
  then show ?thesis using evict_cached [OF ok] by blast
qed

interpretation cc_sim: simulation cc_op contents_spec cache_ok cached
  by unfold_locales (metis cc_op_simulates surj_pair)

text \<open>
  C6: The content cache implements a partial map from identifiers to bytes.  Whatever sequence of
  opens, insertions, streams, writes at offsets, deletions, reads, closes and size evictions is run,
  with any failures of the system calls, the results seen and the contents on disk are those of the
  same sequence on the map: a successful insertion or stream stores exactly the data, a write splices
  it in, a read returns the stored bytes, closing changes nothing, an eviction only forgets, and an
  operation that fails touches no identifier but its own.
\<close>

theorem content_cache_refines:
  assumes "runs cc_op ls cs cs'" "cache_ok cs"
  shows "cache_ok cs' \<and> runs contents_spec ls (cached cs) (cached cs')"
  using cc_sim.runs_simulate [OF assms] .

lemma ex_cache_ok: "cache_ok (ex_cc, ex_disk)"
  using cc_reach_indexed [OF ex_reach]
  by (simp add: cache_ok_def disk_ok_def ex_cc_def ex_disk_def path_eval)

theorem content_cache_refines_witness:
  "\<exists>cs'. cc_Insert (no_faults 8 []) ''new'' [9] (ex_cc, ex_disk) = (None, cs') \<and> cache_ok cs' \<and>
     runs contents_spec [Inserted ''new'' [9] True] (cached (ex_cc, ex_disk)) (cached cs')"
proof -
  obtain e cs' where run: "cc_Insert (no_faults 8 []) ''new'' [9] (ex_cc, ex_disk) = (e, cs')" by (metis surj_pair)
  have "fst (cc_Insert (no_faults 8 []) ''new'' [9] (ex_cc, ex_disk)) = None"
    by (simp add: cc_Insert_def ex_cc_def [THEN arg_cong [of _ _ cc_closed]] ex_contentPath os_writefile_def
        os_open_def no_faults_def ex_disk_def path_eval trackFileLocked_def os_stat_def set_data_def)
  then have e: "e = None" using run by simp
  have "plain_id ''new''" using ex_plain by (simp add: plain_id_def)
  then have "cc_op (Inserted ''new'' [9] True) (ex_cc, ex_disk) cs'" using cc_op.op_insert [OF _ run] e by simp
  then have "runs cc_op [Inserted ''new'' [9] True] (ex_cc, ex_disk) cs'"
    by (rule runs.runs_Cons [OF _ runs.runs_Nil])
  then show ?thesis using content_cache_refines [OF _ ex_cache_ok] run e by blast
qed

end
