(* ===== verification/Graph_Http.thy ===== *)
theory Graph_Http
  imports Drive_Item Graph_Error Go_Path
begin

text \<open>
  The HTTP layer of the Graph client (\<^verbatim>\<open>internal/graph/client.go\<close>, \<^verbatim>\<open>internal/graph/error.go\<close>): resource
  addresses, the check of links that the server hands out, the retrying transport and the reading
  of error responses.  The transport under the client and the token provider are parameters: a
  transport takes a request and the state of the outside world and returns the response or an
  error, what is left unread of the request body, and the new state.
\<close>

section \<open>Requests and responses\<close>

datatype resource = ItemID string | ItemPath string

datatype parent_reference = ParentById string | ParentByPath string

text \<open>Request bodies: the JSON documents the client sends, and file contents.\<close>

datatype payload =
    CreateFolderJ string
  | RenameJ string
  | MoveJ parent_reference
  | CopyJ string "parent_reference option"
  | UploadSessionJ string
  | Octets bytes

text \<open>A body carries how much of it has been read; \<open>rq_GetBody\<close> is \<open>None\<close> when it cannot be rewound.\<close>

record http_request =
  rq_method :: string
  rq_url :: string
  rq_headers :: "(string \<times> string) list"
  rq_body :: "(payload \<times> nat) option"
  rq_GetBody :: "go_error option option"

record user =
  usr_ID :: string
  usr_Name :: string

datatype resp_body =
    EmptyB
  | ItemB drive_item
  | PageB "drive_item list" string
  | DeltaPageB "delta_item list" string string
  | SessionB string
  | AsyncB string "drive_item option" "(string \<times> string) option"
  | ErrorB string string
  | UserB user
  | RawB bytes
  | ReadErrB bytes go_error

record http_response =
  rs_status :: int
  rs_headers :: "(string \<times> string) list"
  rs_body :: resp_body

text \<open>
  The client: its base URL, the transport it retries on, the token provider, whether the context
  is cancelled, and how sleeping changes the world.
\<close>

record 'w client =
  BaseURL :: string
  c_do :: "http_request \<Rightarrow> 'w \<Rightarrow> (go_error + http_response) \<times> (payload \<times> nat) option \<times> 'w"
  c_maxRetries :: nat
  c_token :: "'w \<Rightarrow> (go_error + string) \<times> 'w"
  c_done :: "'w \<Rightarrow> go_error option"
  c_sleep :: "duration \<Rightarrow> 'w \<Rightarrow> 'w"
  PollBackoff :: duration

section \<open>Resource addresses\<close>

text \<open>\<^verbatim>\<open>url.PathEscape\<close> keeps the unreserved characters and those that have no meaning in a segment.\<close>

definition unreserved :: "char \<Rightarrow> bool" where
  "unreserved c \<longleftrightarrow> c \<in> set ''ABCDEFGHIJKLMNOPQRSTUVWXYZabcdefghijklmnopqrstuvwxyz0123456789-_.~$&+:=@''"

definition upper_hex :: "nat \<Rightarrow> char" where
  "upper_hex n = ''0123456789ABCDEF'' ! n"

definition PathEscape :: "string \<Rightarrow> string" where
  "PathEscape s = concat (map (\<lambda>c. if unreserved c then [c]
     else [CHR ''%'', upper_hex (of_char c div 16), upper_hex (of_char c mod 16)]) s)"

definition trim_slashes :: "string \<Rightarrow> string" where
  "trim_slashes s = rev (dropWhile ((=) slash) (rev (dropWhile ((=) slash) s)))"

definition trim_right_slashes :: "string \<Rightarrow> string" where
  "trim_right_slashes s = rev (dropWhile ((=) slash) (rev s))"

definition normalizePath :: "string \<Rightarrow> string" where
  "normalizePath p =
     (let p = filter (\<lambda>c. c \<noteq> nul) p;
          p = map (\<lambda>c. if c = CHR 0x5C then slash else c) p;
          p = Clean (slash # p)
      in trim_slashes p)"

definition escapePathSegments :: "string \<Rightarrow> string" where
  "escapePathSegments p = join_path (map PathEscape (split_path p))"

definition ResourcePathByID :: "string \<Rightarrow> string" where
  "ResourcePathByID i = (if i = ''root'' then ''/me/drive/root'' else ''/me/drive/items/'' @ PathEscape i)"

definition ResourcePathByPath :: "string \<Rightarrow> string" where
  "ResourcePathByPath p =
     (let clean = normalizePath p in
      if clean = [] then ''/me/drive/root'' else ''/me/drive/root:/'' @ escapePathSegments clean)"

fun ResourcePath :: "resource \<Rightarrow> string" where
  "ResourcePath (ItemID i) = ResourcePathByID i"
| "ResourcePath (ItemPath p) = ResourcePathByPath p"

fun IsEmpty :: "resource \<Rightarrow> bool" where
  "IsEmpty (ItemID i) = (i = [])"
| "IsEmpty (ItemPath p) = (p = [])"

fun ParentReference :: "resource \<Rightarrow> parent_reference" where
  "ParentReference (ItemID i) = ParentById i"
| "ParentReference (ItemPath p) = ParentByPath (slash # normalizePath p)"

definition WithAction :: "string \<Rightarrow> string \<Rightarrow> string" where
  "WithAction res action =
     (let action = trim_slashes action in
      if action = [] then res
      else if CHR '':'' \<in> set res then res @ '':/'' @ action
      else res @ slash # action)"

definition DeltaPath :: string where
  "DeltaPath = WithAction (ResourcePathByID ''root'') ''delta''"

definition client_URL :: "'w client \<Rightarrow> string \<Rightarrow> string \<Rightarrow> string" where
  "client_URL cli path query =
     (let base = trim_right_slashes (BaseURL cli);
          path = (if take 1 path = [slash] then path else slash # path);
          u = base @ path
      in if query = [] then u else u @ CHR ''?'' # query)"

section \<open>Links from the server\<close>

text \<open>
  The scheme and the host of \<^verbatim>\<open>url.Parse\<close>: a scheme is a letter followed by letters, digits, plus,
  minus or dot up to the first colon; the host is what follows the last at-sign of the authority.
\<close>

definition is_alpha :: "char \<Rightarrow> bool" where
  "is_alpha c \<longleftrightarrow> c \<in> set ''ABCDEFGHIJKLMNOPQRSTUVWXYZabcdefghijklmnopqrstuvwxyz''"

definition scheme_char :: "char \<Rightarrow> bool" where
  "scheme_char c \<longleftrightarrow> is_alpha c \<or> c \<in> set ''0123456789+-.''"

definition is_control :: "char \<Rightarrow> bool" where
  "is_control c \<longleftrightarrow> (of_char c :: nat) < 32 \<or> (of_char c :: nat) = 127"

definition url_scheme :: "string \<Rightarrow> (string \<times> string) option" where
  "url_scheme s =
     (let pre = takeWhile scheme_char s; rest = dropWhile scheme_char s in
      if rest \<noteq> [] \<and> hd rest = CHR '':'' then
        (if pre = [] then None else if is_alpha (hd pre) then Some (pre, tl rest) else Some ([], s))
      else Some ([], s))"

definition url_authority :: "string \<Rightarrow> string" where
  "url_authority rest =
     (let rest = takeWhile (\<lambda>c. c \<noteq> CHR ''#'' \<and> c \<noteq> CHR ''?'') rest in
      if take 2 rest = [slash, slash] then takeWhile (\<lambda>c. c \<noteq> slash) (drop 2 rest) else [])"

definition after_at :: "string \<Rightarrow> string" where
  "after_at s = rev (takeWhile (\<lambda>c. c \<noteq> CHR ''@'') (rev s))"

definition url_origin :: "string \<Rightarrow> (string \<times> string) option" where
  "url_origin s =
     (if list_ex is_control s then None
      else case url_scheme s of
             None \<Rightarrow> None
           | Some (sch, rest) \<Rightarrow> Some (sch, after_at (url_authority rest)))"

definition validateFollowURL :: "'w client \<Rightarrow> string \<Rightarrow> go_error option" where
  "validateFollowURL cli raw =
     (case url_origin (trim_right_slashes (BaseURL cli)) of
        None \<Rightarrow> Some (Plain ''invalid client base URL'')
      | Some (bs, bh) \<Rightarrow>
          (case url_origin raw of
             None \<Rightarrow> Some (Plain ''invalid pagination URL'')
           | Some (ts, th) \<Rightarrow>
               if \<not> EqualFold ts bs \<or> \<not> EqualFold th bh
               then Some (Plain ''pagination URL host does not match the Graph endpoint'') else None))"

definition isAbsoluteURL :: "string \<Rightarrow> bool" where
  "isAbsoluteURL link \<longleftrightarrow> take 4 link = ''http''"

definition absoluteURL :: "'w client \<Rightarrow> string \<Rightarrow> string" where
  "absoluteURL cli link = (if isAbsoluteURL link then link else client_URL cli link [])"

section \<open>Retries\<close>

fun error_text :: "go_error \<Rightarrow> string" where
  "error_text (Plain s) = s"
| "error_text (Sentinel _) = ''sentinel''"
| "error_text (Errno n) = errno_string n"
| "error_text (GraphErr _ code msg) = ''graph error ['' @ code @ ''] '' @ msg"
| "error_text (NetErr s _ _ None) = s"
| "error_text (NetErr s _ _ (Some e)) = s @ '': '' @ error_text e"
| "error_text (Wrap s e) = s @ '': '' @ error_text e"
| "error_text (Joined a b) = error_text a @ ''; '' @ error_text b"

text \<open>\<^verbatim>\<open>strconv.Atoi\<close>: an optional sign and decimal digits.\<close>

definition digit_value :: "char \<Rightarrow> int option" where
  "digit_value c = (let n = of_char c :: nat in if 48 \<le> n \<and> n \<le> 57 then Some (int n - 48) else None)"

fun digits_value :: "int \<Rightarrow> string \<Rightarrow> int option" where
  "digits_value acc [] = Some acc"
| "digits_value acc (c # cs) =
     (case digit_value c of None \<Rightarrow> None | Some d \<Rightarrow> digits_value (10 * acc + d) cs)"

definition Atoi :: "string \<Rightarrow> int option" where
  "Atoi s =
     (case s of
        [] \<Rightarrow> None
      | c # cs \<Rightarrow>
          let ds = (if c = CHR ''-'' \<or> c = CHR ''+'' then cs else s);
              v = (if ds = [] then None else digits_value 0 ds);
              v = map_option (\<lambda>n. if c = CHR ''-'' then - n else n) v
          in case v of
               Some n \<Rightarrow> if - (2 ^ 63) \<le> n \<and> n < 2 ^ 63 then Some n else None
             | None \<Rightarrow> None)"

definition header_get :: "string \<Rightarrow> (string \<times> string) list \<Rightarrow> string" where
  "header_get k hs = (case map_of hs k of Some v \<Rightarrow> v | None \<Rightarrow> [])"

definition retry_delay :: "nat \<Rightarrow> http_response option \<Rightarrow> duration" where
  "retry_delay attempt resp =
     (let d = second * 2 ^ attempt in
      case resp of
        None \<Rightarrow> d
      | Some r \<Rightarrow>
          (let ra = header_get ''Retry-After'' (rs_headers r) in
           if ra = [] then d else case Atoi ra of Some sec \<Rightarrow> sec * second | None \<Rightarrow> d))"

definition closed_body :: resp_body where
  "closed_body = ReadErrB [] (Plain ''http: read on closed response body'')"

function RetryDoer_Do :: "'w client \<Rightarrow> nat \<Rightarrow> http_request \<Rightarrow> 'w \<Rightarrow> (go_error + http_response) \<times> 'w" where
  "RetryDoer_Do cli attempt req w =
     (case c_do cli req w of
        (Inl e, left, w) \<Rightarrow>
          if graph_isNetworkError (Some e) (error_text e) \<and> attempt < c_maxRetries cli
          then RetryDoer_Do cli (attempt + 1) (req\<lparr>rq_body := left\<rparr>) (c_sleep cli (retry_delay attempt None) w)
          else (Inl e, w)
      | (Inr resp, left, w) \<Rightarrow>
          if rs_status resp \<noteq> 429 \<and> rs_status resp \<noteq> 503 then (Inr resp, w)
          else if attempt \<ge> c_maxRetries cli then (Inr resp, w)
          else if rq_body req \<noteq> None \<and> rq_GetBody req = None then (Inr (resp\<lparr>rs_body := closed_body\<rparr>), w)
          else
            (case rq_GetBody req of
               Some (Some e) \<Rightarrow> (Inl (Wrap ''cannot retry request: resetting the body failed'' e), w)
             | Some None \<Rightarrow>
                 RetryDoer_Do cli (attempt + 1) (req\<lparr>rq_body := map_option (\<lambda>(p, n). (p, 0)) left\<rparr>)
                   (c_sleep cli (retry_delay attempt (Some resp)) w)
             | None \<Rightarrow>
                 RetryDoer_Do cli (attempt + 1) (req\<lparr>rq_body := left\<rparr>)
                   (c_sleep cli (retry_delay attempt (Some resp)) w)))"
  by pat_completeness auto
termination
  by (relation "measure (\<lambda>(cli, attempt, req, w). c_maxRetries cli - attempt)") auto

declare RetryDoer_Do.simps [simp del]

definition client_Do :: "'w client \<Rightarrow> http_request \<Rightarrow> 'w \<Rightarrow> (go_error + http_response) \<times> 'w" where
  "client_Do cli = RetryDoer_Do cli 0"

section \<open>Error responses\<close>

text \<open>
  \<^verbatim>\<open>checkResponse\<close>: a body that is no JSON becomes the message, truncated after 200 bytes; JSON of
  another kind has no \<^verbatim>\<open>error\<close> field.
\<close>

definition byte_char :: "byte \<Rightarrow> char" where
  "byte_char b = char_of (unat b)"

definition checkResponse :: "http_response \<Rightarrow> go_error option" where
  "checkResponse resp =
     (if 200 \<le> rs_status resp \<and> rs_status resp < 300 then None
      else case rs_body resp of
             ReadErrB _ e \<Rightarrow> Some (GraphErr (rs_status resp) [] (''error reading response body: '' @ error_text e))
           | EmptyB \<Rightarrow> Some (GraphErr (rs_status resp) [] ''non-JSON response: '')
           | RawB bs \<Rightarrow>
               let s = map byte_char (take 10240 bs);
                   s = (if 200 < length s then take 200 s @ ''...'' else s)
               in Some (GraphErr (rs_status resp) [] (''non-JSON response: '' @ s))
           | ErrorB code msg \<Rightarrow> Some (GraphErr (rs_status resp) code msg)
           | _ \<Rightarrow> Some (GraphErr (rs_status resp) [] ''unknown Graph error (JSON without 'error' field)''))"

end
