(* ===== verification/Graph_Client.thy ===== *)
theory Graph_Client
  imports Graph_Http QuickXor_Hash
begin

text \<open>
  The operations of the Graph client on items (\<^verbatim>\<open>internal/graph/drive_item.go\<close>, \<^verbatim>\<open>items.go\<close>,
  \<^verbatim>\<open>children.go\<close>, \<^verbatim>\<open>delta.go\<close>, \<^verbatim>\<open>download.go\<close>, \<^verbatim>\<open>user.go\<close>).  Every operation threads the state of the
  outside world.  JSON decoding reads the fields it knows: a document of another kind decodes to
  the zero value, text that is no JSON is an error.  Paging and polling loops may follow the
  server for ever and are partial functions.  Offsets in a file are natural numbers, which is what
  64-bit integers do as long as the file is smaller than 2^63 bytes less one chunk.
\<close>

section \<open>Requests\<close>

definition validateResource :: "resource option \<Rightarrow> go_error option" where
  "validateResource r =
     (case r of None \<Rightarrow> Some (Sentinel ErrEmptyResource)
      | Some r \<Rightarrow> if IsEmpty r then Some (Sentinel ErrEmptyResource) else None)"

definition ifMatchHeaders :: "string \<Rightarrow> (string \<times> string) list" where
  "ifMatchHeaders etag = (if etag = [] then [] else [(''If-Match'', etag)])"

text \<open>\<open>body\<close> is the payload and whether \<^verbatim>\<open>http.NewRequest\<close> can rewind it.\<close>

definition doAuthenticatedRequestWithBody ::
  "'w client \<Rightarrow> string \<Rightarrow> string \<Rightarrow> (payload \<times> bool) option \<Rightarrow> string \<Rightarrow> (string \<times> string) list \<Rightarrow> 'w
     \<Rightarrow> (go_error + http_response) \<times> 'w" where
  "doAuthenticatedRequestWithBody cli method url body contentType extra w =
     (if list_ex is_control url then (Inl (Wrap ''error creating request'' (Plain ''invalid URL'')), w)
      else case c_token cli w of
        (Inl e, w) \<Rightarrow> (Inl (Wrap ''error obtaining access token'' e), w)
      | (Inr token, w) \<Rightarrow>
          let hs = [(''Authorization'', ''Bearer '' @ token), (''Accept'', ''application/json'')];
              hs = (if contentType = [] then hs else AList.update ''Content-Type'' contentType hs);
              hs = fold (\<lambda>(k, v) hs. AList.update k v hs) extra hs;
              req = \<lparr>rq_method = method, rq_url = url, rq_headers = hs,
                     rq_body = map_option (\<lambda>(p, _). (p, 0)) body,
                     rq_GetBody = (case body of Some (_, True) \<Rightarrow> Some None | _ \<Rightarrow> None)\<rparr>
          in case client_Do cli req w of
               (Inl e, w) \<Rightarrow> (Inl (Wrap ''network error querying Graph'' e), w)
             | (Inr resp, w) \<Rightarrow> (Inr resp, w))"

text \<open>The response of a JSON request after the status check.\<close>

definition doJSONRequest ::
  "(resp_body \<Rightarrow> go_error + 'a) \<Rightarrow> 'w client \<Rightarrow> string \<Rightarrow> string \<Rightarrow> payload option \<Rightarrow> (string \<times> string) list \<Rightarrow> 'w
     \<Rightarrow> (go_error + 'a) \<times> 'w" where
  "doJSONRequest decode cli method url body extra w =
     (case doAuthenticatedRequestWithBody cli method url (map_option (\<lambda>p. (p, True)) body) ''application/json'' extra w of
        (Inl e, w) \<Rightarrow> (Inl e, w)
      | (Inr resp, w) \<Rightarrow>
          (case checkResponse resp of
             Some e \<Rightarrow> (Inl e, w)
           | None \<Rightarrow>
               (case decode (rs_body resp) of
                  Inl e \<Rightarrow> (Inl (Wrap ''error parsing Graph response'' e), w)
                | Inr x \<Rightarrow> (Inr x, w))))"

fun undecodable :: "resp_body \<Rightarrow> go_error option" where
  "undecodable EmptyB = Some (Plain ''EOF'')"
| "undecodable (RawB _) = Some (Plain ''invalid character'')"
| "undecodable (ReadErrB _ e) = Some e"
| "undecodable _ = None"

definition decode_item :: "resp_body \<Rightarrow> go_error + drive_item" where
  "decode_item b =
     (case undecodable b of Some e \<Rightarrow> Inl e
      | None \<Rightarrow> Inr (case b of ItemB d \<Rightarrow> d | _ \<Rightarrow> zero_item))"

definition decode_page :: "resp_body \<Rightarrow> go_error + drive_item list \<times> string" where
  "decode_page b =
     (case undecodable b of Some e \<Rightarrow> Inl e
      | None \<Rightarrow> Inr (case b of PageB ds next \<Rightarrow> (ds, next) | _ \<Rightarrow> ([], [])))"

definition decode_session :: "resp_body \<Rightarrow> go_error + string" where
  "decode_session b =
     (case undecodable b of Some e \<Rightarrow> Inl e | None \<Rightarrow> Inr (case b of SessionB u \<Rightarrow> u | _ \<Rightarrow> []))"

section \<open>Items\<close>

definition GetItem :: "'w client \<Rightarrow> resource \<Rightarrow> 'w \<Rightarrow> (go_error + drive_item) \<times> 'w" where
  "GetItem cli r w =
     (case validateResource (Some r) of
        Some e \<Rightarrow> (Inl e, w)
      | None \<Rightarrow> doJSONRequest decode_item cli ''GET'' (client_URL cli (ResourcePath r) []) None [] w)"

definition CreateFolder :: "'w client \<Rightarrow> resource \<Rightarrow> string \<Rightarrow> 'w \<Rightarrow> (go_error + drive_item) \<times> 'w" where
  "CreateFolder cli parent name w =
     (case validateResource (Some parent) of
        Some e \<Rightarrow> (Inl e, w)
      | None \<Rightarrow>
          if name = [] then (Inl (Sentinel ErrEmptyName), w)
          else doJSONRequest decode_item cli ''POST''
                 (client_URL cli (WithAction (ResourcePath parent) ''children'') []) (Some (CreateFolderJ name)) [] w)"

definition DeleteItem :: "'w client \<Rightarrow> resource \<Rightarrow> string \<Rightarrow> 'w \<Rightarrow> go_error option \<times> 'w" where
  "DeleteItem cli r etag w =
     (case validateResource (Some r) of
        Some e \<Rightarrow> (Some e, w)
      | None \<Rightarrow>
          (case doAuthenticatedRequestWithBody cli ''DELETE'' (client_URL cli (ResourcePath r) []) None [] (ifMatchHeaders etag) w of
             (Inl e, w) \<Rightarrow> (Some e, w)
           | (Inr resp, w) \<Rightarrow> (checkResponse resp, w)))"

definition RenameItem :: "'w client \<Rightarrow> resource \<Rightarrow> string \<Rightarrow> string \<Rightarrow> 'w \<Rightarrow> (go_error + drive_item) \<times> 'w" where
  "RenameItem cli r newName etag w =
     (case validateResource (Some r) of
        Some e \<Rightarrow> (Inl e, w)
      | None \<Rightarrow>
          if newName = [] then (Inl (Sentinel ErrEmptyName), w)
          else doJSONRequest decode_item cli ''PATCH'' (client_URL cli (ResourcePath r) [])
                 (Some (RenameJ newName)) (ifMatchHeaders etag) w)"

definition MoveItem :: "'w client \<Rightarrow> resource \<Rightarrow> resource \<Rightarrow> string \<Rightarrow> 'w \<Rightarrow> (go_error + drive_item) \<times> 'w" where
  "MoveItem cli item newParent etag w =
     (case validateResource (Some item) of
        Some e \<Rightarrow> (Inl e, w)
      | None \<Rightarrow>
          (case validateResource (Some newParent) of
             Some e \<Rightarrow> (Inl e, w)
           | None \<Rightarrow>
               doJSONRequest decode_item cli ''PATCH'' (client_URL cli (ResourcePath item) [])
                 (Some (MoveJ (ParentReference newParent))) (ifMatchHeaders etag) w))"

definition CopyItem :: "'w client \<Rightarrow> resource \<Rightarrow> string \<Rightarrow> resource option \<Rightarrow> 'w \<Rightarrow> (go_error + string) \<times> 'w" where
  "CopyItem cli item newName newParent w =
     (case validateResource (Some item) of
        Some e \<Rightarrow> (Inl e, w)
      | None \<Rightarrow>
          let noParent = (case newParent of None \<Rightarrow> True | Some p \<Rightarrow> IsEmpty p) in
          if newName = [] \<and> noParent then (Inl (Plain ''at least newName or newParent must be specified''), w)
          else
            let parentRef = (if noParent then None else map_option ParentReference newParent) in
            (case doAuthenticatedRequestWithBody cli ''POST''
                (client_URL cli (WithAction (ResourcePath item) ''copy'') [])
                (Some (CopyJ newName parentRef, True)) ''application/json'' [] w of
               (Inl e, w) \<Rightarrow> (Inl e, w)
             | (Inr resp, w) \<Rightarrow>
                 (case checkResponse resp of
                    Some e \<Rightarrow> (Inl e, w)
                  | None \<Rightarrow>
                      if rs_status resp \<noteq> 202 then (Inl (Plain ''unexpected server response''), w)
                      else let loc = header_get ''Location'' (rs_headers resp) in
                           if loc = [] then (Inl (Plain ''202 response without Location header''), w)
                           else (Inr loc, w))))"

text \<open>A request without the token, as the polling and the chunk upload send them.\<close>

definition plain_request :: "string \<Rightarrow> string \<Rightarrow> (string \<times> string) list \<Rightarrow> payload option \<Rightarrow> http_request" where
  "plain_request method url hs body =
     \<lparr>rq_method = method, rq_url = url, rq_headers = hs, rq_body = map_option (\<lambda>p. (p, 0)) body,
      rq_GetBody = map_option (\<lambda>_. None) body\<rparr>"

partial_function (option) poll_async ::
  "'w client \<Rightarrow> string \<Rightarrow> duration \<Rightarrow> 'w \<Rightarrow> ((go_error + drive_item) \<times> 'w) option" where
  "poll_async cli url backoff w =
     (case c_done cli w of
        Some e \<Rightarrow> Some (Inl e, w)
      | None \<Rightarrow>
          if list_ex is_control url then Some (Inl (Wrap ''error creating monitoring request'' (Plain ''invalid URL'')), w)
          else case client_Do cli (plain_request ''GET'' url [] None) w of
            (Inl e, w) \<Rightarrow> Some (Inl (Wrap ''network error while monitoring'' e), w)
          | (Inr resp, w) \<Rightarrow>
              (case undecodable (rs_body resp) of
                 Some e \<Rightarrow> Some (Inl (Wrap ''error parsing operation status'' e), w)
               | None \<Rightarrow>
                   (case rs_body resp of
                      AsyncB status res err \<Rightarrow>
                        if status = ''completed'' then
                          Some (case res of
                             None \<Rightarrow> (Inl (Plain ''operation completed but without returned resource''), w)
                           | Some d \<Rightarrow> (Inr d, w))
                        else if status = ''failed'' then
                          Some (case err of
                             Some (code, msg) \<Rightarrow> (Inl (GraphErr 0 code msg), w)
                           | None \<Rightarrow> (Inl (Plain ''the asynchronous operation failed without detail''), w))
                        else if status = ''inProgress'' then
                          (let w = c_sleep cli backoff w in
                           case c_done cli w of
                             Some e \<Rightarrow> Some (Inl e, w)
                           | None \<Rightarrow> poll_async cli url (if backoff < 10 * PollBackoff cli then backoff * 2 else backoff) w)
                        else Some (Inl (Plain ''unknown operation status''), w)
                    | _ \<Rightarrow> Some (Inl (Plain ''unknown operation status''), w))))"

definition WaitForAsyncOperation :: "'w client \<Rightarrow> string \<Rightarrow> 'w \<Rightarrow> ((go_error + drive_item) \<times> 'w) option" where
  "WaitForAsyncOperation cli url w =
     (if url = [] then Some (Inl (Plain ''the monitoring URL cannot be empty''), w)
      else poll_async cli url (PollBackoff cli) w)"

section \<open>Listings\<close>

definition fetchDriveItemPage :: "'w client \<Rightarrow> string \<Rightarrow> 'w \<Rightarrow> (go_error + drive_item list \<times> string) \<times> 'w" where
  "fetchDriveItemPage cli url w = doJSONRequest decode_page cli ''GET'' url None [] w"

partial_function (option) listDriveItems ::
  "'w client \<Rightarrow> string \<Rightarrow> drive_item list \<Rightarrow> 'w \<Rightarrow> ((go_error + drive_item list) \<times> 'w) option" where
  "listDriveItems cli nextURL allItems w =
     (if nextURL = [] then Some (Inr allItems, w)
      else case c_done cli w of
        Some e \<Rightarrow> Some (Inl e, w)
      | None \<Rightarrow>
          (case fetchDriveItemPage cli nextURL w of
             (Inl e, w) \<Rightarrow> Some (Inl e, w)
           | (Inr (ds, next), w) \<Rightarrow>
               let next = (if next \<noteq> [] \<and> \<not> isAbsoluteURL next then absoluteURL cli next else next) in
               case (if next \<noteq> [] then validateFollowURL cli next else None) of
                 Some e \<Rightarrow> Some (Inl e, w)
               | None \<Rightarrow> listDriveItems cli next (allItems @ ds) w))"

definition ListChildren :: "'w client \<Rightarrow> resource \<Rightarrow> 'w \<Rightarrow> ((go_error + drive_item list) \<times> 'w) option" where
  "ListChildren cli r w =
     (case validateResource (Some r) of
        Some e \<Rightarrow> Some (Inl e, w)
      | None \<Rightarrow> listDriveItems cli (client_URL cli (WithAction (ResourcePath r) ''children'') ''%24top=200'') [] w)"

definition ListDriveRoot :: "'w client \<Rightarrow> 'w \<Rightarrow> ((go_error + drive_item list) \<times> 'w) option" where
  "ListDriveRoot cli w =
     listDriveItems cli (client_URL cli (WithAction (ResourcePathByID ''root'') ''children'') ''%24top=200'') [] w"

section \<open>Delta\<close>

definition PollDelta :: "'w client \<Rightarrow> string \<Rightarrow> 'w \<Rightarrow> (go_error + delta_item list \<times> string \<times> bool) \<times> 'w" where
  "PollDelta cli link w =
     (let reqURL = (if link = [] then client_URL cli DeltaPath [] else absoluteURL cli link) in
      case (if link = [] then None else validateFollowURL cli reqURL) of
        Some e \<Rightarrow> (Inl e, w)
      | None \<Rightarrow>
          (case doAuthenticatedRequestWithBody cli ''GET'' reqURL None [] [] w of
             (Inl e, w) \<Rightarrow> (Inl (Wrap ''error calling delta'' e), w)
           | (Inr resp, w) \<Rightarrow>
               (case checkResponse resp of
                  Some e \<Rightarrow> (Inl (Wrap ''error in delta response'' e), w)
                | None \<Rightarrow>
                    (case undecodable (rs_body resp) of
                       Some e \<Rightarrow> (Inl (Wrap ''error parsing delta response'' e), w)
                     | None \<Rightarrow>
                         let (vs, next, delta) =
                           (case rs_body resp of DeltaPageB vs next delta \<Rightarrow> (vs, next, delta) | _ \<Rightarrow> ([], [], []))
                         in if next \<noteq> [] then (Inr (vs, next, True), w) else (Inr (vs, delta, False), w)))))"

section \<open>Downloads\<close>

text \<open>The writer of a download takes everything, or fails once it has taken a number of bytes.\<close>

type_synonym writer = "(nat \<times> go_error) option"

definition copy_to :: "writer \<Rightarrow> bytes \<Rightarrow> bytes \<Rightarrow> bytes \<times> go_error option" where
  "copy_to wr written d =
     (case wr of
        None \<Rightarrow> (written @ d, None)
      | Some (k, e) \<Rightarrow>
          if length written + length d \<le> k then (written @ d, None)
          else (written @ take (k - length written) d, Some e))"

fun body_bytes :: "resp_body \<Rightarrow> bytes \<times> go_error option" where
  "body_bytes (RawB bs) = (bs, None)"
| "body_bytes (ReadErrB bs e) = (bs, Some e)"
| "body_bytes _ = ([], None)"

fun nat_digits :: "nat \<Rightarrow> string" where
  "nat_digits n = (if n < 10 then [char_of (48 + n)] else nat_digits (n div 10) @ [char_of (48 + n mod 10)])"

declare nat_digits.simps [simp del]

text \<open>One ranged request: what has been written in total, and the error.\<close>

definition downloadRange ::
  "'w client \<Rightarrow> string \<Rightarrow> nat \<Rightarrow> nat \<Rightarrow> writer \<Rightarrow> bytes \<Rightarrow> 'w \<Rightarrow> (bytes \<times> go_error option) \<times> 'w" where
  "downloadRange cli url start stop wr written w =
     (case doAuthenticatedRequestWithBody cli ''GET'' url None []
         [(''Range'', ''bytes='' @ nat_digits start @ ''-'' @ nat_digits stop)] w of
        (Inl e, w) \<Rightarrow> ((written, Some e), w)
      | (Inr resp, w) \<Rightarrow>
          (case checkResponse resp of
             Some e \<Rightarrow> ((written, Some e), w)
           | None \<Rightarrow>
               if rs_status resp \<noteq> 206 then ((written, Some (Plain ''unexpected response for Range'')), w)
               else if header_get ''Content-Range'' (rs_headers resp) = []
               then ((written, Some (Plain ''partial response without Content-Range header'')), w)
               else
                 let (d, rerr) = body_bytes (rs_body resp); (written', werr) = copy_to wr written d in
                 (case werr of
                    Some e \<Rightarrow> ((written', Some e), w)
                  | None \<Rightarrow>
                      (case rerr of
                         Some e \<Rightarrow> ((written', Some e), w)
                       | None \<Rightarrow>
                           if length written' - length written \<noteq> stop - start + 1
                           then ((written', Some (Plain ''incomplete chunk'')), w)
                           else ((written', None), w)))))"

definition downloadChunk :: nat where "downloadChunk = 10 * 1024 * 1024"

function download_loop ::
  "'w client \<Rightarrow> string \<Rightarrow> nat \<Rightarrow> writer \<Rightarrow> nat \<Rightarrow> bytes \<Rightarrow> 'w \<Rightarrow> (bytes \<times> go_error option) \<times> 'w" where
  "download_loop cli url fileSize wr start written w =
     (if fileSize \<le> start then ((written, None), w)
      else case c_done cli w of
        Some e \<Rightarrow> ((written, Some e), w)
      | None \<Rightarrow>
          let stop = (if start + downloadChunk - 1 \<ge> fileSize - 1 then fileSize - 1 else start + downloadChunk - 1) in
          (case downloadRange cli url start stop wr written w of
             ((written, Some e), w) \<Rightarrow> ((written, Some (Wrap ''error downloading chunk'' e)), w)
           | ((written, None), w) \<Rightarrow> download_loop cli url fileSize wr (start + downloadChunk) written w))"
  by pat_completeness auto
termination
  by (relation "measure (\<lambda>(cli, url, fileSize, wr, start, written, w). fileSize - start)")
     (auto simp: downloadChunk_def)

declare download_loop.simps [simp del]

definition GetItemContentStream :: "'w client \<Rightarrow> resource \<Rightarrow> writer \<Rightarrow> 'w \<Rightarrow> (bytes \<times> go_error option) \<times> 'w" where
  "GetItemContentStream cli r wr w =
     (case validateResource (Some r) of
        Some e \<Rightarrow> (([], Some e), w)
      | None \<Rightarrow>
          (case GetItem cli r w of
             (Inl e, w) \<Rightarrow> (([], Some (Wrap ''error getting item metadata'' e)), w)
           | (Inr item, w) \<Rightarrow>
               if 2 ^ 63 \<le> unat (di_Size item) then (([], Some (Plain ''file too large'')), w)
               else
                 (case download_loop cli (client_URL cli (WithAction (ResourcePath r) ''content'') [])
                      (unat (di_Size item)) wr 0 [] w of
                    ((written, Some e), w) \<Rightarrow> ((written, Some e), w)
                  | ((written, None), w) \<Rightarrow>
                      if (case di_File item of None \<Rightarrow> False | Some f \<Rightarrow> QuickXorHash (Hashes f) \<noteq> [])
                        \<and> \<not> VerifyChecksum (Some item) (SumQuickXORHash written)
                      then ((written, Some (Plain ''download integrity check failed: quickXorHash mismatch'')), w)
                      else ((written, None), w))))"

definition GetItemContent :: "'w client \<Rightarrow> resource \<Rightarrow> 'w \<Rightarrow> (go_error + bytes) \<times> 'w" where
  "GetItemContent cli r w =
     (case GetItemContentStream cli r None w of
        ((_, Some e), w) \<Rightarrow> (Inl e, w)
      | ((written, None), w) \<Rightarrow> (Inr written, w))"

section \<open>The user\<close>

definition GetUser :: "'w client \<Rightarrow> 'w \<Rightarrow> (go_error + user) \<times> 'w" where
  "GetUser cli w =
     (case doAuthenticatedRequestWithBody cli ''GET'' (BaseURL cli @ ''/me'') None [] [] w of
        (Inl e, w) \<Rightarrow> (Inl e, w)
      | (Inr resp, w) \<Rightarrow>
          (case checkResponse resp of
             Some e \<Rightarrow> (Inl e, w)
           | None \<Rightarrow>
               (case undecodable (rs_body resp) of
                  Some e \<Rightarrow> (Inl (Wrap ''error parsing Graph response'' e), w)
                | None \<Rightarrow>
                    let u = (case rs_body resp of UserB u \<Rightarrow> u | _ \<Rightarrow> \<lparr>usr_ID = [], usr_Name = []\<rparr>) in
                    if usr_ID u = [] then (Inl (Plain ''Graph response does not contain a valid user ID''), w)
                    else (Inr u, w))))"

end
