(* ===== verification/Graph_Upload.thy ===== *)
theory Graph_Upload
  imports Graph_Client
begin

text \<open>
  Uploads of the Graph client (\<^verbatim>\<open>internal/graph/upload.go\<close>): a simple PUT, and upload sessions that
  send the content in chunks of 320 KiB.  A source is the content still to be read and the error,
  if any, that reading it ends with.
\<close>

section \<open>Simple uploads\<close>

definition uploadItemResourcePath :: "resource \<Rightarrow> string \<Rightarrow> string" where
  "uploadItemResourcePath parent fileName =
     (case parent of
        ItemID i \<Rightarrow> ResourcePathByID i @ '':/'' @ PathEscape fileName
      | ItemPath p \<Rightarrow> ResourcePathByPath (p @ slash # fileName))"

text \<open>The body of a simple PUT is a reader that cannot be rewound.\<close>

definition putContent :: "'w client \<Rightarrow> string \<Rightarrow> bytes \<Rightarrow> string \<Rightarrow> 'w \<Rightarrow> (go_error + drive_item) \<times> 'w" where
  "putContent cli url content etag w =
     (case doAuthenticatedRequestWithBody cli ''PUT'' url (Some (Octets content, False))
         ''application/octet-stream'' (ifMatchHeaders etag) w of
        (Inl e, w) \<Rightarrow> (Inl e, w)
      | (Inr resp, w) \<Rightarrow>
          (case checkResponse resp of
             Some e \<Rightarrow> (Inl e, w)
           | None \<Rightarrow>
               (case decode_item (rs_body resp) of
                  Inl e \<Rightarrow> (Inl (Wrap ''error parsing Graph response'' e), w)
                | Inr d \<Rightarrow> (Inr d, w))))"

definition UploadItem ::
  "'w client \<Rightarrow> resource \<Rightarrow> string \<Rightarrow> bytes option \<Rightarrow> string \<Rightarrow> 'w \<Rightarrow> (go_error + drive_item) \<times> 'w" where
  "UploadItem cli parent fileName content etag w =
     (case validateResource (Some parent) of
        Some e \<Rightarrow> (Inl e, w)
      | None \<Rightarrow>
          if fileName = [] then (Inl (Plain ''file name cannot be empty''), w)
          else case content of
            None \<Rightarrow> (Inl (Plain ''content cannot be nil''), w)
          | Some bs \<Rightarrow>
              putContent cli (client_URL cli (WithAction (uploadItemResourcePath parent fileName) ''content'') []) bs etag w)"

definition OverwriteItem ::
  "'w client \<Rightarrow> ident \<Rightarrow> bytes option \<Rightarrow> string \<Rightarrow> 'w \<Rightarrow> (go_error + drive_item) \<times> 'w" where
  "OverwriteItem cli itemID content etag w =
     (if itemID = [] then (Inl (Plain ''item ID cannot be empty''), w)
      else case content of
        None \<Rightarrow> (Inl (Plain ''content cannot be nil''), w)
      | Some bs \<Rightarrow> putContent cli (client_URL cli (WithAction (ResourcePathByID itemID) ''content'') []) bs etag w)"

section \<open>Upload sessions\<close>

definition chunkSize :: nat where "chunkSize = 327680"

type_synonym source = "bytes \<times> go_error option"

text \<open>\<^verbatim>\<open>io.ReadFull\<close>: the chunk, or the error when the source ends before it.\<close>

definition ReadFull :: "nat \<Rightarrow> source \<Rightarrow> go_error + bytes \<times> source" where
  "ReadFull n = (\<lambda>(bs, err).
     if n \<le> length bs then Inr (take n bs, (drop n bs, err))
     else Inl (case err of Some e \<Rightarrow> e | None \<Rightarrow> Plain (if bs = [] then ''EOF'' else ''unexpected EOF'')))"

definition content_range :: "nat \<Rightarrow> nat \<Rightarrow> nat \<Rightarrow> string" where
  "content_range start stop fsize = ''bytes '' @ nat_digits start @ ''-'' @ nat_digits stop @ ''/'' @ nat_digits fsize"

definition chunk_request :: "string \<Rightarrow> nat \<Rightarrow> nat \<Rightarrow> nat \<Rightarrow> bytes \<Rightarrow> http_request" where
  "chunk_request url start stop fsize d = plain_request ''PUT'' url [(''Content-Range'', content_range start stop fsize)] (Some (Octets d))"

text \<open>The loop over the chunks: the item of the last response, if one came, and whether the session was committed.\<close>

function chunk_loop ::
  "'w client \<Rightarrow> string \<Rightarrow> nat \<Rightarrow> nat \<Rightarrow> source \<Rightarrow> 'w \<Rightarrow> (go_error + drive_item option) \<times> 'w" where
  "chunk_loop cli url fsize start src w =
     (if fsize \<le> start then (Inr None, w)
      else case c_done cli w of
        Some e \<Rightarrow> (Inl e, w)
      | None \<Rightarrow>
          let stop = (if start + chunkSize - 1 \<ge> fsize - 1 then fsize - 1 else start + chunkSize - 1) in
          (case ReadFull (stop - start + 1) src of
             Inl e \<Rightarrow> (Inl (Wrap ''error reading chunk'' e), w)
           | Inr (d, src) \<Rightarrow>
               if list_ex is_control url then (Inl (Wrap ''error creating chunk request'' (Plain ''invalid URL'')), w)
               else case client_Do cli (chunk_request url start stop fsize d) w of
                 (Inl e, w) \<Rightarrow> (Inl (Wrap ''network error uploading chunk'' e), w)
               | (Inr resp, w) \<Rightarrow>
                   if rs_status resp = 201 \<or> rs_status resp = 200 then
                     (case decode_item (rs_body resp) of
                        Inl e \<Rightarrow> (Inl (Wrap ''error parsing uploaded item'' e), w)
                      | Inr item \<Rightarrow> (Inr (Some item), w))
                   else if rs_status resp = 202 then chunk_loop cli url fsize (start + chunkSize) src w
                   else (Inl (Plain ''error uploading chunk''), w)))"
  by pat_completeness auto
termination
  by (relation "measure (\<lambda>(cli, url, fsize, start, src, w). fsize - start)") (auto simp: chunkSize_def)

declare chunk_loop.simps [simp del]

definition cancelUploadSession :: "'w client \<Rightarrow> string \<Rightarrow> 'w \<Rightarrow> 'w" where
  "cancelUploadSession cli url w =
     (if list_ex is_control url then w else snd (client_Do cli (plain_request ''DELETE'' url [] None) w))"

text \<open>A session that was not committed is cancelled by a goroutine, here at once.\<close>

definition uploadStream ::
  "'w client \<Rightarrow> string \<Rightarrow> payload option \<Rightarrow> source \<Rightarrow> nat \<Rightarrow> string \<Rightarrow> 'w \<Rightarrow> (go_error + drive_item) \<times> 'w" where
  "uploadStream cli sessionURL body src fsize etag w =
     (case doJSONRequest decode_session cli ''POST'' sessionURL body (ifMatchHeaders etag) w of
        (Inl e, w) \<Rightarrow> (Inl e, w)
      | (Inr url, w) \<Rightarrow>
          if url = [] then (Inl (Plain ''response does not contain uploadUrl''), w)
          else case chunk_loop cli url fsize 0 src w of
            (Inr (Some item), w) \<Rightarrow> (Inr item, w)
          | (Inr None, w) \<Rightarrow> (Inl (Plain ''DriveItem not received in the last chunk''), cancelUploadSession cli url w)
          | (Inl e, w) \<Rightarrow> (Inl e, cancelUploadSession cli url w))"

definition validateStreamInputs :: "source option \<Rightarrow> int \<Rightarrow> go_error option" where
  "validateStreamInputs content fileSize =
     (if content = None then Some (Plain ''content cannot be nil'')
      else if fileSize \<le> 0 then Some (Plain ''file size must be positive'') else None)"

definition UploadItemStream ::
  "'w client \<Rightarrow> resource \<Rightarrow> string \<Rightarrow> source option \<Rightarrow> int \<Rightarrow> string \<Rightarrow> 'w \<Rightarrow> (go_error + drive_item) \<times> 'w" where
  "UploadItemStream cli parent fileName content fileSize etag w =
     (case validateResource (Some parent) of
        Some e \<Rightarrow> (Inl e, w)
      | None \<Rightarrow>
          if fileName = [] then (Inl (Plain ''file name cannot be empty''), w)
          else case validateStreamInputs content fileSize of
            Some e \<Rightarrow> (Inl e, w)
          | None \<Rightarrow>
              uploadStream cli
                (client_URL cli (WithAction (uploadItemResourcePath parent fileName) ''createUploadSession'') [])
                (Some (UploadSessionJ ''rename'')) (the content) (nat fileSize) etag w)"

definition OverwriteItemStream ::
  "'w client \<Rightarrow> ident \<Rightarrow> source option \<Rightarrow> int \<Rightarrow> string \<Rightarrow> 'w \<Rightarrow> (go_error + drive_item) \<times> 'w" where
  "OverwriteItemStream cli itemID content fileSize etag w =
     (if itemID = [] then (Inl (Plain ''item ID cannot be empty''), w)
      else case validateStreamInputs content fileSize of
        Some e \<Rightarrow> (Inl e, w)
      | None \<Rightarrow>
          uploadStream cli (client_URL cli (WithAction (ResourcePathByID itemID) ''createUploadSession'') [])
            None (the content) (nat fileSize) etag w)"

end
