(* ===== verification/Upload_Session.thy ===== *)
theory Upload_Session
  imports Content_Cache Graph_Upload Cache_Persist
begin

text \<open>
  Upload sessions (\<^verbatim>\<open>internal/fs/upload_session.go\<close>): what is to be uploaded, as bytes or as a snapshot
  file, with the state of the upload, and the transfer object that is kept in BoltDB.  The mutex of
  a session guards single fields and each accessor is one step.  The name under which a conflicting
  remote version is preserved comes with the formatting of its time stamp.
\<close>

section \<open>Sessions\<close>

datatype uploadState = uploadPending | uploadUploading | uploadComplete | uploadErrored

record upload_session =
  us_ID :: ident
  us_ParentID :: ident
  us_Name :: string
  us_Data :: bytes
  us_SnapshotPath :: string
  us_Size :: int
  us_State :: uploadState
  us_Retries :: int
  us_LastErr :: string
  us_Transient :: bool
  us_nextRetry :: time

definition setState :: "uploadState \<Rightarrow> go_error option \<Rightarrow> upload_session \<Rightarrow> upload_session" where
  "setState st err us =
     (let us = us\<lparr>us_State := st\<rparr> in
      case err of None \<Rightarrow> us | Some e \<Rightarrow> us\<lparr>us_LastErr := error_text e\<rparr>)"

definition setTransient :: "bool \<Rightarrow> upload_session \<Rightarrow> upload_session" where
  "setTransient v us = us\<lparr>us_Transient := v\<rparr>"

definition setNextRetryAt :: "time \<Rightarrow> upload_session \<Rightarrow> upload_session" where
  "setNextRetryAt t us = us\<lparr>us_nextRetry := t\<rparr>"

text \<open>The zero value of the struct.\<close>

definition zero_session :: upload_session where
  "zero_session = \<lparr>us_ID = [], us_ParentID = [], us_Name = [], us_Data = [], us_SnapshotPath = [], us_Size = 0,
     us_State = uploadPending, us_Retries = 0, us_LastErr = [], us_Transient = False, us_nextRetry = zero_time\<rparr>"

definition NewUploadSession :: "ident \<Rightarrow> ident \<Rightarrow> string \<Rightarrow> bytes \<Rightarrow> go_error + upload_session" where
  "NewUploadSession i parentID name d =
     (if d = [] then Inl (Plain ''the data to upload cannot be empty'')
      else Inr (zero_session\<lparr>us_ID := i, us_ParentID := parentID, us_Name := name, us_Data := d\<rparr>))"

definition NewUploadSessionSnapshot ::
  "ident \<Rightarrow> ident \<Rightarrow> string \<Rightarrow> string \<Rightarrow> int \<Rightarrow> go_error + upload_session" where
  "NewUploadSessionSnapshot i parentID name snapshotPath sz =
     (if snapshotPath = [] then Inl (Plain ''the snapshot path cannot be empty'')
      else if sz \<le> 0 then Inl (Plain ''the snapshot size must be positive'')
      else Inr (zero_session\<lparr>us_ID := i, us_ParentID := parentID, us_Name := name,
                  us_SnapshotPath := snapshotPath, us_Size := sz\<rparr>))"

text \<open>
  \<^verbatim>\<open>OpenContent\<close>: a source over the snapshot, or over the bytes, with the size that goes with it.
  Reading the open snapshot may fail after some bytes.
\<close>

definition OpenContent :: "os_env \<Rightarrow> os_state \<Rightarrow> upload_session \<Rightarrow> go_error + source \<times> int" where
  "OpenContent E s us =
     (if us_SnapshotPath us \<noteq> [] then
        (let p = us_SnapshotPath us in
         case f_open E p of
           Some e \<Rightarrow> Inl (Wrap ''open upload snapshot'' e)
         | None \<Rightarrow>
             (case map_of (os_names s) p of
                None \<Rightarrow> Inl (Wrap ''open upload snapshot'' (Errno ENOENT))
              | Some i \<Rightarrow>
                  let d = of_data (os_files s i) in
                  Inr (case f_read E of None \<Rightarrow> (d, None) | Some (n, e) \<Rightarrow> (take n d, Some e), us_Size us)))
      else Inr ((us_Data us, None), int (length (us_Data us))))"

definition DiscardSnapshot :: "os_env \<Rightarrow> upload_session \<times> os_state \<Rightarrow> upload_session \<times> os_state" where
  "DiscardSnapshot E = (\<lambda>(us, s).
     let p = us_SnapshotPath us; us = us\<lparr>us_SnapshotPath := []\<rparr> in
     if p = [] then (us, s) else (us, snd (os_remove E p s)))"

section \<open>Persistence\<close>

record session_json =
  sj_id :: ident
  sj_parentID :: ident
  sj_name :: string
  sj_data :: bytes
  sj_snapshotPath :: string
  sj_size :: int
  sj_retries :: int
  sj_lastErr :: string
  sj_transient :: bool

definition session_AsJSON :: "upload_session \<Rightarrow> session_json" where
  "session_AsJSON us = \<lparr>sj_id = us_ID us, sj_parentID = us_ParentID us, sj_name = us_Name us, sj_data = us_Data us,
     sj_snapshotPath = us_SnapshotPath us, sj_size = us_Size us, sj_retries = us_Retries us,
     sj_lastErr = us_LastErr us, sj_transient = us_Transient us\<rparr>"

definition NewUploadSessionJSON :: "session_json bolt_value \<Rightarrow> go_error + upload_session" where
  "NewUploadSessionJSON v =
     (case v of
        SessionV j \<Rightarrow> Inr \<lparr>us_ID = sj_id j, us_ParentID = sj_parentID j, us_Name = sj_name j, us_Data = sj_data j,
          us_SnapshotPath = sj_snapshotPath j, us_Size = sj_size j, us_State = uploadPending, us_Retries = sj_retries j,
          us_LastErr = sj_lastErr j, us_Transient = sj_transient j, us_nextRetry = zero_time\<rparr>
      | _ \<Rightarrow> Inl (Plain ''invalid character''))"

section \<open>The name of a preserved conflict\<close>

text \<open>The date of a day number counted from the first of January 1970.\<close>

definition civil_date :: "int \<Rightarrow> int \<times> int \<times> int" where
  "civil_date days =
     (let z = days + 719468;
          era = z div 146097;
          doe = z - era * 146097;
          yoe = (doe - doe div 1460 + doe div 36524 - doe div 146096) div 365;
          doy = doe - (365 * yoe + yoe div 4 - yoe div 100);
          mp = (5 * doy + 2) div 153;
          d = doy - (153 * mp + 2) div 5 + 1;
          m = (if mp < 10 then mp + 3 else mp - 9);
          y = yoe + era * 400 + (if m \<le> 2 then 1 else 0)
      in (y, m, d))"

definition pad_digits :: "nat \<Rightarrow> int \<Rightarrow> string" where
  "pad_digits n k = (let s = nat_digits (nat k) in replicate (n - length s) (CHR ''0'') @ s)"

text \<open>\<^verbatim>\<open>t.Format("2006-01-02_15-04-05")\<close> in a zone that is \<open>zone\<close> seconds ahead of UTC.\<close>

definition format_stamp :: "int \<Rightarrow> time \<Rightarrow> string" where
  "format_stamp zone t =
     (let secs = time_unix t + zone; day = secs div 86400; r = secs mod 86400; (y, m, d) = civil_date day in
      pad_digits 4 y @ ''-'' @ pad_digits 2 m @ ''-'' @ pad_digits 2 d @ ''_'' @
      pad_digits 2 (r div 3600) @ ''-'' @ pad_digits 2 (r mod 3600 div 60) @ ''-'' @ pad_digits 2 (r mod 60))"

text \<open>The extension starts at the last dot, unless that is the first character.\<close>

definition split_ext :: "string \<Rightarrow> string \<times> string" where
  "split_ext name =
     (let ext = takeWhile (\<lambda>c. c \<noteq> CHR ''.'') (rev name); n = length name - length ext in
      if CHR ''.'' \<in> set name \<and> 1 < n then (take (n - 1) name, drop (n - 1) name) else (name, []))"

definition conflictName :: "int \<Rightarrow> string \<Rightarrow> time \<Rightarrow> string" where
  "conflictName zone name t =
     (let (base, ext) = split_ext name in base @ ''_conflict_'' @ format_stamp zone t @ ext)"

end
