(* ===== verification/Upload_Manager.thy ===== *)
theory Upload_Manager
  imports Upload_Session
begin

text \<open>
  The upload manager (\<^verbatim>\<open>internal/fs/upload_manager.go\<close>).  Sessions are shared objects: the map of the
  manager, its queue and the goroutines that upload hold addresses into a store, so that a change
  made through one of them is seen by the others.  A goroutine of \<^verbatim>\<open>executeUpload\<close> is a task that
  passes through three steps, between which the loop and the file system may act: it is launched,
  it has read what to upload, it holds the outcome of the upload.  The channels are lists; a send
  waits while a hundred messages are in the channel.
\<close>

section \<open>State\<close>

text \<open>The components of a mounted file system that its parts share.\<close>

record ('db, 'w) fs_world =
  fw_cache :: inode_cache
  fw_db :: 'db
  fw_cc :: content_cache
  fw_os :: os_state
  fw_net :: 'w

text \<open>What surrounds one step: BoltDB, the operating system with the time, the Graph client and the time zone.\<close>

record ('db, 'tx, 'w) fs_env =
  env_bolt :: "('db, 'tx, session_json) bolt_ops"
  env_os :: os_env
  env_cli :: "'w client"
  env_zone :: int

abbreviation env_now :: "('db, 'tx, 'w) fs_env \<Rightarrow> time" where
  "env_now E \<equiv> e_now (env_os E)"

type_synonym upload_outcome = "go_error + drive_item \<times> bool"

record upload_target =
  ut_id :: ident
  ut_isLocal :: bool
  ut_parentID :: ident
  ut_name :: string
  ut_etag :: string

datatype upload_task =
    Launched addr
  | Running addr upload_target
  | Uploaded addr upload_target upload_outcome

record upload_manager =
  um_queue :: "addr list"
  um_deletionQueue :: "ident list"
  um_store :: "upload_session list"
  um_sessions :: "(ident \<times> addr) list"
  um_inFlight :: int
  um_completed :: "64 word"
  um_failed :: "64 word"
  um_maxUploadsInFlight :: int
  um_maxUploadRetries :: int
  um_tasks :: "upload_task list"
  um_stopped :: bool

type_synonym ('db, 'w) um_state = "upload_manager \<times> ('db, 'w) fs_world"

definition defaultMaxUploadsInFlight :: int where "defaultMaxUploadsInFlight = 5"
definition defaultMaxUploadRetries :: int where "defaultMaxUploadRetries = 5"
definition maxRetryBackoff :: duration where "maxRetryBackoff = minute"
definition uploadTickerInterval :: duration where "uploadTickerInterval = 2 * second"

definition update_session :: "addr \<Rightarrow> (upload_session \<Rightarrow> upload_session) \<Rightarrow> upload_manager \<Rightarrow> upload_manager" where
  "update_session a f um = um\<lparr>um_store := (um_store um)[a := f (um_store um ! a)]\<rparr>"

section \<open>Persistence of sessions\<close>

definition persistSession ::
  "('db, 'tx, 'w) fs_env \<Rightarrow> ident \<Rightarrow> upload_session \<Rightarrow> ('db, 'w) fs_world \<Rightarrow> ('db, 'w) fs_world" where
  "persistSession E i us w =
     w\<lparr>fw_db := SaveUploadSession (env_bolt E) i (session_AsJSON us) (fw_cache w, fw_db w)\<rparr>"

definition forget_persisted ::
  "('db, 'tx, 'w) fs_env \<Rightarrow> ident \<Rightarrow> ('db, 'w) fs_world \<Rightarrow> ('db, 'w) fs_world" where
  "forget_persisted E i w = w\<lparr>fw_db := DeleteUploadSession (env_bolt E) i (fw_cache w, fw_db w)\<rparr>"

definition discard_at ::
  "('db, 'tx, 'w) fs_env \<Rightarrow> addr \<Rightarrow> ('db, 'w) um_state \<Rightarrow> ('db, 'w) um_state" where
  "discard_at E a = (\<lambda>(um, w).
     case DiscardSnapshot (env_os E) (um_store um ! a, fw_os w) of
       (us, s) \<Rightarrow> (update_session a (\<lambda>_. us) um, w\<lparr>fw_os := s\<rparr>))"

section \<open>Queueing\<close>

definition queue_capacity :: nat where "queue_capacity = 100"

definition QueueUpload ::
  "('db, 'tx, 'w) fs_env \<Rightarrow> ident \<Rightarrow> ident \<Rightarrow> string \<Rightarrow> ('db, 'w) um_state \<Rightarrow> bool \<times> ('db, 'w) um_state" where
  "QueueUpload E i parentID name = (\<lambda>(um, w).
     case Snapshot (env_os E) i (fw_cc w, fw_os w) of
       (Inl _, (c, s)) \<Rightarrow> (False, (um, w\<lparr>fw_cc := c, fw_os := s\<rparr>))
     | (Inr (p, n), (c, s)) \<Rightarrow>
         if n = 0 then (False, (um, w\<lparr>fw_cc := c, fw_os := s\<rparr>))
         else case NewUploadSessionSnapshot i parentID name p (int n) of
           Inl _ \<Rightarrow> (False, (um, w\<lparr>fw_cc := c, fw_os := snd (os_remove (env_os E) p s)\<rparr>))
         | Inr us \<Rightarrow>
             (True, (um\<lparr>um_store := um_store um @ [us], um_queue := um_queue um @ [length (um_store um)]\<rparr>,
                     w\<lparr>fw_cc := c, fw_os := s\<rparr>)))"

definition CancelUpload :: "ident \<Rightarrow> upload_manager \<Rightarrow> upload_manager" where
  "CancelUpload i um = um\<lparr>um_deletionQueue := um_deletionQueue um @ [i]\<rparr>"

definition HasPendingUpload :: "upload_manager \<Rightarrow> ident \<Rightarrow> bool" where
  "HasPendingUpload um i \<longleftrightarrow> map_of (um_sessions um) i \<noteq> None"

definition RenameSession ::
  "('db, 'tx, 'w) fs_env \<Rightarrow> ident \<Rightarrow> ident \<Rightarrow> string \<Rightarrow> ('db, 'w) um_state \<Rightarrow> ('db, 'w) um_state" where
  "RenameSession E i newParentID newName = (\<lambda>(um, w).
     case map_of (um_sessions um) i of
       None \<Rightarrow> (um, w)
     | Some a \<Rightarrow>
         let us = (um_store um ! a)\<lparr>us_Name := newName\<rparr>;
             us = (if newParentID \<noteq> [] then us\<lparr>us_ParentID := newParentID\<rparr> else us)
         in (update_session a (\<lambda>_. us) um, persistSession E i us w))"

section \<open>The loop\<close>

definition enqueueSession ::
  "('db, 'tx, 'w) fs_env \<Rightarrow> addr \<Rightarrow> ('db, 'w) um_state \<Rightarrow> ('db, 'w) um_state" where
  "enqueueSession E a = (\<lambda>(um, w).
     let i = us_ID (um_store um ! a);
         (um, w) = (case map_of (um_sessions um) i of
             None \<Rightarrow> (um, w)
           | Some old \<Rightarrow> discard_at E old (update_session old (setState uploadComplete None) um, w));
         um = um\<lparr>um_sessions := AList.update i a (um_sessions um)\<rparr>
     in (um, persistSession E i (um_store um ! a) w))"

definition finishSession ::
  "('db, 'tx, 'w) fs_env \<Rightarrow> ident \<Rightarrow> ('db, 'w) um_state \<Rightarrow> ('db, 'w) um_state" where
  "finishSession E i = (\<lambda>(um, w).
     case map_of (um_sessions um) i of
       None \<Rightarrow> (um, w)
     | Some a \<Rightarrow>
         (case discard_at E a (um\<lparr>um_sessions := AList.delete i (um_sessions um)\<rparr>, w) of
            (um, w) \<Rightarrow> (um, forget_persisted E i w)))"

definition inFlightCap :: "upload_manager \<Rightarrow> int" where
  "inFlightCap um = (if um_maxUploadsInFlight um \<le> 0 then defaultMaxUploadsInFlight else um_maxUploadsInFlight um)"

definition retryCap :: "upload_manager \<Rightarrow> int" where
  "retryCap um = (if um_maxUploadRetries um \<le> 0 then defaultMaxUploadRetries else um_maxUploadRetries um)"

definition launchIfCapacity :: "addr \<Rightarrow> upload_manager \<Rightarrow> upload_manager" where
  "launchIfCapacity a um =
     (if um_inFlight um \<ge> inFlightCap um then um
      else um\<lparr>um_inFlight := um_inFlight um + 1, um_tasks := um_tasks um @ [Launched a]\<rparr>)"

text \<open>The loop of \<^verbatim>\<open>backoffFor\<close>; the delay doubles until it reaches the maximum.\<close>

function backoff_loop :: "int \<Rightarrow> int \<Rightarrow> duration \<Rightarrow> duration" where
  "backoff_loop i retries d =
     (if i < retries \<and> d < maxRetryBackoff
      then let d = d * 2; d = (if d > maxRetryBackoff then maxRetryBackoff else d)
           in backoff_loop (i + 1) retries d
      else d)"
  by pat_completeness auto
termination by (relation "measure (\<lambda>(i, retries, d). nat (retries - i))") auto

declare backoff_loop.simps [simp del]

definition backoffFor :: "int \<Rightarrow> duration" where
  "backoffFor retries = backoff_loop 1 retries uploadTickerInterval"

text \<open>What the ticker does with one session.\<close>

definition process_session ::
  "('db, 'tx, 'w) fs_env \<Rightarrow> addr \<Rightarrow> ('db, 'w) um_state \<Rightarrow> ('db, 'w) um_state" where
  "process_session E a = (\<lambda>(um, w).
     let us = um_store um ! a in
     case us_State us of
       uploadPending \<Rightarrow> (launchIfCapacity a um, w)
     | uploadErrored \<Rightarrow>
         if env_now E < us_nextRetry us then (um, w)
         else
           let us = us\<lparr>us_Retries := us_Retries us + 1\<rparr>;
               um = update_session a (\<lambda>_. us) um
           in if us_Transient us then
                (launchIfCapacity a
                   (update_session a
                      (setState uploadPending None \<circ> setNextRetryAt (env_now E + backoffFor (us_Retries us))) um), w)
              else if us_Retries us > retryCap um then finishSession E (us_ID us) (um, w)
              else (launchIfCapacity a (update_session a (setState uploadPending None) um), w)
     | uploadComplete \<Rightarrow> finishSession E (us_ID us) (um, w)
     | uploadUploading \<Rightarrow> (um, w))"

text \<open>\<open>order\<close> is the order in which the map of sessions is visited.\<close>

definition processSessions ::
  "('db, 'tx, 'w) fs_env \<Rightarrow> addr list \<Rightarrow> ('db, 'w) um_state \<Rightarrow> ('db, 'w) um_state" where
  "processSessions E order st = fold (process_session E) order st"

section \<open>Uploading\<close>

definition parentResource :: "ident \<Rightarrow> resource" where
  "parentResource parentID = (if parentID = ''root'' \<or> parentID = [] then ItemPath ''/'' else ItemID parentID)"

definition simple_limit :: int where "simple_limit = 4 * 1024 * 1024"

definition doUpload ::
  "'w client \<Rightarrow> ident \<Rightarrow> bool \<Rightarrow> ident \<Rightarrow> string \<Rightarrow> source \<Rightarrow> int \<Rightarrow> string \<Rightarrow> 'w \<Rightarrow> (go_error + drive_item) \<times> 'w" where
  "doUpload cli i isLocal parentID name src sz etag w =
     (if \<not> isLocal then
        (if sz \<le> simple_limit then OverwriteItem cli i (Some (fst src)) etag w
         else OverwriteItemStream cli i (Some src) sz etag w)
      else
        (if sz \<le> simple_limit then UploadItem cli (parentResource parentID) name (Some (fst src)) etag w
         else UploadItemStream cli (parentResource parentID) name (Some src) sz etag w))"

text \<open>\<open>content\<close> is what the method value \<^verbatim>\<open>session.OpenContent\<close> returns; each call returns a new reader.\<close>

definition uploadAfterConflict ::
  "'w client \<Rightarrow> string \<Rightarrow> ident \<Rightarrow> ident \<Rightarrow> string \<Rightarrow> (go_error + source \<times> int) \<Rightarrow> 'w \<Rightarrow> upload_outcome \<times> 'w" where
  "uploadAfterConflict cli conflicted i parentID name content w =
     (case RenameItem cli (ItemID i) conflicted [] w of
        (_, w) \<Rightarrow>
          (case content of
             Inl e \<Rightarrow> (Inl (Wrap ''conflict: re-open upload snapshot'' e), w)
           | Inr (src, sz) \<Rightarrow>
               (case doUpload cli i True parentID name src sz [] w of
                  (Inl e, w) \<Rightarrow> (Inl (Wrap ''conflict: re-upload local version'' e), w)
                | (Inr item, w) \<Rightarrow> (Inr (item, True), w))))"

definition upload ::
  "'w client \<Rightarrow> string \<Rightarrow> upload_target \<Rightarrow> (go_error + source \<times> int) \<Rightarrow> 'w \<Rightarrow> upload_outcome \<times> 'w" where
  "upload cli conflicted t content w =
     (case content of
        Inl e \<Rightarrow> (Inl e, w)
      | Inr (src, sz) \<Rightarrow>
          (case doUpload cli (ut_id t) (ut_isLocal t) (ut_parentID t) (ut_name t) src sz (ut_etag t) w of
             (Inr item, w) \<Rightarrow> (Inr (item, ut_isLocal t), w)
           | (Inl e, w) \<Rightarrow>
               if \<not> ut_isLocal t \<and> errors_Is e ErrPreconditionFailed
               then uploadAfterConflict cli conflicted (ut_id t) (ut_parentID t) (ut_name t) content w
               else (Inl e, w)))"

definition applyInflightTargetChange ::
  "'w client \<Rightarrow> ident \<Rightarrow> string \<Rightarrow> string \<Rightarrow> ident \<Rightarrow> ident \<Rightarrow> 'w \<Rightarrow> go_error option \<times> 'w" where
  "applyInflightTargetChange cli i launchedName curName launchedParent curParent w =
     (case (if curName \<noteq> launchedName
            then case RenameItem cli (ItemID i) curName [] w of
                   (Inl e, w) \<Rightarrow> (Some (Wrap ''rename after in-flight upload'' e), w) | (Inr _, w) \<Rightarrow> (None, w)
            else (None, w)) of
        (Some e, w) \<Rightarrow> (Some e, w)
      | (None, w) \<Rightarrow>
          if curParent \<noteq> launchedParent
          then case MoveItem cli (ItemID i) (ItemID curParent) [] w of
                 (Inl e, w) \<Rightarrow> (Some (Wrap ''move after in-flight upload'' e), w) | (Inr _, w) \<Rightarrow> (None, w)
          else (None, w))"

section \<open>The goroutine of an upload\<close>

text \<open>It marks the session as uploading and reads what to upload.\<close>

definition exec_start :: "addr \<Rightarrow> ('db, 'w) um_state \<Rightarrow> upload_target \<times> ('db, 'w) um_state" where
  "exec_start a = (\<lambda>(um, w).
     let um = update_session a (setState uploadUploading None) um;
         us = um_store um ! a;
         i = us_ID us;
         isLocal = isLocalID i;
         etag = (if isLocal then [] else case Get (fw_cache w) i of None \<Rightarrow> [] | Some n \<Rightarrow> di_ETag (DriveItem n))
     in (\<lparr>ut_id = i, ut_isLocal = isLocal, ut_parentID = us_ParentID us, ut_name = us_Name us, ut_etag = etag\<rparr>, (um, w)))"

definition exec_upload ::
  "('db, 'tx, 'w) fs_env \<Rightarrow> addr \<Rightarrow> upload_target \<Rightarrow> ('db, 'w) um_state \<Rightarrow> upload_outcome \<times> ('db, 'w) um_state" where
  "exec_upload E a t = (\<lambda>(um, w).
     case upload (env_cli E) (conflictName (env_zone E) (ut_name t) (env_now E)) t
            (OpenContent (env_os E) (fw_os w) (um_store um ! a)) (fw_net w) of
       (r, net) \<Rightarrow> (r, (um, w\<lparr>fw_net := net\<rparr>)))"

text \<open>The inode takes over what the server returned.\<close>

definition take_remote :: "drive_item \<Rightarrow> inode \<Rightarrow> inode" where
  "take_remote item n = n\<lparr>DriveItem := (DriveItem n)\<lparr>di_ETag := di_ETag item, di_Size := di_Size item, di_ModTime := di_ModTime item\<rparr>\<rparr>"

definition store_uploaded :: "upload_target \<Rightarrow> drive_item \<Rightarrow> bool \<Rightarrow> inode_cache \<Rightarrow> inode_cache" where
  "store_uploaded t item createdNew c =
     (if createdNew
      then MoveID (ut_id t) (di_ID item) (mutate (ut_id t) (\<lambda>n. set_id (di_ID item) (take_remote item n)) c)
      else mutate (ut_id t) (take_remote item) c)"

definition releaseInFlight :: "upload_manager \<Rightarrow> upload_manager" where
  "releaseInFlight um = (if um_inFlight um > 0 then um\<lparr>um_inFlight := um_inFlight um - 1\<rparr> else um)"

definition exec_finish ::
  "('db, 'tx, 'w) fs_env \<Rightarrow> addr \<Rightarrow> upload_target \<Rightarrow> upload_outcome \<Rightarrow> ('db, 'w) um_state \<Rightarrow> ('db, 'w) um_state" where
  "exec_finish E a t r = (\<lambda>(um, w).
     case r of
       Inl e \<Rightarrow>
         (releaseInFlight
            (update_session a (setTransient (fs_isNetworkError (Some e)) \<circ> setState uploadErrored (Some e)) um)
              \<lparr>um_failed := um_failed um + 1\<rparr>, w)
     | Inr (item, createdNew) \<Rightarrow>
         let c = Invalidate (env_now E) (ut_parentID t) (store_uploaded t item createdNew (fw_cache w));
             us = um_store um ! a;
             net = (if us_Name us \<noteq> ut_name t \<or> us_ParentID us \<noteq> ut_parentID t
                    then snd (applyInflightTargetChange (env_cli E) (di_ID item) (ut_name t) (us_Name us)
                                (ut_parentID t) (us_ParentID us) (fw_net w))
                    else fw_net w)
         in (releaseInFlight (update_session a (setState uploadComplete None) um)
               \<lparr>um_completed := um_completed um + 1\<rparr>, w\<lparr>fw_cache := c, fw_net := net\<rparr>))"

text \<open>The goroutine from start to end, when nothing else happens meanwhile.\<close>

definition executeUpload ::
  "('db, 'tx, 'w) fs_env \<Rightarrow> addr \<Rightarrow> ('db, 'w) um_state \<Rightarrow> ('db, 'w) um_state" where
  "executeUpload E a st =
     (case exec_start a st of (t, st) \<Rightarrow> case exec_upload E a t st of (r, st) \<Rightarrow> exec_finish E a t r st)"

section \<open>Start and restart\<close>

text \<open>A restored session is pending: its state is not part of the JSON document.\<close>

fun restore_loop ::
  "('db, 'tx, 'w) fs_env \<Rightarrow> (ident \<times> session_json bolt_value) list \<Rightarrow> ('db, 'w) um_state \<Rightarrow> ('db, 'w) um_state" where
  "restore_loop E [] st = st"
| "restore_loop E ((i, v) # rest) (um, w) =
     (case NewUploadSessionJSON v of
        Inl _ \<Rightarrow> restore_loop E rest (um, forget_persisted E i w)
      | Inr us \<Rightarrow>
          if us_State us \<noteq> uploadComplete
          then restore_loop E rest
                 (um\<lparr>um_store := um_store um @ [setState uploadPending None us],
                     um_sessions := AList.update i (length (um_store um)) (um_sessions um)\<rparr>, w)
          else case DiscardSnapshot (env_os E) (us, fw_os w) of
                 (_, s) \<Rightarrow> restore_loop E rest (um, forget_persisted E i (w\<lparr>fw_os := s\<rparr>)))"

definition restoreIncompleteSessions ::
  "('db, 'tx, 'w) fs_env \<Rightarrow> ('db, 'w) um_state \<Rightarrow> ('db, 'w) um_state" where
  "restoreIncompleteSessions E = (\<lambda>(um, w).
     restore_loop E (LoadUploadSessions (env_bolt E) (fw_cache w, fw_db w)) (um, w))"

definition NewUploadManager ::
  "('db, 'tx, 'w) fs_env \<Rightarrow> int \<Rightarrow> int \<Rightarrow> ('db, 'w) fs_world \<Rightarrow> ('db, 'w) um_state" where
  "NewUploadManager E inFlight retries w =
     restoreIncompleteSessions E
       (\<lparr>um_queue = [], um_deletionQueue = [], um_store = [], um_sessions = [], um_inFlight = 0,
         um_completed = 0, um_failed = 0,
         um_maxUploadsInFlight = (if inFlight \<le> 0 then defaultMaxUploadsInFlight else inFlight),
         um_maxUploadRetries = (if retries \<le> 0 then defaultMaxUploadRetries else retries),
         um_tasks = [], um_stopped = False\<rparr>, w)"

end
