(* ===== verification/Upload_Inv.thy ===== *)
theory Upload_Inv
  imports Upload_Manager
begin

text \<open>
  The upload manager as a state machine: every interleaving of the file system's calls, the loop and
  the goroutines, and the invariant of its slots, its registry and the addresses it holds.
\<close>

section \<open>Steps\<close>

text \<open>
  Every step has its own environment, hence its own time and failures.  The send on a channel waits
  for room.
\<close>

inductive um_step :: "('db, 'tx, 'w) fs_env \<Rightarrow> ('db, 'w) um_state \<Rightarrow> ('db, 'w) um_state \<Rightarrow> bool" for E where
  queue: "length (um_queue um) < queue_capacity \<Longrightarrow> QueueUpload E i p n (um, w) = (b, st) \<Longrightarrow> um_step E (um, w) st"
| cancel: "length (um_deletionQueue um) < queue_capacity \<Longrightarrow> um_step E (um, w) (CancelUpload i um, w)"
| rename: "um_step E st (RenameSession E i p n st)"
| enqueue: "\<not> um_stopped um \<Longrightarrow> um_queue um = a # q \<Longrightarrow>
    um_step E (um, w) (enqueueSession E a (um\<lparr>um_queue := q\<rparr>, w))"
| drop: "\<not> um_stopped um \<Longrightarrow> um_deletionQueue um = i # q \<Longrightarrow>
    um_step E (um, w) (finishSession E i (um\<lparr>um_deletionQueue := q\<rparr>, w))"
| tick: "\<not> um_stopped um \<Longrightarrow> mset order = mset (map snd (um_sessions um)) \<Longrightarrow>
    um_step E (um, w) (processSessions E order (um, w))"
| start: "um_tasks um = ts @ Launched a # ts' \<Longrightarrow>
    exec_start a (um\<lparr>um_tasks := ts @ Running a t # ts'\<rparr>, w) = (t, st) \<Longrightarrow> um_step E (um, w) st"
| run: "um_tasks um = ts @ Running a t # ts' \<Longrightarrow>
    exec_upload E a t (um\<lparr>um_tasks := ts @ Uploaded a t r # ts'\<rparr>, w) = (r, st) \<Longrightarrow> um_step E (um, w) st"
| finish: "um_tasks um = ts @ Uploaded a t r # ts' \<Longrightarrow>
    um_step E (um, w) (exec_finish E a t r (um\<lparr>um_tasks := ts @ ts'\<rparr>, w))"
| stop: "um_step E (um, w) (um\<lparr>um_stopped := True\<rparr>, w)"

text \<open>A database in which every session is stored under its own identifier.\<close>

definition sessions_keyed :: "(ident \<times> session_json bolt_value) list \<Rightarrow> bool" where
  "sessions_keyed vs \<longleftrightarrow> (\<forall>(i, v) \<in> set vs. \<forall>j. v = SessionV j \<longrightarrow> sj_id j = i)"

text \<open>\<open>others\<close> is what the rest of the program does to the shared components between two steps.\<close>

inductive um_reach :: "('db, 'tx, 'w) fs_env set \<Rightarrow> ('db, 'w) um_state \<Rightarrow> bool" for Es where
  new: "E \<in> Es \<Longrightarrow> sessions_keyed (LoadUploadSessions (env_bolt E) (fw_cache w, fw_db w)) \<Longrightarrow>
    um_reach Es (NewUploadManager E n m w)"
| step: "um_reach Es st \<Longrightarrow> E \<in> Es \<Longrightarrow> um_step E st st' \<Longrightarrow> um_reach Es st'"
| others: "um_reach Es (um, w) \<Longrightarrow> um_reach Es (um, w')"

section \<open>The invariant\<close>

fun task_addr :: "upload_task \<Rightarrow> addr" where
  "task_addr (Launched a) = a"
| "task_addr (Running a t) = a"
| "task_addr (Uploaded a t r) = a"

definition slots_ok :: "upload_manager \<Rightarrow> bool" where
  "slots_ok um \<longleftrightarrow> um_inFlight um = int (length (um_tasks um)) \<and> um_inFlight um \<le> inFlightCap um"

definition registry_ok :: "upload_manager \<Rightarrow> bool" where
  "registry_ok um \<longleftrightarrow> distinct (map fst (um_sessions um)) \<and> distinct (um_queue um @ map snd (um_sessions um)) \<and>
     (\<forall>a \<in> set (um_queue um). a < length (um_store um)) \<and>
     (\<forall>t \<in> set (um_tasks um). task_addr t < length (um_store um)) \<and>
     (\<forall>(i, a) \<in> set (um_sessions um). a < length (um_store um) \<and> us_ID (um_store um ! a) = i)"

definition um_ok :: "upload_manager \<Rightarrow> bool" where
  "um_ok um \<longleftrightarrow> slots_ok um \<and> registry_ok um"

section \<open>Changes of single sessions\<close>

lemma inFlightCap_simps [simp]:
  "inFlightCap (update_session a f um) = inFlightCap um"
  "inFlightCap (um\<lparr>um_sessions := m\<rparr>) = inFlightCap um" "inFlightCap (um\<lparr>um_queue := q\<rparr>) = inFlightCap um"
  "inFlightCap (um\<lparr>um_store := st\<rparr>) = inFlightCap um" "inFlightCap (um\<lparr>um_tasks := ts\<rparr>) = inFlightCap um"
  "inFlightCap (um\<lparr>um_inFlight := n\<rparr>) = inFlightCap um" "inFlightCap (um\<lparr>um_deletionQueue := is\<rparr>) = inFlightCap um"
  "inFlightCap (um\<lparr>um_failed := k\<rparr>) = inFlightCap um" "inFlightCap (um\<lparr>um_completed := k\<rparr>) = inFlightCap um"
  "inFlightCap (um\<lparr>um_stopped := b\<rparr>) = inFlightCap um"
  by (simp_all add: inFlightCap_def update_session_def)

lemma update_session_simps [simp]:
  "um_queue (update_session a f um) = um_queue um" "um_sessions (update_session a f um) = um_sessions um"
  "um_tasks (update_session a f um) = um_tasks um" "um_inFlight (update_session a f um) = um_inFlight um"
  "um_maxUploadRetries (update_session a f um) = um_maxUploadRetries um"
  "length (um_store (update_session a f um)) = length (um_store um)"
  "um_store (update_session a f um) ! b =
     (if b = a \<and> a < length (um_store um) then f (um_store um ! a) else um_store um ! b)"
  by (auto simp: update_session_def nth_list_update list_update_beyond)

lemma setters_ID [simp]:
  "us_ID (setState st err us) = us_ID us" "us_ID (setTransient v us) = us_ID us" "us_ID (setNextRetryAt t us) = us_ID us"
  by (simp_all add: setState_def setTransient_def setNextRetryAt_def Let_def split: option.split)

lemma um_ok_update:
  assumes "um_ok um" "us_ID (f (um_store um ! a)) = us_ID (um_store um ! a)"
  shows "um_ok (update_session a f um)"
  using assms by (auto simp: um_ok_def slots_ok_def registry_ok_def)

lemma um_ok_discard:
  assumes "um_ok um" "discard_at E a (um, w) = (um', w')"
  shows "um_ok um'" "um_tasks um' = um_tasks um" "um_queue um' = um_queue um" "um_sessions um' = um_sessions um"
    "length (um_store um') = length (um_store um)" "us_ID (um_store um' ! b) = us_ID (um_store um ! b)"
  using assms
  by (auto simp: discard_at_def DiscardSnapshot_def Let_def split: prod.splits if_splits intro!: um_ok_update)

section \<open>Every operation keeps the invariant\<close>

lemma um_ok_queue:
  assumes "um_ok um" "QueueUpload E i p n (um, w) = (b, (um', w'))"
  shows "um_ok um'"
proof -
  consider "um' = um"
    | us where "um' = um\<lparr>um_store := um_store um @ [us], um_queue := um_queue um @ [length (um_store um)]\<rparr>"
    using assms(2) by (auto simp: QueueUpload_def split: prod.splits sum.splits if_splits)
  then show ?thesis
  proof cases
    case 2
    have "length (um_store um) \<notin> set (um_queue um)" "length (um_store um) \<notin> snd ` set (um_sessions um)"
      using assms(1) unfolding um_ok_def registry_ok_def by auto
    then show ?thesis using assms(1) unfolding 2
      by (auto simp: um_ok_def slots_ok_def registry_ok_def nth_append)
  qed (use assms in simp)
qed

lemma um_ok_rename:
  assumes "um_ok um" shows "um_ok (fst (RenameSession E i p n (um, w)))"
  using assms by (auto simp: RenameSession_def Let_def split: option.splits intro!: um_ok_update)

lemma set_update_subset: "set (AList.update i a m) \<subseteq> insert (i, a) (set m)"
  by (induction m) auto

lemma distinct_snd_update:
  "distinct (map snd m) \<Longrightarrow> a \<notin> snd ` set m \<Longrightarrow> distinct (map snd (AList.update i a m))"
proof (induction m)
  case (Cons x m)
  then show ?case using set_update_subset [of i a m] by (cases x) (auto dest!: subsetD)
qed simp

lemma um_ok_register:
  assumes ok: "um_ok um" and a: "a < length (um_store um)" "a \<notin> set (um_queue um)" "a \<notin> snd ` set (um_sessions um)"
    and i: "i = us_ID (um_store um ! a)"
  shows "um_ok (um\<lparr>um_sessions := AList.update i a (um_sessions um)\<rparr>)"
proof -
  let ?m = "AList.update i a (um_sessions um)"
  have reg: "registry_ok um" using ok by (simp add: um_ok_def)
  have "snd ` set ?m \<subseteq> insert a (snd ` set (um_sessions um))" using set_update_subset [of i a "um_sessions um"] by force
  then have "set (um_queue um) \<inter> snd ` set ?m = {}" using reg a(2) by (auto simp: registry_ok_def)
  moreover have "distinct (map snd ?m)" using reg a(3) by (auto simp: registry_ok_def intro: distinct_snd_update)
  moreover have "distinct (map fst ?m)" using reg by (simp add: registry_ok_def distinct_update)
  moreover have "\<forall>(j, b) \<in> set ?m. b < length (um_store um) \<and> us_ID (um_store um ! b) = j"
    using reg a(1) i set_update_subset [of i a "um_sessions um"] by (auto simp: registry_ok_def dest!: subsetD)
  ultimately show ?thesis using ok by (simp add: um_ok_def slots_ok_def registry_ok_def)
qed

lemma um_ok_dequeue: "um_ok um \<Longrightarrow> um_queue um = a # q \<Longrightarrow> um_ok (um\<lparr>um_queue := q\<rparr>)"
  by (auto simp: um_ok_def slots_ok_def registry_ok_def)

lemma um_ok_unregister: "um_ok um \<Longrightarrow> um_ok (um\<lparr>um_sessions := AList.delete i (um_sessions um)\<rparr>)"
proof -
  assume ok: "um_ok um"
  have "set (AList.delete i (um_sessions um)) \<subseteq> set (um_sessions um)" by (simp add: AList.delete_eq)
  moreover have "distinct (map snd (AList.delete i (um_sessions um)))"
    using ok by (auto simp: um_ok_def registry_ok_def AList.delete_eq intro: distinct_map_filter)
  moreover have "snd ` set (AList.delete i (um_sessions um)) \<subseteq> snd ` set (um_sessions um)"
    by (auto simp: AList.delete_eq)
  ultimately show ?thesis
    using ok distinct_delete [of "um_sessions um" i] unfolding um_ok_def slots_ok_def registry_ok_def
    by (simp, blast)
qed

lemma um_ok_enqueue:
  assumes ok: "um_ok um" and q: "um_queue um = a # q"
  shows "um_ok (fst (enqueueSession E a (um\<lparr>um_queue := q\<rparr>, w)))"
proof -
  let ?um = "um\<lparr>um_queue := q\<rparr>"
  have reg: "registry_ok um" using ok by (simp add: um_ok_def)
  define i where "i = us_ID (um_store um ! a)"
  define d where "d = (case map_of (um_sessions um) i of None \<Rightarrow> (?um, w)
      | Some old \<Rightarrow> discard_at E old (update_session old (setState uploadComplete None) ?um, w))"
  obtain um1 w1 where d1: "d = (um1, w1)" by fastforce
  have "um_ok um1 \<and> um_queue um1 = q \<and> um_sessions um1 = um_sessions um \<and>
      length (um_store um1) = length (um_store um) \<and> (\<forall>b. us_ID (um_store um1 ! b) = us_ID (um_store um ! b))"
  proof (cases "map_of (um_sessions um) i")
    case None
    then show ?thesis using d1 um_ok_dequeue [OF ok q] by (auto simp: d_def)
  next
    case (Some old)
    have o: "um_ok (update_session old (setState uploadComplete None) ?um)"
      by (rule um_ok_update [OF um_ok_dequeue [OF ok q]]) simp
    show ?thesis using um_ok_discard [OF o, of E old w um1 w1] Some d1 by (auto simp: d_def)
  qed
  then have "um_ok (um1\<lparr>um_sessions := AList.update i a (um_sessions um1)\<rparr>)"
    using reg q by (intro um_ok_register) (auto simp: registry_ok_def i_def)
  moreover have "enqueueSession E a (?um, w) =
      (um1\<lparr>um_sessions := AList.update i a (um_sessions um1)\<rparr>, persistSession E i (um_store um1 ! a) w1)"
    using d1 unfolding d_def i_def by (simp add: enqueueSession_def Let_def)
  ultimately show ?thesis by simp
qed

lemma um_ok_finish:
  assumes "um_ok um" shows "um_ok (fst (finishSession E i (um, w)))"
  using um_ok_discard(1) [OF um_ok_unregister [OF assms, of i]] assms
  by (auto simp: finishSession_def split: option.splits prod.splits)

lemma um_ok_launch: "um_ok um \<Longrightarrow> a < length (um_store um) \<Longrightarrow> um_ok (launchIfCapacity a um)"
  by (auto simp: launchIfCapacity_def um_ok_def slots_ok_def registry_ok_def)

lemma finish_store: "length (um_store (fst (finishSession E i (um, w)))) = length (um_store um)"
  by (auto simp: finishSession_def discard_at_def split: option.splits prod.splits)

lemma process_store: "length (um_store (fst (process_session E a st))) = length (um_store (fst st))"
  by (cases st) (auto simp: process_session_def Let_def launchIfCapacity_def finish_store split: uploadState.split)

lemma um_ok_process:
  assumes "um_ok um" "a < length (um_store um)"
  shows "um_ok (fst (process_session E a (um, w)))"
proof -
  define us where "us = (um_store um ! a)\<lparr>us_Retries := us_Retries (um_store um ! a) + 1\<rparr>"
  let ?um = "update_session a (\<lambda>_. us) um"
  have ok: "um_ok ?um" by (rule um_ok_update [OF assms(1)]) (simp add: us_def)
  have "um_ok (launchIfCapacity a (update_session a f ?um))" if "\<And>us. us_ID (f us) = us_ID us" for f
    by (rule um_ok_launch [OF um_ok_update [OF ok]]) (use that assms(2) in auto)
  then show ?thesis
    using um_ok_launch [OF assms] um_ok_finish [OF assms(1), of E _ w] um_ok_finish [OF ok, of E _ w] assms(1)
    by (simp add: process_session_def Let_def us_def [symmetric] comp_def split: uploadState.split)
qed

lemma um_ok_tick:
  assumes ok: "um_ok um" and order: "set order \<subseteq> snd ` set (um_sessions um)"
  shows "um_ok (fst (processSessions E order (um, w)))"
proof -
  have "\<forall>a \<in> snd ` set (um_sessions um). a < length (um_store um)" using ok by (auto simp: um_ok_def registry_ok_def)
  then have a: "a \<in> set order \<Longrightarrow> a < length (um_store um)" for a using order by blast
  define P where "P st \<longleftrightarrow> um_ok (fst st) \<and> length (um_store (fst st)) = length (um_store um)" for st :: "('a, 'b) um_state"
  have "P (fold (process_session E) order (um, w))"
  proof (rule fold_invariant_step [where P = P])
    fix b st assume "b \<in> set order" "P st"
    then show "P (process_session E b st)"
      using um_ok_process [of "fst st" b E "snd st"] a by (simp add: P_def process_store)
  qed (use ok in \<open>simp add: P_def\<close>)
  then show ?thesis by (simp add: processSessions_def P_def)
qed

section \<open>The goroutines\<close>

lemma um_ok_task:
  assumes "um_ok um" "um_tasks um = ts @ t # ts'" "task_addr t' = task_addr t"
  shows "um_ok (um\<lparr>um_tasks := ts @ t' # ts'\<rparr>)"
  using assms by (auto simp: um_ok_def slots_ok_def registry_ok_def)

lemma um_ok_release:
  assumes "um_ok um" "um_tasks um = ts @ t # ts'"
    and "\<And>us. us_ID (f us) = us_ID us"
  shows "um_ok ((releaseInFlight (update_session a f (um\<lparr>um_tasks := ts @ ts'\<rparr>)))\<lparr>um_failed := x\<rparr>)"
    "um_ok ((releaseInFlight (update_session a f (um\<lparr>um_tasks := ts @ ts'\<rparr>)))\<lparr>um_completed := x\<rparr>)"
  using assms by (auto simp: um_ok_def slots_ok_def registry_ok_def releaseInFlight_def)

lemma um_ok_exec_finish:
  assumes "um_ok um" "um_tasks um = ts @ t0 # ts'"
  shows "um_ok (fst (exec_finish E a t r (um\<lparr>um_tasks := ts @ ts'\<rparr>, w)))"
proof -
  show ?thesis
    using um_ok_release(2) [OF assms, where f = "setState uploadComplete None" and a = a and x = "um_completed um + 1"]
      um_ok_release(1) [OF assms, where f = "\<lambda>us. setTransient v (setState uploadErrored e us)" and a = a
        and x = "um_failed um + 1" for v e]
    by (auto simp: exec_finish_def update_session_def comp_def Let_def split: sum.split prod.split)
qed

lemma restore_ok:
  assumes "um_ok um" "um_tasks um = []" "um_queue um = []" "sessions_keyed vs"
  shows "um_ok (fst (restore_loop E vs (um, w)))"
  using assms
proof (induction vs arbitrary: um w)
  case (Cons x vs)
  obtain i v where x: "x = (i, v)" by fastforce
  have keyed: "sessions_keyed vs" using Cons.prems by (auto simp: sessions_keyed_def)
  show ?case
  proof (cases "NewUploadSessionJSON v")
    case (Inl e)
    then show ?thesis using Cons.IH [OF Cons.prems(1-3) keyed] x by simp
  next
    case (Inr us)
    define us' where "us' = setState uploadPending None us"
    define um1 where "um1 = um\<lparr>um_store := um_store um @ [us']\<rparr>"
    have us: "us_State us = uploadPending" "us_ID us' = i"
      using Inr Cons.prems(4) x by (auto simp: NewUploadSessionJSON_def sessions_keyed_def us'_def split: bolt_value.splits)
    have new: "length (um_store um) \<notin> snd ` set (um_sessions um)"
      using Cons.prems(1) by (auto simp: um_ok_def registry_ok_def)
    have "um_ok um1" using Cons.prems by (auto simp: um_ok_def slots_ok_def registry_ok_def um1_def nth_append)
    then have "um_ok (um1\<lparr>um_sessions := AList.update i (length (um_store um)) (um_sessions um1)\<rparr>)"
      using new us Cons.prems(3) by (intro um_ok_register) (auto simp: um1_def nth_append)
    then have "um_ok (fst (restore_loop E vs (um1\<lparr>um_sessions := AList.update i (length (um_store um)) (um_sessions um1)\<rparr>, w)))"
      using Cons.prems(2,3) by (intro Cons.IH [OF _ _ _ keyed]) (auto simp: um1_def)
    then show ?thesis using Inr us x by (simp add: um1_def us'_def)
  qed
qed simp

lemma um_ok_new:
  assumes "sessions_keyed (LoadUploadSessions (env_bolt E) (fw_cache w, fw_db w))"
  shows "um_ok (fst (NewUploadManager E n m w))"
  unfolding NewUploadManager_def restoreIncompleteSessions_def prod.case
  by (rule restore_ok) (use assms in \<open>auto simp: um_ok_def slots_ok_def registry_ok_def inFlightCap_def defaultMaxUploadsInFlight_def\<close>)

lemma um_step_ok: "um_step E st st' \<Longrightarrow> um_ok (fst st) \<Longrightarrow> um_ok (fst st')"
proof (induction rule: um_step.induct)
  case (queue um i p n w b st)
  then show ?case using um_ok_queue [of um E i p n w b "fst st" "snd st"] by simp
next
  case (rename st i p n)
  then show ?case using um_ok_rename [of "fst st" E i p n "snd st"] by simp
next
  case (drop um i q w)
  then have "um_ok (um\<lparr>um_deletionQueue := q\<rparr>)" by (simp add: um_ok_def slots_ok_def registry_ok_def)
  then show ?case by (rule um_ok_finish)
next
  case (tick um order w)
  then have "set order = snd ` set (um_sessions um)" by (metis mset_eq_setD set_map)
  then show ?case using um_ok_tick [of um order E w] tick by simp
next
  case (start um ts a ts' t w st)
  then have "um_ok (um\<lparr>um_tasks := ts @ Running a t # ts'\<rparr>)" using um_ok_task [of um ts "Launched a" ts' "Running a t"] by simp
  then have "um_ok (update_session a (setState uploadUploading None) (um\<lparr>um_tasks := ts @ Running a t # ts'\<rparr>))"
    by (rule um_ok_update) simp
  then show ?case using start(2) by (auto simp: exec_start_def Let_def)
next
  case (run um ts a t ts' r w st)
  then have "um_ok (um\<lparr>um_tasks := ts @ Uploaded a t r # ts'\<rparr>)"
    using um_ok_task [of um ts "Running a t" ts' "Uploaded a t r"] by simp
  then show ?case using run(2) by (auto simp: exec_upload_def split: prod.splits)
qed (auto simp: um_ok_enqueue CancelUpload_def intro: um_ok_exec_finish, auto simp: um_ok_def slots_ok_def registry_ok_def)

lemma um_reach_ok: "um_reach Es st \<Longrightarrow> um_ok (fst st)"
  by (induction rule: um_reach.induct) (auto intro: um_ok_new um_step_ok)

end
