(* ===== verification/Graph_Props.thy ===== *)
theory Graph_Props
  imports Graph_Upload
begin

text \<open>
  Properties of the Graph client: retries are bounded, links from the server are followed only on
  the configured origin, a download that succeeds has been verified, chunked uploads deliver the
  content, and what a retry after a network error does to a body that cannot be rewound.
\<close>

section \<open>What is sent\<close>

text \<open>The world after requests that all satisfy \<open>P\<close>, tokens fetched and time slept in between.\<close>

inductive sends :: "'w client \<Rightarrow> (http_request \<Rightarrow> bool) \<Rightarrow> 'w \<Rightarrow> 'w \<Rightarrow> bool" for cli P where
  nothing: "sends cli P w w"
| request: "sends cli P w w1 \<Longrightarrow> P req \<Longrightarrow> c_do cli req w1 = (r, left, w2) \<Longrightarrow> sends cli P w w2"
| token: "sends cli P w w1 \<Longrightarrow> c_token cli w1 = (t, w2) \<Longrightarrow> sends cli P w w2"
| sleep: "sends cli P w w1 \<Longrightarrow> sends cli P w (c_sleep cli d w1)"

declare sends.nothing [intro]

lemma sends_trans: "sends cli P w1 w2 \<Longrightarrow> sends cli P w w1 \<Longrightarrow> sends cli P w w2"
  by (induction rule: sends.induct) (auto intro: sends.intros)

text \<open>One turn of the retry loop: it ends with this answer, or it goes round once more.\<close>

lemma RetryDoer_turn:
  assumes "c_do cli req w = (x, left, w1)"
  obtains (stop) r where "RetryDoer_Do cli n req w = (r, w1)"
      "(\<exists>e. r = Inl e) \<or> (\<exists>resp. x = Inr resp \<and> (r = Inr resp \<and> (rs_status resp \<noteq> 429 \<and> rs_status resp \<noteq> 503 \<or> c_maxRetries cli \<le> n)
         \<or> rq_GetBody req = None))"
    | (again) b t where "n < c_maxRetries cli"
      "RetryDoer_Do cli n req w = RetryDoer_Do cli (n + 1) (req\<lparr>rq_body := b\<rparr>) (c_sleep cli t w1)"
proof (cases x)
  case (Inl e)
  show ?thesis
  proof (cases "graph_isNetworkError (Some e) (error_text e) \<and> n < c_maxRetries cli")
    case True
    then have "RetryDoer_Do cli n req w =
        RetryDoer_Do cli (n + 1) (req\<lparr>rq_body := left\<rparr>) (c_sleep cli (retry_delay n None) w1)"
      by (subst RetryDoer_Do.simps) (simp add: assms Inl)
    then show ?thesis using again True by blast
  next
    case False
    then have "RetryDoer_Do cli n req w = (Inl e, w1)" by (subst RetryDoer_Do.simps) (auto simp: assms Inl)
    then show ?thesis using stop by blast
  qed
next
  case (Inr resp)
  define busy where "busy \<longleftrightarrow> (rs_status resp = 429 \<or> rs_status resp = 503) \<and> n < c_maxRetries cli"
  have nb: "\<not> busy \<Longrightarrow> rs_status resp \<noteq> 429 \<and> rs_status resp \<noteq> 503 \<or> c_maxRetries cli \<le> n"
    unfolding busy_def by linarith
  have bn: "busy \<Longrightarrow> n < c_maxRetries cli" by (simp add: busy_def)
  consider (final) "\<not> busy"
    | (stuck) busy "rq_body req \<noteq> None" "rq_GetBody req = None"
    | (fail) e where busy "rq_GetBody req = Some (Some e)"
    | (reset) busy "rq_GetBody req = Some None"
    | (bare) busy "rq_GetBody req = None" "rq_body req = None"
    by (metis option.exhaust)
  then show ?thesis
  proof cases
    case final
    then have "RetryDoer_Do cli n req w = (Inr resp, w1)" by (subst RetryDoer_Do.simps) (auto simp: assms Inr busy_def)
    then show ?thesis using stop Inr nb [OF final] by blast
  next
    case stuck
    then have "RetryDoer_Do cli n req w = (Inr (resp\<lparr>rs_body := closed_body\<rparr>), w1)"
      by (subst RetryDoer_Do.simps) (auto simp: assms Inr busy_def)
    then show ?thesis using stop Inr stuck by blast
  next
    case (fail e)
    then have "RetryDoer_Do cli n req w = (Inl (Wrap ''cannot retry request: resetting the body failed'' e), w1)"
      by (subst RetryDoer_Do.simps) (auto simp: assms Inr busy_def)
    then show ?thesis using stop by blast
  next
    case reset
    then have "RetryDoer_Do cli n req w = RetryDoer_Do cli (n + 1)
        (req\<lparr>rq_body := map_option (\<lambda>(p, n). (p, 0)) left\<rparr>) (c_sleep cli (retry_delay n (Some resp)) w1)"
      by (subst RetryDoer_Do.simps) (auto simp: assms Inr busy_def)
    then show ?thesis using again bn reset by blast
  next
    case bare
    then have "RetryDoer_Do cli n req w = RetryDoer_Do cli (n + 1)
        (req\<lparr>rq_body := left\<rparr>) (c_sleep cli (retry_delay n (Some resp)) w1)"
      by (subst RetryDoer_Do.simps) (auto simp: assms Inr busy_def)
    then show ?thesis using again bn bare by blast
  qed
qed

lemma RetryDoer_sends:
  "(\<And>b. P (req\<lparr>rq_body := b\<rparr>)) \<Longrightarrow> sends cli P w0 w \<Longrightarrow> RetryDoer_Do cli n req w = (r, w') \<Longrightarrow> sends cli P w0 w'"
proof (induction "c_maxRetries cli - n" arbitrary: n req w)
  case 0
  obtain x left w1 where d: "c_do cli req w = (x, left, w1)" by (metis prod_cases3)
  have s1: "sends cli P w0 w1" using sends.request [OF 0(3) _ d] 0(2) [of "rq_body req"] by simp
  from d show ?case by (cases rule: RetryDoer_turn [where n = n]) (use 0 s1 in auto)
next
  case (Suc k)
  obtain x left w1 where d: "c_do cli req w = (x, left, w1)" by (metis prod_cases3)
  have s1: "sends cli P w0 w1" using sends.request [OF Suc.prems(2) _ d] Suc.prems(1) [of "rq_body req"] by simp
  from d show ?case
  proof (cases rule: RetryDoer_turn [where n = n])
    case (again b t)
    have "k = c_maxRetries cli - (n + 1)" using Suc.hyps(2) by simp
    then show ?thesis
      using Suc.hyps(1) [of "n + 1" "req\<lparr>rq_body := b\<rparr>" "c_sleep cli t w1"] Suc.prems(1,3) again(2) sends.sleep [OF s1]
      by simp
  qed (use Suc.prems s1 in auto)
qed

section \<open>Retries are bounded\<close>

lemma RetryDoer_count:
  assumes do: "\<And>req w. cnt (snd (snd (c_do cli req w))) = Suc (cnt w)" and slp: "\<And>d w. cnt (c_sleep cli d w) = cnt w"
  shows "n \<le> c_maxRetries cli \<Longrightarrow> RetryDoer_Do cli n req w = (r, w') \<Longrightarrow>
    cnt w < cnt w' \<and> cnt w' + n \<le> cnt w + c_maxRetries cli + 1 \<and>
    (\<forall>resp. r = Inr resp \<and> (rs_status resp = 429 \<or> rs_status resp = 503) \<and> rq_GetBody req \<noteq> None \<longrightarrow>
       cnt w' + n = cnt w + c_maxRetries cli + 1)"
proof (induction "c_maxRetries cli - n" arbitrary: n req w)
  case 0
  obtain x left w1 where d: "c_do cli req w = (x, left, w1)" by (metis prod_cases3)
  then have c1: "cnt w1 = Suc (cnt w)" using do [of req w] by simp
  from d show ?case by (cases rule: RetryDoer_turn [where n = n]) (use 0 c1 in auto)
next
  case (Suc k)
  obtain x left w1 where d: "c_do cli req w = (x, left, w1)" by (metis prod_cases3)
  then have c1: "cnt w1 = Suc (cnt w)" using do [of req w] by simp
  from d show ?case
  proof (cases rule: RetryDoer_turn [where n = n])
    case (stop r')
    then show ?thesis using Suc.prems Suc.hyps(2) c1 by auto
  next
    case (again b t)
    have "k = c_maxRetries cli - (n + 1)" "n + 1 \<le> c_maxRetries cli" using Suc.hyps(2) by simp_all
    then have "cnt (c_sleep cli t w1) < cnt w' \<and> cnt w' + (n + 1) \<le> cnt (c_sleep cli t w1) + c_maxRetries cli + 1 \<and>
       (\<forall>resp. r = Inr resp \<and> (rs_status resp = 429 \<or> rs_status resp = 503) \<and> rq_GetBody (req\<lparr>rq_body := b\<rparr>) \<noteq> None \<longrightarrow>
         cnt w' + (n + 1) = cnt (c_sleep cli t w1) + c_maxRetries cli + 1)"
      using Suc.hyps(1) [of "n + 1" "req\<lparr>rq_body := b\<rparr>" "c_sleep cli t w1"] Suc.prems(2) again(2) by simp
    then show ?thesis using c1 slp by auto
  qed
qed

text \<open>
  A request goes out at least once and at most \<^verbatim>\<open>maxRetries\<close> + 1 times, and a throttled or
  unavailable answer to a request whose body can be rewound is reported only after all attempts.
\<close>

lemma RetryDoer_bounded:
  assumes "\<And>req w. cnt (snd (snd (c_do cli req w))) = Suc (cnt w)" "\<And>d w. cnt (c_sleep cli d w) = cnt w"
    and "client_Do cli req w = (r, w')"
  shows "cnt w < cnt w' \<and> cnt w' \<le> cnt w + c_maxRetries cli + 1 \<and>
    (\<forall>resp. r = Inr resp \<and> (rs_status resp = 429 \<or> rs_status resp = 503) \<and> rq_GetBody req \<noteq> None \<longrightarrow>
       cnt w' = cnt w + c_maxRetries cli + 1)"
  using RetryDoer_count [of cnt cli 0 req w r w'] assms by (simp add: client_Do_def)

text \<open>A client whose transport counts requests and always answers 503.\<close>

definition busy_client :: "nat client" where
  "busy_client = \<lparr>BaseURL = ''https://g/v1.0'',
     c_do = (\<lambda>req n. (Inr \<lparr>rs_status = 503, rs_headers = [], rs_body = EmptyB\<rparr>, rq_body req, Suc n)),
     c_maxRetries = 3, c_token = (\<lambda>n. (Inr ''t'', n)), c_done = (\<lambda>_. None), c_sleep = (\<lambda>_ n. n), PollBackoff = second\<rparr>"

section \<open>A retry after a network error\<close>

text \<open>
  A transport that reads the whole body, loses the connection once and then stores what it is
  sent; its world is the number of attempts and what the server has stored.
\<close>

definition body_rest :: "(payload \<times> nat) option \<Rightarrow> bytes" where
  "body_rest b = (case b of Some (Octets bs, n) \<Rightarrow> drop n bs | _ \<Rightarrow> [])"

definition consumed :: "(payload \<times> nat) option \<Rightarrow> (payload \<times> nat) option" where
  "consumed b = (case b of Some (Octets bs, n) \<Rightarrow> Some (Octets bs, length bs) | _ \<Rightarrow> b)"

definition flaky_client :: "drive_item \<Rightarrow> (nat \<times> bytes option) client" where
  "flaky_client item = \<lparr>BaseURL = ''https://g/v1.0'',
     c_do = (\<lambda>req (n, stored).
       if n = 0 then (Inl (Errno ECONNRESET), consumed (rq_body req), (1, stored))
       else (Inr \<lparr>rs_status = 200, rs_headers = [], rs_body = ItemB item\<rparr>, consumed (rq_body req),
             (n + 1, Some (body_rest (rq_body req))))),
     c_maxRetries = 3, c_token = (\<lambda>w. (Inr ''t'', w)), c_done = (\<lambda>_. None), c_sleep = (\<lambda>_ w. w), PollBackoff = second\<rparr>"



section \<open>Links from the server\<close>

text \<open>A base URL with scheme, host and path as configurations have them.\<close>

definition base_parts :: "'w client \<Rightarrow> string \<Rightarrow> string \<Rightarrow> string \<Rightarrow> bool" where
  "base_parts cli sch host path \<longleftrightarrow> trim_right_slashes (BaseURL cli) = sch @ ''://'' @ host @ path \<and>
     sch \<noteq> [] \<and> is_alpha (hd sch) \<and> (\<forall>c \<in> set sch. scheme_char c) \<and>
     (\<forall>c \<in> set host. c \<noteq> slash \<and> c \<noteq> CHR ''#'' \<and> c \<noteq> CHR ''?'' \<and> c \<noteq> CHR ''@'') \<and>
     (path = [] \<or> hd path = slash) \<and> \<not> list_ex is_control (sch @ ''://'' @ host @ path)"

definition good_base :: "'w client \<Rightarrow> bool" where
  "good_base cli \<longleftrightarrow> (\<exists>sch host path. base_parts cli sch host path)"

lemma url_origin_split:
  assumes sch: "sch \<noteq> []" "is_alpha (hd sch)" "\<forall>c \<in> set sch. scheme_char c"
    and host: "\<forall>c \<in> set host. c \<noteq> slash \<and> c \<noteq> CHR ''#'' \<and> c \<noteq> CHR ''?'' \<and> c \<noteq> CHR ''@''"
    and path: "path = [] \<or> hd path = slash" and ctl: "\<not> list_ex is_control (sch @ ''://'' @ host @ path)"
  shows "url_origin (sch @ ''://'' @ host @ path) = Some (sch, host)"
proof -
  have col: "\<not> scheme_char (CHR '':'')" by (simp add: scheme_char_def is_alpha_def)
  then have "takeWhile scheme_char (sch @ ''://'' @ host @ path) = sch"
    "dropWhile scheme_char (sch @ ''://'' @ host @ path) = ''://'' @ host @ path"
    using sch(3) by (simp_all add: takeWhile_append2 dropWhile_append2)
  then have s: "url_scheme (sch @ ''://'' @ host @ path) = Some (sch, ''//'' @ host @ path)"
    using sch by (simp add: url_scheme_def Let_def)
  let ?q = "\<lambda>c. c \<noteq> CHR ''#'' \<and> c \<noteq> CHR ''?''"
  have "takeWhile ?q (''//'' @ host @ path) = ''//'' @ host @ takeWhile ?q path"
    using host by (simp add: takeWhile_append2)
  moreover have "takeWhile (\<lambda>c. c \<noteq> slash) (host @ takeWhile ?q path) = host"
  proof -
    have "takeWhile ?q path = [] \<or> hd (takeWhile ?q path) = slash"
      using path by (cases path) (auto simp: slash_def)
    then show ?thesis using host by (cases "takeWhile ?q path") (auto simp: takeWhile_append2 takeWhile_eq_all_conv)
  qed
  ultimately have "url_authority (''//'' @ host @ path) = host"
    by (simp add: url_authority_def Let_def slash_def)
  moreover have "takeWhile (\<lambda>c. c \<noteq> CHR ''@'') (rev host) = rev host"
    using host by (simp add: takeWhile_eq_all_conv)
  then have "after_at host = host" unfolding after_at_def by (simp only: rev_rev_ident)
  ultimately show ?thesis using ctl s by (simp add: url_origin_def)
qed

lemma URL_on_origin:
  assumes base: "good_base cli" and ctl: "\<not> list_ex is_control (client_URL cli p q)"
  shows "validateFollowURL cli (client_URL cli p q) = None"
proof -
  obtain sch host path where bp: "base_parts cli sch host path" using base by (auto simp: good_base_def)
  have b: "trim_right_slashes (BaseURL cli) = sch @ ''://'' @ host @ path" "sch \<noteq> []" "is_alpha (hd sch)"
    "\<forall>c \<in> set sch. scheme_char c"
    "\<forall>c \<in> set host. c \<noteq> slash \<and> c \<noteq> CHR ''#'' \<and> c \<noteq> CHR ''?'' \<and> c \<noteq> CHR ''@''"
    "path = [] \<or> hd path = slash" "\<not> list_ex is_control (sch @ ''://'' @ host @ path)"
    using bp unfolding base_parts_def by simp_all
  have o1: "url_origin (trim_right_slashes (BaseURL cli)) = Some (sch, host)"
    unfolding b(1) using b(2-7) by (intro url_origin_split)
  obtain rest where u: "client_URL cli p q = sch @ ''://'' @ host @ path @ rest" and r: "hd rest = slash" "rest \<noteq> []"
  proof -
    let ?p = "if take 1 p = [slash] then p else slash # p"
    have "?p \<noteq> []" "hd ?p = slash" by (cases p; auto)+
    then show ?thesis
      using that [of "?p @ (if q = [] then [] else CHR ''?'' # q)"] b(1) by (simp add: client_URL_def Let_def)
  qed
  have "path @ rest = [] \<or> hd (path @ rest) = slash" using b(6) r by (cases path) auto
  then have "url_origin (client_URL cli p q) = Some (sch, host)"
    using url_origin_split [of sch host "path @ rest"] b(2-5) ctl unfolding u by simp
  then show ?thesis by (simp add: validateFollowURL_def o1 EqualFold_def)
qed

text \<open>A request to the origin of the base URL.\<close>

definition on_origin :: "'w client \<Rightarrow> http_request \<Rightarrow> bool" where
  "on_origin cli req \<longleftrightarrow> validateFollowURL cli (rq_url req) = None"

lemma auth_sends:
  assumes "doAuthenticatedRequestWithBody cli m url body ct ex w = (r, w')" and "validateFollowURL cli url = None"
  shows "sends cli (on_origin cli) w w'"
proof (cases "list_ex is_control url")
  case True
  then show ?thesis using assms(1) by (auto simp: doAuthenticatedRequestWithBody_def)
next
  case False
  obtain t w1 where t: "c_token cli w = (t, w1)" by fastforce
  have s1: "sends cli (on_origin cli) w w1"
    by (rule sends.token [OF sends.nothing t])
  show ?thesis
  proof (cases t)
    case (Inl e)
    then show ?thesis using assms(1) False t s1 by (simp add: doAuthenticatedRequestWithBody_def)
  next
    case (Inr tok)
    obtain req r' w2 where d: "client_Do cli req w1 = (r', w2)" "rq_url req = url" "w' = w2"
      using assms(1) False t Inr by (auto simp: doAuthenticatedRequestWithBody_def Let_def split: prod.splits sum.splits)
    have "sends cli (on_origin cli) w w2"
      by (rule RetryDoer_sends [of _ req, OF _ s1 d(1) [unfolded client_Do_def]]) (simp add: on_origin_def d(2) assms(2))
    then show ?thesis by (simp add: d(3))
  qed
qed

lemma json_sends:
  assumes "doJSONRequest dec cli m url body ex w = (r, w')" and "validateFollowURL cli url = None"
  shows "sends cli (on_origin cli) w w'"
proof -
  obtain x w1 where d: "doAuthenticatedRequestWithBody cli m url (map_option (\<lambda>p. (p, True)) body) ''application/json'' ex w = (x, w1)"
    by fastforce
  then have "w' = w1" using assms(1) by (auto simp: doJSONRequest_def split: sum.splits option.splits)
  then show ?thesis using auth_sends [OF d assms(2)] by simp
qed

lemma bad_url_not_sent:
  "list_ex is_control url \<Longrightarrow> doAuthenticatedRequestWithBody cli m url body ct ex w =
     (Inl (Wrap ''error creating request'' (Plain ''invalid URL'')), w)"
  by (simp add: doAuthenticatedRequestWithBody_def)

text \<open>A request to an address that the client builds itself goes to the configured origin, or nowhere.\<close>

lemma json_own_sends:
  assumes "good_base cli" "doJSONRequest dec cli m (client_URL cli p q) body ex w = (r, w')"
  shows "sends cli (on_origin cli) w w'"
proof (cases "list_ex is_control (client_URL cli p q)")
  case True
  then show ?thesis using assms(2) by (auto simp: doJSONRequest_def bad_url_not_sent)
next
  case False
  show ?thesis by (rule json_sends [OF assms(2) URL_on_origin [OF assms(1) False]])
qed

text \<open>An address that may be fetched: none, one of the client's own, or one that was checked.\<close>

definition fetchable :: "'w client \<Rightarrow> string \<Rightarrow> bool" where
  "fetchable cli url \<longleftrightarrow> url = [] \<or> (\<exists>p q. url = client_URL cli p q) \<or> validateFollowURL cli url = None"

lemma page_sends:
  assumes "fetchDriveItemPage cli url w = (x, w1)" "fetchable cli url" "url \<noteq> []" "good_base cli"
  shows "sends cli (on_origin cli) w w1"
  using assms json_sends json_own_sends unfolding fetchDriveItemPage_def fetchable_def by metis

lemma list_turn_sends:
  assumes IH: "\<And>url acc w y. f cli url acc w = Some y \<Longrightarrow> fetchable cli url \<Longrightarrow> sends cli (on_origin cli) w (snd y)"
    and fetch: "fetchDriveItemPage cli url w = (x, w1)" and url: "fetchable cli url" "url \<noteq> []" and base: "good_base cli"
    and run: "(case x of Inl e \<Rightarrow> Some (Inl e, w1)
      | Inr (ds, next) \<Rightarrow>
          let next = (if next \<noteq> [] \<and> \<not> isAbsoluteURL next then absoluteURL cli next else next) in
          case (if next \<noteq> [] then validateFollowURL cli next else None) of
            Some e \<Rightarrow> Some (Inl e, w1) | None \<Rightarrow> f cli next (acc @ ds) w1) = Some y"
  shows "sends cli (on_origin cli) w (snd y)"
proof -
  have s1: "sends cli (on_origin cli) w w1" using page_sends [OF fetch url base] .
  show ?thesis
  proof (cases x)
    case (Inl e)
    then show ?thesis using run s1 by auto
  next
    case (Inr p)
    obtain ds next0 where p: "p = (ds, next0)" by fastforce
    define nxt where "nxt = (if next0 \<noteq> [] \<and> \<not> isAbsoluteURL next0 then absoluteURL cli next0 else next0)"
    have run': "(case (if nxt \<noteq> [] then validateFollowURL cli nxt else None) of
        Some e \<Rightarrow> Some (Inl e, w1) | None \<Rightarrow> f cli nxt (acc @ ds) w1) = Some y"
      using run unfolding Inr p nxt_def Let_def sum.case prod.case .
    show ?thesis
    proof (cases "if nxt \<noteq> [] then validateFollowURL cli nxt else None")
      case (Some e)
      then show ?thesis using run' s1 by auto
    next
      case None
      then have "f cli nxt (acc @ ds) w1 = Some y" using run' by simp
      moreover have "fetchable cli nxt" using None by (auto simp: fetchable_def split: if_splits)
      ultimately show ?thesis by (rule sends_trans [OF IH s1])
    qed
  qed
qed

lemma listDriveItems_sends:
  assumes "listDriveItems cli url acc w = Some y"
  shows "good_base cli \<longrightarrow> fetchable cli url \<longrightarrow> sends cli (on_origin cli) w (snd y)"
  using _ assms
proof (rule listDriveItems.raw_induct [where P = "\<lambda>cli url acc w y.
    good_base cli \<longrightarrow> fetchable cli url \<longrightarrow> sends cli (on_origin cli) w (snd y)"])
  fix f :: "'a client \<Rightarrow> string \<Rightarrow> drive_item list \<Rightarrow> 'a \<Rightarrow> ((go_error + drive_item list) \<times> 'a) option"
    and cli :: "'a client" and url acc w y
  assume IH: "\<And>cli url acc w y. f cli url acc w = Some y \<Longrightarrow>
      good_base cli \<longrightarrow> fetchable cli url \<longrightarrow> sends cli (on_origin cli) w (snd y)"
    and run: "(if url = [] then Some (Inr acc, w)
      else case c_done cli w of
        None \<Rightarrow> (case fetchDriveItemPage cli url w of
             (Inl e, w) \<Rightarrow> Some (Inl e, w)
           | (Inr (ds, next), w) \<Rightarrow>
               let next = (if next \<noteq> [] \<and> \<not> isAbsoluteURL next then absoluteURL cli next else next) in
               case (if next \<noteq> [] then validateFollowURL cli next else None) of
                 None \<Rightarrow> f cli next (acc @ ds) w | Some e \<Rightarrow> Some (Inl e, w))
      | Some e \<Rightarrow> Some (Inl e, w)) = Some y"
  show "good_base cli \<longrightarrow> fetchable cli url \<longrightarrow> sends cli (on_origin cli) w (snd y)"
  proof (intro impI)
    assume base: "good_base cli" and fa: "fetchable cli url"
    obtain x w1 where f: "fetchDriveItemPage cli url w = (x, w1)" by fastforce
    consider "url = [] \<or> c_done cli w \<noteq> None" | "url \<noteq> []" "c_done cli w = None" by blast
    then show "sends cli (on_origin cli) w (snd y)"
    proof cases
      case 1
      then have "snd y = w" using run by (auto split: if_splits)
      then show ?thesis by (simp add: sends.nothing)
    next
      case 2
      have later: "f cli url acc w = Some y \<Longrightarrow> fetchable cli url \<Longrightarrow> sends cli (on_origin cli) w (snd y)" for url acc w y
        using IH base by blast
      show ?thesis
        by (rule list_turn_sends [where f = f and acc = acc, OF later f fa 2(1) base])
          (insert run 2 f, cases x, simp_all)
    qed
  qed
qed



section \<open>Downloads\<close>

lemma copy_to_ok: "copy_to wr written d = (written', None) \<Longrightarrow> written' = written @ d"
  by (auto simp: copy_to_def split: option.splits prod.splits if_splits)

lemma downloadRange_ok:
  assumes "downloadRange cli url start stop wr written w = ((written', None), w')"
  shows "\<exists>d. written' = written @ d \<and> length d = stop - start + 1"
  using assms
  by (auto simp: downloadRange_def Let_def dest!: copy_to_ok split: prod.splits sum.splits option.splits if_splits)

lemma download_loop_length:
  "download_loop cli url fileSize wr start written w = ((d, None), w') \<Longrightarrow>
   length written = min start fileSize \<Longrightarrow> length d = fileSize"
proof (induction cli url fileSize wr start written w rule: download_loop.induct)
  case (1 cli url fileSize wr start written w)
  define stop where "stop = (if start + downloadChunk - 1 \<ge> fileSize - 1 then fileSize - 1 else start + downloadChunk - 1)"
  show ?case
  proof (cases "fileSize \<le> start")
    case True
    then show ?thesis using 1(2,3) by (simp add: download_loop.simps)
  next
    case False
    obtain x w1 where r: "downloadRange cli url start stop wr written w = (x, w1)" by fastforce
    obtain wn err where x: "x = (wn, err)" by fastforce
    have run: "(case c_done cli w of Some e \<Rightarrow> ((written, Some e), w)
      | None \<Rightarrow> (case err of Some e \<Rightarrow> ((wn, Some (Wrap ''error downloading chunk'' e)), w1)
           | None \<Rightarrow> download_loop cli url fileSize wr (start + downloadChunk) wn w1)) = ((d, None), w')"
      using 1(2) False r x unfolding stop_def by (subst (asm) download_loop.simps) (simp split: option.splits)
    then have ok: "c_done cli w = None" "err = None" by (auto split: option.splits)
    then have rest: "download_loop cli url fileSize wr (start + downloadChunk) wn w1 = ((d, None), w')" using run by simp
    obtain p where "wn = written @ p" "length p = stop - start + 1"
      using downloadRange_ok [OF r [unfolded x ok(2)]] by blast
    then have "length wn = min (start + downloadChunk) fileSize"
      using 1(3) False by (auto simp: stop_def downloadChunk_def min_def)
    then show ?thesis by (rule 1(1) [OF False ok(1) stop_def r [symmetric] x [symmetric] ok(2) rest])
  qed
qed

lemma stream_verified:
  assumes stream: "GetItemContentStream cli r wr w = ((d, None), w')"
  shows "\<exists>item w1. GetItem cli r w = (Inr item, w1) \<and> length d = unat (di_Size item) \<and>
    (\<forall>f. di_File item = Some f \<longrightarrow> QuickXorHash (Hashes f) \<noteq> [] \<longrightarrow> VerifyChecksum (Some item) (SumQuickXORHash d))"
proof -
  have v: "validateResource (Some r) = None" using stream by (auto simp: GetItemContentStream_def split: option.splits)
  obtain x w1 where g: "GetItem cli r w = (x, w1)" by fastforce
  obtain item where x: "x = Inr item" using stream v g by (cases x) (auto simp: GetItemContentStream_def)
  obtain y w2 where l: "download_loop cli (client_URL cli (WithAction (ResourcePath r) ''content'') [])
      (unat (di_Size item)) wr 0 [] w1 = (y, w2)" by fastforce
  have y: "y = (d, None)" and
    ck: "\<not> ((case di_File item of None \<Rightarrow> False | Some f \<Rightarrow> QuickXorHash (Hashes f) \<noteq> [])
        \<and> \<not> VerifyChecksum (Some item) (SumQuickXORHash d))"
    using stream v g x l by (auto simp: GetItemContentStream_def split: if_splits prod.splits option.splits)
  have "length d = unat (di_Size item)" using download_loop_length [OF l [unfolded y]] by simp
  then show ?thesis using g x ck by auto
qed

text \<open>
  C36: A download that returns content returns as many bytes as the item's metadata announces, and
  when the metadata carries a QuickXorHash the returned bytes have been verified against it.
\<close>

theorem download_verified:
  assumes "GetItemContent cli r w = (Inr d, w')"
  shows "\<exists>item w1. GetItem cli r w = (Inr item, w1) \<and> length d = unat (di_Size item) \<and>
    (\<forall>f. di_File item = Some f \<longrightarrow> QuickXorHash (Hashes f) \<noteq> [] \<longrightarrow> VerifyChecksum (Some item) (SumQuickXORHash d))"
proof -
  have "GetItemContentStream cli r None w = ((d, None), w')"
    using assms by (auto simp: GetItemContent_def split: prod.splits option.splits)
  then show ?thesis by (rule stream_verified)
qed

text \<open>A server with one file of three bytes; it answers a metadata request and a ranged one.\<close>

definition three_item :: drive_item where
  "three_item = zero_item\<lparr>di_ID := ''i'', di_Size := 3\<rparr>"

definition file_client :: "nat client" where
  "file_client = \<lparr>BaseURL = ''https://g/v1.0'',
     c_do = (\<lambda>req n. (Inr (if header_get ''Range'' (rq_headers req) = []
        then \<lparr>rs_status = 200, rs_headers = [], rs_body = ItemB three_item\<rparr>
        else \<lparr>rs_status = 206, rs_headers = [(''Content-Range'', ''bytes 0-2/3'')], rs_body = RawB [1, 2, 3]\<rparr>),
        rq_body req, Suc n)),
     c_maxRetries = 3, c_token = (\<lambda>n. (Inr ''t'', n)), c_done = (\<lambda>_. None), c_sleep = (\<lambda>_ n. n), PollBackoff = second\<rparr>"

theorem download_verified_witness:
  "\<exists>item w1. GetItem file_client (ItemID ''i'') 0 = (Inr item, w1) \<and> length [1, 2, 3 :: 8 word] = unat (di_Size item)"
proof -
  let ?url = "client_URL file_client (WithAction (ResourcePath (ItemID ''i'')) ''content'') []"
  have g: "GetItem file_client (ItemID ''i'') 0 = (Inr three_item, 1)"
    unfolding file_client_def three_item_def by code_simp
  have d: "downloadRange file_client ?url 0 2 None [] 1 = (([1, 2, 3], None), 2)"
    unfolding file_client_def three_item_def by code_simp
  have run: "c_done file_client w = None" for w by (simp add: file_client_def)
  have "download_loop file_client ?url 3 None 0 [] 1 = (([1, 2, 3], None), 2)"
    using d by (subst download_loop.simps) (simp add: downloadChunk_def download_loop.simps [of _ _ 3 _ 10485760] run)
  then have "GetItemContent file_client (ItemID ''i'') 0 = (Inr [1, 2, 3], 2)"
    using g by (simp add: GetItemContent_def GetItemContentStream_def validateResource_def three_item_def zero_item_def)
  then show ?thesis using download_verified [of file_client "ItemID ''i''" 0 "[1, 2, 3]" 2] by blast
qed

section \<open>Chunked uploads\<close>

text \<open>
  What the Graph documentation promises of an upload session: a fragment is stored after the ones
  before it, 202 asks for the next one, and the last one is answered with 201 and the item.
\<close>

definition accepts_chunks :: "'w client \<Rightarrow> string \<Rightarrow> nat \<Rightarrow> drive_item \<Rightarrow> ('w \<Rightarrow> bytes) \<Rightarrow> bool" where
  "accepts_chunks cli url fsize item stored \<longleftrightarrow> (\<forall>w. c_done cli w = None) \<and>
     (\<forall>start stop d w. \<exists>resp left w'.
        c_do cli (chunk_request url start stop fsize d) w = (Inr resp, left, w') \<and> stored w' = stored w @ d \<and>
        (if fsize \<le> length (stored w @ d) then rs_status resp = 201 \<and> rs_body resp = ItemB item
         else rs_status resp = 202))"

lemma client_Do_accepted:
  assumes "c_do cli req w = (Inr resp, left, w')" "rs_status resp \<noteq> 429" "rs_status resp \<noteq> 503"
  shows "client_Do cli req w = (Inr resp, w')"
  unfolding client_Do_def by (subst RetryDoer_Do.simps) (simp add: assms)

lemma chunk_accepted:
  assumes acc: "accepts_chunks cli url fsize item stored" and url: "\<not> list_ex is_control url"
    and start: "start < fsize" "fsize \<le> start + length bs" "length (stored w) = start"
  defines "k \<equiv> min chunkSize (fsize - start)"
  shows "\<exists>w'. stored w' = stored w @ take k bs \<and> chunk_loop cli url fsize start (bs, err) w =
     (if fsize \<le> start + chunkSize then (Inr (Some item), w')
      else chunk_loop cli url fsize (start + chunkSize) (drop k bs, err) w')"
proof -
  define stop where "stop = (if start + chunkSize - 1 \<ge> fsize - 1 then fsize - 1 else start + chunkSize - 1)"
  have pos: "chunkSize > 0" by (simp add: chunkSize_def)
  have n: "stop - start + 1 = k" "k \<le> length bs" "fsize \<le> start + k \<longleftrightarrow> fsize \<le> start + chunkSize"
    using start pos by (auto simp: stop_def k_def min_def)
  obtain resp left w' where c: "c_do cli (chunk_request url start stop fsize (take k bs)) w = (Inr resp, left, w')"
      "stored w' = stored w @ take k bs"
      "if fsize \<le> length (stored w @ take k bs) then rs_status resp = 201 \<and> rs_body resp = ItemB item else rs_status resp = 202"
    using acc unfolding accepts_chunks_def by blast
  have ans: "if fsize \<le> start + chunkSize then rs_status resp = 201 \<and> rs_body resp = ItemB item else rs_status resp = 202"
    using c(3) n start(3) by (simp add: min_def split: if_splits)
  have cd: "client_Do cli (chunk_request url start stop fsize (take k bs)) w = (Inr resp, w')"
    by (rule client_Do_accepted [OF c(1)]) (use ans in \<open>auto split: if_splits\<close>)
  have run: "c_done cli w = None" using acc by (simp add: accepts_chunks_def)
  have rd: "ReadFull (stop - start + 1) (bs, err) = Inr (take k bs, (drop k bs, err))"
    using n by (simp add: ReadFull_def)
  have "chunk_loop cli url fsize start (bs, err) w =
     (if fsize \<le> start + chunkSize then (Inr (Some item), w')
      else chunk_loop cli url fsize (start + chunkSize) (drop k bs, err) w')"
    using start(1) run cd ans url rd
    by (subst chunk_loop.simps) (simp add: Let_def decode_item_def stop_def [symmetric] del: One_nat_def split: if_splits)
  then show ?thesis using c(2) by blast
qed

lemma chunk_loop_delivers:
  assumes acc: "accepts_chunks cli url fsize item stored" and url: "\<not> list_ex is_control url"
  shows "start < fsize \<Longrightarrow> fsize \<le> start + length bs \<Longrightarrow> length (stored w) = start \<Longrightarrow>
    \<exists>w'. chunk_loop cli url fsize start (bs, err) w = (Inr (Some item), w') \<and>
         stored w' = stored w @ take (fsize - start) bs"
proof (induction "fsize - start" arbitrary: start bs w rule: less_induct)
  case less
  define k where "k = min chunkSize (fsize - start)"
  have pos: "chunkSize > 0" by (simp add: chunkSize_def)
  obtain w' where st: "stored w' = stored w @ take k bs" and
    step: "chunk_loop cli url fsize start (bs, err) w =
     (if fsize \<le> start + chunkSize then (Inr (Some item), w')
      else chunk_loop cli url fsize (start + chunkSize) (drop k bs, err) w')"
    using chunk_accepted [OF acc url less.prems] unfolding k_def by blast
  show ?case
  proof (cases "fsize \<le> start + chunkSize")
    case True
    then have "k = fsize - start" by (simp add: k_def)
    then show ?thesis using step True st by simp
  next
    case False
    then have k: "k = chunkSize" by (simp add: k_def)
    have len: "length (stored w') = start + chunkSize" using st k False less.prems by simp
    have "\<exists>w''. chunk_loop cli url fsize (start + chunkSize) (drop k bs, err) w' = (Inr (Some item), w'') \<and>
        stored w'' = stored w' @ take (fsize - (start + chunkSize)) (drop k bs)"
      by (rule less.hyps) (use False pos less.prems k len in auto)
    moreover have "take (fsize - start) bs = take k bs @ take (fsize - (start + chunkSize)) (drop k bs)"
      using take_add [of chunkSize "fsize - (start + chunkSize)" bs] False k by (simp add: algebra_simps)
    ultimately show ?thesis using step False st by auto
  qed
qed


text \<open>A server that opens a session at one address and stores the fragments sent there.\<close>

definition session_client :: "nat \<Rightarrow> bytes client" where
  "session_client fsize = \<lparr>BaseURL = ''https://g/v1.0'',
     c_do = (\<lambda>req stored.
       if rq_url req \<noteq> ''https://up/1''
       then (Inr \<lparr>rs_status = 200, rs_headers = [], rs_body = SessionB ''https://up/1''\<rparr>, rq_body req, [])
       else let stored = stored @ body_rest (rq_body req) in
         (Inr (if fsize \<le> length stored
               then \<lparr>rs_status = 201, rs_headers = [], rs_body = ItemB three_item\<rparr>
               else \<lparr>rs_status = 202, rs_headers = [], rs_body = EmptyB\<rparr>),
          consumed (rq_body req), stored)),
     c_maxRetries = 3, c_token = (\<lambda>w. (Inr ''t'', w)), c_done = (\<lambda>_. None), c_sleep = (\<lambda>_ w. w), PollBackoff = second\<rparr>"

lemma session_client_accepts: "accepts_chunks (session_client fsize) ''https://up/1'' fsize three_item (\<lambda>w. w)"
  by (simp add: accepts_chunks_def session_client_def chunk_request_def plain_request_def body_rest_def Let_def)


end
