(* ===== verification/Upload_Props.thy ===== *)
theory Upload_Props
  imports Upload_Inv Graph_Props
begin

text \<open>
  Properties of the upload manager: slots and registry, the policy of a tick, the backoff, restart
  after a crash, the resolution of conflicts, and two races that lose content or an inode.
\<close>

section \<open>What a tick does to one session\<close>

lemma retryCap_simps [simp]:
  "retryCap (update_session a f um) = retryCap um" "retryCap (um\<lparr>um_sessions := m\<rparr>) = retryCap um"
  "retryCap (launchIfCapacity a um) = retryCap um"
  by (simp_all add: retryCap_def update_session_def launchIfCapacity_def)

lemma launch_simps [simp]:
  "um_store (launchIfCapacity a um) = um_store um" "um_sessions (launchIfCapacity a um) = um_sessions um"
  by (simp_all add: launchIfCapacity_def)

lemma registered_ID:
  assumes "um_ok um" "map_of (um_sessions um) i = Some a"
  shows "a < length (um_store um)" "us_ID (um_store um ! a) = i"
  using assms by (auto simp: um_ok_def registry_ok_def dest: map_of_SomeD)

lemma finish_registered:
  assumes "map_of (um_sessions um) j = Some b" "finishSession E j (um, w) = (um', w')"
  shows "um_sessions um' = AList.delete j (um_sessions um)" "retryCap um' = retryCap um"
    "c \<noteq> b \<Longrightarrow> um_store um' ! c = um_store um ! c"
  using assms by (auto simp: finishSession_def discard_at_def split: prod.splits)

definition abandoned :: "upload_manager \<Rightarrow> time \<Rightarrow> upload_session \<Rightarrow> bool" where
  "abandoned um now us \<longleftrightarrow> us_State us = uploadComplete \<or>
     us_State us = uploadErrored \<and> us_nextRetry us \<le> now \<and> \<not> us_Transient us \<and> us_Retries us + 1 > retryCap um"

lemma process_frame:
  assumes ok: "um_ok um" and b: "map_of (um_sessions um) j = Some b" and run: "process_session E b (um, w) = (um', w')"
  shows "retryCap um' = retryCap um" "c \<noteq> b \<Longrightarrow> um_store um' ! c = um_store um ! c"
    "um_sessions um' = (if abandoned um (env_now E) (um_store um ! b) then AList.delete j (um_sessions um) else um_sessions um)"
proof -
  define us where "us = (um_store um ! b)\<lparr>us_Retries := us_Retries (um_store um ! b) + 1\<rparr>"
  let ?um = "update_session b (\<lambda>_. us) um"
  note id = registered_ID [OF ok b]
  have b': "map_of (um_sessions ?um) j = Some b" using b by simp
  note fin = finish_registered [OF b, of E w um' w'] finish_registered [OF b', of E w um' w']
  have run': "(case us_State (um_store um ! b) of
      uploadPending \<Rightarrow> (launchIfCapacity b um, w)
    | uploadErrored \<Rightarrow> if env_now E < us_nextRetry (um_store um ! b) then (um, w)
        else if us_Transient us then
          (launchIfCapacity b (update_session b (setState uploadPending None \<circ> setNextRetryAt (env_now E + backoffFor (us_Retries us))) ?um), w)
        else if us_Retries us > retryCap um then finishSession E j (?um, w)
        else (launchIfCapacity b (update_session b (setState uploadPending None) ?um), w)
    | uploadComplete \<Rightarrow> finishSession E j (um, w) | uploadUploading \<Rightarrow> (um, w)) = (um', w')"
    using run [unfolded process_session_def Let_def prod.case] id(2)
    by (cases "us_State (um_store um ! b)") (auto simp: us_def split: if_splits)
  have t: "us_Transient us = us_Transient (um_store um ! b)" "us_Retries us = us_Retries (um_store um ! b) + 1"
    by (simp_all add: us_def)
  show "retryCap um' = retryCap um"
    using run' fin by (auto split: uploadState.splits if_splits)
  show "c \<noteq> b \<Longrightarrow> um_store um' ! c = um_store um ! c"
    using run' fin by (auto split: uploadState.splits if_splits)
  show "um_sessions um' = (if abandoned um (env_now E) (um_store um ! b) then AList.delete j (um_sessions um) else um_sessions um)"
    using run' fin t by (auto simp: abandoned_def split: uploadState.splits if_splits)
qed

lemma process_retry:
  assumes ok: "um_ok um" and a: "map_of (um_sessions um) i = Some a" and run: "process_session E a (um, w) = (um', w')"
    and us: "us = um_store um ! a" "us_State us = uploadErrored" "us_nextRetry us \<le> env_now E" "us_Transient us"
  shows "um_store um' ! a = us\<lparr>us_Retries := us_Retries us + 1, us_State := uploadPending,
    us_nextRetry := env_now E + backoffFor (us_Retries us + 1)\<rparr>"
  using run us registered_ID [OF ok a]
  by (auto simp: process_session_def Let_def setState_def setNextRetryAt_def)

text \<open>A pass over some registered sessions leaves the others alone.\<close>

lemma fold_frame:
  assumes "um_ok um" "distinct bs" "\<forall>b \<in> set bs. \<exists>j. map_of (um_sessions um) j = Some b"
    and "fold (process_session E) bs (um, w) = (um', w')"
  shows "um_ok um' \<and> retryCap um' = retryCap um \<and> (\<forall>c. c \<notin> set bs \<longrightarrow> um_store um' ! c = um_store um ! c) \<and>
    (\<forall>k. map_of (um_sessions um) k \<notin> Some ` set bs \<longrightarrow> map_of (um_sessions um') k = map_of (um_sessions um) k)"
  using assms
proof (induction bs arbitrary: um w)
  case (Cons b bs)
  obtain j where j: "map_of (um_sessions um) j = Some b" using Cons.prems(3) by auto
  obtain um1 w1 where p: "process_session E b (um, w) = (um1, w1)" by fastforce
  note f = process_frame [OF Cons.prems(1) j p]
  have ok: "um_ok um1"
    using um_ok_process [OF Cons.prems(1) registered_ID(1) [OF Cons.prems(1) j], of E w] p by simp
  have keep: "map_of (um_sessions um1) k = map_of (um_sessions um) k" if "map_of (um_sessions um) k \<noteq> Some b" for k
    using f(3) that j by (auto simp: alist_simps split: if_splits)
  have reg: "\<exists>k. map_of (um_sessions um1) k = Some c" if c: "c \<in> set bs" for c
  proof -
    obtain k where "map_of (um_sessions um) k = Some c" using Cons.prems(3) c by auto
    moreover have "c \<noteq> b" using Cons.prems(2) c by auto
    ultimately show ?thesis using keep [of k] by auto
  qed
  have IH: "um_ok um' \<and> retryCap um' = retryCap um1 \<and> (\<forall>c. c \<notin> set bs \<longrightarrow> um_store um' ! c = um_store um1 ! c) \<and>
    (\<forall>k. map_of (um_sessions um1) k \<notin> Some ` set bs \<longrightarrow> map_of (um_sessions um') k = map_of (um_sessions um1) k)"
    by (rule Cons.IH [OF ok]) (use Cons.prems reg p in auto)
  show ?case
  proof (intro conjI allI impI)
    fix c assume "c \<notin> set (b # bs)"
    then show "um_store um' ! c = um_store um ! c" using IH f(2) by simp
  next
    fix k assume k: "map_of (um_sessions um) k \<notin> Some ` set (b # bs)"
    then have "map_of (um_sessions um1) k = map_of (um_sessions um) k" by (intro keep) auto
    then show "map_of (um_sessions um') k = map_of (um_sessions um) k" using IH k by simp
  qed (use IH f(1) in simp_all)
qed auto

lemma tick_one:
  assumes ok: "um_ok um" and order: "mset order = mset (map snd (um_sessions um))"
    and run: "processSessions E order (um, w) = (um', w')" and a: "map_of (um_sessions um) i = Some a"
  obtains um1 w1 um2 w2 where "um_ok um1" "map_of (um_sessions um1) i = Some a" "um_store um1 ! a = um_store um ! a"
    "retryCap um1 = retryCap um" "process_session E a (um1, w1) = (um2, w2)"
    "um_store um' ! a = um_store um2 ! a" "map_of (um_sessions um') i = map_of (um_sessions um2) i"
proof -
  have set: "set order = snd ` set (um_sessions um)" using order by (metis mset_eq_setD set_map)
  have dist: "distinct order" using order ok mset_eq_imp_distinct_iff [OF order] by (simp add: um_ok_def registry_ok_def)
  have keys: "distinct (map fst (um_sessions um))" using ok by (simp add: um_ok_def registry_ok_def)
  have "a \<in> set order" using set map_of_SomeD [OF a] by force
  then obtain xs ys where o: "order = xs @ a # ys" by (meson split_list)
  have reg: "\<forall>b \<in> set order. \<exists>j. map_of (um_sessions um) j = Some b" using set keys by (fastforce dest: map_of_is_SomeI)
  obtain um1 w1 where f1: "fold (process_session E) xs (um, w) = (um1, w1)" by fastforce
  have x: "um_ok um1 \<and> retryCap um1 = retryCap um \<and> (\<forall>c. c \<notin> set xs \<longrightarrow> um_store um1 ! c = um_store um ! c) \<and>
    (\<forall>k. map_of (um_sessions um) k \<notin> Some ` set xs \<longrightarrow> map_of (um_sessions um1) k = map_of (um_sessions um) k)"
    by (rule fold_frame [OF ok _ _ f1]) (use dist reg o in auto)
  have "map_of (um_sessions um) i \<notin> Some ` set xs" using a dist o by auto
  then have a1: "map_of (um_sessions um1) i = Some a" "um_store um1 ! a = um_store um ! a"
    using x a dist o by auto
  obtain um2 w2 where p: "process_session E a (um1, w1) = (um2, w2)" by fastforce
  have ok1: "um_ok um1" using x by simp
  have ok2: "um_ok um2" using um_ok_process [OF ok1 registered_ID(1) [OF ok1 a1(1)], of E w1] p by simp
  note f = process_frame [OF ok1 a1(1) p]
  have keep: "map_of (um_sessions um2) k = map_of (um_sessions um1) k" if "k \<noteq> i" for k
    using f(3) that by (auto simp: alist_simps split: if_splits)
  have reg2: "\<exists>k. map_of (um_sessions um2) k = Some b" if b: "b \<in> set ys" for b
  proof -
    obtain k where k: "map_of (um_sessions um) k = Some b" using reg b o by auto
    have "k \<noteq> i" using k a dist o b by auto
    moreover have "map_of (um_sessions um) k \<notin> Some ` set xs" using k dist o b by auto
    then have "map_of (um_sessions um1) k = Some b" using x k by auto
    ultimately show ?thesis using keep [of k] by auto
  qed
  have f2: "fold (process_session E) ys (um2, w2) = (um', w')" using run f1 p by (simp add: processSessions_def o)
  have y: "um_ok um' \<and> retryCap um' = retryCap um2 \<and> (\<forall>c. c \<notin> set ys \<longrightarrow> um_store um' ! c = um_store um2 ! c) \<and>
    (\<forall>k. map_of (um_sessions um2) k \<notin> Some ` set ys \<longrightarrow> map_of (um_sessions um') k = map_of (um_sessions um2) k)"
    by (rule fold_frame [OF ok2 _ _ f2]) (use dist reg2 o in auto)
  have "map_of (um_sessions um2) i \<notin> Some ` set ys"
    using f(3) a1(1) dist o by (auto simp: alist_simps split: if_splits)
  then show ?thesis using that [OF ok1 a1 _ p] x y dist o by auto
qed

section \<open>An example\<close>

definition ex_env :: "(bucket \<Rightarrow> (string \<times> session_json bolt_value) list, bucket \<Rightarrow> (string \<times> session_json bolt_value) list, nat) fs_env" where
  "ex_env = \<lparr>env_bolt = mem_bolt, env_os = no_faults 0 [], env_cli = busy_client, env_zone = 0\<rparr>"

definition ex_session :: upload_session where
  "ex_session = zero_session\<lparr>us_ID := ''i'', us_ParentID := ''p'', us_Name := ''f.txt'', us_SnapshotPath := ''/s/1'', us_Size := 3\<rparr>"

definition ex_world :: "(bucket \<Rightarrow> (string \<times> session_json bolt_value) list, nat) fs_world" where
  "ex_world = \<lparr>fw_cache = NewInodeCache\<lparr>db_open := True\<rparr>,
     fw_db = (\<lambda>b. if b = Uploads then [(''i'', SessionV (session_AsJSON ex_session))] else []),
     fw_cc = \<lparr>cc_directory = ''/c'', cc_fds = [], cc_maxSize = 0, cc_totalSize = 0, cc_evicting = False, cc_store = [],
        cc_heap = [], cc_entries = [], cc_closed = False\<rparr>,
     fw_os = \<lparr>os_dirs = [(''/s'', (0, 0))], os_names = [(''/s/1'', 0)],
        os_files = (\<lambda>_. \<lparr>of_data = [1, 2, 3], of_mtime = 0\<rparr>), os_next = 1\<rparr>,
     fw_net = 0\<rparr>"

definition ex_um :: "upload_session \<Rightarrow> upload_manager" where
  "ex_um us = \<lparr>um_queue = [], um_deletionQueue = [], um_store = [us], um_sessions = [(''i'', 0)], um_inFlight = 0,
     um_completed = 0, um_failed = 0, um_maxUploadsInFlight = 5, um_maxUploadRetries = 5, um_tasks = [], um_stopped = False\<rparr>"

lemma um_ok_ex: "us_ID us = ''i'' \<Longrightarrow> um_ok (ex_um us)"
  by (simp add: um_ok_def slots_ok_def registry_ok_def ex_um_def inFlightCap_def)

lemma ex_new: "NewUploadManager ex_env 0 0 ex_world = (ex_um ex_session, ex_world)"
  by (simp add: NewUploadManager_def restoreIncompleteSessions_def LoadUploadSessions_def ex_env_def ex_world_def mem_bolt_def
      NewUploadSessionJSON_def session_AsJSON_def ex_um_def ex_session_def zero_session_def setState_def
      defaultMaxUploadsInFlight_def defaultMaxUploadRetries_def)

section \<open>Properties\<close>

text \<open>
  C7: In every reachable state of the upload manager, under any interleaving of the loop, the
  goroutines and the file system, the number of slots in use is the number of uploads in flight
  and stays within the cap, so no exit path leaks a slot; and every registered session stands
  under its own identifier, each session at most once.
\<close>

theorem upload_slots_invariant:
  assumes "um_reach Es (um, w)"
  shows "um_inFlight um = int (length (um_tasks um)) \<and> um_inFlight um \<le> inFlightCap um \<and>
    distinct (map fst (um_sessions um)) \<and> distinct (map snd (um_sessions um)) \<and>
    (\<forall>i a. map_of (um_sessions um) i = Some a \<longrightarrow> a < length (um_store um) \<and> us_ID (um_store um ! a) = i)"
proof -
  have ok: "um_ok um" using um_reach_ok [OF assms] by simp
  then show ?thesis using registered_ID [OF ok] by (simp add: um_ok_def slots_ok_def registry_ok_def)
qed

theorem upload_slots_invariant_witness:
  "um_reach {ex_env} (processSessions ex_env [0] (ex_um ex_session, ex_world)) \<and>
   um_inFlight (fst (processSessions ex_env [0] (ex_um ex_session, ex_world))) = 1"
proof -
  let ?st = "processSessions ex_env [0] (ex_um ex_session, ex_world)"
  have "um_reach {ex_env} (ex_um ex_session, ex_world)"
    using um_reach.new [of ex_env "{ex_env}" ex_world 0 0] ex_new
    by (simp add: sessions_keyed_def LoadUploadSessions_def ex_env_def ex_world_def mem_bolt_def session_AsJSON_def ex_session_def)
  moreover have "um_step ex_env (ex_um ex_session, ex_world) ?st" by (rule um_step.tick) (simp_all add: ex_um_def)
  ultimately have r: "um_reach {ex_env} ?st" using um_reach.step [of "{ex_env}" _ ex_env ?st] by simp
  have "length (um_tasks (fst ?st)) = 1"
    by (simp add: processSessions_def process_session_def ex_um_def ex_session_def zero_session_def launchIfCapacity_def inFlightCap_def)
  then show ?thesis using r upload_slots_invariant [of "{ex_env}" "fst ?st" "snd ?st"] by simp
qed



lemma backoff_loop_exact:
  "0 < d \<Longrightarrow> d \<le> maxRetryBackoff \<Longrightarrow> i \<le> retries \<Longrightarrow>
   backoff_loop i retries d = min maxRetryBackoff (d * 2 ^ nat (retries - i))"
proof (induction i retries d rule: backoff_loop.induct)
  case (1 i retries d)
  show ?case
  proof (cases "i < retries \<and> d < maxRetryBackoff")
    case True
    define d' where "d' = (if d * 2 > maxRetryBackoff then maxRetryBackoff else d * 2)"
    have step: "backoff_loop i retries d = backoff_loop (i + 1) retries d'"
      using True by (subst backoff_loop.simps) (simp add: Let_def d'_def)
    have IH: "backoff_loop (i + 1) retries d' = min maxRetryBackoff (d' * 2 ^ nat (retries - (i + 1)))"
      by (rule 1(1) [OF True refl]) (use 1 True in \<open>auto simp: d'_def maxRetryBackoff_def\<close>)
    have e: "nat (retries - i) = Suc (nat (retries - (i + 1)))" using True by linarith
    have p: "(1::int) \<le> 2 ^ nat (retries - (i + 1))" by simp
    show ?thesis
    proof (cases "d * 2 > maxRetryBackoff")
      case big: True
      have "maxRetryBackoff \<le> maxRetryBackoff * 2 ^ nat (retries - (i + 1))"
        using p by (simp add: maxRetryBackoff_def)
      moreover have "maxRetryBackoff \<le> d * 2 * 2 ^ nat (retries - (i + 1))"
        using big p mult_mono [of maxRetryBackoff "d * 2" 1 "2 ^ nat (retries - (i + 1))"] 1(2) by simp
      ultimately show ?thesis using step IH e big by (simp add: d'_def ac_simps)
    next
      case False
      then show ?thesis using step IH e by (simp add: d'_def ac_simps)
    qed
  next
    case False
    then have "backoff_loop i retries d = d" by (subst backoff_loop.simps) auto
    moreover have "d = min maxRetryBackoff (d * 2 ^ nat (retries - i))"
    proof (cases "i = retries")
      case True
      then show ?thesis using 1(3) by simp
    next
      case ne: False
      then have "d = maxRetryBackoff" using False 1(3,4) by simp
      then show ?thesis using 1(2) by (simp add: min_def mult_le_cancel_left1)
    qed
    ultimately show ?thesis by simp
  qed
qed

text \<open>The delay before a retry is two seconds, doubled with every retry and at most one minute.\<close>

lemma backoffFor_exact:
  "backoffFor retries = (if retries \<le> 1 then 2 * second else min minute (2 * second * 2 ^ nat (retries - 1)))"
proof (cases "retries \<le> 1")
  case True
  then show ?thesis unfolding backoffFor_def by (subst backoff_loop.simps) (simp add: uploadTickerInterval_def)
next
  case False
  then show ?thesis
    unfolding backoffFor_def by (subst backoff_loop_exact) (auto simp: uploadTickerInterval_def maxRetryBackoff_def)
qed

section \<open>Restart\<close>

lemma restore_other:
  assumes "i \<notin> fst ` set vs" "a < length (um_store um)"
  shows "map_of (um_sessions (fst (restore_loop E vs (um, w)))) i = map_of (um_sessions um) i \<and>
    um_store (fst (restore_loop E vs (um, w))) ! a = um_store um ! a"
  using assms
proof (induction vs arbitrary: um w)
  case (Cons x vs)
  obtain j v where x: "x = (j, v)" by fastforce
  then have j: "j \<noteq> i" "i \<notin> fst ` set vs" using Cons.prems by auto
  have IH: "map_of (um_sessions (fst (restore_loop E vs (u, w')))) i = map_of (um_sessions u) i \<and>
    um_store (fst (restore_loop E vs (u, w'))) ! a = um_store u ! a" if "a < length (um_store u)" for u w'
    using Cons.IH [OF j(2) that] .
  have st: "us_State us = uploadPending" if "NewUploadSessionJSON v = Inr us" for us
    using that by (auto simp: NewUploadSessionJSON_def split: bolt_value.splits)
  show ?case using IH j Cons.prems(2)
    by (auto simp: x alist_simps st nth_append split: sum.split)
qed simp

lemma restore_finds:
  assumes "map_of vs i = Some (SessionV (session_AsJSON us))" "distinct (map fst vs)"
  shows "\<exists>a. map_of (um_sessions (fst (restore_loop E vs (um, w)))) i = Some a \<and>
    um_store (fst (restore_loop E vs (um, w))) ! a = us\<lparr>us_State := uploadPending, us_nextRetry := zero_time\<rparr>"
  using assms
proof (induction vs arbitrary: um w)
  case (Cons x vs)
  obtain j v where x: "x = (j, v)" by fastforce
  show ?case
  proof (cases "j = i")
    case True
    let ?us = "us\<lparr>us_State := uploadPending, us_nextRetry := zero_time\<rparr>"
    let ?um = "um\<lparr>um_store := um_store um @ [?us], um_sessions := AList.update i (length (um_store um)) (um_sessions um)\<rparr>"
    have "restore_loop E (x # vs) (um, w) = restore_loop E vs (?um, w)"
      using Cons.prems True x by (cases us) (simp add: NewUploadSessionJSON_def session_AsJSON_def setState_def)
    then show ?thesis
      using restore_other [of i vs "length (um_store um)" ?um E w] Cons.prems True x by (auto simp: alist_simps)
  next
    case False
    then have vs: "map_of vs i = Some (SessionV (session_AsJSON us))" "distinct (map fst vs)" using Cons.prems x by auto
    have st: "us_State u = uploadPending" if "NewUploadSessionJSON v = Inr u" for u
      using that by (auto simp: NewUploadSessionJSON_def split: bolt_value.splits)
    show ?thesis using Cons.IH [OF vs] by (auto simp: x st split: sum.split)
  qed
qed simp



section \<open>Two races\<close>

text \<open>
  C39: When a second version of a file is queued while the upload of the first is in flight but has
  not opened its content, the first upload sends an empty file: discarding the snapshot clears its
  path, and the session then falls back to its bytes, of which a snapshot session has none.
\<close>

theorem superseded_upload_sends_empty:
  assumes "um_ok um" "map_of (um_sessions um) (us_ID (um_store um ! b)) = Some a" "a \<noteq> b"
    and "us_Data (um_store um ! a) = []" "enqueueSession E b (um, w) = (um1, w1)"
    and "\<not> ut_isLocal t" "OverwriteItem (env_cli E') (ut_id t) (Some []) (ut_etag t) (fw_net w1) = (Inr item, net)"
  shows "exec_upload E' a t (um1, w1) = (Inr (item, False), (um1, w1\<lparr>fw_net := net\<rparr>))"
proof -
  have "a < length (um_store um)" using registered_ID [OF assms(1,2)] by simp
  then have "us_SnapshotPath (um_store um1 ! a) = []" "us_Data (um_store um1 ! a) = []"
    using assms(2-5)
    by (auto simp: enqueueSession_def Let_def discard_at_def DiscardSnapshot_def setState_def split: prod.splits if_splits)
  then have "OpenContent (env_os E') (fw_os w1) (um_store um1 ! a) = Inr (([], None), 0)"
    by (simp add: OpenContent_def)
  then show ?thesis using assms(6,7) by (simp add: exec_upload_def upload_def doUpload_def simple_limit_def)
qed

text \<open>
  When the upload after a conflict overwrites the remote item instead of creating one, so that
  the server returns the identifier the inode already has, completing the upload removes the inode
  from the cache.
\<close>

lemma conflict_same_id_loses_inode:
  assumes "exec_finish E a t (Inr (item, True)) (um, w) = (um', w')" "di_ID item = ut_id t"
  shows "Get (fw_cache w') (ut_id t) = None"
proof -
  have "Get (store_uploaded t item True c) (ut_id t) = None" for c
  proof (cases "Get (mutate (ut_id t) (\<lambda>n. set_id (di_ID item) (take_remote item n)) c) (ut_id t)")
    case None
    then show ?thesis by (simp add: store_uploaded_def MoveID_def)
  next
    case (Some n)
    then show ?thesis using assms(2)
      by (simp add: store_uploaded_def MoveID_def Let_def Get_def mutate_def markDirty_def markExclusive_def Store_def
          alist_simps split: option.split)
  qed
  then have "Get (Invalidate now p (store_uploaded t item True c)) (ut_id t) = None" for now p c
    by (auto simp: Invalidate_def Let_def Get_def mutate_def markDirty_def markExclusive_def alist_simps split: option.split)
  then show ?thesis using assms(1) by (auto simp: exec_finish_def Let_def)
qed

section \<open>Conflicts\<close>

text \<open>
  What the Graph documentation promises of the two requests that resolve a conflict, for a view of
  the drive as names and contents by identifier: a rename without If-Match renames, and a PUT under a
  name that no item of the folder has creates a new item with that content.
\<close>

definition renames :: "'w client \<Rightarrow> ('w \<Rightarrow> ident \<Rightarrow> (string \<times> bytes) option) \<Rightarrow> ident \<Rightarrow> string \<Rightarrow> bool" where
  "renames cli view i n \<longleftrightarrow> (\<forall>w hs nm d. view w i = Some (nm, d) \<longrightarrow> header_get ''If-Match'' hs = [] \<longrightarrow>
     (\<exists>resp left w' it.
        c_do cli \<lparr>rq_method = ''PATCH'', rq_url = client_URL cli (ResourcePathByID i) [], rq_headers = hs,
                  rq_body = Some (RenameJ n, 0), rq_GetBody = Some None\<rparr> w = (Inr resp, left, w') \<and>
        rs_status resp = 200 \<and> rs_body resp = ItemB it \<and> view w' = (view w)(i \<mapsto> (n, d))))"

definition creates :: "'w client \<Rightarrow> ('w \<Rightarrow> ident \<Rightarrow> (string \<times> bytes) option) \<Rightarrow> resource \<Rightarrow> string \<Rightarrow> bool" where
  "creates cli view parent n \<longleftrightarrow> (\<forall>w hs bs. (\<forall>j d. view w j \<noteq> Some (n, d)) \<longrightarrow> header_get ''If-Match'' hs = [] \<longrightarrow>
     (\<exists>resp left w' it.
        c_do cli \<lparr>rq_method = ''PUT'', rq_url = client_URL cli (WithAction (uploadItemResourcePath parent n) ''content'') [],
                  rq_headers = hs, rq_body = Some (Octets bs, 0), rq_GetBody = None\<rparr> w = (Inr resp, left, w') \<and>
        rs_status resp = 201 \<and> rs_body resp = ItemB it \<and> view w (di_ID it) = None \<and>
        view w' = (view w)(di_ID it \<mapsto> (n, bs))))"

definition reachable_drive :: "'w client \<Rightarrow> bool" where
  "reachable_drive cli \<longleftrightarrow> (\<forall>w. \<exists>t. c_token cli w = (Inr t, w))"

lemma auth_accepted:
  assumes "\<not> list_ex is_control url" "c_token cli w = (Inr t, w)"
    and "c_do cli \<lparr>rq_method = m, rq_url = url,
        rq_headers = [(''Authorization'', ''Bearer '' @ t), (''Accept'', ''application/json''), (''Content-Type'', ct)],
        rq_body = Some (p, 0), rq_GetBody = (if b then Some None else None)\<rparr> w = (Inr resp, left, w')"
    and "rs_status resp = 200 \<or> rs_status resp = 201" "ct \<noteq> []"
  shows "doAuthenticatedRequestWithBody cli m url (Some (p, b)) ct [] w = (Inr resp, w')"
proof -
  have "client_Do cli \<lparr>rq_method = m, rq_url = url,
        rq_headers = [(''Authorization'', ''Bearer '' @ t), (''Accept'', ''application/json''), (''Content-Type'', ct)],
        rq_body = Some (p, 0), rq_GetBody = (if b then Some None else None)\<rparr> w = (Inr resp, w')"
    by (rule client_Do_accepted [OF assms(3)]) (use assms(4) in auto)
  then show ?thesis using assms(1,2,5) by (cases b) (simp_all add: doAuthenticatedRequestWithBody_def Let_def)
qed

lemma no_if_match: "header_get ''If-Match'' [(''Authorization'', x), (''Accept'', y), (''Content-Type'', z)] = []"
  by (simp add: header_get_def)

lemma RenameItem_renames:
  assumes "renames cli view i n" "reachable_drive cli" "\<not> list_ex is_control (client_URL cli (ResourcePathByID i) [])"
    and "i \<noteq> []" "n \<noteq> []" "view w i = Some (nm, d)"
  shows "\<exists>it w'. RenameItem cli (ItemID i) n [] w = (Inr it, w') \<and> view w' = (view w)(i \<mapsto> (n, d))"
proof -
  obtain t where t: "c_token cli w = (Inr t, w)" using assms(2) by (auto simp: reachable_drive_def)
  obtain resp left w' it where c: "c_do cli \<lparr>rq_method = ''PATCH'', rq_url = client_URL cli (ResourcePathByID i) [],
      rq_headers = [(''Authorization'', ''Bearer '' @ t), (''Accept'', ''application/json''), (''Content-Type'', ''application/json'')],
      rq_body = Some (RenameJ n, 0), rq_GetBody = Some None\<rparr> w = (Inr resp, left, w')"
      "rs_status resp = 200" "rs_body resp = ItemB it" "view w' = (view w)(i \<mapsto> (n, d))"
    using assms(1) [unfolded renames_def, rule_format, OF assms(6) no_if_match [of "''Bearer '' @ t" "''application/json''" "''application/json''"]]
    by blast
  have "doAuthenticatedRequestWithBody cli ''PATCH'' (client_URL cli (ResourcePathByID i) []) (Some (RenameJ n, True))
      ''application/json'' [] w = (Inr resp, w')"
    by (rule auth_accepted [OF assms(3) t]) (use c in auto)
  then show ?thesis using assms(4,5) c(2-4)
    by (simp add: RenameItem_def validateResource_def doJSONRequest_def ifMatchHeaders_def checkResponse_def decode_item_def)
qed

lemma UploadItem_creates:
  assumes "creates cli view parent n" "reachable_drive cli" "\<not> IsEmpty parent" "n \<noteq> []"
    and "\<not> list_ex is_control (client_URL cli (WithAction (uploadItemResourcePath parent n) ''content'') [])"
    and "\<forall>j d. view w j \<noteq> Some (n, d)"
  shows "\<exists>it w'. UploadItem cli parent n (Some bs) [] w = (Inr it, w') \<and> view w (di_ID it) = None \<and>
    view w' = (view w)(di_ID it \<mapsto> (n, bs))"
proof -
  let ?url = "client_URL cli (WithAction (uploadItemResourcePath parent n) ''content'') []"
  obtain t where t: "c_token cli w = (Inr t, w)" using assms(2) by (auto simp: reachable_drive_def)
  obtain resp left w' it where c: "c_do cli \<lparr>rq_method = ''PUT'', rq_url = ?url,
      rq_headers = [(''Authorization'', ''Bearer '' @ t), (''Accept'', ''application/json''), (''Content-Type'', ''application/octet-stream'')],
      rq_body = Some (Octets bs, 0), rq_GetBody = None\<rparr> w = (Inr resp, left, w')"
      "rs_status resp = 201" "rs_body resp = ItemB it" "view w (di_ID it) = None" "view w' = (view w)(di_ID it \<mapsto> (n, bs))"
    using assms(1) [unfolded creates_def, rule_format, OF assms(6) [rule_format]
        no_if_match [of "''Bearer '' @ t" "''application/json''" "''application/octet-stream''"]]
    by blast
  have "doAuthenticatedRequestWithBody cli ''PUT'' ?url (Some (Octets bs, False)) ''application/octet-stream'' [] w = (Inr resp, w')"
    by (rule auth_accepted [OF assms(5) t]) (use c in auto)
  then show ?thesis using assms(3,4) c(2-5)
    by (simp add: UploadItem_def putContent_def validateResource_def ifMatchHeaders_def checkResponse_def decode_item_def)
qed

lemma conflictName_longer: "length (conflictName zone name t) > length name"
proof -
  obtain b e where s: "split_ext name = (b, e)" by fastforce
  then have "length b + length e = length name" by (auto simp: split_ext_def Let_def split: if_splits)
  then show ?thesis by (simp add: conflictName_def s)
qed


section \<open>Witnesses with a drive\<close>

text \<open>
  A drive that keeps names and contents: it renames the item \<open>i\<close>, refuses a PUT with If-Match and
  otherwise creates an item under a fresh identifier.
\<close>

definition fresh_id :: "(ident \<times> string \<times> bytes) list \<Rightarrow> ident" where
  "fresh_id fs = CHR ''n'' # concat (map fst fs)"

definition drive_client :: "(ident \<times> string \<times> bytes) list client" where
  "drive_client = \<lparr>BaseURL = ''https://g'',
     c_do = (\<lambda>req fs.
       if rq_method req = ''PATCH'' then
         (Inr \<lparr>rs_status = 200, rs_headers = [], rs_body = ItemB zero_item\<rparr>, None,
          case rq_body req of Some (RenameJ n, _) \<Rightarrow> AList.update ''i'' (n, snd (the (map_of fs ''i''))) fs | _ \<Rightarrow> fs)
       else if header_get ''If-Match'' (rq_headers req) \<noteq> [] then
         (Inr \<lparr>rs_status = 412, rs_headers = [], rs_body = ErrorB ''preconditionFailed'' []\<rparr>, None, fs)
       else
         (Inr \<lparr>rs_status = 201, rs_headers = [], rs_body = ItemB (zero_item\<lparr>di_ID := fresh_id fs\<rparr>)\<rparr>, None,
          AList.update (fresh_id fs) (''f.txt'', body_rest (rq_body req)) fs)),
     c_maxRetries = 0, c_token = (\<lambda>w. (Inr ''t'', w)), c_done = (\<lambda>_. None), c_sleep = (\<lambda>_ w. w), PollBackoff = second\<rparr>"

lemma fresh_id_fresh: "map_of fs (fresh_id fs) = None"
proof -
  have "length k \<le> length (concat (map fst fs))" if "k \<in> fst ` set fs" for k
    using that by (induction fs) (force simp: trans_le_add2)+
  then have "fresh_id fs \<notin> fst ` set fs" unfolding fresh_id_def by (metis Suc_n_not_le_n length_Cons)
  then show ?thesis by (simp add: map_of_eq_None_iff)
qed

lemma drive_renames: "renames drive_client map_of ''i'' n"
  by (auto simp: renames_def drive_client_def update_conv')

lemma drive_creates: "creates drive_client map_of parent ''f.txt''"
  by (auto simp: creates_def drive_client_def update_conv' body_rest_def fresh_id_fresh)


definition ex_target :: upload_target where
  "ex_target = \<lparr>ut_id = ''i'', ut_isLocal = False, ut_parentID = ''p'', ut_name = ''f.txt'', ut_etag = []\<rparr>"

definition accepting_client :: "nat client" where
  "accepting_client = busy_client\<lparr>c_do := (\<lambda>req n.
     (Inr \<lparr>rs_status = 200, rs_headers = [], rs_body = ItemB three_item\<rparr>, None, Suc n))\<rparr>"

lemma accepting_overwrite: "OverwriteItem accepting_client ''i'' (Some []) [] n = (Inr three_item, Suc n)"
proof -
  have url: "\<not> list_ex is_control (client_URL accepting_client (WithAction (ResourcePathByID ''i'') ''content'') [])"
    unfolding accepting_client_def busy_client_def by code_simp
  have "client_Do accepting_client req n = (Inr \<lparr>rs_status = 200, rs_headers = [], rs_body = ItemB three_item\<rparr>, Suc n)" for req
    by (rule client_Do_accepted) (simp_all add: accepting_client_def)
  moreover have "c_token accepting_client n = (Inr ''t'', n)" by (simp add: accepting_client_def busy_client_def)
  ultimately show ?thesis
    using url by (simp add: OverwriteItem_def putContent_def doAuthenticatedRequestWithBody_def checkResponse_def
        decode_item_def Let_def ifMatchHeaders_def)
qed

theorem superseded_upload_sends_empty_witness:
  "fst (exec_upload (ex_env\<lparr>env_cli := accepting_client\<rparr>) 0 ex_target
     (enqueueSession ex_env 1 ((ex_um ex_session)\<lparr>um_store := [ex_session, ex_session]\<rparr>, ex_world))) = Inr (three_item, False)"
proof -
  let ?um = "(ex_um ex_session)\<lparr>um_store := [ex_session, ex_session]\<rparr>"
  let ?st = "enqueueSession ex_env 1 (?um, ex_world)"
  have "um_ok ?um"
    by (simp add: um_ok_def slots_ok_def registry_ok_def ex_um_def inFlightCap_def ex_session_def)
  moreover have "map_of (um_sessions ?um) (us_ID (um_store ?um ! 1)) = Some 0" "us_Data (um_store ?um ! 0) = []"
    by (simp_all add: ex_um_def ex_session_def zero_session_def)
  ultimately have "exec_upload (ex_env\<lparr>env_cli := accepting_client\<rparr>) 0 ex_target (fst ?st, snd ?st) =
      (Inr (three_item, False), (fst ?st, (snd ?st)\<lparr>fw_net := Suc (fw_net (snd ?st))\<rparr>))"
    by (intro superseded_upload_sends_empty [where um = ?um and b = 1 and E = ex_env and w = ex_world])
      (simp_all add: ex_target_def accepting_overwrite)
  then show ?thesis by simp
qed

end
