(* ===== verification/Fs_Ops.thy ===== *)
theory Fs_Ops
  imports Upload_Manager
begin

text \<open>
  The operations behind the FUSE callbacks on folders (\<^verbatim>\<open>internal/fs/fs_ops.go\<close> and
  \<^verbatim>\<open>internal/fs/root.go\<close>): listings with the offline fallback, lookup, mkdir, rmdir, unlink, rename and
  create, over the shared state of the mounted file system.  A result is an errno or a value; a call
  that lists a folder on the server returns \<open>None\<close> when the server's pages never end.  Each call is
  one step.
\<close>

type_synonym 'a fuse_result = "errno + 'a"

abbreviation cc_of :: "('db, 'w) fs_world \<Rightarrow> cc_state" where
  "cc_of w \<equiv> (fw_cc w, fw_os w)"

definition with_cc :: "cc_state \<Rightarrow> ('db, 'w) fs_world \<Rightarrow> ('db, 'w) fs_world" where
  "with_cc cs w = w\<lparr>fw_cc := fst cs, fw_os := snd cs\<rparr>"

definition on_cache :: "(inode_cache \<Rightarrow> inode_cache) \<Rightarrow> ('db, 'w) fs_world \<Rightarrow> ('db, 'w) fs_world" where
  "on_cache f w = w\<lparr>fw_cache := f (fw_cache w)\<rparr>"

section \<open>Names\<close>

definition is_digit :: "char \<Rightarrow> bool" where
  "is_digit c \<longleftrightarrow> c \<in> set ''0123456789''"

text \<open>A match of the pattern at the start of a string.\<close>

definition disallowed_here :: "string \<Rightarrow> bool" where
  "disallowed_here s \<longleftrightarrow>
     (let l = map lower s in
      (take 3 l = ''lpt'' \<or> take 3 l = ''com'') \<and> (case drop 3 l of d # _ \<Rightarrow> is_digit d | [] \<Rightarrow> False) \<or>
      take 5 l = ''_vti_'' \<or>
      (case s of c # _ \<Rightarrow> c \<in> set [CHR 0x22, CHR ''*'', CHR '':'', CHR ''<'', CHR ''>'', CHR ''?'', CHR ''/'', CHR 0x5C, CHR ''|'']
        | [] \<Rightarrow> False))"

definition disallowedRexp :: "string \<Rightarrow> bool" where
  "disallowedRexp s = list_ex (\<lambda>k. disallowed_here (drop k s)) [0..<length s + 1]"

definition isNameRestricted :: "string \<Rightarrow> bool" where
  "isNameRestricted name \<longleftrightarrow>
     EqualFold name ''CON'' \<or> EqualFold name ''AUX'' \<or> EqualFold name ''PRN'' \<or> EqualFold name ''NUL'' \<or>
     EqualFold name ''.lock'' \<or> EqualFold name ''desktop.ini'' \<or> disallowedRexp name"

section \<open>Listings\<close>

definition fetchChildrenFromGraph ::
  "'w client \<Rightarrow> ident \<Rightarrow> 'w \<Rightarrow> ((go_error + drive_item list) \<times> 'w) option" where
  "fetchChildrenFromGraph cli parentID w =
     (if parentID = ''root'' \<or> parentID = [] then ListDriveRoot cli w else ListChildren cli (ItemID parentID) w)"

text \<open>
  \<^verbatim>\<open>fetchChildrenWithOffline\<close> after the answer of the server: a network error switches to offline mode
  and serves what the cache still has of the folder.
\<close>

definition fetchChildrenWithOffline :: "(go_error + drive_item list) \<Rightarrow> fetcher" where
  "fetchChildrenWithOffline answer c parentID =
     (case answer of
        Inl e \<Rightarrow>
          if fs_isNetworkError (Some e) then
            let c = SetOffline True c in
            (case Get c parentID of
               Some p \<Rightarrow>
                 if IsChildrenFetched p
                 then (c, Inr (map DriveItem (List.map_filter (Get c) (case Children p of None \<Rightarrow> [] | Some cs \<Rightarrow> cs))))
                 else let ds = ItemsByParent parentID c in if ds \<noteq> [] then (c, Inr ds) else (c, Inl e)
             | None \<Rightarrow> let ds = ItemsByParent parentID c in if ds \<noteq> [] then (c, Inr ds) else (c, Inl e))
          else (c, Inl e)
      | Inr ds \<Rightarrow> (if IsOffline c then SetOffline False c else c, Inr ds))"

interpretation offline_fetch: children_fetcher "fetchChildrenWithOffline answer" for answer
proof
  fix c :: inode_cache and i
  have same: "\<exists>b. c = c\<lparr>offline := b\<rparr>" by (rule exI [of _ "offline c"]) simp
  show "\<exists>b. fst (fetchChildrenWithOffline answer c i) = c\<lparr>offline := b\<rparr>"
    by (auto simp: fetchChildrenWithOffline_def SetOffline_def Let_def intro: same split: sum.split option.split)
qed

text \<open>\<^verbatim>\<open>GetChildren\<close> with that fetcher: the server is asked only when the listing is not fresh.\<close>

definition listing_fresh :: "time \<Rightarrow> ident \<Rightarrow> inode_cache \<Rightarrow> bool" where
  "listing_fresh now parentID c \<longleftrightarrow>
     (case Get c parentID of None \<Rightarrow> False | Some p \<Rightarrow> IsChildrenFetched p \<and> isChildrenFresh now c p)"

definition fs_GetChildren ::
  "('db, 'tx, 'w) fs_env \<Rightarrow> ident \<Rightarrow> ('db, 'w) fs_world \<Rightarrow> ((go_error + child_map) \<times> ('db, 'w) fs_world) option" where
  "fs_GetChildren E parentID w =
     (if listing_fresh (env_now E) parentID (fw_cache w)
      then case GetChildren (env_now E) parentID None (fw_cache w) of (c, r) \<Rightarrow> Some (r, w\<lparr>fw_cache := c\<rparr>)
      else case fetchChildrenFromGraph (env_cli E) parentID (fw_net w) of
             None \<Rightarrow> None
           | Some (answer, net) \<Rightarrow>
               (case GetChildren (env_now E) parentID (Some (fetchChildrenWithOffline answer)) (fw_cache w) of
                  (c, r) \<Rightarrow> Some (r, w\<lparr>fw_cache := c, fw_net := net\<rparr>)))"

definition readdirChildren ::
  "('db, 'tx, 'w) fs_env \<Rightarrow> ident \<Rightarrow> ('db, 'w) fs_world
     \<Rightarrow> ((string \<times> 32 word) list fuse_result \<times> ('db, 'w) fs_world) option" where
  "readdirChildren E parentID w =
     (case fs_GetChildren E parentID w of
        None \<Rightarrow> None
      | Some (Inl _, w) \<Rightarrow> Some (Inl EIO, w)
      | Some (Inr m, w) \<Rightarrow> Some (Inr (map (\<lambda>(_, child). (Name child, Mode child)) m), w))"

definition lookupChild ::
  "('db, 'tx, 'w) fs_env \<Rightarrow> ident \<Rightarrow> string \<Rightarrow> ('db, 'w) fs_world
     \<Rightarrow> (inode fuse_result \<times> ('db, 'w) fs_world) option" where
  "lookupChild E parentID name w =
     (case fs_GetChildren E parentID w of
        None \<Rightarrow> None
      | Some (Inl _, w) \<Rightarrow> Some (Inl EIO, w)
      | Some (Inr m, w) \<Rightarrow> (case map_of m name of None \<Rightarrow> Some (Inl ENOENT, w) | Some child \<Rightarrow> Some (Inr child, w)))"

section \<open>Changes of the tree\<close>

definition doMkdir ::
  "('db, 'tx, 'w) fs_env \<Rightarrow> ident \<Rightarrow> string \<Rightarrow> ('db, 'w) fs_world \<Rightarrow> inode fuse_result \<times> ('db, 'w) fs_world" where
  "doMkdir E parentID name w =
     (if isNameRestricted name then (Inl EINVAL, w)
      else
        let res = (if parentID = ''root'' then ItemPath ''/'' else ItemID parentID) in
        (case CreateFolder (env_cli E) res name (fw_net w) of
           (Inl _, net) \<Rightarrow> (Inl EIO, w\<lparr>fw_net := net\<rparr>)
         | (Inr item, net) \<Rightarrow>
             let child = inode_of_item item in
             (Inr (set_parent parentID child), on_cache (InsertChild parentID (Some child)) (w\<lparr>fw_net := net\<rparr>))))"

definition deleteRemote ::
  "('db, 'tx, 'w) fs_env \<Rightarrow> ident \<Rightarrow> ('db, 'w) fs_world \<Rightarrow> errno option \<times> ('db, 'w) fs_world" where
  "deleteRemote E itemID w =
     (if isLocalID itemID then (None, w)
      else case DeleteItem (env_cli E) (ItemID itemID) [] (fw_net w) of
             (Some _, net) \<Rightarrow> (Some EIO, w\<lparr>fw_net := net\<rparr>)
           | (None, net) \<Rightarrow> (None, w\<lparr>fw_net := net\<rparr>))"

definition doRmdir ::
  "('db, 'tx, 'w) fs_env \<Rightarrow> ident \<Rightarrow> string \<Rightarrow> ('db, 'w) fs_world \<Rightarrow> (unit fuse_result \<times> ('db, 'w) fs_world) option" where
  "doRmdir E parentID name w =
     (case lookupChild E parentID name w of
        None \<Rightarrow> None
      | Some (Inl e, w) \<Rightarrow> Some (Inl e, w)
      | Some (Inr child, w) \<Rightarrow>
          if \<not> IsDir child then Some (Inl ENOTDIR, w)
          else if HasChildren child then Some (Inl ENOTEMPTY, w)
          else case deleteRemote E (ID child) w of
                 (Some e, w) \<Rightarrow> Some (Inl e, w)
               | (None, w) \<Rightarrow> Some (Inr (), on_cache (RemoveChild parentID (ID child)) w))"

definition doUnlink ::
  "('db, 'tx, 'w) fs_env \<Rightarrow> ident \<Rightarrow> string \<Rightarrow> ('db, 'w) fs_world \<Rightarrow> (unit fuse_result \<times> ('db, 'w) fs_world) option" where
  "doUnlink E parentID name w =
     (case lookupChild E parentID name w of
        None \<Rightarrow> None
      | Some (Inl e, w) \<Rightarrow> Some (Inl e, w)
      | Some (Inr child, w) \<Rightarrow>
          (case deleteRemote E (ID child) w of
             (Some e, w) \<Rightarrow> Some (Inl e, w)
           | (None, w) \<Rightarrow>
               let w = on_cache (RemoveChild parentID (ID child)) w in
               Some (Inr (), with_cc (snd (cc_Delete (env_os E) (ID child) (cc_of w))) w)))"

definition set_name :: "string \<Rightarrow> inode \<Rightarrow> inode" where
  "set_name n i = i\<lparr>DriveItem := (DriveItem i)\<lparr>di_Name := n\<rparr>\<rparr>"

text \<open>\<^verbatim>\<open>&graph.DriveItemParent{ID: newParentID}\<close> replaces the parent reference of a local item.\<close>

definition doRename ::
  "('db, 'tx, 'w) fs_env \<Rightarrow> ident \<Rightarrow> string \<Rightarrow> ident \<Rightarrow> string \<Rightarrow> ('db, 'w) um_state
     \<Rightarrow> (unit fuse_result \<times> ('db, 'w) um_state) option" where
  "doRename E parentID name newParentID newName = (\<lambda>(um, w).
     if isNameRestricted newName then Some (Inl EINVAL, (um, w))
     else case lookupChild E parentID name w of
        None \<Rightarrow> None
      | Some (Inl e, w) \<Rightarrow> Some (Inl e, (um, w))
      | Some (Inr child, w) \<Rightarrow>
          let i = ID child in
          if isLocalID i then
            (case RenameSession E i newParentID newName (um, w) of
               (um, w) \<Rightarrow>
                 Some (Inr (), (um, on_cache (\<lambda>c. mutate i (\<lambda>n. set_parent newParentID (set_name newName n))
                                              (MoveChild (env_now E) parentID newParentID i c)) w)))
          else
            (case RenameItem (env_cli E) (ItemID i) newName [] (fw_net w) of
               (Inl _, net) \<Rightarrow> Some (Inl EIO, (um, w\<lparr>fw_net := net\<rparr>))
             | (Inr _, net) \<Rightarrow>
                 (case (if parentID \<noteq> newParentID
                        then case MoveItem (env_cli E) (ItemID i) (ItemID newParentID) [] net of
                               (Inl _, net) \<Rightarrow> (False, net) | (Inr _, net) \<Rightarrow> (True, net)
                        else (True, net)) of
                    (False, net) \<Rightarrow> Some (Inl EIO, (um, w\<lparr>fw_net := net\<rparr>))
                  | (True, net) \<Rightarrow>
                      Some (Inr (), (um, on_cache (\<lambda>c. mutate i (set_name newName)
                                                   (MoveChild (env_now E) parentID newParentID i c)) (w\<lparr>fw_net := net\<rparr>))))))"

text \<open>\<open>rnd\<close> is what the random source yields for the identifier of a new local file.\<close>

definition doCreate ::
  "('db, 'tx, 'w) fs_env \<Rightarrow> bytes option \<Rightarrow> ident \<Rightarrow> string \<Rightarrow> 32 word \<Rightarrow> ('db, 'w) fs_world
     \<Rightarrow> (inode fuse_result \<times> ('db, 'w) fs_world) option" where
  "doCreate E rnd parentID name m w =
     (if isNameRestricted name then Some (Inl EINVAL, w)
      else case fs_GetChildren E parentID w of
        None \<Rightarrow> None
      | Some (Inl _, w) \<Rightarrow> Some (Inl EIO, w)
      | Some (Inr cm, w) \<Rightarrow>
          (case map_of cm name of
             Some existing \<Rightarrow>
               let w = with_cc (snd (cc_Delete (env_os E) (ID existing) (cc_of w))) w in
               (case cc_Open (env_os E) (ID existing) (cc_of w) of
                  (Inl _, cs) \<Rightarrow> Some (Inl EIO, with_cc cs w)
                | (Inr _, cs) \<Rightarrow>
                    let f = (\<lambda>n. n\<lparr>DriveItem := (DriveItem n)\<lparr>di_Size := 0\<rparr>, hasChanges := True\<rparr>) in
                    Some (Inr (f existing), on_cache (mutate (ID existing) f) (with_cc cs w)))
           | None \<Rightarrow>
               let child = NewInodeLocal rnd name m None;
                   w = on_cache (InsertChild parentID (Some child)) w in
               (case cc_Open (env_os E) (ID child) (cc_of w) of
                  (Inl _, cs) \<Rightarrow> Some (Inl EIO, with_cc cs w)
                | (Inr _, cs) \<Rightarrow> Some (Inr (set_parent parentID child), with_cc cs w))))"

section \<open>FUSE wrappers\<close>

datatype embedder = RootFS | ItemNode ident | OtherNode

fun resolveNewParentID :: "embedder \<Rightarrow> ident" where
  "resolveNewParentID (ItemNode i) = i"
| "resolveNewParentID RootFS = ''root''"
| "resolveNewParentID OtherNode = []"

definition fuseRename ::
  "('db, 'tx, 'w) fs_env \<Rightarrow> ident \<Rightarrow> string \<Rightarrow> embedder \<Rightarrow> string \<Rightarrow> ('db, 'w) um_state
     \<Rightarrow> (unit fuse_result \<times> ('db, 'w) um_state) option" where
  "fuseRename E parentID name newParent newName st =
     (let newParentID = resolveNewParentID newParent in
      if newParentID = [] then Some (Inl EINVAL, st) else doRename E parentID name newParentID newName st)"

text \<open>The attributes of the root folder and the entry that a lookup returns.\<close>

definition root_Getattr :: "32 word \<Rightarrow> 32 word \<Rightarrow> time \<Rightarrow> fuse_attr" where
  "root_Getattr uid gid now =
     (let t = of_int (max (time_unix now) 0) in
      \<lparr>at_Size = 4096, at_Nlink = 2, at_Ctime = t, at_Mtime = t, at_Atime = t, at_Mode = S_IFDIR OR 0x1ED,
       at_Uid = uid, at_Gid = gid, at_Blksize = 4096, at_Blocks = 0\<rparr>)"

definition fuseLookup ::
  "('db, 'tx, 'w) fs_env \<Rightarrow> 32 word \<Rightarrow> 32 word \<Rightarrow> ident \<Rightarrow> string \<Rightarrow> ('db, 'w) fs_world
     \<Rightarrow> ((inode \<times> fuse_attr) fuse_result \<times> ('db, 'w) fs_world) option" where
  "fuseLookup E uid gid parentID name w =
     (case lookupChild E parentID name w of
        None \<Rightarrow> None
      | Some (Inl e, w) \<Rightarrow> Some (Inl e, w)
      | Some (Inr child, w) \<Rightarrow> Some (Inr (child, fillEntryOut uid gid (env_now E) (DriveItem child)), w))"

definition fuseMkdir ::
  "('db, 'tx, 'w) fs_env \<Rightarrow> 32 word \<Rightarrow> 32 word \<Rightarrow> ident \<Rightarrow> string \<Rightarrow> ('db, 'w) fs_world
     \<Rightarrow> (inode \<times> fuse_attr) fuse_result \<times> ('db, 'w) fs_world" where
  "fuseMkdir E uid gid parentID name w =
     (case doMkdir E parentID name w of
        (Inl e, w) \<Rightarrow> (Inl e, w)
      | (Inr child, w) \<Rightarrow> (Inr (child, fillEntryOut uid gid (env_now E) (DriveItem child)), w))"

definition fuseRmdir ::
  "('db, 'tx, 'w) fs_env \<Rightarrow> ident \<Rightarrow> string \<Rightarrow> ('db, 'w) fs_world \<Rightarrow> (unit fuse_result \<times> ('db, 'w) fs_world) option" where
  "fuseRmdir E parentID name w = doRmdir E parentID name w"

definition fuseUnlink ::
  "('db, 'tx, 'w) fs_env \<Rightarrow> ident \<Rightarrow> string \<Rightarrow> ('db, 'w) fs_world \<Rightarrow> (unit fuse_result \<times> ('db, 'w) fs_world) option" where
  "fuseUnlink E parentID name w = doUnlink E parentID name w"

definition fuseCreate ::
  "('db, 'tx, 'w) fs_env \<Rightarrow> bytes option \<Rightarrow> 32 word \<Rightarrow> 32 word \<Rightarrow> ident \<Rightarrow> string \<Rightarrow> 32 word \<Rightarrow> ('db, 'w) fs_world
     \<Rightarrow> ((inode \<times> fuse_attr) fuse_result \<times> ('db, 'w) fs_world) option" where
  "fuseCreate E rnd uid gid parentID name m w =
     (case doCreate E rnd parentID name m w of
        None \<Rightarrow> None
      | Some (Inl e, w) \<Rightarrow> Some (Inl e, w)
      | Some (Inr child, w) \<Rightarrow> Some (Inr (child, fillEntryOut uid gid (env_now E) (DriveItem child)), w))"

end
