(* ===== verification/Item_Node.thy ===== *)
theory Item_Node
  imports Fs_Ops
begin

text \<open>
  The FUSE nodes (\<^verbatim>\<open>internal/fs/drive_item_node.go\<close> and the methods of \<^verbatim>\<open>OneCloudFS\<close> in
  \<^verbatim>\<open>internal/fs/root.go\<close>).  An operation on a file takes the inode its node points to and returns the
  changed one; \<open>on_node\<close> applies it to the object of the cache.  The operations on folders are those of
  \<open>Fs_Ops\<close> behind a guard.  When the download for a write access fails, the code closes the
  descriptor it leaves registered: operations on that file afterwards are those whose environment
  fails the calls on the descriptor.
\<close>

section \<open>Attributes\<close>

definition node_attr :: "32 word \<Rightarrow> 32 word \<Rightarrow> inode \<Rightarrow> fuse_attr" where
  "node_attr uid gid n =
     (let a = makeAttr uid gid n in a\<lparr>at_Blksize := 4096, at_Blocks := (at_Size a + 511) div 512\<rparr>)"

definition node_Getattr :: "32 word \<Rightarrow> 32 word \<Rightarrow> inode \<Rightarrow> fuse_attr" where
  "node_Getattr uid gid n = node_attr uid gid n"

record statfs_out =
  sf_Bsize :: "32 word"
  sf_Frsize :: "32 word"
  sf_Blocks :: "64 word"
  sf_Bfree :: "64 word"
  sf_Bavail :: "64 word"
  sf_Files :: "64 word"
  sf_Ffree :: "64 word"
  sf_NameLen :: "32 word"

definition node_Statfs :: "statfs_out \<Rightarrow> statfs_out" where
  "node_Statfs out =
     (let blocks = 5 * 1024 * 1024 * 1024 * 1024 div 4096 in
      out\<lparr>sf_Bsize := 4096, sf_Blocks := blocks, sf_Bfree := blocks, sf_Bavail := blocks,
          sf_Files := 100000, sf_Ffree := 100000, sf_NameLen := 260\<rparr>)"

definition root_Statfs :: "statfs_out \<Rightarrow> statfs_out" where
  "root_Statfs out =
     out\<lparr>sf_Bsize := 4096, sf_Frsize := 4096, sf_Blocks := push_bit 30 1, sf_Bfree := push_bit 30 1,
         sf_Bavail := push_bit 30 1, sf_Files := push_bit 20 1, sf_Ffree := push_bit 20 1, sf_NameLen := 255\<rparr>"

section \<open>Content\<close>

definition hasContentOnDisk :: "os_env \<Rightarrow> ident \<Rightarrow> cc_state \<Rightarrow> bool" where
  "hasContentOnDisk E i cs \<longleftrightarrow> cc_Size E i cs > 0"

definition verifyCachedContent :: "os_env \<Rightarrow> ident \<Rightarrow> inode \<Rightarrow> cc_state \<Rightarrow> bool \<times> cc_state" where
  "verifyCachedContent E i n cs =
     (let expected = (case di_File (DriveItem n) of None \<Rightarrow> [] | Some f \<Rightarrow> QuickXorHash (Hashes f)) in
      if expected = [] then (True, cs)
      else case SumQuickXorHash E i cs of
             (None, cs) \<Rightarrow> (False, cs)
           | (Some digest, cs) \<Rightarrow> (EqualFold digest expected, cs))"

definition downloadError :: "go_error option \<Rightarrow> go_error option \<Rightarrow> go_error option" where
  "downloadError graphErr cacheErr =
     (case graphErr of
        None \<Rightarrow> cacheErr
      | Some g \<Rightarrow> (case cacheErr of None \<Rightarrow> Some g | Some c \<Rightarrow> Some (Joined g c)))"

text \<open>
  The write end of the pipe, as the Graph client sees it: it is closed at once when the cache
  cannot take the stream, and after a failed write of the cache, which has then read \<open>ahead\<close> bytes more
  than it wrote.
\<close>

definition takes_stream :: "os_env \<Rightarrow> ident \<Rightarrow> cc_state \<Rightarrow> bool" where
  "takes_stream E i cs \<longleftrightarrow>
     \<not> cc_closed (fst cs) \<and> (case fst (cc_Open E i cs) of Inl _ \<Rightarrow> False | Inr _ \<Rightarrow> True) \<and>
     f_seek E = None \<and> f_trunc E = None"

definition ErrClosedPipe :: go_error where
  "ErrClosedPipe = Plain ''io: read/write on closed pipe''"

definition pipe_writer :: "os_env \<Rightarrow> nat \<Rightarrow> ident \<Rightarrow> cc_state \<Rightarrow> writer" where
  "pipe_writer E ahead i cs =
     (if \<not> takes_stream E i cs then Some (0, ErrClosedPipe)
      else case f_write E of Some (n, _) \<Rightarrow> Some (n + ahead, ErrClosedPipe) | None \<Rightarrow> None)"

definition downloadContent ::
  "('db, 'tx, 'w) fs_env \<Rightarrow> nat \<Rightarrow> ident \<Rightarrow> ('db, 'w) fs_world \<Rightarrow> errno option \<times> ('db, 'w) fs_world" where
  "downloadContent E ahead i w =
     (case GetItemContentStream (env_cli E) (ItemID i) (pipe_writer (env_os E) ahead i (cc_of w)) (fw_net w) of
        ((sent, graphErr), net) \<Rightarrow>
          (case cc_InsertStream (env_os E) i ([sent], graphErr) (cc_of w) of
             ((_, cacheErr), cs) \<Rightarrow>
               (if downloadError graphErr cacheErr = None then None else Some EIO, with_cc cs (w\<lparr>fw_net := net\<rparr>))))"

section \<open>Files\<close>

definition O_ACCMODE :: "32 word" where "O_ACCMODE = 3"
definition O_RDONLY :: "32 word" where "O_RDONLY = 0"
definition O_TRUNC :: "32 word" where "O_TRUNC = 0x200"
definition FOPEN_KEEP_CACHE :: "32 word" where "FOPEN_KEEP_CACHE = 2"

type_synonym ('a, 'db, 'w) node_op = "inode \<Rightarrow> ('db, 'w) fs_world \<Rightarrow> 'a fuse_result \<times> inode \<times> ('db, 'w) fs_world"

definition open_for_reading ::
  "('db, 'tx, 'w) fs_env \<Rightarrow> nat \<Rightarrow> inode \<Rightarrow> ('db, 'w) fs_world \<Rightarrow> errno option \<times> ('db, 'w) fs_world" where
  "open_for_reading E ahead n w =
     (let i = ID n in
      if isLocalID i then (None, w)
      else if hasContentOnDisk (env_os E) i (cc_of w) then
        (case verifyCachedContent (env_os E) i n (cc_of w) of
           (True, cs) \<Rightarrow> (None, with_cc cs w)
         | (False, cs) \<Rightarrow> downloadContent E ahead i (with_cc (snd (cc_Delete (env_os E) i cs)) w))
      else downloadContent E ahead i w)"

definition truncate_fd :: "os_env \<Rightarrow> nat \<Rightarrow> nat \<Rightarrow> os_state \<Rightarrow> go_error option \<times> os_state" where
  "truncate_fd E fd n s =
     (case f_trunc E of
        Some e \<Rightarrow> (Some e, s)
      | None \<Rightarrow> let d = of_data (os_files s fd)
                 in (None, set_data fd (take n d @ replicate (n - length d) 0) (e_now E) s))"

definition set_size :: "64 word \<Rightarrow> inode \<Rightarrow> inode" where
  "set_size k n = n\<lparr>DriveItem := (DriveItem n)\<lparr>di_Size := k\<rparr>, hasChanges := True\<rparr>"

definition open_for_writing ::
  "('db, 'tx, 'w) fs_env \<Rightarrow> nat \<Rightarrow> 32 word \<Rightarrow> nat \<Rightarrow> (32 word, 'db, 'w) node_op" where
  "open_for_writing E ahead flags fd n w =
     (let i = ID n in
      case (if \<not> isLocalID i \<and> \<not> hasContentOnDisk (env_os E) i (cc_of w) then downloadContent E ahead i w else (None, w)) of
        (Some e, w) \<Rightarrow> (Inl e, n, w)
      | (None, w) \<Rightarrow>
          if flags AND O_TRUNC \<noteq> 0 then
            (case truncate_fd (env_os E) fd 0 (fw_os w) of
               (Some _, s) \<Rightarrow> (Inl EIO, n, w\<lparr>fw_os := s\<rparr>)
             | (None, s) \<Rightarrow> (Inr FOPEN_KEEP_CACHE, set_size 0 n, w\<lparr>fw_os := s\<rparr>))
          else (Inr FOPEN_KEEP_CACHE, n, w))"

definition node_Open :: "('db, 'tx, 'w) fs_env \<Rightarrow> nat \<Rightarrow> 32 word \<Rightarrow> (32 word, 'db, 'w) node_op" where
  "node_Open E ahead flags n w =
     (if IsDir n then (Inl EISDIR, n, w)
      else case cc_Open (env_os E) (ID n) (cc_of w) of
             (Inl _, cs) \<Rightarrow> (Inl EIO, n, with_cc cs w)
           | (Inr fd, cs) \<Rightarrow>
               let w = with_cc cs w in
               if flags AND O_ACCMODE = O_RDONLY then
                 (case open_for_reading E ahead n w of
                    (Some e, w) \<Rightarrow> (Inl e, n, w)
                  | (None, w) \<Rightarrow> (Inr FOPEN_KEEP_CACHE, n, w))
               else open_for_writing E ahead flags fd n w)"

text \<open>A read returns a descriptor with an offset and a length; \<open>fd_bytes\<close> is what it denotes.\<close>

definition node_Read :: "('db, 'tx, 'w) fs_env \<Rightarrow> nat \<Rightarrow> int \<Rightarrow> (nat \<times> int \<times> nat, 'db, 'w) node_op" where
  "node_Read E len off n w =
     (case cc_Open (env_os E) (ID n) (cc_of w) of
        (Inl _, cs) \<Rightarrow> (Inl EIO, n, with_cc cs w)
      | (Inr fd, cs) \<Rightarrow> (Inr (fd, off, len), n, with_cc cs w))"

definition fd_bytes :: "os_state \<Rightarrow> nat \<times> int \<times> nat \<Rightarrow> bytes" where
  "fd_bytes s = (\<lambda>(fd, off, len). take len (drop (nat off) (of_data (os_files s fd))))"

definition node_Write :: "('db, 'tx, 'w) fs_env \<Rightarrow> bytes \<Rightarrow> int \<Rightarrow> (32 word, 'db, 'w) node_op" where
  "node_Write E b off n w =
     (case cc_WriteAt (env_os E) (ID n) b off (cc_of w) of
        ((_, Some _), cs) \<Rightarrow> (Inl EIO, n, with_cc cs w)
      | ((k, None), cs) \<Rightarrow>
          let w = with_cc cs w; newEnd = int64_add off (int k) in
          if newEnd < 0 then (Inl EINVAL, n, w)
          else
            let n = (if word_of_int newEnd > di_Size (DriveItem n)
                     then n\<lparr>DriveItem := (DriveItem n)\<lparr>di_Size := word_of_int newEnd\<rparr>\<rparr> else n);
                n = n\<lparr>hasChanges := True\<rparr>
            in if k > 2 ^ 32 - 1 then (Inl EIO, n, w) else (Inr (of_nat k), n, w))"

definition node_Fsync ::
  "('db, 'tx, 'w) fs_env \<Rightarrow> inode \<Rightarrow> ('db, 'w) um_state \<Rightarrow> unit fuse_result \<times> inode \<times> ('db, 'w) um_state" where
  "node_Fsync E n st =
     (if \<not> HasChanges n then (Inr (), n, st)
      else case QueueUpload E (ID n) (ParentID n) (Name n) st of
             (enqueued, (um, w)) \<Rightarrow>
               (Inr (), if enqueued \<or> cc_Size (env_os E) (ID n) (cc_of w) = 0 then SetHasChanges False n else n, (um, w)))"

definition node_Flush ::
  "('db, 'tx, 'w) fs_env \<Rightarrow> inode \<Rightarrow> ('db, 'w) um_state \<Rightarrow> unit fuse_result \<times> inode \<times> ('db, 'w) um_state" where
  "node_Flush E n st =
     (case node_Fsync E n st of
        (r, n, (um, w)) \<Rightarrow> (r, n, (um, with_cc (cc_Close (env_os E) (ID n) (cc_of w)) w)))"

text \<open>\<open>chmod\<close>, \<open>utimens\<close> and \<open>truncate\<close>, in this order; the changes made before a failure stay.\<close>

record setattr_in =
  sa_mode :: "32 word option"
  sa_mtime :: "time option"
  sa_size :: "64 word option"

definition node_chmod :: "32 word \<Rightarrow> inode \<Rightarrow> inode" where
  "node_chmod m n = SetMode ((if IsDir n then S_IFDIR else S_IFREG) OR (m AND 0xFFF)) n"

definition node_Setattr ::
  "('db, 'tx, 'w) fs_env \<Rightarrow> 32 word \<Rightarrow> 32 word \<Rightarrow> setattr_in \<Rightarrow> (fuse_attr, 'db, 'w) node_op" where
  "node_Setattr E uid gid sa n w =
     (let n = (case sa_mode sa of None \<Rightarrow> n | Some m \<Rightarrow> node_chmod m n);
          n = (case sa_mtime sa of None \<Rightarrow> n | Some t \<Rightarrow> n\<lparr>DriveItem := (DriveItem n)\<lparr>di_ModTime := Some t\<rparr>\<rparr>) in
      case sa_size sa of
        None \<Rightarrow> (Inr (node_attr uid gid n), n, w)
      | Some k \<Rightarrow>
          (case cc_Open (env_os E) (ID n) (cc_of w) of
             (Inl _, cs) \<Rightarrow> (Inl EIO, n, with_cc cs w)
           | (Inr fd, cs) \<Rightarrow>
               let w = with_cc cs w in
               if unat k > 2 ^ 63 - 1 then (Inl EINVAL, n, w)
               else (case truncate_fd (env_os E) fd (unat k) (fw_os w) of
                       (Some _, s) \<Rightarrow> (Inl EIO, n, w\<lparr>fw_os := s\<rparr>)
                     | (None, s) \<Rightarrow>
                         let n = set_size k n in (Inr (node_attr uid gid n), n, w\<lparr>fw_os := s\<rparr>))))"

section \<open>Folders\<close>

definition node_Readdir ::
  "('db, 'tx, 'w) fs_env \<Rightarrow> inode \<Rightarrow> ('db, 'w) fs_world
     \<Rightarrow> ((string \<times> 32 word) list fuse_result \<times> ('db, 'w) fs_world) option" where
  "node_Readdir E n w = (if \<not> IsDir n then Some (Inl ENOTDIR, w) else readdirChildren E (ID n) w)"

definition node_Lookup ::
  "('db, 'tx, 'w) fs_env \<Rightarrow> 32 word \<Rightarrow> 32 word \<Rightarrow> string \<Rightarrow> inode \<Rightarrow> ('db, 'w) fs_world
     \<Rightarrow> ((inode \<times> fuse_attr) fuse_result \<times> ('db, 'w) fs_world) option" where
  "node_Lookup E uid gid name n w =
     (if \<not> IsDir n then Some (Inl ENOTDIR, w) else fuseLookup E uid gid (ID n) name w)"

definition node_Mkdir ::
  "('db, 'tx, 'w) fs_env \<Rightarrow> 32 word \<Rightarrow> 32 word \<Rightarrow> string \<Rightarrow> inode \<Rightarrow> ('db, 'w) fs_world
     \<Rightarrow> (inode \<times> fuse_attr) fuse_result \<times> ('db, 'w) fs_world" where
  "node_Mkdir E uid gid name n w =
     (if \<not> IsDir n then (Inl ENOTDIR, w) else fuseMkdir E uid gid (ID n) name w)"

definition node_Rmdir ::
  "('db, 'tx, 'w) fs_env \<Rightarrow> string \<Rightarrow> inode \<Rightarrow> ('db, 'w) fs_world \<Rightarrow> (unit fuse_result \<times> ('db, 'w) fs_world) option" where
  "node_Rmdir E name n w = (if \<not> IsDir n then Some (Inl ENOTDIR, w) else fuseRmdir E (ID n) name w)"

definition node_Unlink ::
  "('db, 'tx, 'w) fs_env \<Rightarrow> string \<Rightarrow> inode \<Rightarrow> ('db, 'w) fs_world \<Rightarrow> (unit fuse_result \<times> ('db, 'w) fs_world) option" where
  "node_Unlink E name n w = (if \<not> IsDir n then Some (Inl ENOTDIR, w) else fuseUnlink E (ID n) name w)"

definition node_Rename ::
  "('db, 'tx, 'w) fs_env \<Rightarrow> string \<Rightarrow> embedder \<Rightarrow> string \<Rightarrow> inode \<Rightarrow> ('db, 'w) um_state
     \<Rightarrow> (unit fuse_result \<times> ('db, 'w) um_state) option" where
  "node_Rename E name newParent newName n st =
     (if \<not> IsDir n then Some (Inl ENOTDIR, st) else fuseRename E (ID n) name newParent newName st)"

definition node_Create ::
  "('db, 'tx, 'w) fs_env \<Rightarrow> bytes option \<Rightarrow> 32 word \<Rightarrow> 32 word \<Rightarrow> string \<Rightarrow> 32 word \<Rightarrow> inode \<Rightarrow> ('db, 'w) fs_world
     \<Rightarrow> ((inode \<times> fuse_attr) fuse_result \<times> ('db, 'w) fs_world) option" where
  "node_Create E rnd uid gid name m n w =
     (if \<not> IsDir n then Some (Inl ENOTDIR, w) else fuseCreate E rnd uid gid (ID n) name m w)"

subsection \<open>The root\<close>

definition root_Readdir ::
  "('db, 'tx, 'w) fs_env \<Rightarrow> ('db, 'w) fs_world \<Rightarrow> ((string \<times> 32 word) list fuse_result \<times> ('db, 'w) fs_world) option" where
  "root_Readdir E w = readdirChildren E ''root'' w"

definition root_Lookup ::
  "('db, 'tx, 'w) fs_env \<Rightarrow> 32 word \<Rightarrow> 32 word \<Rightarrow> string \<Rightarrow> ('db, 'w) fs_world
     \<Rightarrow> ((inode \<times> fuse_attr) fuse_result \<times> ('db, 'w) fs_world) option" where
  "root_Lookup E uid gid name w = fuseLookup E uid gid ''root'' name w"

definition root_Mkdir ::
  "('db, 'tx, 'w) fs_env \<Rightarrow> 32 word \<Rightarrow> 32 word \<Rightarrow> string \<Rightarrow> ('db, 'w) fs_world
     \<Rightarrow> (inode \<times> fuse_attr) fuse_result \<times> ('db, 'w) fs_world" where
  "root_Mkdir E uid gid name w = fuseMkdir E uid gid ''root'' name w"

definition root_Rmdir ::
  "('db, 'tx, 'w) fs_env \<Rightarrow> string \<Rightarrow> ('db, 'w) fs_world \<Rightarrow> (unit fuse_result \<times> ('db, 'w) fs_world) option" where
  "root_Rmdir E name w = fuseRmdir E ''root'' name w"

definition root_Unlink ::
  "('db, 'tx, 'w) fs_env \<Rightarrow> string \<Rightarrow> ('db, 'w) fs_world \<Rightarrow> (unit fuse_result \<times> ('db, 'w) fs_world) option" where
  "root_Unlink E name w = fuseUnlink E ''root'' name w"

definition root_Rename ::
  "('db, 'tx, 'w) fs_env \<Rightarrow> string \<Rightarrow> embedder \<Rightarrow> string \<Rightarrow> ('db, 'w) um_state
     \<Rightarrow> (unit fuse_result \<times> ('db, 'w) um_state) option" where
  "root_Rename E name newParent newName st = fuseRename E ''root'' name newParent newName st"

definition root_Create ::
  "('db, 'tx, 'w) fs_env \<Rightarrow> bytes option \<Rightarrow> 32 word \<Rightarrow> 32 word \<Rightarrow> string \<Rightarrow> 32 word \<Rightarrow> ('db, 'w) fs_world
     \<Rightarrow> ((inode \<times> fuse_attr) fuse_result \<times> ('db, 'w) fs_world) option" where
  "root_Create E rnd uid gid name m w = fuseCreate E rnd uid gid ''root'' name m w"

section \<open>Operations on the objects of the cache\<close>

definition on_node ::
  "ident \<Rightarrow> (inode \<Rightarrow> ('db, 'w) um_state \<Rightarrow> 'a \<times> inode \<times> ('db, 'w) um_state) \<Rightarrow> ('db, 'w) um_state \<Rightarrow> ('db, 'w) um_state" where
  "on_node i f = (\<lambda>(um, w).
     case Get (fw_cache w) i of
       None \<Rightarrow> (um, w)
     | Some n \<Rightarrow> (case f n (um, w) of (_, n, (um, w)) \<Rightarrow> (um, on_cache (mutate i (\<lambda>_. n)) w)))"

text \<open>An operation that does not reach the upload manager.\<close>

definition lift_node :: "('a, 'db, 'w) node_op \<Rightarrow> inode \<Rightarrow> ('db, 'w) um_state \<Rightarrow> 'a fuse_result \<times> inode \<times> ('db, 'w) um_state" where
  "lift_node f n = (\<lambda>(um, w). case f n w of (r, n, w) \<Rightarrow> (r, n, (um, w)))"

end
