(* ===== verification/Delta_Sync.thy ===== *)
theory Delta_Sync
  imports Fs_Ops
begin

text \<open>
  Synchronisation of remote changes (\<^verbatim>\<open>internal/fs/delta.go\<close>): a poll reads the pages of the delta
  endpoint, applies each page to the metadata tree and the content cache and persists the link
  after every page.  \<open>uploads\<close> is the query for pending uploads, absent in the command
  \<^verbatim>\<open>onecloudriver sync\<close>.  A poll is one step with one environment; it returns \<open>None\<close> when the pages
  never end.
\<close>

section \<open>State\<close>

record delta_sync =
  ds_rootRealID :: string
  ds_rootIDOnce :: bool
  ds_syncCount :: "64 word"
  ds_errorCount :: "64 word"

type_synonym ('db, 'w) ds_state = "delta_sync \<times> ('db, 'w) fs_world"

type_synonym upload_query = "(ident \<Rightarrow> bool) option"

definition NewDeltaSync :: delta_sync where
  "NewDeltaSync = \<lparr>ds_rootRealID = [], ds_rootIDOnce = False, ds_syncCount = 0, ds_errorCount = 0\<rparr>"

definition RootID :: ident where "RootID = ''root''"

section \<open>Helpers\<close>

definition contentMatchesRemote :: "os_env \<Rightarrow> ident \<Rightarrow> drive_file option \<Rightarrow> cc_state \<Rightarrow> bool \<times> cc_state" where
  "contentMatchesRemote E i f cs =
     (case f of
        None \<Rightarrow> (False, cs)
      | Some f \<Rightarrow>
          if QuickXorHash (Hashes f) = [] then (False, cs)
          else case SumQuickXorHash E i cs of
                 (None, cs) \<Rightarrow> (False, cs)
               | (Some digest, cs) \<Rightarrow> (EqualFold digest (QuickXorHash (Hashes f)), cs))"

text \<open>The drive root asked for at most once.\<close>

definition learn_root ::
  "('db, 'tx, 'w) fs_env \<Rightarrow> ('db, 'w) ds_state \<Rightarrow> ('db, 'w) ds_state" where
  "learn_root E = (\<lambda>(d, w).
     if ds_rootIDOnce d then (d, w)
     else case GetItem (env_cli E) (ItemID RootID) (fw_net w) of
            (r, net) \<Rightarrow>
              (let d = d\<lparr>ds_rootIDOnce := True\<rparr> in
               (case r of Inr item \<Rightarrow> if di_ID item \<noteq> [] then d\<lparr>ds_rootRealID := di_ID item\<rparr> else d | Inl _ \<Rightarrow> d,
                w\<lparr>fw_net := net\<rparr>)))"

definition is_delta_root :: "ident \<Rightarrow> drive_item \<Rightarrow> bool" where
  "is_delta_root parentID item \<longleftrightarrow> parentID = [] \<and> IsFolder item \<and> di_Name item = ''root''"

definition resolveParentID ::
  "('db, 'tx, 'w) fs_env \<Rightarrow> ident \<Rightarrow> drive_item \<Rightarrow> ('db, 'w) ds_state \<Rightarrow> ident \<times> ('db, 'w) ds_state" where
  "resolveParentID E parentID item = (\<lambda>(d, w).
     if is_delta_root parentID item then (parentID, (d\<lparr>ds_rootRealID := di_ID item\<rparr>, w))
     else if parentID = [] \<or> parentID = RootID then (parentID, (d, w))
     else if parentID = ds_rootRealID d then (RootID, (d, w))
     else
       let (d, w) = (if Get (fw_cache w) parentID = None then learn_root E (d, w) else (d, w)) in
       (if parentID = ds_rootRealID d then RootID else parentID, (d, w)))"

section \<open>One change\<close>

definition apply_root :: "drive_item \<Rightarrow> ('db, 'w) fs_world \<Rightarrow> ('db, 'w) fs_world" where
  "apply_root item w =
     (case Get (fw_cache w) RootID of
        None \<Rightarrow> w
      | Some _ \<Rightarrow>
          on_cache (markDirty RootID \<circ> mutate RootID (\<lambda>n. n\<lparr>DriveItem := (DriveItem n)\<lparr>di_Folder := di_Folder item\<rparr>\<rparr>)) w)"

definition apply_deletion ::
  "('db, 'tx, 'w) fs_env \<Rightarrow> ident \<Rightarrow> drive_item \<Rightarrow> inode option \<Rightarrow> ('db, 'w) fs_world \<Rightarrow> go_error option \<times> ('db, 'w) fs_world" where
  "apply_deletion E parentID item local w =
     (if IsFolder item \<and> (case local of None \<Rightarrow> False | Some n \<Rightarrow> HasChildren n) then (Some (Sentinel ErrDirNotEmpty), w)
      else
        let w = on_cache (RemoveChild parentID (di_ID item)) w in
        (None, with_cc (snd (cc_Delete (env_os E) (di_ID item) (cc_of w))) w))"

definition apply_creation ::
  "time \<Rightarrow> ident \<Rightarrow> drive_item \<Rightarrow> inode_cache \<Rightarrow> inode_cache" where
  "apply_creation now parentID item c =
     (case GetChild now parentID (di_Name item) None c of
        (c, r) \<Rightarrow>
          (case r of
             Inr (Some existing) \<Rightarrow>
               if isLocalID (ID existing) then MoveID (ID existing) (di_ID item) c
               else InsertChild parentID (Some (inode_of_item item)) c
           | _ \<Rightarrow> InsertChild parentID (Some (inode_of_item item)) c))"

definition apply_move :: "time \<Rightarrow> ident \<Rightarrow> drive_item \<Rightarrow> inode \<Rightarrow> inode_cache \<Rightarrow> inode_cache" where
  "apply_move now parentID item local c =
     (if ParentID local \<noteq> parentID \<or> Name local \<noteq> di_Name item
      then mutate (di_ID item)
             (\<lambda>n. let d = (DriveItem n)\<lparr>di_Name := di_Name item\<rparr> in
                  n\<lparr>DriveItem := (if di_Parent item \<noteq> None then d\<lparr>di_Parent := di_Parent item\<rparr> else d)\<rparr>)
             (MoveChild now (ParentID local) parentID (di_ID item) c)
      else c)"

definition take_version :: "drive_item \<Rightarrow> inode \<Rightarrow> inode" where
  "take_version item n =
     (let d = (DriveItem n)\<lparr>di_ModTime := di_ModTime item, di_Size := di_Size item, di_ETag := di_ETag item\<rparr> in
      n\<lparr>DriveItem := (if di_File item \<noteq> None then d\<lparr>di_File := di_File item\<rparr> else d), hasChanges := False\<rparr>)"

definition pending_work :: "upload_query \<Rightarrow> ident \<Rightarrow> inode \<Rightarrow> bool" where
  "pending_work uploads i local \<longleftrightarrow> HasChanges local \<or> (case uploads of None \<Rightarrow> False | Some q \<Rightarrow> q i)"

definition apply_modification ::
  "('db, 'tx, 'w) fs_env \<Rightarrow> upload_query \<Rightarrow> drive_item \<Rightarrow> inode \<Rightarrow> ('db, 'w) fs_world \<Rightarrow> ('db, 'w) fs_world" where
  "apply_modification E uploads item local w =
     (if di_ModTime item \<noteq> None \<and> ModTimeUnix item > ModTime local \<and> \<not> pending_work uploads (di_ID item) local
         \<and> di_ETag item \<noteq> di_ETag (DriveItem local)
      then
        let w = on_cache (mutate (di_ID item) (take_version item)) w in
        case contentMatchesRemote (env_os E) (di_ID item) (di_File item) (cc_of w) of
          (True, cs) \<Rightarrow> with_cc cs w
        | (False, cs) \<Rightarrow> with_cc (snd (cc_Delete (env_os E) (di_ID item) cs)) w
      else w)"

definition applyDelta ::
  "('db, 'tx, 'w) fs_env \<Rightarrow> upload_query \<Rightarrow> delta_item \<Rightarrow> ('db, 'w) ds_state \<Rightarrow> go_error option \<times> ('db, 'w) ds_state" where
  "applyDelta E uploads delta st =
     (let item = delta_DriveItem delta;
          i = di_ID item;
          parentID = (case di_Parent item of None \<Rightarrow> [] | Some p \<Rightarrow> par_ID p) in
      case resolveParentID E parentID item st of
        (parentID, (d, w)) \<Rightarrow>
          if is_delta_root parentID item then (None, (d, apply_root item w))
          else if Get (fw_cache w) parentID = None then (None, (d, w))
          else if delta_Deleted delta \<noteq> None then
            (case apply_deletion E parentID item (Get (fw_cache w) i) w of (e, w) \<Rightarrow> (e, (d, w)))
          else
            (case Get (fw_cache w) i of
               None \<Rightarrow> (None, (d, on_cache (apply_creation (env_now E) parentID item) w))
             | Some local \<Rightarrow>
                 let w = on_cache (apply_move (env_now E) parentID item local) w in
                 (case Get (fw_cache w) i of
                    None \<Rightarrow> (None, (d, w))
                  | Some local \<Rightarrow> (None, (d, apply_modification E uploads item local w)))))"

section \<open>Pages and cycles\<close>

definition applyOrReport ::
  "('db, 'tx, 'w) fs_env \<Rightarrow> upload_query \<Rightarrow> delta_item \<Rightarrow> ('db, 'w) ds_state \<Rightarrow> bool \<times> ('db, 'w) ds_state" where
  "applyOrReport E uploads delta st =
     (case applyDelta E uploads delta st of
        (None, st) \<Rightarrow> (False, st)
      | (Some e, (d, w)) \<Rightarrow>
          if errors_Is e ErrDirNotEmpty then (True, (d, w))
          else (False, (d\<lparr>ds_errorCount := ds_errorCount d + 1\<rparr>, w)))"

text \<open>One pass over a list of changes; the result is the list of those to try again.\<close>

fun apply_pass ::
  "('db, 'tx, 'w) fs_env \<Rightarrow> upload_query \<Rightarrow> delta_item list \<Rightarrow> ('db, 'w) ds_state \<Rightarrow> delta_item list \<times> ('db, 'w) ds_state" where
  "apply_pass E uploads [] st = ([], st)"
| "apply_pass E uploads (x # xs) st =
     (case applyOrReport E uploads x st of
        (retry, st) \<Rightarrow>
          (case apply_pass E uploads xs st of (ys, st) \<Rightarrow> (if retry then x # ys else ys, st)))"

definition applyPage ::
  "('db, 'tx, 'w) fs_env \<Rightarrow> upload_query \<Rightarrow> delta_item list \<Rightarrow> delta_item list \<Rightarrow> ('db, 'w) ds_state
     \<Rightarrow> delta_item list \<times> ('db, 'w) ds_state" where
  "applyPage E uploads xs pending st =
     (let (blocked, st) = apply_pass E uploads xs st;
          (stillBlocked, st) = apply_pass E uploads blocked st;
          (merged, st) = apply_pass E uploads pending st
      in (merged @ stillBlocked, st))"

definition store_link ::
  "('db, 'tx, 'w) fs_env \<Rightarrow> string \<Rightarrow> ('db, 'w) fs_world \<Rightarrow> ('db, 'w) fs_world" where
  "store_link E link w = w\<lparr>fw_db := SetDeltaLink (env_bolt E) link (fw_cache w, fw_db w)\<rparr>"

text \<open>The last retry of the deletions that are still blocked; failures are only logged.\<close>

definition last_retry ::
  "('db, 'tx, 'w) fs_env \<Rightarrow> upload_query \<Rightarrow> delta_item list \<Rightarrow> ('db, 'w) ds_state \<Rightarrow> ('db, 'w) ds_state" where
  "last_retry E uploads pending st = fold (\<lambda>x st. snd (applyDelta E uploads x st)) pending st"

type_synonym poll_result = "nat \<times> string \<times> go_error option"

text \<open>One turn of the loop: the result, or the link, the blocked deletions, the count and the state for the next page.\<close>

definition poll_page ::
  "('db, 'tx, 'w) fs_env \<Rightarrow> upload_query \<Rightarrow> string \<Rightarrow> delta_item list \<Rightarrow> nat \<Rightarrow> ('db, 'w) ds_state
     \<Rightarrow> (poll_result \<times> ('db, 'w) ds_state) + (string \<times> delta_item list \<times> nat \<times> ('db, 'w) ds_state)" where
  "poll_page E uploads link pending n = (\<lambda>(d, w).
     case PollDelta (env_cli E) link (fw_net w) of
       (Inl e, net) \<Rightarrow>
         let w = w\<lparr>fw_net := net\<rparr>;
             w = (if fs_isNetworkError (Some e) then on_cache (SetOffline True) w else w)
         in Inl ((n, link, Some e), (d, w))
     | (Inr (xs, nextLink, cont), net) \<Rightarrow>
         (case applyPage E uploads xs pending (d, w\<lparr>fw_net := net\<rparr>) of
            (pending, (d, w)) \<Rightarrow>
              let w = store_link E nextLink w in
              if \<not> cont then Inl ((n + length xs, nextLink, None), last_retry E uploads pending (d, w))
              else Inr (nextLink, pending, n + length xs, (d, w))))"

partial_function (option) poll_pages ::
  "('db, 'tx, 'w) fs_env \<Rightarrow> upload_query \<Rightarrow> string \<Rightarrow> delta_item list \<Rightarrow> nat \<Rightarrow> ('db, 'w) ds_state
     \<Rightarrow> (poll_result \<times> ('db, 'w) ds_state) option" where
  "poll_pages E uploads link pending n st =
     (case poll_page E uploads link pending n st of
        Inl r \<Rightarrow> Some r
      | Inr (link, pending, n, st) \<Rightarrow> poll_pages E uploads link pending n st)"

definition pollAndApply ::
  "('db, 'tx, 'w) fs_env \<Rightarrow> upload_query \<Rightarrow> string \<Rightarrow> ('db, 'w) ds_state \<Rightarrow> (poll_result \<times> ('db, 'w) ds_state) option" where
  "pollAndApply E uploads link st = poll_pages E uploads link [] 0 st"

text \<open>What both callers do after a successful poll.\<close>

definition persist_poll ::
  "('db, 'tx, 'w) fs_env \<Rightarrow> (inode_json \<Rightarrow> nat) \<Rightarrow> string \<Rightarrow> ('db, 'w) ds_state \<Rightarrow> ('db, 'w) ds_state" where
  "persist_poll E json_len link = (\<lambda>(d, w).
     let w = store_link E link w;
         ((c, db), _) = SerializeDirty (env_bolt E) json_len (fw_cache w, fw_db w)
     in (d\<lparr>ds_syncCount := ds_syncCount d + 1\<rparr>, w\<lparr>fw_cache := c, fw_db := db\<rparr>))"

definition stored_link :: "('db, 'tx, 'w) fs_env \<Rightarrow> ('db, 'w) fs_world \<Rightarrow> string" where
  "stored_link E w = GetDeltaLink (env_bolt E) (fw_cache w, fw_db w)"

definition PollOnce ::
  "('db, 'tx, 'w) fs_env \<Rightarrow> upload_query \<Rightarrow> (inode_json \<Rightarrow> nat) \<Rightarrow> ('db, 'w) ds_state
     \<Rightarrow> ((nat \<times> go_error option) \<times> ('db, 'w) ds_state) option" where
  "PollOnce E uploads json_len st =
     (case pollAndApply E uploads (stored_link E (snd st)) st of
        None \<Rightarrow> None
      | Some ((n, _, Some e), st) \<Rightarrow> Some ((n, Some e), st)
      | Some ((n, link, None), st) \<Rightarrow> Some ((n, None), persist_poll E json_len link st))"

text \<open>One turn of \<^verbatim>\<open>deltaLoop\<close> between two waits: the link for the next turn and the state.\<close>

definition delta_cycle ::
  "('db, 'tx, 'w) fs_env \<Rightarrow> upload_query \<Rightarrow> (inode_json \<Rightarrow> nat) \<Rightarrow> string \<Rightarrow> ('db, 'w) ds_state
     \<Rightarrow> (string \<times> ('db, 'w) ds_state) option" where
  "delta_cycle E uploads json_len link st =
     (case pollAndApply E uploads link st of
        None \<Rightarrow> None
      | Some ((_, _, Some e), (d, w)) \<Rightarrow>
          let d = d\<lparr>ds_errorCount := ds_errorCount d + 1\<rparr>;
              w = on_cache (SetOffline True) w;
              persisted = stored_link E w
          in Some (if persisted \<noteq> [] then persisted else link, (d, w))
      | Some ((_, newLink, None), (d, w)) \<Rightarrow>
          let w = (if IsOffline (fw_cache w) then on_cache (SetOffline False) w else w)
          in Some (newLink, persist_poll E json_len newLink (d, w)))"

end
