(* ===== verification/Go_Strings.thy ===== *)
theory Go_Strings
  imports Prelude "HOL-Library.Sublist"
begin

text \<open>
  The functions of Go's \<^verbatim>\<open>strings\<close> package that the account, sign-in and service components use, on
  strings as byte lists.  Where Go works on runes (\<^verbatim>\<open>TrimSpace\<close>, \<^verbatim>\<open>Fields\<close>, \<^verbatim>\<open>Map\<close>) the UTF-8 encoding is
  read as \<^verbatim>\<open>utf8.DecodeRune\<close> reads it.
\<close>

section \<open>Prefixes, suffixes and substrings\<close>

definition HasPrefix :: "string \<Rightarrow> string \<Rightarrow> bool" where
  "HasPrefix s p \<longleftrightarrow> take (length p) s = p"

definition HasSuffix :: "string \<Rightarrow> string \<Rightarrow> bool" where
  "HasSuffix s p \<longleftrightarrow> HasPrefix (rev s) (rev p)"

definition TrimPrefix :: "string \<Rightarrow> string \<Rightarrow> string" where
  "TrimPrefix s p = (if HasPrefix s p then drop (length p) s else s)"

definition TrimSuffix :: "string \<Rightarrow> string \<Rightarrow> string" where
  "TrimSuffix s p = (if HasSuffix s p then take (length s - length p) s else s)"

text \<open>\<^verbatim>\<open>Index\<close>: the position of the first occurrence.\<close>

fun Index :: "string \<Rightarrow> string \<Rightarrow> nat option" where
  "Index s t =
     (if HasPrefix s t then Some 0
      else case s of [] \<Rightarrow> None | _ # s' \<Rightarrow> map_option Suc (Index s' t))"

declare Index.simps [simp del]

text \<open>\<^verbatim>\<open>ReplaceAll\<close> for a pattern that is not empty.\<close>

function ReplaceAll :: "string \<Rightarrow> string \<Rightarrow> string \<Rightarrow> string" where
  "ReplaceAll s old new =
     (if old \<noteq> [] \<and> HasPrefix s old then new @ ReplaceAll (drop (length old) s) old new
      else case s of [] \<Rightarrow> [] | c # s' \<Rightarrow> c # ReplaceAll s' old new)"
  by pat_completeness auto
termination
proof (relation "measure (\<lambda>(s, old, new). length s)")
  fix s old new :: string
  assume "old \<noteq> [] \<and> HasPrefix s old"
  then have "0 < length old" by simp
  moreover from \<open>old \<noteq> [] \<and> HasPrefix s old\<close> have "length old \<le> length s" by (metis HasPrefix_def length_take min.cobounded1)
  ultimately have "length s - length old < length s" by linarith
  then show "((drop (length old) s, old, new), (s, old, new)) \<in> measure (\<lambda>(s, old, new). length s)" by simp
qed auto

declare ReplaceAll.simps [simp del]

text \<open>\<^verbatim>\<open>Split\<close> at one character.\<close>

fun split_on :: "char \<Rightarrow> string \<Rightarrow> string list" where
  "split_on d [] = [[]]"
| "split_on d (c # s) =
     (if c = d then [] # split_on d s
      else case split_on d s of [] \<Rightarrow> [[c]] | p # ps \<Rightarrow> (c # p) # ps)"

text \<open>\<^verbatim>\<open>Cut\<close> at one character.\<close>

definition Cut :: "char \<Rightarrow> string \<Rightarrow> (string \<times> string) option" where
  "Cut d s = (if d \<in> set s then Some (takeWhile (\<lambda>c. c \<noteq> d) s, tl (dropWhile (\<lambda>c. c \<noteq> d) s)) else None)"

lemma HasPrefix_append [simp]: "HasPrefix (p @ s) p"
  by (simp add: HasPrefix_def)

lemma HasPrefix_iff: "HasPrefix s p \<longleftrightarrow> (\<exists>r. s = p @ r)"
  unfolding HasPrefix_def by (metis append_take_drop_id append_eq_conv_conj)

lemma HasPrefix_prefix: "HasPrefix s p \<longleftrightarrow> prefix p s"
  by (simp add: HasPrefix_iff prefix_def)

lemma HasSuffix_iff: "HasSuffix s p \<longleftrightarrow> (\<exists>r. s = r @ p)"
proof
  assume "HasSuffix s p"
  then obtain r where "rev s = rev p @ r" by (auto simp: HasSuffix_def HasPrefix_iff)
  then have "s = rev r @ p" by (metis rev_append rev_rev_ident)
  then show "\<exists>r. s = r @ p" by blast
qed (auto simp: HasSuffix_def)

lemma HasSuffix_append [simp]: "HasSuffix (s @ p) p"
  by (auto simp: HasSuffix_iff)

lemma TrimPrefix_append [simp]: "TrimPrefix (p @ s) p = s"
  by (simp add: TrimPrefix_def)

lemma TrimSuffix_append [simp]: "TrimSuffix (s @ p) p = s"
  by (simp add: TrimSuffix_def)

text \<open>\<open>occurs t s\<close>: \<open>t\<close> is a substring of \<open>s\<close>.\<close>

definition occurs :: "string \<Rightarrow> string \<Rightarrow> bool" where
  "occurs t s \<longleftrightarrow> Index s t \<noteq> None"

lemma occurs_iff: "occurs t s \<longleftrightarrow> (\<exists>a b. s = a @ t @ b)"
proof (induction s)
  case Nil
  then show ?case by (auto simp: occurs_def Index.simps [of "[]"] HasPrefix_iff)
next
  case (Cons c s)
  have "occurs t (c # s) \<longleftrightarrow> HasPrefix (c # s) t \<or> occurs t s"
    by (auto simp: occurs_def Index.simps [of "c # s"])
  also have "\<dots> \<longleftrightarrow> (\<exists>b. c # s = t @ b) \<or> (\<exists>a b. s = a @ t @ b)"
    using Cons by (simp add: HasPrefix_iff)
  also have "\<dots> \<longleftrightarrow> (\<exists>a b. c # s = a @ t @ b)"
    by (metis append_Cons append_Nil list.sel(3) neq_Nil_conv)
  finally show ?case .
qed

text \<open>
  The first occurrence of \<open>t\<close> in \<open>a @ t @ b\<close> is the one after \<open>a\<close> when \<open>t\<close> occurs nowhere earlier.
\<close>

lemma Index_first:
  assumes "\<And>k. k < length a \<Longrightarrow> \<not> HasPrefix (drop k (a @ t @ b)) t"
  shows "Index (a @ t @ b) t = Some (length a)"
  using assms
proof (induction a)
  case Nil
  then show ?case by (subst Index.simps) simp
next
  case (Cons c a)
  from Cons.prems [of 0] have "\<not> HasPrefix (c # (a @ t @ b)) t" by simp
  moreover have "Index (a @ t @ b) t = Some (length a)"
    using Cons.prems [of "Suc k" for k] by (intro Cons.IH) force
  ultimately show ?case by (subst Index.simps) simp
qed

lemma occurs_Cons: "occurs t (c # s) \<longleftrightarrow> HasPrefix (c # s) t \<or> occurs t s"
  by (auto simp: occurs_def Index.simps [of "c # s"])

lemma occurs_suffix: "occurs t s \<Longrightarrow> occurs t (a @ s)"
  by (induction a) (simp_all add: occurs_Cons)

lemma HasPrefix_occurs: "HasPrefix s t \<Longrightarrow> occurs t s"
  by (simp add: occurs_def Index.simps [of s])

lemma Index_unique:
  assumes "\<not> occurs t (a @ butlast t)" "t \<noteq> []"
  shows "Index (a @ t @ b) t = Some (length a)"
proof (rule Index_first)
  fix k
  assume k: "k < length a"
  let ?u = "drop k a"
  show "\<not> HasPrefix (drop k (a @ t @ b)) t"
  proof
    assume "HasPrefix (drop k (a @ t @ b)) t"
    then have "prefix t (?u @ t @ b)" using k by (simp add: HasPrefix_prefix)
    moreover have "prefix (?u @ butlast t) (?u @ t @ b)"
      using prefixeq_butlast [of t] by (meson prefix_prefix same_prefix_prefix)
    moreover have "length t \<le> length (?u @ butlast t)" using k assms(2) by simp
    ultimately have "prefix t (?u @ butlast t)" by (rule prefix_length_prefix)
    then have "occurs t (take k a @ ?u @ butlast t)" by (intro occurs_suffix HasPrefix_occurs) (simp add: HasPrefix_prefix)
    then show False using assms(1) by (metis append.assoc append_take_drop_id)
  qed
qed

lemma ReplaceAll_none: "\<not> occurs old s \<Longrightarrow> ReplaceAll s old new = s"
proof (induction s)
  case Nil
  then have "old \<noteq> []" using HasPrefix_occurs [of "[]" "[]"] by (auto simp: HasPrefix_def)
  then show ?case by (subst ReplaceAll.simps) (simp add: HasPrefix_def)
next
  case (Cons c s)
  then show ?case by (subst ReplaceAll.simps) (simp add: occurs_Cons)
qed

lemma split_on_line: "d \<notin> set a \<Longrightarrow> split_on d (a @ d # b) = a # split_on d b"
  by (induction a) auto

section \<open>Runes and white space\<close>

text \<open>Characters as bytes (a Go string is a sequence of bytes), and their codes.\<close>

definition char_byte :: "char \<Rightarrow> byte" where
  "char_byte c = of_nat (of_char c)"

definition code_of :: "char \<Rightarrow> nat" where
  "code_of c = of_char c"

definition in_range :: "nat \<Rightarrow> nat \<Rightarrow> string \<Rightarrow> bool" where
  "in_range lo hi s = (case s of [] \<Rightarrow> False | c # _ \<Rightarrow> lo \<le> code_of c \<and> code_of c \<le> hi)"

text \<open>The number of bytes that \<^verbatim>\<open>utf8.DecodeRune\<close> takes; an invalid encoding is one rune of one byte.\<close>

definition rune_width :: "string \<Rightarrow> nat" where
  "rune_width s =
     (if in_range 0xC2 0xDF s \<and> in_range 0x80 0xBF (drop 1 s) then 2
      else if in_range 0xE0 0xEF s
              \<and> in_range (if in_range 0xE0 0xE0 s then 0xA0 else 0x80) (if in_range 0xED 0xED s then 0x9F else 0xBF) (drop 1 s)
              \<and> in_range 0x80 0xBF (drop 2 s) then 3
      else if in_range 0xF0 0xF4 s
              \<and> in_range (if in_range 0xF0 0xF0 s then 0x90 else 0x80) (if in_range 0xF4 0xF4 s then 0x8F else 0xBF) (drop 1 s)
              \<and> in_range 0x80 0xBF (drop 2 s) \<and> in_range 0x80 0xBF (drop 3 s) then 4
      else 1)"

lemma rune_width_pos [simp]: "0 < rune_width s"
  by (simp add: rune_width_def)

text \<open>The runes of \<^verbatim>\<open>unicode.IsSpace\<close>.\<close>

definition spaces :: "string list" where
  "spaces =
     [[CHR 0x09], [CHR 0x0A], [CHR 0x0B], [CHR 0x0C], [CHR 0x0D], [CHR 0x20], [CHR 0xC2, CHR 0x85], [CHR 0xC2, CHR 0xA0],
      [CHR 0xE1, CHR 0x9A, CHR 0x80]]
     @ map (\<lambda>k. [CHR 0xE2, CHR 0x80, char_of (0x80 + k)]) [0..<11]
     @ [[CHR 0xE2, CHR 0x80, CHR 0xA8], [CHR 0xE2, CHR 0x80, CHR 0xA9], [CHR 0xE2, CHR 0x80, CHR 0xAF],
        [CHR 0xE2, CHR 0x81, CHR 0x9F], [CHR 0xE3, CHR 0x80, CHR 0x80]]"

definition leading_space :: "string list \<Rightarrow> string \<Rightarrow> nat" where
  "leading_space sps s = (case find (HasPrefix s) sps of None \<Rightarrow> 0 | Some p \<Rightarrow> length p)"

function trim_left :: "string list \<Rightarrow> string \<Rightarrow> string" where
  "trim_left sps s =
     (let n = leading_space sps s in if n = 0 \<or> s = [] then s else trim_left sps (drop n s))"
  by pat_completeness auto
termination by (relation "measure (\<lambda>(sps, s). length s)") auto

declare trim_left.simps [simp del]

definition TrimSpace :: "string \<Rightarrow> string" where
  "TrimSpace s = rev (trim_left (map rev spaces) (rev (trim_left spaces s)))"

text \<open>\<^verbatim>\<open>Fields\<close>: the parts between runs of white space.\<close>

function fields_from :: "string \<Rightarrow> string \<Rightarrow> string list" where
  "fields_from cur s =
     (let n = leading_space spaces s in
      case s of
        [] \<Rightarrow> if cur = [] then [] else [rev cur]
      | c # s' \<Rightarrow>
          if n > 0 then (if cur = [] then [] else [rev cur]) @ fields_from [] (drop n s)
          else fields_from (c # cur) s')"
  by pat_completeness auto
termination by (relation "measure (\<lambda>(cur, s). length s)") auto

declare fields_from.simps [simp del]

definition Fields :: "string \<Rightarrow> string list" where
  "Fields s = fields_from [] s"

text \<open>The lines of a \<^verbatim>\<open>bufio.Scanner\<close>: separated by newlines, without a final carriage return.\<close>

definition drop_cr :: "string \<Rightarrow> string" where
  "drop_cr s = (if s \<noteq> [] \<and> last s = CHR 0x0D then butlast s else s)"

definition raw_lines :: "string \<Rightarrow> string list" where
  "raw_lines s = (let ls = split_on (CHR 0x0A) s in if last ls = [] then butlast ls else ls)"

text \<open>The lines up to the first one that does not fit the buffer of 64 KiB, and the error of the scanner.\<close>

definition scan_lines :: "string \<Rightarrow> string list \<times> bool" where
  "scan_lines s =
     (let ls = raw_lines s; ok = takeWhile (\<lambda>l. length l < 65536) ls
      in (map drop_cr ok, length ok < length ls))"

lemma trim_left_id: "leading_space sps s = 0 \<Longrightarrow> trim_left sps s = s"
  by (simp add: trim_left.simps [of sps s])

lemma leading_space_0: "(\<And>p. p \<in> set sps \<Longrightarrow> \<not> HasPrefix s p) \<Longrightarrow> leading_space sps s = 0"
  by (auto simp: leading_space_def find_Some_iff split: option.split)

lemma spaces_nonempty: "p \<in> set spaces \<Longrightarrow> p \<noteq> []"
  by (auto simp: spaces_def)

end
