(* ===== verification/Account.thy ===== *)
theory Account
  imports Graph_Client Content_Cache Go_Strings
begin

text \<open>
  Accounts and their tokens (\<^verbatim>\<open>internal/auth/account.go\<close>, \<^verbatim>\<open>manager.go\<close>, \<^verbatim>\<open>keyring.go\<close>, \<^verbatim>\<open>httptools.go\<close>).
  The OS keyring (\<^verbatim>\<open>zalando/go-keyring\<close> behind the interface \<^verbatim>\<open>Keyring\<close>), \<^verbatim>\<open>mergo.Merge\<close> and the HTTP
  client are parameters.  The files of the configuration directory hold the transfer object of an
  account, something that is no account, or are directories.
\<close>

section \<open>Data\<close>

record auth_config =
  cfg_ClientID :: string
  cfg_CodeURL :: string
  cfg_TokenURL :: string
  cfg_RedirectURL :: string

record persisted_config =
  pc_DefaultMountpoint :: string
  pc_CacheDir :: string
  pc_CacheTTL :: duration
  pc_CacheMaxEntries :: int
  pc_CacheMaxSize :: int
  pc_DeltaInterval :: duration
  pc_MaxUploadsInFlight :: int
  pc_MaxUploadRetries :: int
  pc_HTTPTimeout :: duration
  pc_GraphRetries :: int
  pc_PreWarmDepth :: "int option"

record account =
  acc_keyring :: bool
  acc_Name :: string
  acc_Config :: auth_config
  acc_Mount :: persisted_config
  acc_ExpiresAt :: int
  acc_AccessToken :: string
  acc_RefreshToken :: string
  acc_tokenFilePath :: string
  acc_lastKeyringErr :: "go_error option"

record account_json =
  aj_Name :: string
  aj_Config :: auth_config
  aj_Mount :: persisted_config
  aj_ExpiresAt :: int

definition toJSON :: "account \<Rightarrow> account_json" where
  "toJSON a = \<lparr>aj_Name = acc_Name a, aj_Config = acc_Config a, aj_Mount = acc_Mount a, aj_ExpiresAt = acc_ExpiresAt a\<rparr>"

datatype account_file = AccountJSON account_json | OtherFile | Directory

section \<open>The outside\<close>

record 'k keyring_ops =
  kr_Get :: "string \<Rightarrow> string \<Rightarrow> 'k \<Rightarrow> go_error + string"
  kr_Set :: "string \<Rightarrow> string \<Rightarrow> string \<Rightarrow> 'k \<Rightarrow> go_error option \<times> 'k"
  kr_Delete :: "string \<Rightarrow> string \<Rightarrow> 'k \<Rightarrow> go_error option \<times> 'k"

text \<open>A form posted to the token endpoint, and what the JSON of the answer has in the fields that are read.\<close>

record token_request =
  tq_url :: string
  tq_form :: "(string \<times> string) list"

record token_fields =
  tf_access_token :: string
  tf_refresh_token :: string
  tf_expires_in :: int
  tf_error :: string
  tf_error_description :: string

datatype token_body = TokJSON token_fields | TokRaw string | TokReadErr go_error

record token_response =
  tr_status :: int
  tr_body :: token_body

text \<open>
  One environment per call: \<open>ae_write\<close> is the failure of \<^verbatim>\<open>os.WriteFile\<close> on a path and whether it has
  truncated the file before; \<open>ae_merge\<close> is \<^verbatim>\<open>mergo.Merge\<close>.
\<close>

record ('k, 'w) auth_env =
  ae_keyring :: "'k keyring_ops"
  ae_do :: "token_request \<Rightarrow> 'w \<Rightarrow> (go_error + token_response) \<times> 'w"
  ae_now :: "'w \<Rightarrow> time"
  ae_write :: "string \<Rightarrow> (go_error \<times> bool) option"
  ae_read :: "string \<Rightarrow> go_error option"
  ae_remove :: "string \<Rightarrow> go_error option"
  ae_mkdir :: "go_error option"
  ae_readdir :: "go_error option"
  ae_merge :: "auth_config \<Rightarrow> auth_config \<Rightarrow> go_error option \<times> auth_config"

record ('k, 'w) auth_world =
  aw_keyring :: 'k
  aw_files :: "(string \<times> account_file) list"
  aw_net :: 'w

definition write_file ::
  "('k, 'w) auth_env \<Rightarrow> string \<Rightarrow> account_json \<Rightarrow> ('k, 'w) auth_world \<Rightarrow> go_error option \<times> ('k, 'w) auth_world" where
  "write_file E path j w =
     (case (if map_of (aw_files w) (Clean path) = Some Directory then Some (Errno EISDIR, False) else ae_write E path) of
        None \<Rightarrow> (None, w\<lparr>aw_files := AList.update (Clean path) (AccountJSON j) (aw_files w)\<rparr>)
      | Some (e, truncated) \<Rightarrow>
          (Some e, if truncated then w\<lparr>aw_files := AList.update (Clean path) OtherFile (aw_files w)\<rparr> else w))"

definition remove_file ::
  "('k, 'w) auth_env \<Rightarrow> string \<Rightarrow> ('k, 'w) auth_world \<Rightarrow> go_error option \<times> ('k, 'w) auth_world" where
  "remove_file E path w =
     (if map_of (aw_files w) (Clean path) = None then (Some (Errno ENOENT), w)
      else case ae_remove E path of
             Some e \<Rightarrow> (Some e, w)
           | None \<Rightarrow> (None, w\<lparr>aw_files := AList.delete (Clean path) (aw_files w)\<rparr>))"

definition kr_set ::
  "('k, 'w) auth_env \<Rightarrow> string \<Rightarrow> string \<Rightarrow> ('k, 'w) auth_world \<Rightarrow> go_error option \<times> ('k, 'w) auth_world" where
  "kr_set E key v w = (case kr_Set (ae_keyring E) ''onecloudriver'' key v (aw_keyring w) of (e, k) \<Rightarrow> (e, w\<lparr>aw_keyring := k\<rparr>))"

definition kr_delete ::
  "('k, 'w) auth_env \<Rightarrow> string \<Rightarrow> ('k, 'w) auth_world \<Rightarrow> go_error option \<times> ('k, 'w) auth_world" where
  "kr_delete E key w = (case kr_Delete (ae_keyring E) ''onecloudriver'' key (aw_keyring w) of (e, k) \<Rightarrow> (e, w\<lparr>aw_keyring := k\<rparr>))"

definition kr_get :: "('k, 'w) auth_env \<Rightarrow> string \<Rightarrow> ('k, 'w) auth_world \<Rightarrow> go_error + string" where
  "kr_get E key w = kr_Get (ae_keyring E) ''onecloudriver'' key (aw_keyring w)"

section \<open>Helpers\<close>

definition authDefaults :: auth_config where
  "authDefaults =
     \<lparr>cfg_ClientID = ''a074b377-e82d-41a0-b7b3-88c57c011510'',
      cfg_CodeURL = ''https://login.microsoftonline.com/common/oauth2/v2.0/authorize'',
      cfg_TokenURL = ''https://login.microsoftonline.com/common/oauth2/v2.0/token'',
      cfg_RedirectURL = ''http://localhost:9090/callback''\<rparr>"

definition ApplyDefaults :: "('k, 'w) auth_env \<Rightarrow> auth_config \<Rightarrow> go_error option \<times> auth_config" where
  "ApplyDefaults E c = ae_merge E c authDefaults"

definition keyringKeys :: "string \<Rightarrow> string \<times> string" where
  "keyringKeys name = (''onecloudriver'' @ '':'' @ name, ''onecloudriver'' @ '':access:'' @ name)"

text \<open>\<open>NetErr\<close> is what \<^verbatim>\<open>http.Client.Do\<close> fails with, an \<^verbatim>\<open>*url.Error\<close>.\<close>

fun errors_As_url :: "go_error \<Rightarrow> bool" where
  "errors_As_url (NetErr _ _ _ _) = True"
| "errors_As_url (Wrap _ e) = errors_As_url e"
| "errors_As_url (Joined a b) = (errors_As_url a \<or> errors_As_url b)"
| "errors_As_url _ = False"

definition auth_IsOffline :: "go_error option \<Rightarrow> bool" where
  "auth_IsOffline err =
     (case err of
        None \<Rightarrow> False
      | Some e \<Rightarrow> if errors_As_url e then True else \<not> contains_str (error_text e) ''HTTP '')"

definition secureString :: "string \<Rightarrow> string" where
  "secureString s =
     (case s of
        [] \<Rightarrow> ''***''
      | [c] \<Rightarrow> [c] @ ''***''
      | _ \<Rightarrow>
          (case split_on (CHR ''@'') s of
             [user, domain] \<Rightarrow> if user \<noteq> [] then take 1 user @ ''****@'' @ domain else take 1 s @ ''****''
           | _ \<Rightarrow> take 1 s @ ''****''))"

definition KeyringSaveFailed :: "account \<Rightarrow> bool" where
  "KeyringSaveFailed a \<longleftrightarrow> acc_lastKeyringErr a \<noteq> None"

section \<open>Saving\<close>

definition save_refresh ::
  "('k, 'w) auth_env \<Rightarrow> account \<times> ('k, 'w) auth_world \<Rightarrow> account \<times> ('k, 'w) auth_world" where
  "save_refresh E = (\<lambda>(a, w).
     if acc_RefreshToken a = [] then (a, w)
     else if \<not> acc_keyring a then (a\<lparr>acc_lastKeyringErr := Some (Plain ''no keyring configured'')\<rparr>, w)
     else case kr_set E (fst (keyringKeys (acc_Name a))) (acc_RefreshToken a) w of
            (e, w) \<Rightarrow> (a\<lparr>acc_lastKeyringErr := e\<rparr>, w))"

definition save_access ::
  "('k, 'w) auth_env \<Rightarrow> account \<times> ('k, 'w) auth_world \<Rightarrow> account \<times> ('k, 'w) auth_world" where
  "save_access E = (\<lambda>(a, w).
     if acc_AccessToken a \<noteq> [] \<and> acc_keyring a
     then (a, snd (kr_set E (snd (keyringKeys (acc_Name a))) (acc_AccessToken a) w)) else (a, w))"

definition saveUnsafe ::
  "('k, 'w) auth_env \<Rightarrow> account \<times> ('k, 'w) auth_world \<Rightarrow> go_error option \<times> account \<times> ('k, 'w) auth_world" where
  "saveUnsafe E = (\<lambda>(a, w).
     case save_access E (save_refresh E (a\<lparr>acc_lastKeyringErr := None\<rparr>, w)) of
       (a, w) \<Rightarrow>
         (case write_file E (acc_tokenFilePath a) (toJSON a) w of
            (Some e, w) \<Rightarrow> (Some (Wrap ''error saving account file'' e), (a, w))
          | (None, w) \<Rightarrow> (None, (a, w))))"

definition Save ::
  "('k, 'w) auth_env \<Rightarrow> account \<times> ('k, 'w) auth_world \<Rightarrow> go_error option \<times> account \<times> ('k, 'w) auth_world" where
  "Save E st = saveUnsafe E st"

section \<open>Renewal\<close>

definition purgeInvalidRefreshTokenLocked ::
  "('k, 'w) auth_env \<Rightarrow> account \<times> ('k, 'w) auth_world \<Rightarrow> account \<times> ('k, 'w) auth_world" where
  "purgeInvalidRefreshTokenLocked E = (\<lambda>(a, w).
     let a = a\<lparr>acc_RefreshToken := [], acc_AccessToken := []\<rparr> in
     if \<not> acc_keyring a then (a, w)
     else case kr_delete E (fst (keyringKeys (acc_Name a))) w of
            (Some _, w) \<Rightarrow> (a, w)
          | (None, w) \<Rightarrow> (a, snd (kr_delete E (snd (keyringKeys (acc_Name a))) w)))"

definition refresh_form :: "account \<Rightarrow> (string \<times> string) list" where
  "refresh_form a =
     [(''client_id'', cfg_ClientID (acc_Config a)), (''redirect_uri'', cfg_RedirectURL (acc_Config a)),
      (''refresh_token'', acc_RefreshToken a), (''grant_type'', ''refresh_token'')]"

text \<open>\<^verbatim>\<open>json.Unmarshal\<close> into a structure, as far as it parses.\<close>

definition no_fields :: token_fields where
  "no_fields = \<lparr>tf_access_token = [], tf_refresh_token = [], tf_expires_in = 0, tf_error = [], tf_error_description = []\<rparr>"

fun parsed_fields :: "token_body \<Rightarrow> token_fields" where
  "parsed_fields (TokJSON f) = f"
| "parsed_fields _ = no_fields"

definition reject_renewal ::
  "('k, 'w) auth_env \<Rightarrow> token_response \<Rightarrow> account \<times> ('k, 'w) auth_world \<Rightarrow> go_error option \<times> account \<times> ('k, 'w) auth_world" where
  "reject_renewal E resp st =
     (let f = parsed_fields (tr_body resp) in
      if tf_error f = ''invalid_grant'' \<or> tf_error f = ''interaction_required''
      then (Some (Plain (''the refresh token is no longer valid ('' @ tf_error f @ ''): '' @ tf_error_description f)),
            purgeInvalidRefreshTokenLocked E st)
      else (Some (Plain ''microsoft rejected the renewal''), st))"

definition take_tokens ::
  "('k, 'w) auth_env \<Rightarrow> token_fields \<Rightarrow> account \<times> ('k, 'w) auth_world \<Rightarrow> go_error option \<times> account \<times> ('k, 'w) auth_world" where
  "take_tokens E f = (\<lambda>(a, w).
     let renewed = a\<lparr>acc_AccessToken := tf_access_token f,
                     acc_RefreshToken := (if tf_refresh_token f \<noteq> [] then tf_refresh_token f else acc_RefreshToken a),
                     acc_ExpiresAt := int64_add (time_unix (ae_now E (aw_net w))) (tf_expires_in f)\<rparr>
     in case saveUnsafe E (renewed, w) of
          (Some e, (b, w)) \<Rightarrow>
            (Some (Wrap ''tokens renewed but could not be saved'' e),
             (b\<lparr>acc_AccessToken := acc_AccessToken a, acc_RefreshToken := acc_RefreshToken a, acc_ExpiresAt := acc_ExpiresAt a\<rparr>, w))
        | (None, st) \<Rightarrow> (None, st))"

definition renewal_answer ::
  "('k, 'w) auth_env \<Rightarrow> token_response \<Rightarrow> account \<times> ('k, 'w) auth_world \<Rightarrow> go_error option \<times> account \<times> ('k, 'w) auth_world" where
  "renewal_answer E resp st =
     (case tr_body resp of
        TokReadErr e \<Rightarrow> (Some (Wrap ''reading refresh response'' e), st)
      | body \<Rightarrow>
          if tr_status resp \<ge> 400 then reject_renewal E resp st
          else (case body of
                  TokJSON f \<Rightarrow>
                    if tf_access_token f = [] then (Some (Plain ''no access_token received in renewal''), st)
                    else take_tokens E f st
                | _ \<Rightarrow> (Some (Wrap ''error parsing renewal response'' (Plain ''invalid character'')), st)))"

definition Refresh ::
  "('k, 'w) auth_env \<Rightarrow> account \<times> ('k, 'w) auth_world \<Rightarrow> go_error option \<times> account \<times> ('k, 'w) auth_world" where
  "Refresh E = (\<lambda>(a, w).
     if acc_ExpiresAt a > time_unix (ae_now E (aw_net w)) \<and> acc_AccessToken a \<noteq> [] then (None, (a, w))
     else if list_ex is_control (cfg_TokenURL (acc_Config a))
       then (Some (Wrap ''creating refresh request'' (Plain ''invalid URL'')), (a, w))
     else case ae_do E \<lparr>tq_url = cfg_TokenURL (acc_Config a), tq_form = refresh_form a\<rparr> (aw_net w) of
            (Inl e, net) \<Rightarrow>
              let w = w\<lparr>aw_net := net\<rparr> in
              if auth_IsOffline (Some e) then
                (if acc_AccessToken a \<noteq> [] then (None, (a, w))
                 else (Some (Wrap ''no connection and no access token in memory'' e), (a, w)))
              else (Some (Wrap ''network failure during renewal'' e), (a, w))
          | (Inr resp, net) \<Rightarrow> renewal_answer E resp (a, w\<lparr>aw_net := net\<rparr>))"

definition GetAccessToken ::
  "('k, 'w) auth_env \<Rightarrow> account \<times> ('k, 'w) auth_world \<Rightarrow> (go_error + string) \<times> account \<times> ('k, 'w) auth_world" where
  "GetAccessToken E st =
     (case Refresh E st of
        (Some e, st) \<Rightarrow> (Inl e, st)
      | (None, (a, w)) \<Rightarrow> (Inr (acc_AccessToken a), (a, w)))"

section \<open>The manager\<close>

record manager =
  m_configDir :: string
  m_accounts :: "(string \<times> account) list"

text \<open>The entries of a directory in the order of \<^verbatim>\<open>os.ReadDir\<close>.\<close>

definition dir_entries :: "string \<Rightarrow> ('k, 'w) auth_world \<Rightarrow> (string \<times> account_file) list" where
  "dir_entries d w =
     sort_key fst (map (\<lambda>(p, f). (base_name p, f)) (filter (\<lambda>(p, f). parent_dir p = Clean d) (aw_files w)))"

definition token_or_empty :: "go_error + string \<Rightarrow> string" where
  "token_or_empty r = (case r of Inl _ \<Rightarrow> [] | Inr t \<Rightarrow> t)"

definition loaded_account :: "('k, 'w) auth_env \<Rightarrow> ('k, 'w) auth_world \<Rightarrow> string \<Rightarrow> account_json \<Rightarrow> account" where
  "loaded_account E w path j =
     (let (refreshKey, accessKey) = keyringKeys (aj_Name j) in
      \<lparr>acc_keyring = True, acc_Name = aj_Name j, acc_Config = snd (ApplyDefaults E (aj_Config j)), acc_Mount = aj_Mount j,
       acc_ExpiresAt = aj_ExpiresAt j, acc_AccessToken = token_or_empty (kr_get E accessKey w),
       acc_RefreshToken = token_or_empty (kr_get E refreshKey w), acc_tokenFilePath = path, acc_lastKeyringErr = None\<rparr>)"

definition load_account ::
  "('k, 'w) auth_env \<Rightarrow> ('k, 'w) auth_world \<Rightarrow> string \<times> account_file \<Rightarrow> manager \<Rightarrow> manager" where
  "load_account E w = (\<lambda>(name, entry) m.
     let path = Join (m_configDir m) name in
     if entry = Directory \<or> \<not> HasSuffix name ''.json'' then m
     else if ae_read E path \<noteq> None then m
     else case entry of
            AccountJSON j \<Rightarrow> m\<lparr>m_accounts := AList.update (aj_Name j) (loaded_account E w path j) (m_accounts m)\<rparr>
          | _ \<Rightarrow> m)"

definition loadAccounts :: "('k, 'w) auth_env \<Rightarrow> ('k, 'w) auth_world \<Rightarrow> manager \<Rightarrow> go_error option \<times> manager" where
  "loadAccounts E w m =
     (case ae_readdir E of
        Some e \<Rightarrow> (Some e, m)
      | None \<Rightarrow> (None, fold (load_account E w) (dir_entries (m_configDir m) w) m))"

definition NewManagerWithDeps :: "('k, 'w) auth_env \<Rightarrow> string \<Rightarrow> ('k, 'w) auth_world \<Rightarrow> go_error option \<times> manager option" where
  "NewManagerWithDeps E baseDir w =
     (case ae_mkdir E of
        Some e \<Rightarrow> (Some (Wrap ''could not create config directory'' e), None)
      | None \<Rightarrow> (case loadAccounts E w \<lparr>m_configDir = baseDir, m_accounts = []\<rparr> of (e, m) \<Rightarrow> (e, Some m)))"

definition GetAccount :: "string \<Rightarrow> manager \<Rightarrow> go_error + account" where
  "GetAccount name m =
     (case map_of (m_accounts m) name of
        None \<Rightarrow> Inl (Plain (''account '' @ name @ '' is not configured''))
      | Some a \<Rightarrow> Inr a)"

definition ListAccounts :: "manager \<Rightarrow> string list" where
  "ListAccounts m = map fst (m_accounts m)"

definition RemoveAccount ::
  "('k, 'w) auth_env \<Rightarrow> string \<Rightarrow> manager \<times> ('k, 'w) auth_world \<Rightarrow> go_error option \<times> manager \<times> ('k, 'w) auth_world" where
  "RemoveAccount E name = (\<lambda>(m, w).
     case map_of (m_accounts m) name of
       None \<Rightarrow> (Some (Plain ''account not found''), (m, w))
     | Some acc \<Rightarrow>
         let (refreshKey, accessKey) = keyringKeys name;
             w = snd (kr_delete E refreshKey w);
             w = snd (kr_delete E accessKey w)
         in case remove_file E (acc_tokenFilePath acc) w of
              (Some e, w) \<Rightarrow>
                if os_IsNotExist e then (None, (m\<lparr>m_accounts := AList.delete name (m_accounts m)\<rparr>, w))
                else (Some (Wrap ''error deleting file'' e), (m, w))
            | (None, w) \<Rightarrow> (None, (m\<lparr>m_accounts := AList.delete name (m_accounts m)\<rparr>, w)))"

definition ResolveMainAccountName :: "manager \<Rightarrow> go_error + string" where
  "ResolveMainAccountName m =
     (case ListAccounts m of
        [] \<Rightarrow> Inl (Plain ''no accounts configured'')
      | [name] \<Rightarrow> Inr name
      | _ \<Rightarrow> Inl (Plain ''several configured accounts''))"

text \<open>\<^verbatim>\<open>strings.Map\<close> sees a rune at a time: a rune of several bytes becomes one underscore.\<close>

definition file_char :: "char \<Rightarrow> bool" where
  "file_char c \<longleftrightarrow>
     c \<in> set ''abcdefghijklmnopqrstuvwxyzABCDEFGHIJKLMNOPQRSTUVWXYZ0123456789_-''"

function map_runes :: "string \<Rightarrow> string" where
  "map_runes s =
     (case s of
        [] \<Rightarrow> []
      | c # _ \<Rightarrow> (if file_char c then c else CHR ''_'') # map_runes (drop (rune_width s) s))"
  by pat_completeness auto
termination by (relation "measure length") auto

declare map_runes.simps [simp del]

definition sanitizeFileName :: "string \<Rightarrow> string" where
  "sanitizeFileName name = map_runes (ReplaceAll (ReplaceAll name ''.'' ''_'') ''@'' ''_'')"

definition getAccountFilePath :: "manager \<Rightarrow> string \<Rightarrow> string" where
  "getAccountFilePath m name = m_configDir m @ ''/'' @ sanitizeFileName name @ ''.json''"

end
