(* ===== verification/Mount.thy ===== *)
theory Mount
  imports Fs_Ops Delta_Sync Account
begin

text \<open>
  Mounting (\<^verbatim>\<open>internal/fs/mount.go\<close>): the configuration, the health check, the prefetch of folder
  listings and the construction and the shutdown of the shared components.  The FUSE server, the
  signal handler, the debug and the control servers are not modelled.
\<close>

section \<open>Configuration\<close>

record mount_config =
  CacheDir :: string
  CacheTTL :: duration
  CacheMaxEntries :: int
  CacheMaxSize :: int
  DeltaInterval :: duration
  MaxUploadsInFlight :: int
  MaxUploadRetries :: int
  GraphRetries :: int
  HTTPTimeout :: duration
  PreWarmDepth :: int
  DebugAddr :: string
  ControlSocket :: string

definition override :: "int \<Rightarrow> int \<Rightarrow> int" where
  "override dflt v = (if v > 0 then v else dflt)"

definition DefaultMountConfig :: "string \<Rightarrow> string \<Rightarrow> persisted_config option \<Rightarrow> mount_config" where
  "DefaultMountConfig home accountName persisted =
     (let cacheBase = Join (Join home ''.cache'') ''onecloudriver'';
          cfg = \<lparr>CacheDir = Join cacheBase accountName, CacheTTL = 60 * second, CacheMaxEntries = 2000, CacheMaxSize = 0,
                 DeltaInterval = 5 * minute, MaxUploadsInFlight = 5, MaxUploadRetries = 5, GraphRetries = 3,
                 HTTPTimeout = 15 * second, PreWarmDepth = 2, DebugAddr = [], ControlSocket = []\<rparr>;
          cfg = (case persisted of
                   None \<Rightarrow> cfg
                 | Some p \<Rightarrow>
                     cfg\<lparr>CacheDir := (if pc_CacheDir p \<noteq> [] then pc_CacheDir p else CacheDir cfg),
                         CacheTTL := override (CacheTTL cfg) (pc_CacheTTL p),
                         CacheMaxEntries := override (CacheMaxEntries cfg) (pc_CacheMaxEntries p),
                         CacheMaxSize := override (CacheMaxSize cfg) (pc_CacheMaxSize p),
                         DeltaInterval := override (DeltaInterval cfg) (pc_DeltaInterval p),
                         MaxUploadsInFlight := override (MaxUploadsInFlight cfg) (pc_MaxUploadsInFlight p),
                         MaxUploadRetries := override (MaxUploadRetries cfg) (pc_MaxUploadRetries p),
                         GraphRetries := override (GraphRetries cfg) (pc_GraphRetries p),
                         HTTPTimeout := override (HTTPTimeout cfg) (pc_HTTPTimeout p),
                         PreWarmDepth := (case pc_PreWarmDepth p of None \<Rightarrow> PreWarmDepth cfg | Some d \<Rightarrow> d)\<rparr>)
      in cfg\<lparr>ControlSocket := Join (CacheDir cfg) ''control.sock''\<rparr>)"

section \<open>Health check\<close>

text \<open>A network error is no failure: the mount starts in offline mode.\<close>

definition healthCheck :: "'w client \<Rightarrow> 'w \<Rightarrow> go_error option \<times> 'w" where
  "healthCheck cli w =
     (case c_token cli w of
        (Inl e, w) \<Rightarrow> (if fs_isNetworkError (Some e) then None else Some (Wrap ''could not obtain access token'' e), w)
      | (Inr _, w) \<Rightarrow>
          (case GetItem cli (ItemID RootID) w of
             (Inl e, w) \<Rightarrow>
               (if fs_isNetworkError (Some e) then None
                else Some (Wrap ''token verification against Microsoft Graph failed'' e), w)
           | (Inr _, w) \<Rightarrow> (None, w)))"

section \<open>Prefetching\<close>

text \<open>The fetcher of \<^verbatim>\<open>Mount\<close>, given the answer of the server: no offline fallback.\<close>

definition plain_fetcher :: "(go_error + drive_item list) \<Rightarrow> fetcher" where
  "plain_fetcher answer c parentID = (c, answer)"

interpretation plain_fetch: children_fetcher "plain_fetcher answer" for answer
proof
  fix c :: inode_cache and i
  show "\<exists>b. fst (plain_fetcher answer c i) = c\<lparr>offline := b\<rparr>"
    by (rule exI [of _ "offline c"]) (simp add: plain_fetcher_def)
qed

definition prefetch ::
  "('db, 'tx, 'w) fs_env \<Rightarrow> ident \<Rightarrow> ('db, 'w) fs_world \<Rightarrow> ((go_error + child_map) \<times> ('db, 'w) fs_world) option" where
  "prefetch E i w =
     (if listing_fresh (env_now E) i (fw_cache w)
      then case PrefetchChildren (env_now E) i None (fw_cache w) of (c, r) \<Rightarrow> Some (r, w\<lparr>fw_cache := c\<rparr>)
      else case fetchChildrenFromGraph (env_cli E) i (fw_net w) of
             None \<Rightarrow> None
           | Some (answer, net) \<Rightarrow>
               (case PrefetchChildren (env_now E) i (Some (plain_fetcher answer)) (fw_cache w) of
                  (c, r) \<Rightarrow> Some (r, w\<lparr>fw_cache := c, fw_net := net\<rparr>)))"

definition child_folders :: "int \<Rightarrow> int \<Rightarrow> child_map \<Rightarrow> (ident \<times> int) list" where
  "child_folders depth level m =
     (if level < depth then map (\<lambda>(_, n). (ID n, level + 1)) (filter (\<lambda>(_, n). IsDir n) m) else [])"

text \<open>
  The breadth-first walk.  It ends because every folder is replaced by finitely many folders of the
  next level, up to the depth.
\<close>

definition queue_ranks :: "int \<Rightarrow> (ident \<times> int) list \<Rightarrow> nat multiset" where
  "queue_ranks depth queue = mset (map (\<lambda>(_, level). nat (depth + 1 - level)) queue)"

lemma queue_ranks_shrink:
  "(queue_ranks depth (queue @ child_folders depth level m), queue_ranks depth ((i, level) # queue)) \<in> mult less_than"
proof -
  have "\<forall>k \<in># queue_ranks depth (child_folders depth level m). k < nat (depth + 1 - level)"
    by (auto simp: queue_ranks_def child_folders_def)
  then have "(queue_ranks depth queue + queue_ranks depth (child_folders depth level m),
      queue_ranks depth queue + {#nat (depth + 1 - level)#}) \<in> mult less_than"
    by (intro one_step_implies_mult) auto
  then show ?thesis by (simp add: queue_ranks_def)
qed

lemma queue_ranks_rest: "(queue_ranks depth queue, queue_ranks depth ((i, level) # queue)) \<in> mult less_than"
  using queue_ranks_shrink [of depth queue level "[]" i] by (simp add: child_folders_def split: if_splits)

function prewarm_loop ::
  "('db, 'tx, 'w) fs_env \<Rightarrow> int \<Rightarrow> (ident \<times> int) list \<Rightarrow> ident list \<Rightarrow> ('db, 'w) fs_world
     \<Rightarrow> (go_error option \<times> ('db, 'w) fs_world) option" where
  "prewarm_loop E depth [] visited w = Some (None, w)"
| "prewarm_loop E depth ((i, level) # queue) visited w =
     (case c_done (env_cli E) (fw_net w) of
        Some e \<Rightarrow> Some (Some e, w)
      | None \<Rightarrow>
          if i \<in> set visited then prewarm_loop E depth queue visited w
          else
            (case prefetch E i w of
               None \<Rightarrow> None
             | Some (Inl _, w) \<Rightarrow> prewarm_loop E depth queue (i # visited) w
             | Some (Inr m, w) \<Rightarrow> prewarm_loop E depth (queue @ child_folders depth level m) (i # visited) w))"
  by pat_completeness auto

termination
proof (relation "inv_image (mult less_than) (\<lambda>(E, depth, queue, visited, w). queue_ranks depth queue)")
  show "wf (inv_image (mult less_than) (\<lambda>(E, depth, queue, visited, w). queue_ranks depth queue))"
    by (intro wf_inv_image wf_mult wf_less_than)
qed (auto simp: queue_ranks_rest queue_ranks_shrink)

definition preWarm ::
  "('db, 'tx, 'w) fs_env \<Rightarrow> int \<Rightarrow> ('db, 'w) fs_world \<Rightarrow> (go_error option \<times> ('db, 'w) fs_world) option" where
  "preWarm E depth w =
     (if depth = 0 then Some (None, w)
      else if depth < 0 \<or> depth > 10 then Some (Some (Plain ''preWarm depth out of range [0..10]''), w)
      else prewarm_loop E depth [(''root'', 1)] [] w)"

section \<open>Start and shutdown\<close>

text \<open>
  The components that \<^verbatim>\<open>Mount\<close> creates after the health check; \<open>opened\<close> is what \<^verbatim>\<open>bolt.Open\<close> returned and
  \<open>db\<close> what stands for the database while none is open.
\<close>

definition mount_start ::
  "('db, 'tx, 'w) fs_env \<Rightarrow> mount_config \<Rightarrow> (go_error + 'db) \<Rightarrow> 'db \<Rightarrow> os_state \<Rightarrow> 'w
     \<Rightarrow> go_error + upload_manager \<times> delta_sync \<times> ('db, 'w) fs_world" where
  "mount_start E cfg opened db s net =
     (case NewContentCache (env_os E) (Join (CacheDir cfg) ''content'') s of
        (Inl e, _) \<Rightarrow> Inl (Wrap ''error creating ContentCache'' e)
      | (Inr cc, s) \<Rightarrow>
          let c = StartSweep (SetMaxEntries (CacheMaxEntries cfg) (SetBaseTTL (CacheTTL cfg) NewInodeCache));
              cc = SetMaxSize (CacheMaxSize cfg) cc;
              (c, db) = (case initBoltDB (env_bolt E) (env_now E) opened c of (Some p, _) \<Rightarrow> p | (None, _) \<Rightarrow> (c, db));
              w = \<lparr>fw_cache = c, fw_db = db, fw_cc = cc, fw_os = s, fw_net = net\<rparr>
          in case NewUploadManager E (MaxUploadsInFlight cfg) (MaxUploadRetries cfg) w of
               (um, w) \<Rightarrow> Inr (um, NewDeltaSync, w))"

text \<open>What the signal handler does to the caches.\<close>

definition unmount ::
  "('db, 'tx, 'w) fs_env \<Rightarrow> (inode_json \<Rightarrow> nat) \<Rightarrow> ('db, 'w) fs_world \<Rightarrow> ('db, 'w) fs_world" where
  "unmount E json_len w =
     (let (s, _) = SerializeDirty (env_bolt E) json_len (fw_cache w, fw_db w);
          (s, _) = SerializeAll (env_bolt E) json_len s;
          cc = CloseAll (fw_cc w);
          ((c, db), _) = Close (env_bolt E) json_len s
      in w\<lparr>fw_cache := c, fw_db := db, fw_cc := cc\<rparr>)"

end
