(* ===== verification/Fs_Inv.thy ===== *)
theory Fs_Inv
  imports Item_Node Mount Upload_Inv Content_Cache_Props
begin

text \<open>
  The mounted file system as one state machine: the FUSE operations, the delta loop, the upload
  manager, the sweeps and the evictions act on the shared caches in any order.  The invariants of
  the metadata cache, of the content index and of the upload manager hold together along every run.
\<close>

section \<open>The invariant of the shared state\<close>

definition world_ok :: "('db, 'w) fs_world \<Rightarrow> bool" where
  "world_ok w \<longleftrightarrow> cache_wf (fw_cache w) \<and> indexed [] (fw_cc w)"

lemma world_ok_fields [simp]:
  "world_ok (w\<lparr>fw_net := net\<rparr>) = world_ok w" "world_ok (w\<lparr>fw_db := db\<rparr>) = world_ok w"
  "world_ok (w\<lparr>fw_os := s\<rparr>) = world_ok w"
  by (simp_all add: world_ok_def)

lemma world_ok_parts [simp]:
  "world_ok (with_cc cs w) \<longleftrightarrow> cache_wf (fw_cache w) \<and> indexed [] (fst cs)"
  "world_ok (on_cache f w) \<longleftrightarrow> cache_wf (f (fw_cache w)) \<and> indexed [] (fw_cc w)"
  "world_ok (w\<lparr>fw_cache := c\<rparr>) \<longleftrightarrow> cache_wf c \<and> indexed [] (fw_cc w)"
  by (simp_all add: world_ok_def with_cc_def on_cache_def)

lemma world_fields [simp]:
  "fw_cache (with_cc cs w) = fw_cache w" "fw_cc (with_cc cs w) = fst cs" "fw_os (with_cc cs w) = snd cs"
  "fw_net (with_cc cs w) = fw_net w" "fw_db (with_cc cs w) = fw_db w"
  "fw_cache (on_cache f w) = f (fw_cache w)" "fw_cc (on_cache f w) = fw_cc w" "fw_os (on_cache f w) = fw_os w"
  "fw_net (on_cache f w) = fw_net w" "fw_db (on_cache f w) = fw_db w"
  by (simp_all add: with_cc_def on_cache_def)

text \<open>The operations of the content cache in the form in which the file system uses them.\<close>

lemma keeps_indexed: "keeps c c' \<Longrightarrow> indexed [] c \<Longrightarrow> indexed [] c'"
  by (simp add: keeps_def)

lemma indexed_ops:
  assumes ix: "indexed [] (fst cs)"
  shows "cc_Open E i cs = (r, cs') \<Longrightarrow> indexed [] (fst cs')"
    and "cc_InsertStream E i rd cs = (q, cs') \<Longrightarrow> indexed [] (fst cs')"
    and "cc_WriteAt E i b off cs = (q, cs') \<Longrightarrow> indexed [] (fst cs')"
    and "cc_Close E i cs = cs' \<Longrightarrow> indexed [] (fst cs')"
    and "cc_Delete E i cs = (e, cs') \<Longrightarrow> indexed [] (fst cs')"
    and "SumQuickXorHash E i cs = (h, cs') \<Longrightarrow> indexed [] (fst cs')"
    and "Snapshot E i cs = (z, cs') \<Longrightarrow> indexed [] (fst cs')"
    and "evict_task E cs = cs' \<Longrightarrow> indexed [] (fst cs')"
proof -
  obtain c s c' s' where cs [simp]: "cs = (c, s)" "cs' = (c', s')" by fastforce
  note k = keeps_indexed [OF _ ix [unfolded cs fst_conv]]
  show "cc_Open E i cs = (r, cs') \<Longrightarrow> indexed [] (fst cs')" using k keeps_Open [of E i c s] by simp
  show "cc_InsertStream E i rd cs = (q, cs') \<Longrightarrow> indexed [] (fst cs')" using k keeps_InsertStream [of E i rd c s] by simp
  show "cc_WriteAt E i b off cs = (q, cs') \<Longrightarrow> indexed [] (fst cs')" using k keeps_WriteAt [of E i b off c s] by simp
  show "cc_Close E i cs = cs' \<Longrightarrow> indexed [] (fst cs')" using k keeps_Close [of E i c s] by simp
  show "cc_Delete E i cs = (e, cs') \<Longrightarrow> indexed [] (fst cs')" using Delete_index [of E i c s e c' s'] ix by simp
  show "SumQuickXorHash E i cs = (h, cs') \<Longrightarrow> indexed [] (fst cs')" using k keeps_SumQuickXorHash [of E i c s] by simp
  show "Snapshot E i cs = (z, cs') \<Longrightarrow> indexed [] (fst cs')" using k keeps_Snapshot [of E i c s] by simp
  obtain c1 s1 where ev: "evictBySize E cs = (c1, s1)" by fastforce
  have "indexed [] c1" using k keeps_evictBySize [of E c s] ev by simp
  then have "indexed [] (c1\<lparr>cc_evicting := False\<rparr>)" by (simp add: indexed_def entries_ok_def)
  then show "evict_task E cs = cs' \<Longrightarrow> indexed [] (fst cs')" using ev by (auto simp: evict_task_def)
qed

section \<open>The contract of a file operation\<close>

text \<open>
  What \<open>on_node\<close> relies on: an operation keeps the identifier of the inode it works on, leaves the
  metadata cache to its caller and keeps the invariants of the content index and of the manager.
\<close>

locale node_operation =
  fixes op :: "inode \<Rightarrow> ('db, 'w) um_state \<Rightarrow> 'a \<times> inode \<times> ('db, 'w) um_state"
  assumes keeps_id: "op n (um, w) = (r, n', (um', w')) \<Longrightarrow> ID n' = ID n"
    and keeps_cache: "op n (um, w) = (r, n', (um', w')) \<Longrightarrow> fw_cache w' = fw_cache w"
    and keeps_index: "op n (um, w) = (r, n', (um', w')) \<Longrightarrow> indexed [] (fw_cc w) \<Longrightarrow> indexed [] (fw_cc w')"
    and keeps_um: "op n (um, w) = (r, n', (um', w')) \<Longrightarrow> um_ok um \<Longrightarrow> um_ok um'"
begin

lemma on_node_ok:
  assumes "um_ok um" "world_ok w" "on_node i op (um, w) = (um', w')"
  shows "um_ok um' \<and> world_ok w'"
proof (cases "Get (fw_cache w) i")
  case None
  then show ?thesis using assms by (simp add: on_node_def)
next
  case (Some n)
  obtain r n1 um1 w1 where run: "op n (um, w) = (r, n1, (um1, w1))" by (metis prod.exhaust)
  have "ID n = i" using assms(2) Some by (auto simp: world_ok_def dest: cache_wf_ID)
  then have "cache_wf (mutate i (\<lambda>_. n1) (fw_cache w1))"
    using assms(2) keeps_id [OF run] keeps_cache [OF run] by (auto simp: world_ok_def intro: cache_wf_mutate)
  moreover have "um' = um1" "w' = on_cache (mutate i (\<lambda>_. n1)) w1" using assms(3) Some run by (auto simp: on_node_def)
  ultimately show ?thesis using assms keeps_index [OF run] keeps_um [OF run] by (simp add: world_ok_def)
qed

end

section \<open>The file operations meet it\<close>

lemma downloadContent_frame:
  assumes "downloadContent E ahead i w = (e, w')"
  shows "fw_cache w' = fw_cache w" "fw_db w' = fw_db w" "indexed [] (fw_cc w) \<Longrightarrow> indexed [] (fw_cc w')"
proof -
  obtain sent ge net where g: "GetItemContentStream (env_cli E) (ItemID i) (pipe_writer (env_os E) ahead i (cc_of w)) (fw_net w)
      = ((sent, ge), net)" by (metis prod.exhaust)
  obtain k ce cs where c: "cc_InsertStream (env_os E) i ([sent], ge) (cc_of w) = ((k, ce), cs)" by (metis prod.exhaust)
  have w': "w' = with_cc cs (w\<lparr>fw_net := net\<rparr>)" using assms g c by (simp add: downloadContent_def)
  then show "fw_cache w' = fw_cache w" "fw_db w' = fw_db w" by simp_all
  show "indexed [] (fw_cc w')" if "indexed [] (fw_cc w)" using indexed_ops(2) [of "cc_of w"] that c w' by simp
qed

lemma Delete_indexed: "indexed [] (fst cs) \<Longrightarrow> indexed [] (fst (snd (cc_Delete E i cs)))"
  using indexed_ops(5) [of cs E i "fst (cc_Delete E i cs)"] by simp

lemma verifyCachedContent_indexed: "indexed [] (fst cs) \<Longrightarrow> indexed [] (fst (snd (verifyCachedContent E i n cs)))"
  using indexed_ops(6) [of cs E i]
  by (auto simp: verifyCachedContent_def Let_def split: option.splits prod.splits)

lemma open_for_reading_cases:
  assumes "open_for_reading E ahead n w = (e, w')"
  obtains "w' = w"
    | "w' = with_cc (snd (verifyCachedContent (env_os E) (ID n) n (cc_of w))) w"
    | "downloadContent E ahead (ID n) w = (e, w')"
    | "downloadContent E ahead (ID n)
         (with_cc (snd (cc_Delete (env_os E) (ID n) (snd (verifyCachedContent (env_os E) (ID n) n (cc_of w))))) w) = (e, w')"
  using assms by (cases "verifyCachedContent (env_os E) (ID n) n (cc_of w)") (auto simp: open_for_reading_def Let_def split: if_splits bool.splits)

lemma open_for_reading_frame:
  assumes "open_for_reading E ahead n w = (e, w')"
  shows "fw_cache w' = fw_cache w \<and> (indexed [] (fw_cc w) \<longrightarrow> indexed [] (fw_cc w'))"
  using assms
proof (cases rule: open_for_reading_cases)
  case 2
  then show ?thesis using verifyCachedContent_indexed [of "cc_of w" "env_os E" "ID n" n] by simp
next
  case 3
  then show ?thesis using downloadContent_frame by blast
next
  case 4
  then show ?thesis
    using downloadContent_frame [OF 4] Delete_indexed verifyCachedContent_indexed [of "cc_of w" "env_os E" "ID n" n] by simp
qed simp

lemma open_for_writing_frame:
  assumes "open_for_writing E ahead flags fd n w = (r, n', w')"
  shows "ID n' = ID n \<and> fw_cache w' = fw_cache w \<and> (indexed [] (fw_cc w) \<longrightarrow> indexed [] (fw_cc w'))"
proof -
  obtain e w1 where d: "(if \<not> isLocalID (ID n) \<and> \<not> hasContentOnDisk (env_os E) (ID n) (cc_of w)
      then downloadContent E ahead (ID n) w else (None, w)) = (e, w1)" by fastforce
  have w1: "fw_cache w1 = fw_cache w \<and> (indexed [] (fw_cc w) \<longrightarrow> indexed [] (fw_cc w1))"
    using d downloadContent_frame by (auto split: if_splits)
  show ?thesis using assms w1
    unfolding open_for_writing_def Let_def d
    by (auto simp: set_size_def ID_def split: option.splits if_splits prod.splits)
qed

interpretation open_node: node_operation "lift_node (node_Open E ahead flags)" for E ahead flags
proof
  fix n um w r n' um' w'
  assume run: "lift_node (node_Open E ahead flags) n (um, w) = (r, n', (um', w'))"
  then have run': "node_Open E ahead flags n w = (r, n', w')" and um: "um' = um" by (auto simp: lift_node_def split: prod.splits)
  obtain z cs where o: "cc_Open (env_os E) (ID n) (cc_of w) = (z, cs)" by (metis surj_pair)
  have ix: "indexed [] (fst cs)" if "indexed [] (fw_cc w)" using indexed_ops(1) [of "cc_of w"] that o by simp
  have "ID n' = ID n \<and> fw_cache w' = fw_cache w \<and> (indexed [] (fw_cc w) \<longrightarrow> indexed [] (fw_cc w'))"
    using run' o ix
    by (auto simp: node_Open_def Let_def dest!: open_for_reading_frame open_for_writing_frame
        split: if_splits sum.splits prod.splits option.splits)
  then show "ID n' = ID n" "fw_cache w' = fw_cache w" "indexed [] (fw_cc w) \<Longrightarrow> indexed [] (fw_cc w')" by simp_all
  show "um_ok um \<Longrightarrow> um_ok um'" using um by simp
qed

interpretation read_node: node_operation "lift_node (node_Read E len off)" for E len off
  using indexed_ops(1)
  by unfold_locales (auto simp: lift_node_def node_Read_def split: prod.splits sum.splits)

interpretation write_node: node_operation "lift_node (node_Write E b off)" for E b off
  using indexed_ops(3)
  by unfold_locales
     (auto simp: lift_node_def node_Write_def Let_def ID_def split: prod.splits sum.splits option.splits if_splits)

interpretation setattr_node: node_operation "lift_node (node_Setattr E uid gid sa)" for E uid gid sa
proof
  fix n um w r n' um' w'
  assume run: "lift_node (node_Setattr E uid gid sa) n (um, w) = (r, n', (um', w'))"
  have "ID n' = ID n \<and> fw_cache w' = fw_cache w \<and> um' = um \<and> (indexed [] (fw_cc w) \<longrightarrow> indexed [] (fw_cc w'))"
    using run indexed_ops(1) [of "cc_of w"]
    by (auto simp: lift_node_def node_Setattr_def Let_def ID_def set_size_def node_chmod_def SetMode_def
        split: prod.splits sum.splits option.splits if_splits)
  then show "ID n' = ID n" "fw_cache w' = fw_cache w" "indexed [] (fw_cc w) \<Longrightarrow> indexed [] (fw_cc w')"
    "um_ok um \<Longrightarrow> um_ok um'" by simp_all
qed

lemma QueueUpload_frame:
  assumes "QueueUpload E i p n (um, w) = (b, (um', w'))"
  shows "fw_cache w' = fw_cache w \<and> (indexed [] (fw_cc w) \<longrightarrow> indexed [] (fw_cc w'))"
  using assms indexed_ops(7) [of "cc_of w" "env_os E" i]
  by (auto simp: QueueUpload_def split: prod.splits sum.splits if_splits)

interpretation fsync_node: node_operation "node_Fsync E" for E
proof
  fix n um w r n' um' w'
  assume run: "node_Fsync E n (um, w) = (r, n', (um', w'))"
  obtain b um1 w1 where q: "QueueUpload E (ID n) (ParentID n) (Name n) (um, w) = (b, (um1, w1))" by (metis surj_pair)
  have id: "ID (SetHasChanges v n) = ID n" for v by (simp add: SetHasChanges_def ID_def)
  have "ID n' = ID n \<and> fw_cache w' = fw_cache w \<and> (indexed [] (fw_cc w) \<longrightarrow> indexed [] (fw_cc w')) \<and> (um_ok um \<longrightarrow> um_ok um')"
    using run q QueueUpload_frame [OF q] um_ok_queue [OF _ q] by (auto simp: node_Fsync_def id split: if_splits)
  then show "ID n' = ID n" "fw_cache w' = fw_cache w" "indexed [] (fw_cc w) \<Longrightarrow> indexed [] (fw_cc w')"
    "um_ok um \<Longrightarrow> um_ok um'" by simp_all
qed

interpretation flush_node: node_operation "node_Flush E" for E
proof
  fix n um w r n' um' w'
  assume run: "node_Flush E n (um, w) = (r, n', (um', w'))"
  obtain r1 n1 um1 w1 where f: "node_Fsync E n (um, w) = (r1, n1, (um1, w1))" by (metis surj_pair)
  have "n' = n1" "um' = um1" "w' = with_cc (cc_Close (env_os E) (ID n1) (cc_of w1)) w1"
    using run f by (auto simp: node_Flush_def)
  moreover have "indexed [] (fw_cc w) \<Longrightarrow> indexed [] (fst (cc_Close (env_os E) (ID n1) (cc_of w1)))"
    using indexed_ops(4) [of "cc_of w1" "env_os E" "ID n1"] fsync_node.keeps_index [OF f] by simp
  ultimately show "ID n' = ID n" "fw_cache w' = fw_cache w" "indexed [] (fw_cc w) \<Longrightarrow> indexed [] (fw_cc w')"
    "um_ok um \<Longrightarrow> um_ok um'"
    using fsync_node.keeps_id [OF f] fsync_node.keeps_cache [OF f] fsync_node.keeps_um [OF f] by simp_all
qed

section \<open>Folder operations\<close>

lemma fs_GetChildren_ok:
  assumes "world_ok w" "fs_GetChildren E q w = Some (r, w')"
  shows "world_ok w'"
proof (cases "listing_fresh (env_now E) q (fw_cache w)")
  case True
  have "cache_wf (fst (GetChildren (env_now E) q None (fw_cache w)))"
    using assms(1) by (auto simp: GetChildren_def world_ok_def intro: cache_wf_getChildren)
  then show ?thesis using assms True by (auto simp: fs_GetChildren_def world_ok_def split: prod.splits)
next
  case False
  have "cache_wf (fst (GetChildren (env_now E) q (Some (fetchChildrenWithOffline a)) (fw_cache w)))" for a
    using assms(1) offline_fetch.wf_getChildren by (simp add: GetChildren_def world_ok_def)
  then show ?thesis using assms False
    by (auto simp: fs_GetChildren_def world_ok_def split: prod.splits option.splits)
       (metis fst_conv)
qed

lemma readdirChildren_ok: "world_ok w \<Longrightarrow> readdirChildren E q w = Some (r, w') \<Longrightarrow> world_ok w'"
  by (auto simp: readdirChildren_def dest: fs_GetChildren_ok split: option.splits sum.splits prod.splits)

lemma lookupChild_ok: "world_ok w \<Longrightarrow> lookupChild E q name w = Some (r, w') \<Longrightarrow> world_ok w'"
  by (auto simp: lookupChild_def dest: fs_GetChildren_ok split: option.splits sum.splits prod.splits)

lemma world_okD: "world_ok w \<Longrightarrow> cache_wf (fw_cache w)" "world_ok w \<Longrightarrow> indexed [] (fw_cc w)"
  by (simp_all add: world_ok_def)

lemma world_ok_Delete: "world_ok w \<Longrightarrow> world_ok (with_cc (snd (cc_Delete E i (cc_of w))) w)"
  using Delete_indexed [of "cc_of w"] by (simp add: world_ok_def)

lemma world_ok_Open: "world_ok w \<Longrightarrow> cc_Open E i (cc_of w) = (r, cs) \<Longrightarrow> world_ok (with_cc cs w)"
  using indexed_ops(1) [of "cc_of w"] by (simp add: world_ok_def)

lemma deleteRemote_ok: "world_ok w \<Longrightarrow> deleteRemote E i w = (e, w') \<Longrightarrow> world_ok w'"
  by (auto simp: deleteRemote_def split: if_splits prod.splits option.splits)

lemma world_ok_edits:
  assumes "world_ok w"
  shows "world_ok (on_cache (InsertChild q io) w)" "world_ok (on_cache (RemoveChild q i) w)"
    "world_ok (on_cache (MoveChild now p q i) w)"
  using assms by (auto simp: world_okD intro: cache_wf_InsertChild cache_wf_RemoveChild cache_wf_MoveChild)

lemma doMkdir_ok: "world_ok w \<Longrightarrow> doMkdir E q name w = (r, w') \<Longrightarrow> world_ok w'"
  using world_ok_edits(1) [of "w\<lparr>fw_net := net\<rparr>" for net]
  by (auto simp: doMkdir_def Let_def simp del: world_ok_parts split: if_splits prod.splits sum.splits)

lemma doRmdir_ok:
  assumes "world_ok w" "doRmdir E q name w = Some (r, w')"
  shows "world_ok w'"
proof -
  obtain x w1 where l: "lookupChild E q name w = Some (x, w1)" using assms(2) by (auto simp: doRmdir_def split: option.splits)
  have w1: "world_ok w1" using lookupChild_ok [OF assms(1) l] .
  show ?thesis using assms(2) l w1
    by (auto simp: doRmdir_def simp del: world_ok_parts split: sum.splits if_splits prod.splits option.splits
        intro: deleteRemote_ok [OF w1] world_ok_edits(2))
qed

lemma doUnlink_ok:
  assumes "world_ok w" "doUnlink E q name w = Some (r, w')"
  shows "world_ok w'"
proof -
  obtain x w1 where l: "lookupChild E q name w = Some (x, w1)" using assms(2) by (auto simp: doUnlink_def split: option.splits)
  have w1: "world_ok w1" using lookupChild_ok [OF assms(1) l] .
  have rm: "world_ok (with_cc (snd (cc_Delete (env_os E) i (cc_of w2))) (on_cache (RemoveChild q i) w2))"
    if "world_ok w2" for i w2
    using world_ok_Delete [OF world_ok_edits(2) [OF that]] by simp
  show ?thesis using assms(2) l w1
    by (auto simp: doUnlink_def Let_def simp del: world_ok_parts split: sum.splits prod.splits option.splits
        intro: deleteRemote_ok [OF w1] rm)
qed

lemma moved_ok:
  assumes "world_ok w" "\<And>n. ID (f n) = ID n"
  shows "world_ok (on_cache (\<lambda>c. mutate i f (MoveChild now p q i c)) w)"
  using cache_wf_mutate_same [OF cache_wf_MoveChild [OF world_okD(1) [OF assms(1)]] assms(2)] world_okD(2) [OF assms(1)] by simp

lemma RenameSession_world: "world_ok w \<Longrightarrow> RenameSession E i q m (um, w) = (um', w') \<Longrightarrow> world_ok w'"
  by (auto simp: RenameSession_def persistSession_def Let_def split: option.splits)

lemma ID_renamed [simp]: "ID (set_name m n) = ID n" "ID (set_parent q n) = ID n"
  by (simp_all add: set_name_def set_parent_def ID_def)

lemma doRename_ok:
  assumes "um_ok um" "world_ok w" "doRename E p name q newName (um, w) = Some (r, (um', w'))"
  shows "um_ok um' \<and> world_ok w'"
proof (cases "isNameRestricted newName")
  case False
  obtain x w1 where l: "lookupChild E p name w = Some (x, w1)"
    using assms(3) False by (auto simp: doRename_def split: option.splits)
  have w1: "world_ok w1" using lookupChild_ok [OF assms(2) l] .
  show ?thesis
  proof (cases x)
    case (Inl e)
    then show ?thesis using assms w1 l False by (auto simp: doRename_def)
  next
    case (Inr child)
    show ?thesis
    proof (cases "isLocalID (ID child)")
      case True
      obtain um2 w2 where s: "RenameSession E (ID child) q newName (um, w1) = (um2, w2)" by (metis surj_pair)
      have "um_ok um2" "world_ok w2"
        using um_ok_rename [OF assms(1), of E "ID child" q newName w1] RenameSession_world [OF w1 s] s by simp_all
      then show ?thesis using assms(3) False l Inr True s moved_ok [of w2] by (auto simp: doRename_def Let_def simp del: world_ok_parts)
    next
      case False': False
      have "um' = um" "world_ok w'"
        using assms(3) False l Inr False' w1 moved_ok [of "w1\<lparr>fw_net := net\<rparr>" for net]
        by (auto simp: doRename_def Let_def simp del: world_ok_parts split: prod.splits sum.splits if_splits bool.splits)
      then show ?thesis using assms(1) by simp
    qed
  qed
qed (use assms in \<open>simp add: doRename_def\<close>)

lemma doCreate_ok:
  assumes "world_ok w" "doCreate E rnd q name m w = Some (r, w')"
  shows "world_ok w'"
proof (cases "isNameRestricted name")
  case False
  obtain x w1 where l: "fs_GetChildren E q w = Some (x, w1)"
    using assms(2) False by (auto simp: doCreate_def split: option.splits)
  have w1: "world_ok w1" using fs_GetChildren_ok [OF assms(1) l] .
  show ?thesis
  proof (cases x)
    case (Inl e)
    then show ?thesis using assms w1 l False by (auto simp: doCreate_def)
  next
    case (Inr cm)
    show ?thesis
    proof (cases "map_of cm name")
      case None
      let ?c = "NewInodeLocal rnd name m None"
      let ?w = "on_cache (InsertChild q (Some ?c)) w1"
      obtain z cs where o: "cc_Open (env_os E) (ID ?c) (cc_of ?w) = (z, cs)" by (metis surj_pair)
      have "world_ok (with_cc cs ?w)" by (rule world_ok_Open [OF world_ok_edits(1) [OF w1] o])
      moreover have "w' = with_cc cs ?w" using assms(2) False l Inr None o by (auto simp: doCreate_def Let_def split: sum.splits)
      ultimately show ?thesis by simp
    next
      case (Some n)
      let ?w = "with_cc (snd (cc_Delete (env_os E) (ID n) (cc_of w1))) w1"
      let ?f = "\<lambda>n. n\<lparr>DriveItem := (DriveItem n)\<lparr>di_Size := 0\<rparr>, hasChanges := True\<rparr>"
      obtain z cs where o: "cc_Open (env_os E) (ID n) (cc_of ?w) = (z, cs)" by (metis surj_pair)
      have w2: "world_ok (with_cc cs ?w)" by (rule world_ok_Open [OF world_ok_Delete [OF w1] o])
      then have "world_ok (on_cache (mutate (ID n) ?f) (with_cc cs ?w))"
        using cache_wf_mutate_same [of "fw_cache w1" ?f "ID n"] w1 by (auto simp: world_ok_def ID_def)
      moreover have "w' = with_cc cs ?w \<or> w' = on_cache (mutate (ID n) ?f) (with_cc cs ?w)"
        using assms(2) False l Inr Some o by (auto simp: doCreate_def Let_def split: sum.splits)
      ultimately show ?thesis using w2 by auto
    qed
  qed
qed (use assms in \<open>simp add: doCreate_def\<close>)

section \<open>The delta loop\<close>

lemma learn_root_ok: "world_ok w \<Longrightarrow> learn_root E (d, w) = (d', w') \<Longrightarrow> world_ok w'"
  by (auto simp: learn_root_def Let_def split: if_splits prod.splits)

lemma resolveParentID_ok: "world_ok w \<Longrightarrow> resolveParentID E p item (d, w) = (q, (d', w')) \<Longrightarrow> world_ok w'"
  by (auto simp: resolveParentID_def Let_def intro: learn_root_ok split: if_splits prod.splits)

lemma apply_creation_wf: "cache_wf c \<Longrightarrow> cache_wf (apply_creation now q item c)"
  using cache_wf_GetChild [of c None now q "di_Name item"]
  by (auto simp: apply_creation_def split: prod.splits sum.splits option.splits intro: cache_wf_InsertChild cache_wf_MoveID)

lemma apply_move_wf:
  assumes "cache_wf c"
  shows "cache_wf (apply_move now q item local c)"
proof -
  have "cache_wf (mutate (di_ID item)
      (\<lambda>n. let d = (DriveItem n)\<lparr>di_Name := di_Name item\<rparr> in
           n\<lparr>DriveItem := (if di_Parent item \<noteq> None then d\<lparr>di_Parent := di_Parent item\<rparr> else d)\<rparr>)
      (MoveChild now (ParentID local) q (di_ID item) c))"
    by (rule cache_wf_mutate_same [OF cache_wf_MoveChild [OF assms]]) (simp add: ID_def Let_def)
  then show ?thesis using assms by (simp only: apply_move_def split: if_split) blast
qed

lemma ID_take_version [simp]: "ID (take_version item n) = ID n"
  by (simp add: take_version_def ID_def Let_def)

lemma contentMatchesRemote_indexed: "indexed [] (fst cs) \<Longrightarrow> indexed [] (fst (snd (contentMatchesRemote E i f cs)))"
  using indexed_ops(6) [of cs E i]
  by (auto simp: contentMatchesRemote_def split: option.splits prod.splits)

lemma apply_modification_ok:
  assumes "world_ok w"
  shows "world_ok (apply_modification E uploads item local w)"
proof -
  let ?w = "on_cache (mutate (di_ID item) (take_version item)) w"
  have w: "world_ok ?w" using assms by (simp add: world_okD cache_wf_mutate_same)
  have m: "indexed [] (fst (snd (contentMatchesRemote (env_os E) (di_ID item) (di_File item) (cc_of ?w))))"
    using contentMatchesRemote_indexed [of "cc_of ?w"] w by (simp add: world_ok_def)
  show ?thesis using assms w m Delete_indexed [OF m, of "env_os E" "di_ID item"]
    by (cases "contentMatchesRemote (env_os E) (di_ID item) (di_File item) (cc_of ?w)")
       (auto simp: apply_modification_def Let_def world_ok_def split: bool.splits)
qed

lemma applyDelta_ok:
  assumes "world_ok w" "applyDelta E uploads delta (d, w) = (e, (d', w'))"
  shows "world_ok w'"
proof -
  define item where "item = delta_DriveItem delta"
  obtain q d1 w1 where r: "resolveParentID E (case di_Parent item of None \<Rightarrow> [] | Some p \<Rightarrow> par_ID p) item (d, w) = (q, (d1, w1))"
    by (metis surj_pair)
  have w1: "world_ok w1" using resolveParentID_ok [OF assms(1) r] .
  note run = assms(2) [unfolded applyDelta_def Let_def, folded item_def, unfolded r, simplified]
  have rt: "world_ok (apply_root item w1)"
    using w1 by (auto simp: apply_root_def world_okD ID_def split: option.splits intro!: cache_wf_dirty cache_wf_mutate_same)
  have del: "world_ok (snd (apply_deletion E q item (Get (fw_cache w1) (di_ID item)) w1))"
    using world_ok_Delete [OF world_ok_edits(2) [OF w1, of q "di_ID item"]] w1
    by (simp add: apply_deletion_def Let_def)
  have new: "world_ok (on_cache (apply_creation (env_now E) q item) w1)" using w1 by (simp add: world_okD apply_creation_wf)
  have mv: "world_ok (on_cache (apply_move (env_now E) q item local) w1)" for local using w1 by (simp add: world_okD apply_move_wf)
  show ?thesis using run w1 rt del new mv
    by (auto simp del: world_ok_parts split: if_splits prod.splits option.splits intro: apply_modification_ok)
qed

lemma applyOrReport_world: "snd (snd (applyOrReport E uploads x st)) = snd (snd (applyDelta E uploads x st))"
  by (auto simp: applyOrReport_def split: option.splits prod.splits)

lemma apply_pass_ok: "world_ok w \<Longrightarrow> apply_pass E uploads xs (d, w) = (ys, (d', w')) \<Longrightarrow> world_ok w'"
proof (induction xs arbitrary: d w ys)
  case (Cons x xs)
  obtain e d1 w1 where a: "applyDelta E uploads x (d, w) = (e, (d1, w1))" by (metis surj_pair)
  have w1: "world_ok w1" using applyDelta_ok [OF Cons.prems(1) a] .
  obtain b d2 where o: "applyOrReport E uploads x (d, w) = (b, (d2, w1))"
    using a applyOrReport_world [of E uploads x "(d, w)"] by (metis prod.collapse snd_conv)
  obtain zs where "apply_pass E uploads xs (d2, w1) = (zs, (d', w'))" using Cons.prems(2) o by (auto split: prod.splits)
  then show ?case by (rule Cons.IH [OF w1])
qed simp

lemma applyPage_ok:
  assumes "world_ok w" "applyPage E uploads xs pending (d, w) = (ys, (d', w'))"
  shows "world_ok w'"
proof -
  obtain b1 d1 w1 where p1: "apply_pass E uploads xs (d, w) = (b1, (d1, w1))" by (metis surj_pair)
  obtain b2 d2 w2 where p2: "apply_pass E uploads b1 (d1, w1) = (b2, (d2, w2))" by (metis surj_pair)
  obtain b3 d3 w3 where p3: "apply_pass E uploads pending (d2, w2) = (b3, (d3, w3))" by (metis surj_pair)
  have "world_ok w3" using apply_pass_ok [OF apply_pass_ok [OF apply_pass_ok [OF assms(1) p1] p2] p3] .
  then show ?thesis using assms(2) p1 p2 p3 by (simp add: applyPage_def)
qed

lemma store_link_ok [simp]: "world_ok (store_link E link w) = world_ok w"
  by (simp add: store_link_def)

lemma last_retry_ok: "world_ok (snd st) \<Longrightarrow> world_ok (snd (last_retry E uploads pending st))"
proof (induction pending arbitrary: st)
  case (Cons x xs)
  obtain e d' w' where a: "applyDelta E uploads x st = (e, (d', w'))" by (metis surj_pair)
  have "world_ok w'" using applyDelta_ok [of "snd st" E uploads x "fst st"] Cons.prems a by simp
  then show ?case using Cons.IH [of "(d', w')"] a by (simp add: last_retry_def)
qed (simp add: last_retry_def)

lemma poll_page_ok:
  assumes "world_ok w"
  shows "poll_page E uploads link pending n (d, w) = Inl (r, st') \<Longrightarrow> world_ok (snd st')"
    and "poll_page E uploads link pending n (d, w) = Inr (l', p', n', st') \<Longrightarrow> world_ok (snd st')"
proof -
  obtain z net where p: "PollDelta (env_cli E) link (fw_net w) = (z, net)" by fastforce
  have page: "world_ok w2" if "applyPage E uploads xs pending (d, w\<lparr>fw_net := net\<rparr>) = (ys, (d2, w2))" for xs ys d2 w2
    using applyPage_ok [OF _ that] assms by simp
  have retry: "world_ok (snd (last_retry E uploads ys (d2, store_link E l w2)))" if "world_ok w2" for ys d2 l w2
    using last_retry_ok [of "(d2, store_link E l w2)"] that by simp
  show "poll_page E uploads link pending n (d, w) = Inl (r, st') \<Longrightarrow> world_ok (snd st')"
    using p assms world_okD [OF assms]
    by (auto simp: poll_page_def Let_def SetOffline_def dest!: page split: sum.splits prod.splits if_splits)
       (metis retry snd_conv)
  show "poll_page E uploads link pending n (d, w) = Inr (l', p', n', st') \<Longrightarrow> world_ok (snd st')"
    using p by (auto simp: poll_page_def Let_def dest!: page split: sum.splits prod.splits if_splits)
qed

lemma poll_pages_ok:
  fixes E :: "('db, 'tx, 'w) fs_env"
  assumes "poll_pages E uploads link pending n st = Some y" "world_ok (snd st)"
  shows "world_ok (snd (snd y))"
proof -
  have "world_ok (snd st) \<longrightarrow> world_ok (snd (snd y))"
    using _ assms(1)
  proof (rule poll_pages.raw_induct [where P = "\<lambda>E uploads link pending n st y. world_ok (snd st) \<longrightarrow> world_ok (snd (snd y))"])
    fix f :: "('db, 'tx, 'w) fs_env \<Rightarrow> upload_query \<Rightarrow> string \<Rightarrow> delta_item list \<Rightarrow> nat \<Rightarrow> ('db, 'w) ds_state
        \<Rightarrow> (poll_result \<times> ('db, 'w) ds_state) option"
      and E :: "('db, 'tx, 'w) fs_env" and uploads link pending n st y
    assume IH: "\<And>E uploads link pending n st y. f E uploads link pending n st = Some y \<Longrightarrow> world_ok (snd st) \<longrightarrow> world_ok (snd (snd y))"
      and run: "(case poll_page E uploads link pending n st of Inl r \<Rightarrow> Some r
          | Inr (link, pending, n, st) \<Rightarrow> f E uploads link pending n st) = Some y"
    show "world_ok (snd st) \<longrightarrow> world_ok (snd (snd y))"
    proof (cases "poll_page E uploads link pending n st")
      case (Inl x)
      then show ?thesis using run poll_page_ok(1) [of "snd st" E uploads link pending n "fst st" "fst y" "snd y"] by simp
    next
      case (Inr x)
      obtain l' p' n' st' where x: "x = (l', p', n', st')" by (metis surj_pair)
      then have "f E uploads l' p' n' st' = Some y" using run Inr by simp
      then show ?thesis using IH Inr x poll_page_ok(2) [of "snd st" E uploads link pending n "fst st" l' p' n' st'] by simp
    qed
  qed
  then show ?thesis using assms(2) by simp
qed

lemma SerializeDirty_wf:
  assumes "cache_wf c"
  shows "cache_wf (fst (fst (SerializeDirty B json_len (c, db))))"
proof -
  have clear: "cache_wf (c\<lparr>dirty := [], deleted := []\<rparr>)"
    using assms by (auto simp: cache_wf_def inodes_wf_def ring_wf_def heap_wf_def dirty_wf_def Get_def)
  have add: "cache_wf (add_serialized n c) = cache_wf c" for n c
    by (simp add: add_serialized_def cache_wf_def inodes_wf_def ring_wf_def heap_wf_def dirty_wf_def Get_def)
  have marks: "cache_wf (fold markDirty xs c)" "cache_wf (fold markDeleted xs c)" if "cache_wf c" for xs c
    using that by (induction xs arbitrary: c) simp_all
  have d: "cache_wf (fst (dirty_batch B json_len xs s))" if "cache_wf (fst s)" for xs s
    using that marks add by (cases s) (auto simp: dirty_batch_def split: prod.splits option.splits)
  have x: "cache_wf (fst (deleted_batch B xs s))" if "cache_wf (fst s)" for xs s
    using that marks by (cases s) (auto simp: deleted_batch_def split: prod.splits option.splits)
  have ds: "cache_wf (fst (fold (dirty_batch B json_len) xss s))" if "cache_wf (fst s)" for xss s
    using that by (induction xss arbitrary: s) (simp_all add: d)
  have xs: "cache_wf (fst (fold (deleted_batch B) xss s))" if "cache_wf (fst s)" for xss s
    using that by (induction xss arbitrary: s) (simp_all add: x)
  have fin: "cache_wf (fst (fold (deleted_batch B) yss (fold (dirty_batch B json_len) xss (c\<lparr>dirty := [], deleted := []\<rparr>, db, None))))" for xss yss
    by (intro xs ds) (simp add: clear)
  have fin': "cache_wf c'" if "fold (deleted_batch B) yss (fold (dirty_batch B json_len) xss (c\<lparr>dirty := [], deleted := []\<rparr>, db, None)) = (c', y)"
    for xss yss c' y using fin [of yss xss] that by simp
  show ?thesis using assms clear
    by (auto simp: SerializeDirty_def Let_def split: prod.splits dest: fin')
qed

lemma persist_poll_ok:
  assumes "world_ok w"
  shows "world_ok (snd (persist_poll E json_len link (d, w)))"
proof -
  have "cache_wf (fst (fst (SerializeDirty (env_bolt E) json_len (fw_cache w, SetDeltaLink (env_bolt E) link (fw_cache w, fw_db w)))))"
    by (rule SerializeDirty_wf) (rule world_okD(1) [OF assms])
  then show ?thesis using world_okD(2) [OF assms]
    by (auto simp: persist_poll_def store_link_def Let_def world_ok_def split: prod.splits)
qed

lemma PollOnce_ok:
  assumes "world_ok (snd st)" "PollOnce E uploads json_len st = Some (r, st')"
  shows "world_ok (snd st')"
proof -
  obtain n l e d w where p: "pollAndApply E uploads (stored_link E (snd st)) st = Some ((n, l, e), (d, w))"
    using assms(2) by (auto simp: PollOnce_def split: option.splits)
  have w: "world_ok w" using poll_pages_ok [of E uploads _ "[]" 0 st] p assms(1) by (fastforce simp: pollAndApply_def)
  show ?thesis using assms(2) p w persist_poll_ok [OF w, of E json_len l d]
    by (cases e) (auto simp: PollOnce_def)
qed

lemma delta_cycle_ok:
  assumes "world_ok (snd st)" "delta_cycle E uploads json_len link st = Some (l', st')"
  shows "world_ok (snd st')"
proof -
  obtain n l e d w where p: "pollAndApply E uploads link st = Some ((n, l, e), (d, w))"
    using assms(2) by (auto simp: delta_cycle_def split: option.splits)
  have w: "world_ok w" using poll_pages_ok [of E uploads _ "[]" 0 st] p assms(1) by (fastforce simp: pollAndApply_def)
  have off: "world_ok (on_cache (SetOffline b) w)" for b using w by (simp add: SetOffline_def world_okD)
  show ?thesis using assms(2) p w off persist_poll_ok [OF w, of E json_len l d] persist_poll_ok [OF off, of E json_len l d]
    by (cases e) (auto simp: delta_cycle_def Let_def simp del: world_ok_parts split: if_splits)
qed

section \<open>Uploads\<close>

lemma delete_modify_at: "AList.delete k (modify_at k f xs) = AList.delete k xs"
  by (induction xs) auto

lemma delete_update_modify:
  "AList.delete old (AList.update new x (modify_at old h xs)) = AList.delete old (AList.update new x xs)"
  by (cases "old = new") (simp_all add: delete_modify_at AList.delete_update AList.delete_update_same)

lemma MoveID_renamed:
  assumes "set_id new (f n) = set_id new (g n)" "Get c old = Some n"
  shows "MoveID old new (mutate old f c) = MoveID old new (mutate old g c)"
proof -
  have got: "Get (mutate old h c) old = Some (h n)" for h using assms(2) by simp
  have gone: "(Store new x (mutate old h c))\<lparr>inodes := AList.delete old (inodes (Store new x (mutate old h c)))\<rparr>
      = (Store new x c)\<lparr>inodes := AList.delete old (inodes (Store new x c))\<rparr>" for x h
    by (simp add: Store_def mutate_def delete_update_modify)
  show ?thesis unfolding MoveID_def got option.case Let_def gone assms(1) ..
qed

lemma store_uploaded_wf:
  assumes "cache_wf c"
  shows "cache_wf (store_uploaded t item createdNew c)"
proof -
  have id: "ID (take_remote item n) = ID n" for n by (simp add: take_remote_def ID_def)
  let ?f = "\<lambda>n. set_id (di_ID item) (take_remote item n)"
  have plain: "cache_wf (mutate (ut_id t) (take_remote item) c)" by (rule cache_wf_mutate_same [OF assms id])
  have new: "cache_wf (MoveID (ut_id t) (di_ID item) (mutate (ut_id t) ?f c))"
  proof (cases "Get c (ut_id t)")
    case None
    then have "MoveID (ut_id t) (di_ID item) (mutate (ut_id t) ?f c) = mutate (ut_id t) ?f c" by (simp add: MoveID_def)
    moreover have "cache_wf (mutate (ut_id t) ?f c)" using assms None by (auto intro: cache_wf_mutate)
    ultimately show ?thesis by simp
  next
    case (Some n)
    have "MoveID (ut_id t) (di_ID item) (mutate (ut_id t) ?f c) = MoveID (ut_id t) (di_ID item) (mutate (ut_id t) (take_remote item) c)"
      by (rule MoveID_renamed [OF _ Some]) (simp add: set_id_def)
    then show ?thesis using cache_wf_MoveID [OF plain] by simp
  qed
  show ?thesis using plain new by (simp add: store_uploaded_def)
qed

lemma session_world [simp]:
  "world_ok (persistSession E i us w) = world_ok w" "world_ok (forget_persisted E i w) = world_ok w"
  "world_ok (snd (discard_at E a (um, w))) = world_ok w"
  by (auto simp: persistSession_def forget_persisted_def discard_at_def split: prod.splits)

lemma finishSession_world [simp]: "world_ok (snd (finishSession E i (um, w))) = world_ok w"
  by (auto simp: finishSession_def split: option.splits prod.splits) (metis session_world(3) snd_conv)+

lemma enqueueSession_world [simp]: "world_ok (snd (enqueueSession E a (um, w))) = world_ok w"
  by (auto simp: enqueueSession_def Let_def split: option.splits prod.splits) (metis session_world(3) snd_conv)+

lemma process_session_world [simp]: "world_ok (snd (process_session E a st)) = world_ok (snd st)"
  by (cases st) (auto simp: process_session_def Let_def split: uploadState.splits)

lemma processSessions_world: "world_ok (snd (processSessions E order st)) = world_ok (snd st)"
  unfolding processSessions_def by (induction order arbitrary: st) simp_all

lemma exec_finish_world: "world_ok w \<Longrightarrow> world_ok (snd (exec_finish E a t r (um, w)))"
  by (auto simp: exec_finish_def Let_def world_okD split: sum.splits intro!: cache_wf_Invalidate store_uploaded_wf)

lemma um_step_world:
  assumes "um_step E st st'" "world_ok (snd st)"
  shows "world_ok (snd st')"
  using assms
proof (induction rule: um_step.induct)
  case (queue um i p n w b st)
  then show ?case using QueueUpload_frame [of E i p n um w b "fst st" "snd st"] by (simp add: world_ok_def)
next
  case (rename st i p n)
  then show ?case using RenameSession_world [of "snd st" E i p n "fst st"] by (metis prod.collapse)
qed (auto simp: processSessions_world exec_start_def exec_upload_def Let_def intro: exec_finish_world split: prod.splits)

section \<open>Prefetching, start and shutdown\<close>

lemma prefetch_ok:
  assumes "world_ok w" "prefetch E i w = Some (r, w')"
  shows "world_ok w'"
proof (cases "listing_fresh (env_now E) i (fw_cache w)")
  case True
  have "cache_wf (fst (PrefetchChildren (env_now E) i None (fw_cache w)))"
    using world_okD(1) [OF assms(1)] by (auto simp: PrefetchChildren_def intro: cache_wf_getChildren)
  then show ?thesis using assms True by (auto simp: prefetch_def world_ok_def split: prod.splits)
next
  case False
  have wf: "cache_wf (fst (PrefetchChildren (env_now E) i (Some (plain_fetcher a)) (fw_cache w)))" for a
    using world_okD(1) [OF assms(1)] plain_fetch.wf_getChildren by (simp add: PrefetchChildren_def)
  have "cache_wf c" if "PrefetchChildren (env_now E) i (Some (plain_fetcher a)) (fw_cache w) = (c, x)" for a c x
    using wf [of a] that by simp
  then show ?thesis using assms False by (auto simp: prefetch_def world_ok_def split: prod.splits option.splits)
qed

lemma prewarm_loop_ok:
  "world_ok w \<Longrightarrow> prewarm_loop E depth queue visited w = Some (e, w') \<Longrightarrow> world_ok w'"
proof (induction E depth queue visited w rule: prewarm_loop.induct)
  case (2 E depth i level queue visited w)
  then show ?case by (auto dest: prefetch_ok split: option.splits if_splits sum.splits)
qed simp

lemma preWarm_ok: "world_ok w \<Longrightarrow> preWarm E depth w = Some (e, w') \<Longrightarrow> world_ok w'"
  by (auto simp: preWarm_def simp del: prewarm_loop.simps dest: prewarm_loop_ok split: if_splits)

text \<open>A database in which every inode is stored under its own identifier.\<close>

definition inodes_keyed :: "(ident \<times> 's bolt_value) list \<Rightarrow> bool" where
  "inodes_keyed vs \<longleftrightarrow> (\<forall>(k, v) \<in> set vs. \<forall>j n. v = InodeV j \<longrightarrow> NewInodeJSON j = Some n \<longrightarrow> ID n = k)"

definition stored_inodes :: "('db, 'tx, 's) bolt_ops \<Rightarrow> 'db \<Rightarrow> (ident \<times> 's bolt_value) list" where
  "stored_inodes B db = (case b_view B db of Inl _ \<Rightarrow> [] | Inr tx \<Rightarrow> b_each B tx Metadata)"

lemma load_entry_wf: "cache_wf c \<Longrightarrow> inodes_keyed [x] \<Longrightarrow> cache_wf (load_entry now x c)"
  by (cases x) (auto simp: load_entry_def inodes_keyed_def Let_def split: bolt_value.splits option.splits intro!: keeps_wf)

lemma load_entries_wf: "cache_wf c \<Longrightarrow> inodes_keyed xs \<Longrightarrow> cache_wf (fold (load_entry now) xs c)"
proof (induction xs arbitrary: c)
  case (Cons x xs)
  have "inodes_keyed [x]" "inodes_keyed xs" using Cons.prems(2) by (auto simp: inodes_keyed_def)
  then show ?case using Cons.IH [OF load_entry_wf [OF Cons.prems(1)]] by simp
qed simp

lemma initBoltDB_wf:
  assumes "cache_wf c" "initBoltDB B now opened c = (Some (c', db'), e)" "inodes_keyed (stored_inodes B db')"
  shows "cache_wf c'"
proof -
  have wf: "cache_wf (c\<lparr>db_open := True\<rparr>)"
    using assms(1) by (simp add: cache_wf_def inodes_wf_def ring_wf_def heap_wf_def dirty_wf_def Get_def)
  show ?thesis using assms(2,3) wf load_entries_wf [OF wf]
    by (auto simp: initBoltDB_def DeserializeFromDisk_def stored_inodes_def Let_def split: sum.splits prod.splits option.splits if_splits)
qed

lemma cache_wf_configured: "cache_wf (StartSweep (SetMaxEntries n (SetBaseTTL t NewInodeCache)))"
  by (simp add: StartSweep_def SetMaxEntries_def SetBaseTTL_def cache_wf_new)

lemma restore_loop_world: "world_ok w \<Longrightarrow> restore_loop E xs (um, w) = (um', w') \<Longrightarrow> world_ok w'"
proof (induction xs arbitrary: um w)
  case (Cons x xs)
  obtain i v where x: "x = (i, v)" by (cases x)
  show ?case
  proof (cases "NewUploadSessionJSON v")
    case (Inl e)
    then show ?thesis using Cons.IH [of "forget_persisted E i w" um] Cons.prems x by simp
  next
    case (Inr us)
    obtain us' s where d: "DiscardSnapshot (env_os E) (us, fw_os w) = (us', s)" by (metis surj_pair)
    show ?thesis using Inr x d Cons.prems Cons.IH [of w] Cons.IH [of "forget_persisted E i (w\<lparr>fw_os := s\<rparr>)" um]
      by (simp split: if_splits)
  qed
qed simp

lemma cache_wf_counters [simp]:
  "cache_wf (add_serialized n c) = cache_wf c" "cache_wf (c\<lparr>db_open := b\<rparr>) = cache_wf c"
  by (simp_all add: add_serialized_def cache_wf_def inodes_wf_def ring_wf_def heap_wf_def dirty_wf_def Get_def)

lemma cache_wf_clean: "cache_wf c \<Longrightarrow> cache_wf (c\<lparr>dirty := [], deleted := []\<rparr>)"
  by (auto simp: cache_wf_def inodes_wf_def ring_wf_def heap_wf_def dirty_wf_def Get_def)

lemma SerializeAll_wf: "cache_wf c \<Longrightarrow> cache_wf (fst (fst (SerializeAll B json_len (c, db))))"
  by (auto simp: SerializeAll_def intro: cache_wf_clean split: prod.splits option.splits)

lemma Close_wf: "cache_wf c \<Longrightarrow> cache_wf (fst (fst (Close B json_len (c, db))))"
  using SerializeAll_wf [of "c\<lparr>sweeping := False\<rparr>" B json_len db]
  by (auto simp: Close_def Let_def split: prod.splits option.splits)

lemma unmount_ok:
  assumes "world_ok w"
  shows "world_ok (unmount E json_len w)"
proof -
  obtain c1 db1 e1 where s1: "SerializeDirty (env_bolt E) json_len (fw_cache w, fw_db w) = ((c1, db1), e1)" by (metis surj_pair)
  obtain c2 db2 e2 where s2: "SerializeAll (env_bolt E) json_len (c1, db1) = ((c2, db2), e2)" by (metis surj_pair)
  obtain c3 db3 e3 where s3: "Close (env_bolt E) json_len (c2, db2) = ((c3, db3), e3)" by (metis surj_pair)
  have "cache_wf c1" using SerializeDirty_wf [OF world_okD(1) [OF assms], of "env_bolt E" json_len "fw_db w"] s1 by simp
  then have "cache_wf c2" using SerializeAll_wf [of c1 "env_bolt E" json_len db1] s2 by simp
  then have "cache_wf c3" using Close_wf [of c2 "env_bolt E" json_len db2] s3 by simp
  then show ?thesis using s1 s2 s3 world_okD(2) [OF assms]
    by (simp add: unmount_def Let_def world_ok_def CloseAll_def indexed_def entries_ok_def)
qed

text \<open>The database with which the components start, and what the mount relies on in it.\<close>

definition mounted_db :: "('db, 'tx, 'w) fs_env \<Rightarrow> (go_error + 'db) \<Rightarrow> 'db \<Rightarrow> 'db" where
  "mounted_db E opened db =
     (case opened of
        Inl _ \<Rightarrow> db
      | Inr db1 \<Rightarrow> (case b_update (env_bolt E) db1 (create_buckets (env_bolt E)) of (db2, _, e) \<Rightarrow> if e = None then db2 else db))"

definition db_keyed :: "('db, 'tx, 'w) fs_env \<Rightarrow> 'db \<Rightarrow> bool" where
  "db_keyed E db \<longleftrightarrow> inodes_keyed (stored_inodes (env_bolt E) db) \<and>
     (\<forall>c. sessions_keyed (LoadUploadSessions (env_bolt E) (c, db)))"

lemma initBoltDB_db: "initBoltDB (env_bolt E) now opened c = (Some (c', db'), e) \<Longrightarrow> db' = mounted_db E opened db"
  by (auto simp: initBoltDB_def mounted_db_def Let_def split: sum.splits prod.splits option.splits)

lemma initBoltDB_none: "initBoltDB (env_bolt E) now opened c = (None, e) \<Longrightarrow> mounted_db E opened db = db"
  by (auto simp: initBoltDB_def mounted_db_def Let_def split: sum.splits prod.splits option.splits)

lemma mount_start_ok:
  assumes run: "mount_start E cfg opened db s net = Inr (um, d, w)" and "os_ok s" "db_keyed E (mounted_db E opened db)"
  shows "um_ok um \<and> world_ok w"
proof -
  obtain cc s1 where cc: "NewContentCache (env_os E) (Join (CacheDir cfg) ''content'') s = (Inr cc, s1)"
    using run by (auto simp: mount_start_def split: prod.splits sum.splits)
  let ?c0 = "StartSweep (SetMaxEntries (CacheMaxEntries cfg) (SetBaseTTL (CacheTTL cfg) NewInodeCache))"
  obtain io e where init: "initBoltDB (env_bolt E) (env_now E) opened ?c0 = (io, e)" by fastforce
  obtain c1 db1 where p: "(case io of Some p \<Rightarrow> p | None \<Rightarrow> (?c0, db)) = (c1, db1)" by fastforce
  have db1: "db1 = mounted_db E opened db" using initBoltDB_db initBoltDB_none init p by (fastforce split: option.splits)
  have c1: "cache_wf c1"
    using p init initBoltDB_wf [OF cache_wf_configured] cache_wf_configured assms(3) initBoltDB_db [of E]
    by (fastforce simp: db_keyed_def split: option.splits)
  define w0 where "w0 = \<lparr>fw_cache = c1, fw_db = db1, fw_cc = SetMaxSize (CacheMaxSize cfg) cc, fw_os = s1, fw_net = net\<rparr>"
  have w0: "world_ok w0"
    using NewContentCache_index [OF cc assms(2)] c1 by (simp add: w0_def world_ok_def SetMaxSize_def indexed_def entries_ok_def)
  have new: "NewUploadManager E (MaxUploadsInFlight cfg) (MaxUploadRetries cfg) w0 = (um, w)"
    using run cc init p by (auto simp: mount_start_def Let_def w0_def split: prod.splits option.splits)
  have "um_ok (fst (NewUploadManager E (MaxUploadsInFlight cfg) (MaxUploadRetries cfg) w0))"
    by (rule um_ok_new) (use assms(3) db1 in \<open>simp add: db_keyed_def w0_def\<close>)
  then show ?thesis
    using new w0 by (auto simp: NewUploadManager_def restoreIncompleteSessions_def intro: restore_loop_world)
qed

section \<open>Runs of the mounted file system\<close>

text \<open>
  Every FUSE request, every turn of a background loop and every goroutine of an upload is one
  step, in any order; each step has its own environment.  An upload is queued only when the channel
  has room, since the send waits for it.
\<close>

type_synonym ('db, 'w) fs_state = "upload_manager \<times> delta_sync \<times> ('db, 'w) fs_world"

inductive fs_step :: "('db, 'tx, 'w) fs_env \<Rightarrow> ('db, 'w) fs_state \<Rightarrow> ('db, 'w) fs_state \<Rightarrow> bool" for E where
  file_open: "on_node i (lift_node (node_Open E ahead flags)) (um, w) = (um', w') \<Longrightarrow> fs_step E (um, d, w) (um', d, w')"
| file_read: "on_node i (lift_node (node_Read E len off)) (um, w) = (um', w') \<Longrightarrow> fs_step E (um, d, w) (um', d, w')"
| file_write: "on_node i (lift_node (node_Write E b off)) (um, w) = (um', w') \<Longrightarrow> fs_step E (um, d, w) (um', d, w')"
| setattr: "on_node i (lift_node (node_Setattr E uid gid sa)) (um, w) = (um', w') \<Longrightarrow> fs_step E (um, d, w) (um', d, w')"
| fsync: "length (um_queue um) < queue_capacity \<Longrightarrow> on_node i (node_Fsync E) (um, w) = (um', w') \<Longrightarrow>
    fs_step E (um, d, w) (um', d, w')"
| flush: "length (um_queue um) < queue_capacity \<Longrightarrow> on_node i (node_Flush E) (um, w) = (um', w') \<Longrightarrow>
    fs_step E (um, d, w) (um', d, w')"
| readdir: "readdirChildren E q w = Some (r, w') \<Longrightarrow> fs_step E (um, d, w) (um, d, w')"
| lookup: "fuseLookup E uid gid q name w = Some (r, w') \<Longrightarrow> fs_step E (um, d, w) (um, d, w')"
| mkdir: "fuseMkdir E uid gid q name w = (r, w') \<Longrightarrow> fs_step E (um, d, w) (um, d, w')"
| rmdir: "fuseRmdir E q name w = Some (r, w') \<Longrightarrow> fs_step E (um, d, w) (um, d, w')"
| unlink: "fuseUnlink E q name w = Some (r, w') \<Longrightarrow> fs_step E (um, d, w) (um, d, w')"
| rename: "fuseRename E q name newParent newName (um, w) = Some (r, (um', w')) \<Longrightarrow> fs_step E (um, d, w) (um', d, w')"
| create: "fuseCreate E rnd uid gid q name m w = Some (r, w') \<Longrightarrow> fs_step E (um, d, w) (um, d, w')"
| uploads: "um_step E (um, w) (um', w') \<Longrightarrow> fs_step E (um, d, w) (um', d, w')"
| delta: "delta_cycle E (Some (HasPendingUpload um)) json_len link (d, w) = Some (link', (d', w')) \<Longrightarrow>
    fs_step E (um, d, w) (um, d', w')"
| prewarm: "preWarm E depth w = Some (e, w') \<Longrightarrow> fs_step E (um, d, w) (um, d, w')"
| sweep: "fs_step E (um, d, w) (um, d, on_cache (sweep (env_now E)) w)"
| evict: "fs_step E (um, d, w) (um, d, with_cc (evict_task (env_os E) (cc_of w)) w)"
| unmount: "fs_step E (um, d, w) (um, d, unmount E json_len w)"

inductive fs_reach :: "('db, 'tx, 'w) fs_env set \<Rightarrow> ('db, 'w) fs_state \<Rightarrow> bool" for Es where
  start: "E \<in> Es \<Longrightarrow> mount_start E cfg opened db s net = Inr st \<Longrightarrow> os_ok s \<Longrightarrow>
    db_keyed E (mounted_db E opened db) \<Longrightarrow> fs_reach Es st"
| step: "fs_reach Es st \<Longrightarrow> E \<in> Es \<Longrightarrow> fs_step E st st' \<Longrightarrow> fs_reach Es st'"

lemma fs_step_ok:
  assumes "fs_step E (um, d, w) (um', d', w')" "um_ok um" "world_ok w"
  shows "um_ok um' \<and> world_ok w'"
  using assms(1)
proof cases
  case (file_open i ahead flags)
  then show ?thesis using open_node.on_node_ok [OF assms(2,3)] by blast
next
  case (file_read i len off)
  then show ?thesis using read_node.on_node_ok [OF assms(2,3)] by blast
next
  case (file_write i b off)
  then show ?thesis using write_node.on_node_ok [OF assms(2,3)] by blast
next
  case (setattr i uid gid sa)
  then show ?thesis using setattr_node.on_node_ok [OF assms(2,3)] by blast
next
  case (fsync i)
  then show ?thesis using fsync_node.on_node_ok [OF assms(2,3)] by blast
next
  case (flush i)
  then show ?thesis using flush_node.on_node_ok [OF assms(2,3)] by blast
next
  case (readdir q r)
  then show ?thesis using assms(2) readdirChildren_ok [OF assms(3)] by blast
next
  case (lookup uid gid q name r)
  then obtain x where "lookupChild E q name w = Some (x, w')" by (auto simp: fuseLookup_def split: option.splits sum.splits prod.splits)
  then show ?thesis using lookup assms(2) lookupChild_ok [OF assms(3)] by blast
next
  case (mkdir uid gid q name r)
  then obtain x where "doMkdir E q name w = (x, w')" by (auto simp: fuseMkdir_def split: sum.splits prod.splits)
  then show ?thesis using mkdir assms(2) doMkdir_ok [OF assms(3)] by blast
next
  case (rmdir q name r)
  then show ?thesis using assms(2) doRmdir_ok [OF assms(3)] by (auto simp: fuseRmdir_def)
next
  case (unlink q name r)
  then show ?thesis using assms(2) doUnlink_ok [OF assms(3)] by (auto simp: fuseUnlink_def)
next
  case (rename q name newParent newName r)
  then show ?thesis
    using assms(2,3) doRename_ok [OF assms(2,3), of E q name "resolveNewParentID newParent" newName r um' w']
    by (auto simp: fuseRename_def Let_def split: if_splits)
next
  case (create rnd uid gid q name m r)
  then obtain x where "doCreate E rnd q name m w = Some (x, w')" by (auto simp: fuseCreate_def split: option.splits sum.splits prod.splits)
  then show ?thesis using create assms(2) doCreate_ok [OF assms(3)] by blast
next
  case uploads
  then show ?thesis using um_step_ok [of E "(um, w)" "(um', w')"] um_step_world [of E "(um, w)" "(um', w')"] assms(2,3) by simp
next
  case (delta json_len link link')
  then show ?thesis using delta_cycle_ok [of "(d, w)"] assms(2,3) by fastforce
next
  case (prewarm depth e)
  then show ?thesis using preWarm_ok [OF assms(3)] assms(2) by blast
next
  case sweep
  then show ?thesis using assms(2,3) by (simp add: world_okD cache_wf_sweep)
next
  case evict
  then show ?thesis using assms(2,3) indexed_ops(8) [of "cc_of w"] by (simp add: world_ok_def)
next
  case (unmount json_len)
  then show ?thesis using assms(2) unmount_ok [OF assms(3)] by simp
qed

lemma fs_reach_ok: "fs_reach Es st \<Longrightarrow> um_ok (fst st) \<and> world_ok (snd (snd st))"
proof (induction rule: fs_reach.induct)
  case (start E cfg opened db s net st)
  then show ?case using mount_start_ok [of E cfg opened db s net "fst st" "fst (snd st)" "snd (snd st)"] by simp
next
  case (step st E st')
  then show ?case using fs_step_ok [of E "fst st" "fst (snd st)" "snd (snd st)" "fst st'" "fst (snd st')" "snd (snd st')"] by simp
qed

end
