(* ===== verification/Fs_Props.thy ===== *)
theory Fs_Props
  imports Fs_Inv Upload_Props
begin

text \<open>
  The theorems about the mounted file system: the invariant of the shared state along every run,
  what \<^verbatim>\<open>fsync\<close> and the delta loop do to local work, which content an open serves, and that the
  loops that wait for the server end when the server's pages do.
\<close>

section \<open>The invariant\<close>

text \<open>
  C1: In every reachable state of a mounted file system, with FUSE requests, delta cycles, uploads,
  prefetching, sweeps and evictions in any order and with any failures, the metadata cache stores
  each inode once under its own identifier, no identifier is both dirty and deleted, the eviction
  index of the content cache is sound, and the upload slots in use are the uploads in flight,
  within the cap.
\<close>

theorem fs_invariant:
  assumes "fs_reach Es (um, d, w)"
  shows "keys_distinct (inodes (fw_cache w)) \<and>
    (\<forall>k n. Get (fw_cache w) k = Some n \<longrightarrow> ID n = k) \<and>
    set (dirty (fw_cache w)) \<inter> set (deleted (fw_cache w)) = {} \<and>
    index_wf (fw_cc w) \<and>
    um_inFlight um = int (length (um_tasks um)) \<and> um_inFlight um \<le> inFlightCap um"
  using fs_reach_ok [OF assms]
  by (simp add: world_ok_def cache_wf_def inodes_wf_def dirty_wf_def index_wf_def um_ok_def slots_ok_def)

text \<open>A mount on an empty disk and an empty database.\<close>

definition ex_config :: mount_config where
  "ex_config = (DefaultMountConfig ''/h'' ''a'' None)\<lparr>CacheDir := ''/c''\<rparr>"

definition ex_empty_disk :: os_state where
  "ex_empty_disk = \<lparr>os_dirs = [(''/c'', (4096, 0))], os_names = [], os_files = (\<lambda>_. \<lparr>of_data = [], of_mtime = 0\<rparr>), os_next = 0\<rparr>"

lemma ex_mount: "\<exists>um d w. mount_start ex_env ex_config (Inr (\<lambda>_. [])) (\<lambda>_. []) ex_empty_disk 0 = Inr (um, d, w)"
proof -
  have "\<exists>cc s. NewContentCache (env_os ex_env) (Join (CacheDir ex_config) ''content'') ex_empty_disk = (Inr cc, s)"
    by (simp add: NewContentCache_def ex_config_def ex_empty_disk_def ex_env_def no_faults_def os_mkdir_def path_eval
        initializeEvictionIndex_def readdir_files_def)
  then show ?thesis by (auto simp: mount_start_def Let_def split: prod.splits)
qed

lemma ex_mount_db: "db_keyed ex_env (mounted_db ex_env (Inr (\<lambda>_. [])) (\<lambda>_. []))"
  by (simp add: db_keyed_def mounted_db_def ex_env_def mem_bolt_def create_buckets_def stored_inodes_def
      inodes_keyed_def sessions_keyed_def LoadUploadSessions_def)

theorem fs_invariant_witness:
  "\<exists>um d w. mount_start ex_env ex_config (Inr (\<lambda>_. [])) (\<lambda>_. []) ex_empty_disk 0 = Inr (um, d, w) \<and>
     fs_reach {ex_env} (um, d, on_cache (sweep 0) w) \<and> index_wf (fw_cc w)"
proof -
  obtain um d w where m: "mount_start ex_env ex_config (Inr (\<lambda>_. [])) (\<lambda>_. []) ex_empty_disk 0 = Inr (um, d, w)"
    using ex_mount by blast
  have "os_ok ex_empty_disk" by (simp add: os_ok_def keys_distinct_def ex_empty_disk_def)
  then have "fs_reach {ex_env} (um, d, w)" using fs_reach.start [OF _ m _ ex_mount_db] by simp
  moreover have "fs_step ex_env (um, d, w) (um, d, on_cache (sweep 0) w)"
    using fs_step.sweep [of ex_env um d w] by (simp add: ex_env_def no_faults_def)
  ultimately have r: "fs_reach {ex_env} (um, d, on_cache (sweep 0) w)" by (blast intro: fs_reach.step)
  then show ?thesis using fs_invariant [OF r] m by auto
qed

section \<open>Local work and remote changes\<close>

text \<open>The parts of an inode that a remote version would replace.\<close>

definition same_version :: "inode \<Rightarrow> inode \<Rightarrow> bool" where
  "same_version n n' \<longleftrightarrow> hasChanges n' = hasChanges n \<and> ID n' = ID n \<and>
     di_Size (DriveItem n') = di_Size (DriveItem n) \<and> di_ModTime (DriveItem n') = di_ModTime (DriveItem n) \<and>
     di_ETag (DriveItem n') = di_ETag (DriveItem n) \<and> di_File (DriveItem n') = di_File (DriveItem n)"

lemma same_version_refl [simp]: "same_version n n"
  by (simp add: same_version_def)

lemma same_version_edits [simp]:
  "same_version n (attachChild p i b s) = same_version n p" "same_version n (detachChild p i b) = same_version n p"
  by (auto simp: same_version_def attachChild_def detachChild_def Let_def ID_def)

definition keeps_version :: "ident \<Rightarrow> inode \<Rightarrow> inode_cache \<Rightarrow> bool" where
  "keeps_version i n c \<longleftrightarrow> (\<exists>n'. Get c i = Some n' \<and> same_version n n')"

lemma keeps_version_mutate:
  assumes "keeps_version i n c" "\<And>m. same_version n m \<Longrightarrow> same_version n (f m)"
  shows "keeps_version i n (mutate k f c)"
  using assms by (auto simp: keeps_version_def)

lemma keeps_version_MoveChild: "keeps_version i n c \<Longrightarrow> keeps_version i n (MoveChild now p q j c)"
  by (auto simp: keeps_version_def MoveChild_def attach_seed_def register_folder_def Let_def split: option.splits)

lemma keeps_version_move: "keeps_version i n c \<Longrightarrow> keeps_version i n (apply_move now q item local c)"
  unfolding apply_move_def
  by (auto intro!: keeps_version_mutate keeps_version_MoveChild simp: same_version_def Let_def ID_def)

text \<open>
  C8: A remote change of a file with local work that is not uploaded yet (unsaved writes, or an
  upload that is queued or in flight) never touches the local version: unless it deletes the item,
  applying it leaves the cached content and the whole content cache as they are and keeps size, time,
  ETag, hashes and the dirty flag of the inode, whatever else the change moves or renames.
\<close>

theorem delta_keeps_pending:
  assumes run: "applyDelta E uploads delta (d, w) = (e, (d', w'))" and del: "delta_Deleted delta = None"
    and n: "Get (fw_cache w) (di_ID (delta_DriveItem delta)) = Some n"
    and pending: "pending_work uploads (di_ID (delta_DriveItem delta)) n"
  shows "e = None \<and> cc_of w' = cc_of w \<and>
    (\<exists>n'. Get (fw_cache w') (di_ID (delta_DriveItem delta)) = Some n' \<and> same_version n n')"
proof -
  define item where "item = delta_DriveItem delta"
  let ?i = "di_ID item"
  obtain q d1 w1 where r: "resolveParentID E (case di_Parent item of None \<Rightarrow> [] | Some p \<Rightarrow> par_ID p) item (d, w) = (q, (d1, w1))"
    by (metis surj_pair)
  have w1: "fw_cache w1 = fw_cache w" "cc_of w1 = cc_of w"
    using r by (auto simp: resolveParentID_def learn_root_def Let_def split: if_splits prod.splits)
  have k1: "keeps_version ?i n (fw_cache w1)" using n w1 by (simp add: keeps_version_def item_def)
  have root: "keeps_version ?i n (fw_cache (apply_root item w1)) \<and> cc_of (apply_root item w1) = cc_of w1"
    using k1 by (auto simp: apply_root_def keeps_version_def same_version_def ID_def split: option.splits)
  note run' = run [unfolded applyDelta_def Let_def, folded item_def, unfolded r, simplified]
  have n1: "Get (fw_cache w1) ?i = Some n" using n w1 by (simp add: item_def)
  let ?w2 = "on_cache (apply_move (env_now E) q item n) w1"
  obtain n2 where n2: "Get (fw_cache ?w2) ?i = Some n2" "same_version n n2"
    using keeps_version_move [OF k1, of "env_now E" q item n] by (auto simp: keeps_version_def)
  have "pending_work uploads ?i n2" using pending n2(2) by (simp add: pending_work_def HasChanges_def same_version_def item_def)
  then have mod: "apply_modification E uploads item n2 ?w2 = ?w2" by (simp add: apply_modification_def)
  have "e = None \<and> cc_of w' = cc_of w \<and> keeps_version ?i n (fw_cache w')"
    using run' root k1 w1 del n1 n2 mod keeps_version_move [OF k1, of "env_now E" q item n]
    by (auto simp: keeps_version_def split: if_splits)
  then show ?thesis by (simp add: keeps_version_def item_def)
qed

text \<open>A root with a file of unsaved changes and a folder; a remote client moves the file into the folder.\<close>

definition ex_root :: inode where
  "ex_root = (inode_of_item (zero_item\<lparr>di_ID := ''root'', di_Name := ''root'', di_Folder := Some \<lparr>ChildCount = 2\<rparr>\<rparr>))
     \<lparr>children := Some [''x'', ''F'']\<rparr>"

definition ex_subfolder :: inode where
  "ex_subfolder = inode_of_item (zero_item\<lparr>di_ID := ''F'', di_Name := ''F'', di_Folder := Some \<lparr>ChildCount = 0\<rparr>,
     di_Parent := Some (parent_ref ''R'')\<rparr>)"

definition ex_file :: inode where
  "ex_file = (inode_of_item (zero_item\<lparr>di_ID := ''x'', di_Name := ''x.txt'', di_Size := 3, di_Parent := Some (parent_ref ''R'')\<rparr>))
     \<lparr>hasChanges := True\<rparr>"

definition ex_delta_world :: "(bucket \<Rightarrow> (string \<times> session_json bolt_value) list, nat) fs_world" where
  "ex_delta_world = ex_world\<lparr>fw_cache := NewInodeCache\<lparr>inodes := [(''root'', ex_root), (''x'', ex_file), (''F'', ex_subfolder)]\<rparr>\<rparr>"

definition ex_move :: delta_item where
  "ex_move = \<lparr>delta_DriveItem = zero_item\<lparr>di_ID := ''x'', di_Name := ''y.txt'', di_Size := 9, di_ModTime := Some (10 * second),
     di_ETag := ''e2'', di_Parent := Some (parent_ref ''F'')\<rparr>, delta_Deleted = None\<rparr>"

lemma ex_delta_get:
  "Get (fw_cache ex_delta_world) ''x'' = Some ex_file" "Get (fw_cache ex_delta_world) ''root'' = Some ex_root"
  "Get (fw_cache ex_delta_world) ''F'' = Some ex_subfolder" "Get (fw_cache ex_delta_world) ''R'' = None"
  by (simp_all add: Get_def ex_delta_world_def)

lemma ex_move_item: "di_ID (delta_DriveItem ex_move) = ''x''" "delta_Deleted ex_move = None"
  "di_Parent (delta_DriveItem ex_move) = Some (parent_ref ''F'')"
  by (simp_all add: ex_move_def)

theorem delta_keeps_pending_witness:
  "\<exists>e d' w' n'. applyDelta ex_env None ex_move (NewDeltaSync, ex_delta_world) = (e, (d', w')) \<and>
     cc_of w' = cc_of ex_delta_world \<and> Get (fw_cache w') ''x'' = Some n' \<and> hasChanges n' \<and> di_Size (DriveItem n') = 3"
proof -
  obtain e d' w' where run: "applyDelta ex_env None ex_move (NewDeltaSync, ex_delta_world) = (e, (d', w'))" by (metis surj_pair)
  have "pending_work None ''x'' ex_file" by (simp add: pending_work_def HasChanges_def ex_file_def)
  then obtain n' where "cc_of w' = cc_of ex_delta_world" "Get (fw_cache w') ''x'' = Some n'" "same_version ex_file n'"
    using delta_keeps_pending [OF run] by (auto simp: ex_move_item ex_delta_get)
  moreover have "hasChanges ex_file" "di_Size (DriveItem ex_file) = 3" by (simp_all add: ex_file_def inode_of_item_def)
  ultimately show ?thesis using run by (auto simp: same_version_def)
qed

text \<open>
  A remote move of an item out of the root folder leaves a ghost behind.  Items listed under the
  root carry the root's real identifier as their parent, which is no key of the cache, so the move
  detaches the item from a folder that does not exist: it appears in its new folder and stays in the
  listing of the root.
\<close>

lemma move_out_of_root_ghost:
  assumes run: "applyDelta E uploads delta (d, w) = (e, (d', w'))" and del: "delta_Deleted delta = None"
    and item: "item = delta_DriveItem delta" "di_ID item \<notin> {''root'', q}" "di_Parent item = Some p" "par_ID p = q"
    and q: "Get (fw_cache w) q = Some f" "q \<notin> {[], ''root'', ds_rootRealID d}"
    and r: "Get (fw_cache w) ''root'' = Some r" "children r = Some ids" "di_ID item \<in> set ids"
    and n: "Get (fw_cache w) (di_ID item) = Some n" "ParentID n \<noteq> ''root''" "ParentID n \<noteq> q" "Get (fw_cache w) (ParentID n) = None"
  shows "\<exists>r' f' cs. Get (fw_cache w') ''root'' = Some r' \<and> children r' = Some ids \<and>
    Get (fw_cache w') q = Some f' \<and> children f' = Some cs \<and> di_ID item \<in> set cs"
proof -
  have res: "resolveParentID E (case di_Parent item of None \<Rightarrow> [] | Some p \<Rightarrow> par_ID p) item (d, w) = (q, (d, w))"
    using item q by (simp add: resolveParentID_def is_delta_root_def RootID_def Let_def)
  let ?w2 = "on_cache (apply_move (env_now E) q item n) w"
  have c2: "fw_cache ?w2 = mutate (di_ID item)
      (\<lambda>n. let d = (DriveItem n)\<lparr>di_Name := di_Name item\<rparr> in
           n\<lparr>DriveItem := (if di_Parent item \<noteq> None then d\<lparr>di_Parent := di_Parent item\<rparr> else d)\<rparr>)
      (MoveChild (env_now E) (ParentID n) q (di_ID item) (fw_cache w))"
    using n(3) by (simp add: apply_move_def)
  have other: "Get (fw_cache (apply_modification E uploads item m v)) k = Get (fw_cache v) k" if "k \<noteq> di_ID item" for m v k
    using that by (auto simp: apply_modification_def Let_def split: prod.splits bool.splits)
  obtain m where w': "w' = apply_modification E uploads item m ?w2 \<or> w' = ?w2"
    using run del item(1) q res n(1)
    unfolding applyDelta_def Let_def item(1) [symmetric] res
    by (auto simp: is_delta_root_def split: option.splits)
  have "Get (fw_cache w') k = Get (fw_cache ?w2) k" if "k \<noteq> di_ID item" for k using w' other that by auto
  then have same: "Get (fw_cache w') k = Get (MoveChild (env_now E) (ParentID n) q (di_ID item) (fw_cache w)) k"
    if "k \<noteq> di_ID item" for k using that c2 by simp
  have "Get (fw_cache w') ''root'' = Some r"
    using item(2) q r n by (auto simp: same MoveChild_def attach_seed_def register_folder_def Let_def)
  moreover have "Get (fw_cache w') q = Some (attachChild f (di_ID item) (IsDir n) True)"
    using item(2) q n by (auto simp: same MoveChild_def attach_seed_def register_folder_def Let_def)
  moreover have "\<exists>cs. children (attachChild f (di_ID item) (IsDir n) True) = Some cs \<and> di_ID item \<in> set cs"
    by (cases "children f") (auto simp: attachChild_def Let_def)
  ultimately show ?thesis using r by blast
qed

section \<open>Loops that follow the server's pages\<close>

text \<open>
  A server whose pages end: every page that announces another one uses up some measure of what is
  still to be delivered, which the one other request of a poll does not increase.
\<close>

definition delta_ends :: "'w client \<Rightarrow> ('w \<Rightarrow> nat) \<Rightarrow> bool" where
  "delta_ends cli rank \<longleftrightarrow>
     (\<forall>link v xs nxt net. PollDelta cli link v = (Inr (xs, nxt, True), net) \<longrightarrow> rank net < rank v) \<and>
     (\<forall>v r net. GetItem cli (ItemID RootID) v = (r, net) \<longrightarrow> rank net \<le> rank v)"

lemma resolveParentID_rank:
  assumes "resolveParentID E p item (d, w) = (q, (d', w'))"
    and "delta_ends (env_cli E) rank"
  shows "rank (fw_net w') \<le> rank (fw_net w)"
  using assms by (auto simp: resolveParentID_def learn_root_def delta_ends_def Let_def split: if_splits prod.splits)

lemma applyDelta_rank:
  assumes "applyDelta E uploads delta (d, w) = (e, (d', w'))"
    and "delta_ends (env_cli E) rank"
  shows "rank (fw_net w') \<le> rank (fw_net w)"
proof -
  define item where "item = delta_DriveItem delta"
  obtain q d1 w1 where r: "resolveParentID E (case di_Parent item of None \<Rightarrow> [] | Some p \<Rightarrow> par_ID p) item (d, w) = (q, (d1, w1))"
    by (metis surj_pair)
  note run = assms(1) [unfolded applyDelta_def Let_def, folded item_def, unfolded r, simplified]
  have mod: "fw_net (apply_modification E uploads item n v) = fw_net v" for n v
    by (auto simp: apply_modification_def Let_def split: prod.splits bool.splits)
  have del: "fw_net v' = fw_net v" if "apply_deletion E q item n v = (x, v')" for n v x v'
    using that by (auto simp: apply_deletion_def Let_def split: if_splits)
  have rt: "fw_net (apply_root item v) = fw_net v" for v by (simp add: apply_root_def split: option.splits)
  have "fw_net w' = fw_net w1" using run
    by (auto simp: mod rt dest: del split: if_splits option.splits prod.splits)
  then show ?thesis using resolveParentID_rank [OF r assms(2)] by simp
qed

lemma apply_pass_rank:
  assumes "delta_ends (env_cli E) rank"
  shows "apply_pass E uploads xs (d, w) = (ys, (d', w')) \<Longrightarrow> rank (fw_net w') \<le> rank (fw_net w)"
proof (induction xs arbitrary: d w ys)
  case (Cons x xs)
  obtain e d1 w1 where a: "applyDelta E uploads x (d, w) = (e, (d1, w1))" by (metis surj_pair)
  have w1: "rank (fw_net w1) \<le> rank (fw_net w)" using applyDelta_rank [OF a assms] .
  obtain b d2 where o: "applyOrReport E uploads x (d, w) = (b, (d2, w1))"
    using a applyOrReport_world [of E uploads x "(d, w)"] by (metis prod.collapse snd_conv)
  obtain zs where "apply_pass E uploads xs (d2, w1) = (zs, (d', w'))" using Cons.prems o by (auto split: prod.splits)
  then show ?case using Cons.IH w1 le_trans by blast
qed simp

lemma applyPage_rank:
  assumes "applyPage E uploads xs pending (d, w) = (ys, (d', w'))"
    and rk: "delta_ends (env_cli E) rank"
  shows "rank (fw_net w') \<le> rank (fw_net w)"
proof -
  obtain b1 d1 w1 where p1: "apply_pass E uploads xs (d, w) = (b1, (d1, w1))" by (metis surj_pair)
  obtain b2 d2 w2 where p2: "apply_pass E uploads b1 (d1, w1) = (b2, (d2, w2))" by (metis surj_pair)
  obtain b3 d3 w3 where p3: "apply_pass E uploads pending (d2, w2) = (b3, (d3, w3))" by (metis surj_pair)
  have "w' = w3" using assms(1) p1 p2 p3 by (simp add: applyPage_def)
  then show ?thesis
    using apply_pass_rank [OF rk p1] apply_pass_rank [OF rk p2] apply_pass_rank [OF rk p3] by simp
qed

lemma poll_page_rank:
  assumes "poll_page E uploads link pending n (d, w) = Inr (l', p', n', (d', w'))"
    and rk: "delta_ends (env_cli E) rank"
  shows "rank (fw_net w') < rank (fw_net w)"
proof -
  obtain xs nxt net where p: "PollDelta (env_cli E) link (fw_net w) = (Inr (xs, nxt, True), net)"
    using assms(1) by (auto simp: poll_page_def Let_def split: prod.splits sum.splits if_splits)
  obtain ys d2 w2 where a: "applyPage E uploads xs pending (d, w\<lparr>fw_net := net\<rparr>) = (ys, (d2, w2))" by (metis surj_pair)
  have "w' = store_link E nxt w2" using assms(1) p a by (auto simp: poll_page_def Let_def)
  then show ?thesis using applyPage_rank [OF a rk] rk p by (fastforce simp: store_link_def delta_ends_def)
qed

lemma poll_pages_returns:
  assumes rk: "delta_ends (env_cli E) rank"
  shows "\<exists>y. poll_pages E uploads link pending n (d, w) = Some y"
proof (induction "rank (fw_net w)" arbitrary: link pending n d w rule: less_induct)
  case less
  show ?case
  proof (cases "poll_page E uploads link pending n (d, w)")
    case (Inl r)
    then have "poll_pages E uploads link pending n (d, w) = Some r" by (simp add: poll_pages.simps [of E])
    then show ?thesis by blast
  next
    case (Inr x)
    obtain l' p' n' d' w' where x: "x = (l', p', n', (d', w'))" by (metis surj_pair)
    have "rank (fw_net w') < rank (fw_net w)" using poll_page_rank [OF Inr [unfolded x] rk] .
    then obtain y where "poll_pages E uploads l' p' n' (d', w') = Some y" using less by blast
    then have "poll_pages E uploads link pending n (d, w) = Some y"
      using Inr x by (simp add: poll_pages.simps [of E uploads link])
    then show ?thesis by blast
  qed
qed

text \<open>
  C14: When the server's delta pages end, a poll returns: it stops at the last page or at an error,
  however the pages interleave with folder deletions that have to be tried again.
\<close>

theorem poll_terminates:
  assumes "delta_ends (env_cli E) rank"
  shows "\<exists>n link' e d' w'. pollAndApply E uploads link (d, w) = Some ((n, link', e), (d', w'))"
  using poll_pages_returns [OF assms, of uploads link "[]" 0 d w] unfolding pollAndApply_def by (metis surj_pair)

text \<open>A server with a number of pages left; it announces another page as long as there are some.\<close>

definition paged_client :: "(string \<Rightarrow> resp_body) \<Rightarrow> nat client" where
  "paged_client page = busy_client\<lparr>c_maxRetries := 0,
     c_do := (\<lambda>req n. (Inr \<lparr>rs_status = 200, rs_headers = [],
        rs_body = page (if n = 0 then [] else ''https://g/v1.0/more'')\<rparr>, rq_body req, n - 1))\<rparr>"

lemma paged_request:
  assumes "doAuthenticatedRequestWithBody (paged_client page) m url body ct extra n = (Inr resp, n')"
  shows "n' = n - 1 \<and> rs_body resp = page (if n = 0 then [] else ''https://g/v1.0/more'')"
  using assms
  by (auto simp: doAuthenticatedRequestWithBody_def paged_client_def busy_client_def client_Do_def Let_def
      RetryDoer_Do.simps [where attempt = 0] split: if_splits)

lemma paged_request_world:
  "snd (doAuthenticatedRequestWithBody (paged_client page) m url body ct extra n) \<le> n"
  by (auto simp: doAuthenticatedRequestWithBody_def paged_client_def busy_client_def client_Do_def Let_def
      RetryDoer_Do.simps [where attempt = 0])

lemma paged_delta_ends: "delta_ends (paged_client (\<lambda>nxt. DeltaPageB [] nxt ''d'')) (\<lambda>n. n)"
proof -
  let ?cli = "paged_client (\<lambda>nxt. DeltaPageB [] nxt ''d'')"
  have "n' < n" if p: "PollDelta ?cli link n = (Inr (xs, nxt, True), n')" for link n xs nxt n'
  proof -
    obtain url resp where r: "doAuthenticatedRequestWithBody ?cli ''GET'' url None [] [] n = (Inr resp, n')"
      and "(case rs_body resp of DeltaPageB vs nxt delta \<Rightarrow> nxt | _ \<Rightarrow> []) \<noteq> []"
      using p by (auto simp: PollDelta_def Let_def split: option.splits prod.splits sum.splits if_splits resp_body.splits)
    then show ?thesis using paged_request [OF r] by (cases n) auto
  qed
  moreover have "n' \<le> n" if "GetItem ?cli (ItemID RootID) n = (r, n')" for n r n'
    using that paged_request_world [of "\<lambda>nxt. DeltaPageB [] nxt ''d''"]
    by (auto simp: GetItem_def doJSONRequest_def split: option.splits prod.splits sum.splits) (metis snd_conv)+
  ultimately show ?thesis by (simp add: delta_ends_def)
qed

theorem poll_terminates_witness:
  "\<exists>n link' e d' w'. pollAndApply (ex_env\<lparr>env_cli := paged_client (\<lambda>nxt. DeltaPageB [] nxt ''d'')\<rparr>) None []
     (NewDeltaSync, ex_delta_world\<lparr>fw_net := 7\<rparr>) = Some ((n, link', e), (d', w'))"
  by (rule poll_terminates [where rank = "\<lambda>n. n"]) (simp add: paged_delta_ends)

text \<open>The same for listings.\<close>

definition listing_ends :: "'w client \<Rightarrow> ('w \<Rightarrow> nat) \<Rightarrow> bool" where
  "listing_ends cli rank \<longleftrightarrow>
     (\<forall>url v ds nxt net. fetchDriveItemPage cli url v = (Inr (ds, nxt), net) \<longrightarrow> nxt \<noteq> [] \<longrightarrow> rank net < rank v)"

lemma listDriveItems_returns:
  assumes "listing_ends cli rank"
  shows "\<exists>y. listDriveItems cli url acc v = Some y"
proof (induction "rank v" arbitrary: url acc v rule: less_induct)
  case less
  consider "url = []" | e where "url \<noteq> []" "c_done cli v = Some e"
    | e net where "url \<noteq> []" "c_done cli v = None" "fetchDriveItemPage cli url v = (Inl e, net)"
    | ds nxt net where "url \<noteq> []" "c_done cli v = None" "fetchDriveItemPage cli url v = (Inr (ds, nxt), net)"
    by (metis old.sum.exhaust option.exhaust surj_pair)
  then show ?case
  proof cases
    case (4 ds nxt net)
    define nxt' where "nxt' = (if nxt \<noteq> [] \<and> \<not> isAbsoluteURL nxt then absoluteURL cli nxt else nxt)"
    have "\<exists>y. listDriveItems cli nxt' (acc @ ds) net = Some y"
    proof (cases "nxt = []")
      case True
      then show ?thesis by (simp add: nxt'_def listDriveItems.simps [of cli])
    next
      case False
      then have "rank net < rank v" using assms 4 by (auto simp: listing_ends_def)
      then show ?thesis using less by blast
    qed
    then obtain y where y: "listDriveItems cli nxt' (acc @ ds) net = Some y" by blast
    have "listDriveItems cli url acc v =
        (case (if nxt' \<noteq> [] then validateFollowURL cli nxt' else None) of Some e \<Rightarrow> Some (Inl e, net)
          | None \<Rightarrow> listDriveItems cli nxt' (acc @ ds) net)"
      using 4 unfolding listDriveItems.simps [of cli url] Let_def nxt'_def by simp
    then show ?thesis using y by (auto split: option.splits)
  qed (simp_all add: listDriveItems.simps [of cli])
qed

lemma fetch_returns: "listing_ends cli rank \<Longrightarrow> \<exists>answer net. fetchChildrenFromGraph cli q v = Some (answer, net)"
  using listDriveItems_returns [of cli rank]
  by (auto simp: fetchChildrenFromGraph_def ListDriveRoot_def ListChildren_def split: option.splits)

lemma prefetch_returns: "listing_ends (env_cli E) rank \<Longrightarrow> \<exists>r w'. prefetch E q w = Some (r, w')"
  using fetch_returns [of "env_cli E" rank q "fw_net w"] by (auto simp: prefetch_def split: prod.splits)

lemma prewarm_loop_returns:
  assumes "listing_ends (env_cli E) rank"
  shows "\<exists>e w'. prewarm_loop E depth queue visited w = Some (e, w')"
  using assms
proof (induction E depth queue visited w rule: prewarm_loop.induct)
  case (2 E depth i level queue visited w)
  obtain r w1 where p: "prefetch E i w = Some (r, w1)" using prefetch_returns [OF "2.prems"] by blast
  then show ?case using 2 by (cases r) (auto split: option.splits)
qed simp

text \<open>
  C15: When the server's listings end, so do the operations that wait for them: reading a folder
  returns, and so does the breadth-first prefetch after mounting, for every depth and even when
  folders contain each other.
\<close>

theorem listings_terminate:
  assumes "listing_ends (env_cli E) rank"
  shows "(\<exists>r w'. fs_GetChildren E q w = Some (r, w')) \<and> (\<exists>e w'. preWarm E depth w = Some (e, w'))"
proof
  show "\<exists>r w'. fs_GetChildren E q w = Some (r, w')"
    using fetch_returns [OF assms, of q "fw_net w"] by (auto simp: fs_GetChildren_def split: prod.splits)
  show "\<exists>e w'. preWarm E depth w = Some (e, w')"
    using prewarm_loop_returns [OF assms] by (simp add: preWarm_def del: prewarm_loop.simps)
qed

theorem listings_terminate_witness:
  "\<exists>e w'. preWarm (ex_env\<lparr>env_cli := paged_client (PageB [])\<rparr>) 2 (ex_delta_world\<lparr>fw_net := 7\<rparr>) = Some (e, w')"
proof -
  let ?cli = "paged_client (PageB [])"
  have "n' < n" if p: "fetchDriveItemPage ?cli url n = (Inr (ds, nxt), n')" and ne: "nxt \<noteq> []" for url n ds nxt n'
  proof -
    obtain m b ct x resp where r: "doAuthenticatedRequestWithBody ?cli m url b ct x n = (Inr resp, n')"
      and "(case rs_body resp of PageB ds nxt \<Rightarrow> nxt | _ \<Rightarrow> []) \<noteq> []"
      using p ne by (auto simp: fetchDriveItemPage_def doJSONRequest_def decode_page_def
          split: option.splits prod.splits sum.splits if_splits resp_body.splits)
    then show ?thesis using paged_request [OF r] by (cases n) auto
  qed
  then have "listing_ends ?cli (\<lambda>n. n)" by (simp add: listing_ends_def)
  then show ?thesis
    using listings_terminate [of "ex_env\<lparr>env_cli := ?cli\<rparr>" "\<lambda>n. n" _ "ex_delta_world\<lparr>fw_net := 7\<rparr>" 2] by simp
qed

end
