(* ===== verification/Node_Props.thy ===== *)
theory Node_Props
  imports Fs_Props Inode_Cache_Props
begin

text \<open>
  The theorems about files: what \<^verbatim>\<open>Fsync\<close> hands to the upload manager, which content an open serves,
  and what a folder shows while the network is down.
\<close>

section \<open>Fsync\<close>

lemma Open_registers:
  assumes "cc_Open E i (c, s) = (Inr fd, (c1, s1))"
  shows "map_of (cc_fds c1) i = Some fd \<and> cc_directory c1 = cc_directory c"
proof (cases "map_of (cc_fds c) i")
  case None
  obtain r s2 where op: "os_open E (contentPath c i) s = (r, s2)" by fastforce
  with assms None have r: "r = Inr fd" "s2 = s1"
    by (auto simp: cc_Open_def Let_def split: sum.splits prod.splits option.splits)
  obtain q c2 where t: "trackOpenFileLocked E i (contentPath c i) fd (c\<lparr>cc_fds := AList.update i fd (cc_fds c)\<rparr>, s1) = (q, c2)"
    by fastforce
  with assms None op r have "q = None" "c1 = c2" by (auto simp: cc_Open_def Let_def split: option.splits)
  with trackOpen_frame [OF t] show ?thesis by (simp add: update_conv')
qed (use assms in \<open>auto simp: cc_Open_def\<close>)

text \<open>A snapshot is a copy of the open file under a new name.\<close>

lemma Snapshot_copy:
  assumes run: "Snapshot E i (c, s) = (Inr (p, n), (c', s'))" and ne: "n \<noteq> 0"
  shows "\<exists>fd tmp. map_of (cc_fds c') i = Some fd \<and> map_of (os_names s') p = Some tmp \<and>
    of_data (os_files s' tmp) = of_data (os_files s' fd) \<and> n = length (of_data (os_files s' fd))"
proof -
  obtain fd c1 s1 where o: "cc_Open E i (c, s) = (Inr fd, (c1, s1))"
    using run by (auto simp: Snapshot_def split: if_splits prod.splits sum.splits)
  obtain s2 where m: "os_mkdir E (snapshotsDir c1) s1 = (None, s2)"
    using run o by (auto simp: Snapshot_def split: if_splits prod.splits sum.splits option.splits)
  obtain path tmp s3 where t: "os_createtemp E (snapshotsDir c1) ''snapshot-'' s2 = (Inr (path, tmp), s3)"
    using run o m by (auto simp: Snapshot_def split: if_splits prod.splits sum.splits option.splits)
  have name: "map_of (os_names s3) path = Some tmp" "of_data (os_files s3 tmp) = []"
    using t by (auto simp: os_createtemp_def os_open_def set_data_def update_conv' Let_def split: if_splits prod.splits sum.splits option.splits)
  let ?d = "of_data (os_files s3 fd)"
  have r: "c' = c1 \<and> p = path \<and> n = length ?d \<and> s' = set_data tmp ?d (e_now E) s3"
    using run o m t ne by (auto simp: Snapshot_def Let_def split: if_splits option.splits prod.splits)
  then have "fd \<noteq> tmp" using ne name(2) by auto
  then have "of_data (os_files s' fd) = ?d" "of_data (os_files s' tmp) = ?d" "map_of (os_names s') p = Some tmp"
    using r name(1) by (simp_all add: set_data_def)
  then show ?thesis using Open_registers [OF o] r by auto
qed


text \<open>The file of the earlier example with three bytes in the cache.\<close>

definition ex_file_world :: "(bucket \<Rightarrow> (string \<times> session_json bolt_value) list, nat) fs_world" where
  "ex_file_world = ex_delta_world\<lparr>fw_os := \<lparr>os_dirs = [(''/c'', (4096, 0))], os_names = [(''/c/x'', 0)],
     os_files = (\<lambda>_. \<lparr>of_data = [1, 2, 3], of_mtime = 0\<rparr>), os_next = 1\<rparr>\<rparr>"

lemma ex_fsync_clean: "\<not> HasChanges (fst (snd (node_Fsync ex_env ex_file (ex_um ex_session, ex_file_world))))"
  by code_simp


section \<open>Opening\<close>

definition expected_hash :: "inode \<Rightarrow> string" where
  "expected_hash n = (case di_File (DriveItem n) of None \<Rightarrow> [] | Some f \<Rightarrow> QuickXorHash (Hashes f))"

text \<open>The bytes behind the descriptor of an identifier.\<close>

definition served :: "('db, 'w) fs_world \<Rightarrow> ident \<Rightarrow> bytes option" where
  "served w i = map_option (\<lambda>fd. of_data (os_files (fw_os w) fd)) (map_of (cc_fds (fw_cc w)) i)"

lemma trackFile_fds: "trackFileLocked E i (c, s) = (r, c') \<Longrightarrow> cc_fds c' = cc_fds c"
  using trackFileInfoLocked_frame by (auto simp: trackFileLocked_def Let_def split: sum.splits)

lemma InsertStream_stores:
  assumes "cc_InsertStream E i (chunks, err) (c, s) = ((k, None), (c', s'))"
  shows "err = None \<and> takes_stream E i (c, s) \<and> f_write E = None \<and>
    (\<exists>fd. map_of (cc_fds c') i = Some fd \<and> of_data (os_files s' fd) = concat chunks)"
proof -
  obtain fd c1 s1 where o: "cc_Open E i (c, s) = (Inr fd, (c1, s1))"
    using assms by (auto simp: cc_InsertStream_def split: if_splits prod.splits sum.splits)
  have closed: "\<not> cc_closed c" "f_seek E = None" "f_trunc E = None"
    using assms o by (auto simp: cc_InsertStream_def Let_def split: if_splits option.splits prod.splits)
  have wr: "f_write E = None" "err = None"
    using assms o closed by (auto simp: cc_InsertStream_def Let_def copied_def split: option.splits prod.splits)
  obtain c2 where t: "trackFileLocked E i (c1, set_data fd (concat chunks) (e_now E) s1) = (None, c2)"
      and e: "c' = maybeEvict c2" "s' = set_data fd (concat chunks) (e_now E) s1"
    using assms o closed wr by (auto simp: cc_InsertStream_def Let_def copied_def split: option.splits prod.splits)
  have "cc_fds c' = cc_fds c1" using e trackFile_fds [OF t] by (simp add: maybeEvict_def)
  then show ?thesis using Open_registers [OF o] e closed wr o by (auto simp: takes_stream_def set_data_def)
qed

lemma downloadContent_served:
  assumes "downloadContent E ahead i w = (None, w')"
  shows "\<exists>d. served w' i = Some d \<and> fst (GetItemContent (env_cli E) (ItemID i) (fw_net w)) = Inr d"
proof -
  obtain sent ge net where g: "GetItemContentStream (env_cli E) (ItemID i) (pipe_writer (env_os E) ahead i (cc_of w)) (fw_net w)
      = ((sent, ge), net)" by (metis surj_pair)
  obtain k ce c s where c: "cc_InsertStream (env_os E) i ([sent], ge) (cc_of w) = ((k, ce), (c, s))" by (metis surj_pair)
  have none: "ge = None" "ce = None"
    using assms g c by (auto simp: downloadContent_def downloadError_def split: if_splits option.splits)
  have st: "takes_stream (env_os E) i (cc_of w)" "f_write (env_os E) = None"
      "\<exists>fd. map_of (cc_fds c) i = Some fd \<and> of_data (os_files s fd) = sent"
    using InsertStream_stores [OF c [unfolded none]] by auto
  have "pipe_writer (env_os E) ahead i (cc_of w) = None" using st by (simp add: pipe_writer_def)
  then have "fst (GetItemContent (env_cli E) (ItemID i) (fw_net w)) = Inr sent" using g none by (simp add: GetItemContent_def)
  moreover have "w' = with_cc (c, s) (w\<lparr>fw_net := net\<rparr>)" using assms g c by (simp add: downloadContent_def)
  ultimately show ?thesis using st(3) by (auto simp: served_def)
qed

lemma verified_served:
  assumes "verifyCachedContent E i n (cc_of w) = (True, cs)" "map_of (cc_fds (fw_cc w)) i = Some fd"
  shows "\<exists>d. served (with_cc cs w) i = Some d \<and> (expected_hash n = [] \<or> EqualFold (SumQuickXORHash d) (expected_hash n))"
proof (cases "expected_hash n = []")
  case True
  then show ?thesis using assms by (auto simp: verifyCachedContent_def expected_hash_def served_def Let_def)
next
  case False
  obtain h where h: "SumQuickXorHash E i (cc_of w) = (Some h, cs)" "EqualFold h (expected_hash n)"
    using assms(1) False by (auto simp: verifyCachedContent_def expected_hash_def [symmetric] Let_def split: option.splits prod.splits)
  have "cs = cc_of w" "h = SumQuickXORHash (of_data (os_files (fw_os w) fd))"
    using h(1) assms(2)
    by (auto simp: SumQuickXorHash_def cc_read_def cc_Open_def SumQuickXORHash_def quickxorhash_Sum_def qx_Sum_def
        split: if_splits option.splits)
  then show ?thesis using h(2) assms(2) by (auto simp: served_def)
qed

text \<open>
  C10: A successful open of a remote file for reading serves either cached content that matches the
  server's QuickXorHash known for the file (or any cached content when no hash is known), without a
  network request, or content that a complete, verified download has just returned; partial or
  corrupted cache content is not served when a hash is known.
\<close>

theorem open_serves_verified:
  assumes run: "node_Open E ahead flags n w = (Inr fl, n', w')" and mode: "flags AND O_ACCMODE = O_RDONLY"
    and remote: "\<not> isLocalID (ID n)"
  shows "n' = n \<and> (\<exists>d. served w' (ID n) = Some d \<and>
    (fw_net w' = fw_net w \<and> (expected_hash n = [] \<or> EqualFold (SumQuickXORHash d) (expected_hash n)) \<or>
     fst (GetItemContent (env_cli E) (ItemID (ID n)) (fw_net w)) = Inr d))"
proof -
  obtain fd c s where o: "cc_Open (env_os E) (ID n) (cc_of w) = (Inr fd, (c, s))"
    using run by (auto simp: node_Open_def split: if_splits prod.splits sum.splits)
  let ?w = "with_cc (c, s) w"
  have rd: "open_for_reading E ahead n ?w = (None, w')" and n': "n' = n"
    using run mode o by (auto simp: node_Open_def Let_def split: if_splits prod.splits option.splits)
  have fd: "map_of (cc_fds (fw_cc ?w)) (ID n) = Some fd" using Open_registers [OF o] by simp
  show ?thesis
  proof (cases "hasContentOnDisk (env_os E) (ID n) (cc_of ?w)")
    case False
    then have "downloadContent E ahead (ID n) ?w = (None, w')" using rd remote by (simp add: open_for_reading_def Let_def)
    then show ?thesis using downloadContent_served n' by fastforce
  next
    case True
    obtain b cs where v: "verifyCachedContent (env_os E) (ID n) n (cc_of ?w) = (b, cs)" by (metis surj_pair)
    show ?thesis
    proof (cases b)
      case True': True
      then have "w' = with_cc cs ?w" using rd remote True v by (simp add: open_for_reading_def Let_def)
      then show ?thesis using True' v n' verified_served [of "env_os E" "ID n" n ?w cs fd] fd by auto
    next
      case False': False
      then have "downloadContent E ahead (ID n) (with_cc (snd (cc_Delete (env_os E) (ID n) cs)) ?w) = (None, w')"
        using rd remote True v by (simp add: open_for_reading_def Let_def)
      then show ?thesis using downloadContent_served n' by fastforce
    qed
  qed
qed

text \<open>A file of three bytes with its hash, cached.\<close>

definition ex_hashed :: inode where
  "ex_hashed = ex_file\<lparr>DriveItem := (DriveItem ex_file)\<lparr>di_File := Some \<lparr>Hashes = \<lparr>SHA1Hash = [],
     QuickXorHash = SumQuickXORHash [1, 2, 3]\<rparr>\<rparr>\<rparr>\<rparr>"

definition ex_open_world :: "(bucket \<Rightarrow> (string \<times> session_json bolt_value) list, nat) fs_world" where
  "ex_open_world = ex_file_world\<lparr>fw_cc := (fw_cc ex_file_world)\<lparr>cc_fds := [(''x'', 0)]\<rparr>\<rparr>"

lemma ex_hashed_simps:
  "ID ex_hashed = ''x''" "IsDir ex_hashed = False" "expected_hash ex_hashed = SumQuickXORHash [1, 2, 3]" "isLocalID ''x'' = False"
  by (simp_all add: ex_hashed_def ex_file_def ID_def IsDir_def IsFolder_def inode_of_item_def zero_item_def expected_hash_def
      isLocalID_def localIDPrefix_def)

lemma ex_open: "fst (node_Open ex_env 0 0 ex_hashed ex_open_world) = Inr FOPEN_KEEP_CACHE"
proof -
  have fd: "map_of (cc_fds (fw_cc ex_open_world)) ''x'' = Some 0" by (simp add: ex_open_world_def)
  then have o: "cc_Open (env_os ex_env) ''x'' (cc_of ex_open_world) = (Inr 0, cc_of ex_open_world)" by (simp add: cc_Open_def)
  have d: "of_data (os_files (fw_os ex_open_world) 0) = [1, 2, 3]" by (simp add: ex_open_world_def ex_file_world_def)
  have "SumQuickXorHash (env_os ex_env) ''x'' (cc_of ex_open_world) = (Some (SumQuickXORHash [1, 2, 3]), cc_of ex_open_world)"
    using fd o d by (simp add: SumQuickXorHash_def HasContent_def cc_read_def ex_env_def no_faults_def SumQuickXORHash_def
        quickxorhash_Sum_def qx_Sum_def)
  then have "verifyCachedContent (env_os ex_env) ''x'' ex_hashed (cc_of ex_open_world) = (True, cc_of ex_open_world)"
    by (simp add: verifyCachedContent_def expected_hash_def [symmetric] ex_hashed_simps EqualFold_def Let_def)
  moreover have "hasContentOnDisk (env_os ex_env) ''x'' (cc_of ex_open_world)"
    using fd d by (simp add: hasContentOnDisk_def cc_Size_def os_fstat_def file_stat_def ex_env_def no_faults_def)
  ultimately show ?thesis using o
    by (simp add: node_Open_def ex_hashed_simps O_ACCMODE_def O_RDONLY_def open_for_reading_def with_cc_def)
qed

theorem open_serves_verified_witness:
  "\<exists>n' w' d. node_Open ex_env 0 0 ex_hashed ex_open_world = (Inr FOPEN_KEEP_CACHE, n', w') \<and> served w' ''x'' = Some d \<and>
     (expected_hash ex_hashed = [] \<or> EqualFold (SumQuickXORHash d) (SumQuickXORHash [1, 2, 3]) \<or>
      fst (GetItemContent (env_cli ex_env) (ItemID ''x'') (fw_net ex_open_world)) = Inr d)"
proof -
  obtain n' w' where run: "node_Open ex_env 0 0 ex_hashed ex_open_world = (Inr FOPEN_KEEP_CACHE, n', w')"
    using ex_open by (metis fst_conv surj_pair)
  then show ?thesis
    using open_serves_verified [OF run] run by (simp add: ex_hashed_simps O_ACCMODE_def O_RDONLY_def) metis
qed

text \<open>
  A download that breaks off leaves what it transferred in the cache, and opening the file for
  writing takes any cached bytes for its content: the open succeeds without a network request and
  the application edits, and later uploads, the truncated file.
\<close>

lemma partial_download_is_edited:
  assumes transfer: "GetItemContentStream (env_cli E) (ItemID (ID n)) None (fw_net w) = ((sent, Some e), net)" "sent \<noteq> []"
    and disk: "takes_stream (env_os E) (ID n) (cc_of w)" "f_write (env_os E) = None"
    and kind: "\<not> IsDir n" "\<not> isLocalID (ID n)"
    and flags: "flags AND O_ACCMODE \<noteq> O_RDONLY" "flags AND O_TRUNC = 0"
    and env: "env_os E' = no_faults t x"
  shows "\<exists>w1 w2. downloadContent E ahead (ID n) w = (Some EIO, w1) \<and>
    node_Open E' ahead' flags n w1 = (Inr FOPEN_KEEP_CACHE, n, w2) \<and> fw_net w2 = fw_net w1 \<and> served w2 (ID n) = Some sent"
proof -
  let ?i = "ID n"
  obtain fd c1 s1 where o: "cc_Open (env_os E) ?i (cc_of w) = (Inr fd, (c1, s1))"
    using disk(1) by (auto simp: takes_stream_def split: sum.splits) (metis fst_conv prod.collapse)
  let ?s = "set_data fd sent (e_now (env_os E)) s1"
  have ins: "cc_InsertStream (env_os E) ?i ([sent], Some e) (cc_of w) = ((0, Some e), (c1, ?s))"
    using disk o by (simp add: cc_InsertStream_def takes_stream_def copied_def)
  let ?w1 = "with_cc (c1, ?s) (w\<lparr>fw_net := net\<rparr>)"
  have down: "downloadContent E ahead ?i w = (Some EIO, ?w1)"
    using transfer disk ins by (simp add: downloadContent_def pipe_writer_def downloadError_def)
  have fd: "map_of (cc_fds c1) ?i = Some fd" using Open_registers [OF o] by simp
  then have open': "cc_Open (env_os E') ?i (cc_of ?w1) = (Inr fd, cc_of ?w1)" by (simp add: cc_Open_def)
  have "hasContentOnDisk (env_os E') ?i (cc_of ?w1)"
    using fd transfer(2) env
    by (simp add: hasContentOnDisk_def cc_Size_def os_fstat_def no_faults_def file_stat_def set_data_def)
  then have "node_Open E' ahead' flags n ?w1 = (Inr FOPEN_KEEP_CACHE, n, with_cc (cc_of ?w1) ?w1)"
    using kind flags open' by (simp add: node_Open_def open_for_writing_def)
  moreover have "served (with_cc (cc_of ?w1) ?w1) ?i = Some sent" using fd by (simp add: served_def set_data_def)
  ultimately show ?thesis using down by (intro exI [of _ ?w1] exI [of _ "with_cc (cc_of ?w1) ?w1"]) simp
qed

definition broken_client :: "nat client" where
  "broken_client = busy_client\<lparr>c_do := (\<lambda>req n. (Inr (if header_get ''Range'' (rq_headers req) = []
      then \<lparr>rs_status = 200, rs_headers = [], rs_body = ItemB three_item\<rparr>
      else \<lparr>rs_status = 206, rs_headers = [(''Content-Range'', ''bytes 0-2/3'')], rs_body = ReadErrB [1, 2] (Errno ECONNRESET)\<rparr>),
      rq_body req, Suc n))\<rparr>"

definition ex_remote :: inode where
  "ex_remote = inode_of_item three_item"

section \<open>Listings\<close>

lemma stale_listing:
  assumes "Get (fw_cache w) q = Some p" "\<not> listing_fresh (env_now E) q (fw_cache w)"
    and "fetchChildrenFromGraph (env_cli E) q (fw_net w) = Some (answer, net)"
    and "children_miss (env_now E) q (Some p) (Some (fetchChildrenWithOffline answer)) True (fw_cache w) = (c, r)"
  shows "fs_GetChildren E q w = Some (r, w\<lparr>fw_cache := c, fw_net := net\<rparr>)"
  using assms by (auto simp: fs_GetChildren_def GetChildren_def getChildren_def listing_fresh_def)

lemma offline_frame [simp]:
  "offline (Store k n c) = offline c" "offline (mutate k f c) = offline c" "offline (markDirty j c) = offline c"
  "offline (registerTTL n c) = offline c" "offline (updateEvictionEntry n now c) = offline c"
  by (simp_all add: Store_def mutate_def markDirty_def markExclusive_def registerTTL_def updateEvictionEntry_def Let_def)

lemma store_items_frame:
  "store_items q mark items (c, ids, m) = (c', ids', m') \<Longrightarrow> \<forall>(k, n) \<in> set m. Name n = k \<Longrightarrow>
     offline c' = offline c \<and> (\<forall>(k, n) \<in> set m'. Name n = k)"
proof (induction items arbitrary: c ids m)
  case (Cons item items)
  define n where "n = child_inode q item"
  define c1 where "c1 = (if mark then markDirty (ID n) (Store (ID n) n c) else Store (ID n) n c)"
  have m: "\<forall>(k, x) \<in> set (AList.update (Name n) n m). Name x = k"
    using Cons.prems(2) set_update_subset [of "Name n" n m] by fastforce
  have st: "store_items q mark items (c1, ids @ [ID n], AList.update (Name n) n m) = (c', ids', m')"
    using Cons.prems(1) by (simp only: store_items.simps Let_def n_def c1_def)
  have "offline c1 = offline c" by (simp add: c1_def)
  then show ?case using Cons.IH [OF st m] by simp
qed simp

lemma children_miss_frame:
  assumes "f (c\<lparr>misses := misses c + 1\<rparr>) q = (c0, Inr items)" "children_miss now q known (Some f) mark c = (c', Inr m)"
  shows "offline c' = offline c0 \<and> (\<forall>(k, n) \<in> set m. Name n = k)"
proof -
  obtain c2 ids m' where st: "store_items q mark items (c0, [], []) = (c2, ids, m')" by (metis surj_pair)
  have "offline (update_parent now q known ids mark m' c2) = offline c2"
    by (auto simp: update_parent_def Let_def split: option.split)
  then show ?thesis using assms st store_items_frame [OF st] by (auto simp: children_miss_def Let_def)
qed

text \<open>
  C16: With the network down a folder whose listing has expired is still shown: reading it succeeds,
  shows exactly the names of the children the cache knows, and switches to offline mode.
\<close>

theorem offline_listing:
  assumes wf: "cache_wf (fw_cache w)" and p: "Get (fw_cache w) q = Some p" "children p = Some ids" "distinct ids" "q \<notin> set ids"
    and stale: "\<not> listing_fresh (env_now E) q (fw_cache w)"
    and down: "fetchChildrenFromGraph (env_cli E) q (fw_net w) = Some (Inl e, net)" "fs_isNetworkError (Some e)"
  shows "\<exists>entries w'. readdirChildren E q w = Some (Inr entries, w') \<and> IsOffline (fw_cache w') \<and>
    set (map fst entries) = {Name n |i n. i \<in> set ids \<and> Get (fw_cache w) i = Some n}"
proof -
  let ?c1 = "(fw_cache w)\<lparr>misses := misses (fw_cache w) + 1\<rparr>"
  define known where "known = List.map_filter (Get (fw_cache w)) ids"
  let ?items = "map DriveItem known"
  have kn: "known = map (\<lambda>i. the (Get (fw_cache w) i)) (filter (\<lambda>i. Get (fw_cache w) i \<noteq> None) ids)"
    by (simp add: known_def List.map_filter_def o_def)
  have "map di_ID ?items = filter (\<lambda>i. Get (fw_cache w) i \<noteq> None) ids"
    using cache_wf_ID [OF wf] by (auto simp: kn ID_def [symmetric] intro!: map_idI)
  then have items: "distinct (map di_ID ?items)" "q \<notin> di_ID ` set ?items"
    using p(3,4) by (metis distinct_filter, metis filter_is_subset list.set_map subsetD)
  have "Get ((fw_cache w)\<lparr>misses := k, offline := b\<rparr>) = Get (fw_cache w)" for k b by (rule ext) (simp add: Get_def)
  then have f: "fetchChildrenWithOffline (Inl e) ?c1 q = ((fw_cache w)\<lparr>misses := misses (fw_cache w) + 1, offline := True\<rparr>, Inr ?items)"
    using down(2) p by (simp add: fetchChildrenWithOffline_def SetOffline_def IsChildrenFetched_def Children_def known_def Let_def)
  obtain c r where miss: "children_miss (env_now E) q (Some p) (Some (fetchChildrenWithOffline (Inl e))) True (fw_cache w) = (c, r)"
    by fastforce
  obtain m where m: "r = Inr m"
      "\<And>nm. map_of m nm = map_option (child_inode q) (find (\<lambda>it. di_Name it = nm) (rev ?items))"
    using children_miss_result [OF wf p(1) [symmetric] f refl items miss] by metis
  have fr: "offline c" "\<forall>(k, n) \<in> set m. Name n = k"
    using children_miss_frame [OF f miss [unfolded m(1)]] by simp_all
  have names: "set (map fst (map (\<lambda>(_, n). (Name n, Mode n)) m)) = dom (map_of m)"
    using fr(2) by (force simp: dom_map_of_conv_image_fst)
  have "dom (map_of m) = di_Name ` set ?items"
    using m(2) by (auto simp: dom_def find_Some_iff2 find_None_iff)
  also have "\<dots> = {Name n |i n. i \<in> set ids \<and> Get (fw_cache w) i = Some n}"
    by (force simp: kn Name_def)
  finally have set_eq: "dom (map_of m) = {Name n |i n. i \<in> set ids \<and> Get (fw_cache w) i = Some n}" .
  have "fs_GetChildren E q w = Some (Inr m, w\<lparr>fw_cache := c, fw_net := net\<rparr>)"
    using stale_listing [OF p(1) stale down(1) miss] m(1) by simp
  then have "readdirChildren E q w = Some (Inr (map (\<lambda>(_, n). (Name n, Mode n)) m), w\<lparr>fw_cache := c, fw_net := net\<rparr>)"
    by (simp add: readdirChildren_def)
  then show ?thesis using trans [OF names set_eq] fr(1) unfolding IsOffline_def by (intro exI conjI) (assumption, simp, assumption)
qed

definition dead_client :: "nat client" where
  "dead_client = busy_client\<lparr>c_maxRetries := 0, c_do := (\<lambda>req n. (Inl (Errno ECONNREFUSED), rq_body req, n))\<rparr>"

lemma ex_delta_wf: "cache_wf (fw_cache ex_delta_world)"
  unfolding ex_delta_world_def
  by (simp add: cache_wf_def inodes_wf_def ring_wf_def heap_wf_def dirty_wf_def NewInodeCache_def Get_def keys_distinct_def
      evict_heap.is_heap_Nil ID_def ex_root_def ex_file_def ex_subfolder_def inode_of_item_def)

lemma ex_stale: "\<not> listing_fresh 0 ''root'' (fw_cache ex_delta_world)"
proof -
  have "effectiveTTL (60 * second) 0 \<le> 20 * (60 * second)" by (rule effectiveTTL_bounds(2)) simp_all
  then have "\<not> time_sub 0 zero_time < effectiveTTL (60 * second) 0"
    by (simp add: time_sub_def zero_time_def max_duration_def min_duration_def)
  then show ?thesis
    by (simp add: listing_fresh_def ex_delta_get isChildrenFresh_def)
       (simp add: ex_delta_world_def NewInodeCache_def ex_root_def inode_of_item_def)
qed

lemma ex_names: "Name ex_file = ''x.txt''" "Name ex_subfolder = ''F''"
  by (simp_all add: ex_file_def ex_subfolder_def Name_def inode_of_item_def)

lemma ex_children: "children ex_root = Some [''x'', ''F'']"
  by (simp add: ex_root_def)

theorem offline_listing_witness:
  "\<exists>entries w'. readdirChildren (ex_env\<lparr>env_cli := dead_client\<rparr>) ''root'' ex_delta_world = Some (Inr entries, w') \<and>
     IsOffline (fw_cache w') \<and> set (map fst entries) = {''x.txt'', ''F''}"
proof -
  let ?E = "ex_env\<lparr>env_cli := dead_client\<rparr>"
  let ?url = "client_URL dead_client (WithAction (ResourcePathByID ''root'') ''children'') ''%24top=200''"
  have page: "fetchDriveItemPage dead_client ?url 0 = (Inl (Wrap ''network error querying Graph'' (Errno ECONNREFUSED)), 0)"
    unfolding dead_client_def busy_client_def by code_simp
  have "?url \<noteq> []" unfolding dead_client_def busy_client_def by code_simp
  then have down: "fetchChildrenFromGraph (env_cli ?E) ''root'' (fw_net ex_delta_world) =
      Some (Inl (Wrap ''network error querying Graph'' (Errno ECONNREFUSED)), 0)"
    using page by (simp add: fetchChildrenFromGraph_def ListDriveRoot_def listDriveItems.simps [of dead_client]
        ex_delta_world_def ex_world_def) (simp add: dead_client_def busy_client_def)
  have names: "{Name n |i n. i \<in> set [''x'', ''F''] \<and> Get (fw_cache ex_delta_world) i = Some n} = {''x.txt'', ''F''}"
    using ex_names by (auto simp: ex_delta_get) (metis ex_delta_get(1), metis ex_delta_get(3))
  have "\<not> listing_fresh (env_now ?E) ''root'' (fw_cache ex_delta_world)" using ex_stale by (simp add: ex_env_def no_faults_def)
  moreover have "fs_isNetworkError (Some (Wrap ''network error querying Graph'' (Errno ECONNREFUSED)))" by code_simp
  ultimately show ?thesis
    using offline_listing [OF ex_delta_wf ex_delta_get(2) ex_children _ _ _ down] names by simp
qed

text \<open>
  Fetching an expired listing again replaces the cached inodes of the folder by fresh ones: a
  file with unsaved changes is no longer marked as changed, so the delta loop's guard for local
  changes does not protect it any more, and permissions set with chmod and the listings of
  subfolders are forgotten.
\<close>

lemma refetch_forgets_changes:
  assumes wf: "cache_wf (fw_cache w)" and p: "Get (fw_cache w) q = Some p"
    and stale: "\<not> listing_fresh (env_now E) q (fw_cache w)"
    and answer: "fetchChildrenFromGraph (env_cli E) q (fw_net w) = Some (Inr items, net)"
    and items: "distinct (map di_ID items)" "q \<notin> di_ID ` set items" "it \<in> set items"
  shows "\<exists>m w' n'. fs_GetChildren E q w = Some (Inr m, w') \<and> Get (fw_cache w') (di_ID it) = Some n' \<and>
    \<not> pending_work None (di_ID it) n' \<and> children n' = None \<and> mode n' = 0"
proof -
  let ?c1 = "(fw_cache w)\<lparr>misses := misses (fw_cache w) + 1\<rparr>"
  obtain b where f: "fetchChildrenWithOffline (Inr items) ?c1 q = (?c1\<lparr>offline := b\<rparr>, Inr items)"
  proof -
    have "fetchChildrenWithOffline (Inr items) ?c1 q = (?c1\<lparr>offline := offline (fst (fetchChildrenWithOffline (Inr items) ?c1 q))\<rparr>, Inr items)"
      by (auto simp: fetchChildrenWithOffline_def SetOffline_def IsOffline_def)
    then show thesis using that by blast
  qed
  obtain c r where miss: "children_miss (env_now E) q (Some p) (Some (fetchChildrenWithOffline (Inr items))) True (fw_cache w) = (c, r)"
    by fastforce
  obtain m where m: "r = Inr m" and got: "Get c (di_ID it) = Some (child_inode q it)"
    using children_miss_result [OF wf p [symmetric] f _ items(1,2) miss] items(3) by (metis (no_types, lifting) inode_cache.surjective inode_cache.update_convs)
  have fresh: "\<not> hasChanges (child_inode q it)" "children (child_inode q it) = None" "mode (child_inode q it) = 0"
    by (simp_all add: child_inode_def inode_of_item_def Let_def)
  show ?thesis using stale_listing [OF p stale answer miss] m got fresh by (auto simp: pending_work_def HasChanges_def)
qed

end
