(* ===== verification/Sign_In.thy ===== *)
theory Sign_In
  imports Account
begin

text \<open>
  The OAuth sign-in (\<^verbatim>\<open>internal/auth/flow.go\<close>): the session with its state and PKCE pair, the local
  callback server, the copy-and-paste fallback, the exchange of the code and the new account.
  \<^verbatim>\<open>url.Parse\<close>, \<^verbatim>\<open>URL.String\<close>, \<^verbatim>\<open>net.ParseIP\<close> and SHA-256 are parameters, so what is shown holds for
  every reading of a URL.  The callbacks of the local server are a list in the order in which the
  waiting \<^verbatim>\<open>select\<close> sees their outcomes; the end of the list is the timeout.
\<close>

section \<open>Session\<close>

record auth_session =
  as_state :: string
  as_verifier :: string
  as_challenge :: string

record url =
  u_Scheme :: string
  u_Host :: string
  u_Path :: string
  u_Query :: "(string \<times> string) list"

record oauth_lib =
  ol_Parse :: "string \<Rightarrow> go_error + url"
  ol_String :: "url \<Rightarrow> string"
  ol_ParseIP :: "string \<Rightarrow> bytes option"
  ol_Sum256 :: "bytes \<Rightarrow> bytes"

text \<open>\<^verbatim>\<open>base64.RawURLEncoding\<close>.\<close>

definition url_digit :: "nat \<Rightarrow> char" where
  "url_digit n = ''ABCDEFGHIJKLMNOPQRSTUVWXYZabcdefghijklmnopqrstuvwxyz0123456789-_'' ! n"

fun base64url :: "bytes \<Rightarrow> string" where
  "base64url (a # b # c # s) =
     (let n = unat a * 65536 + unat b * 256 + unat c in
      url_digit (n div 262144) # url_digit (n div 4096 mod 64) # url_digit (n div 64 mod 64)
        # url_digit (n mod 64) # base64url s)"
| "base64url [a, b] =
     (let n = unat a * 65536 + unat b * 256 in
      [url_digit (n div 262144), url_digit (n div 4096 mod 64), url_digit (n div 64 mod 64)])"
| "base64url [a] =
     (let n = unat a * 65536 in [url_digit (n div 262144), url_digit (n div 4096 mod 64)])"
| "base64url [] = []"

text \<open>\<open>rnd\<close> is what \<^verbatim>\<open>rand.Read\<close> yields for a number of bytes.\<close>

definition randomURLSafe :: "(nat \<Rightarrow> go_error + bytes) \<Rightarrow> nat \<Rightarrow> go_error + string" where
  "randomURLSafe rnd n =
     (case rnd n of Inl e \<Rightarrow> Inl (Wrap ''generating random value'' e) | Inr b \<Rightarrow> Inr (base64url b))"

definition newAuthSession ::
  "oauth_lib \<Rightarrow> (nat \<Rightarrow> go_error + bytes) \<Rightarrow> (nat \<Rightarrow> go_error + bytes) \<Rightarrow> go_error + auth_session" where
  "newAuthSession L rnd1 rnd2 =
     (case randomURLSafe rnd1 32 of
        Inl e \<Rightarrow> Inl e
      | Inr state \<Rightarrow>
          (case randomURLSafe rnd2 64 of
             Inl e \<Rightarrow> Inl e
           | Inr verifier \<Rightarrow>
               Inr \<lparr>as_state = state, as_verifier = verifier,
                    as_challenge = base64url (ol_Sum256 L (map char_byte verifier))\<rparr>))"

definition matchesState :: "auth_session \<Rightarrow> string \<Rightarrow> bool" where
  "matchesState s got \<longleftrightarrow> as_state s = got"

text \<open>\<^verbatim>\<open>Values.Get\<close>: the first value of a key.\<close>

definition query_get :: "(string \<times> string) list \<Rightarrow> string \<Rightarrow> string" where
  "query_get q k = (case map_of q k of None \<Rightarrow> [] | Some v \<Rightarrow> v)"

section \<open>Redirect addresses\<close>

text \<open>\<^verbatim>\<open>URL.Hostname\<close>: the host without a port and without the brackets of an IPv6 address.\<close>

definition valid_port :: "string \<Rightarrow> bool" where
  "valid_port p = list_all (\<lambda>c. c \<in> set ''0123456789'') p"

definition strip_port :: "string \<Rightarrow> string" where
  "strip_port host =
     (if CHR '':'' \<in> set host then
        let port = rev (takeWhile (\<lambda>c. c \<noteq> CHR '':'') (rev host))
        in if valid_port port then take (length host - length port - 1) host else host
      else host)"

definition Hostname :: "url \<Rightarrow> string" where
  "Hostname u =
     (let h = strip_port (u_Host u) in
      if HasPrefix h ''['' \<and> HasSuffix h '']'' then take (length h - 2) (drop 1 h) else h)"

text \<open>\<^verbatim>\<open>IP.IsLoopback\<close> on the sixteen bytes of an address, where an IPv4 address is mapped.\<close>

definition IsLoopback :: "bytes \<Rightarrow> bool" where
  "IsLoopback ip \<longleftrightarrow>
     (if take 12 ip = replicate 10 0 @ [0xFF, 0xFF] then take 1 (drop 12 ip) = [127]
      else ip = replicate 15 0 @ [1])"

definition requireLoopbackRedirect :: "oauth_lib \<Rightarrow> url \<Rightarrow> go_error option" where
  "requireLoopbackRedirect L u =
     (let host = Hostname u in
      if host = ''localhost'' then None
      else if (case ol_ParseIP L host of None \<Rightarrow> False | Some ip \<Rightarrow> IsLoopback ip) then None
      else Some (Plain (''redirect_uri host '' @ host @ '' is not a loopback address'')))"

definition auth_params :: "auth_config \<Rightarrow> auth_session \<Rightarrow> (string \<times> string) list" where
  "auth_params config s =
     [(''client_id'', cfg_ClientID config), (''scope'', ''user.read files.readwrite.all offline_access''),
      (''response_type'', ''code''), (''redirect_uri'', cfg_RedirectURL config), (''state'', as_state s),
      (''code_challenge'', as_challenge s), (''code_challenge_method'', ''S256'')]"

definition buildAuthURL :: "oauth_lib \<Rightarrow> auth_config \<Rightarrow> auth_session \<Rightarrow> string" where
  "buildAuthURL L config s =
     (case ol_Parse L (cfg_CodeURL config) of
        Inl _ \<Rightarrow> []
      | Inr u \<Rightarrow> ol_String L (u\<lparr>u_Query := u_Query u @ auth_params config s\<rparr>))"

section \<open>The local callback server\<close>

datatype callback_event = Callback "(string \<times> string) list" | ServeFailed go_error

text \<open>The page shown in the browser and what the handler sends to the waiting goroutine.\<close>

datatype callback_outcome = Discarded | Failed go_error | GotCode string

definition handle_callback :: "auth_session \<Rightarrow> (string \<times> string) list \<Rightarrow> callback_outcome" where
  "handle_callback s q =
     (let code = query_get q ''code''; errorDesc = query_get q ''error_description'' in
      if \<not> matchesState s (query_get q ''state'') then Discarded
      else if errorDesc \<noteq> [] then Failed (Plain (''microsoft returned error: '' @ errorDesc))
      else if code = [] then Failed (Plain ''authorization code not received in callback'')
      else GotCode code)"

fun await_code :: "auth_session \<Rightarrow> callback_event list \<Rightarrow> go_error + string" where
  "await_code s [] = Inl (Plain ''timeout waiting for authorization (2 minutes)'')"
| "await_code s (ServeFailed e # evs) = Inl (Wrap ''local callback server failed'' e)"
| "await_code s (Callback q # evs) =
     (case handle_callback s q of
        Discarded \<Rightarrow> await_code s evs
      | Failed e \<Rightarrow> Inl e
      | GotCode code \<Rightarrow> Inr code)"

text \<open>
  The address the server listens on, with the result; \<open>listen\<close> is the failure of \<^verbatim>\<open>net.Listen\<close> on an
  address.
\<close>

definition getAuthCodeLocalServer ::
  "oauth_lib \<Rightarrow> (string \<Rightarrow> go_error option) \<Rightarrow> callback_event list \<Rightarrow> auth_config \<Rightarrow> auth_session
     \<Rightarrow> string option \<times> (go_error + string)" where
  "getAuthCodeLocalServer L listen events config s =
     (case ol_Parse L (cfg_RedirectURL config) of
        Inl e \<Rightarrow> (None, Inl (Wrap ''invalid redirect_uri'' e))
      | Inr u \<Rightarrow>
          let u = (if u_Host u = [] then u\<lparr>u_Host := ''localhost:9090''\<rparr> else u) in
          (case requireLoopbackRedirect L u of
             Some e \<Rightarrow> (None, Inl e)
           | None \<Rightarrow>
               (case listen (u_Host u) of
                  Some e \<Rightarrow> (None, Inl (Wrap ''could not start local server'' e))
                | None \<Rightarrow> (Some (u_Host u), await_code s events))))"

section \<open>Copy and paste\<close>

definition validatePastedRedirect :: "oauth_lib \<Rightarrow> url \<Rightarrow> string \<Rightarrow> go_error option" where
  "validatePastedRedirect L pasted redirectURL =
     (case ol_Parse L redirectURL of
        Inl e \<Rightarrow> Some (Wrap ''invalid redirect_uri'' e)
      | Inr expected \<Rightarrow>
          if \<not> EqualFold (u_Scheme pasted) (u_Scheme expected) \<or> \<not> EqualFold (u_Host pasted) (u_Host expected) \<or>
             TrimSuffix (u_Path pasted) ''/'' \<noteq> TrimSuffix (u_Path expected) ''/''
          then Some (Plain (''pasted URL does not match the expected redirect '' @ redirectURL)) else None)"

text \<open>\<open>input\<close> is the line that was typed, or the error of the scanner.\<close>

definition getAuthCodeHeadless ::
  "oauth_lib \<Rightarrow> auth_config \<Rightarrow> auth_session \<Rightarrow> go_error + string \<Rightarrow> go_error + string" where
  "getAuthCodeHeadless L config s input =
     (case input of
        Inl e \<Rightarrow> Inl (Wrap ''error reading input'' e)
      | Inr line \<Rightarrow>
          (case ol_Parse L (TrimSpace line) of
             Inl e \<Rightarrow> Inl (Wrap ''invalid URL'' e)
           | Inr parsed \<Rightarrow>
               (case validatePastedRedirect L parsed (cfg_RedirectURL config) of
                  Some e \<Rightarrow> Inl e
                | None \<Rightarrow>
                    if \<not> matchesState s (query_get (u_Query parsed) ''state'')
                    then Inl (Plain ''state parameter does not match this login attempt'')
                    else let code = query_get (u_Query parsed) ''code'' in
                         if code = [] then Inl (Plain ''code parameter not found in URL'') else Inr code)))"

section \<open>Exchange of the code\<close>

definition code_form :: "auth_config \<Rightarrow> string \<Rightarrow> string \<Rightarrow> (string \<times> string) list" where
  "code_form config code codeVerifier =
     [(''client_id'', cfg_ClientID config), (''redirect_uri'', cfg_RedirectURL config), (''code'', code),
      (''grant_type'', ''authorization_code'')]
     @ (if codeVerifier \<noteq> [] then [(''code_verifier'', codeVerifier)] else [])"

text \<open>The answer of the token endpoint: the tokens and their lifetime.\<close>

definition code_answer :: "token_response \<Rightarrow> go_error + string \<times> string \<times> int" where
  "code_answer resp =
     (case tr_body resp of
        TokReadErr e \<Rightarrow> Inl (Wrap ''error reading response'' e)
      | TokRaw s \<Rightarrow>
          if tr_status resp \<noteq> 200
          then let b = TrimSpace s; b = (if length b > 200 then take 200 b @ ''...'' else b)
               in Inl (Plain (''microsoft rejected the code, non-JSON response: '' @ b))
          else Inl (Wrap ''error parsing tokens'' (Plain ''invalid character''))
      | TokJSON f \<Rightarrow>
          if tr_status resp \<noteq> 200 then Inl (Plain (''microsoft rejected the code: '' @ tf_error_description f))
          else if tf_access_token f = [] \<or> tf_refresh_token f = []
            then Inl (Plain ''response does not contain the expected tokens'')
          else Inr (tf_access_token f, tf_refresh_token f, tf_expires_in f))"

definition exchangeCodeForTokens ::
  "('k, 'w) auth_env \<Rightarrow> auth_config \<Rightarrow> string \<Rightarrow> string \<Rightarrow> 'w \<Rightarrow> (go_error + string \<times> string \<times> int) \<times> 'w" where
  "exchangeCodeForTokens E config code codeVerifier w =
     (if list_ex is_control (cfg_TokenURL config) then (Inl (Wrap ''error creating token request'' (Plain ''invalid URL'')), w)
      else case ae_do E \<lparr>tq_url = cfg_TokenURL config, tq_form = code_form config code codeVerifier\<rparr> w of
             (Inl e, w) \<Rightarrow> (Inl (Wrap ''network error obtaining tokens'' e), w)
           | (Inr resp, w) \<Rightarrow> (code_answer resp, w))"

section \<open>A new account\<close>

text \<open>What the user and the browser do during one sign-in.\<close>

record sign_in_inputs =
  si_rnd_state :: "nat \<Rightarrow> go_error + bytes"
  si_rnd_verifier :: "nat \<Rightarrow> go_error + bytes"
  si_listen :: "string \<Rightarrow> go_error option"
  si_events :: "callback_event list"
  si_line :: "go_error + string"

definition obtain_code :: "oauth_lib \<Rightarrow> sign_in_inputs \<Rightarrow> auth_config \<Rightarrow> auth_session \<Rightarrow> go_error + string" where
  "obtain_code L inp config s =
     (case snd (getAuthCodeLocalServer L (si_listen inp) (si_events inp) config s) of
        Inr code \<Rightarrow> Inr code
      | Inl _ \<Rightarrow> getAuthCodeHeadless L config s (si_line inp))"

definition static_token :: "string \<Rightarrow> 'w client \<Rightarrow> 'w client" where
  "static_token token cli = cli\<lparr>c_token := (\<lambda>w. (Inr token, w))\<rparr>"

definition zero_mount :: persisted_config where
  "zero_mount =
     \<lparr>pc_DefaultMountpoint = [], pc_CacheDir = [], pc_CacheTTL = 0, pc_CacheMaxEntries = 0, pc_CacheMaxSize = 0,
      pc_DeltaInterval = 0, pc_MaxUploadsInFlight = 0, pc_MaxUploadRetries = 0, pc_HTTPTimeout = 0, pc_GraphRetries = 0,
      pc_PreWarmDepth = None\<rparr>"

text \<open>Steps 3 to 6, with the tokens: the profile, the structure, the save and the registration.\<close>

definition register_account ::
  "('k, 'w) auth_env \<Rightarrow> 'w client \<Rightarrow> auth_config \<Rightarrow> string \<times> string \<times> int \<Rightarrow> manager \<times> ('k, 'w) auth_world
     \<Rightarrow> (go_error + account) \<times> manager \<times> ('k, 'w) auth_world" where
  "register_account E cli config tokens = (\<lambda>(m, w).
     let (accessToken, refreshToken, expiresIn) = tokens in
     case GetUser (static_token accessToken cli) (aw_net w) of
       (Inl e, net) \<Rightarrow> (Inl (Wrap ''failed obtaining user profile from Graph'' e), (m, w\<lparr>aw_net := net\<rparr>))
     | (Inr user, net) \<Rightarrow>
         let acc = \<lparr>acc_keyring = True, acc_Name = usr_Name user, acc_Config = config, acc_Mount = zero_mount,
                    acc_ExpiresAt = int64_add (time_unix (ae_now E net)) expiresIn, acc_AccessToken = accessToken,
                    acc_RefreshToken = refreshToken, acc_tokenFilePath = getAccountFilePath m (usr_Name user),
                    acc_lastKeyringErr = None\<rparr>
         in case saveUnsafe E (acc, w\<lparr>aw_net := net\<rparr>) of
              (Some e, (_, w)) \<Rightarrow> (Inl (Wrap ''failed saving the new account'' e), (m, w))
            | (None, (acc, w)) \<Rightarrow> (Inr acc, (m\<lparr>m_accounts := AList.update (acc_Name acc) acc (m_accounts m)\<rparr>, w)))"

definition AddAccount ::
  "('k, 'w) auth_env \<Rightarrow> oauth_lib \<Rightarrow> 'w client \<Rightarrow> sign_in_inputs \<Rightarrow> auth_config \<Rightarrow> manager \<times> ('k, 'w) auth_world
     \<Rightarrow> (go_error + account) \<times> manager \<times> ('k, 'w) auth_world" where
  "AddAccount E L cli inp config = (\<lambda>(m, w).
     case ApplyDefaults E config of
       (Some e, _) \<Rightarrow> (Inl (Wrap ''Error applying default values'' e), (m, w))
     | (None, config) \<Rightarrow>
         (case newAuthSession L (si_rnd_state inp) (si_rnd_verifier inp) of
            Inl e \<Rightarrow> (Inl (Wrap ''failed preparing the authentication session'' e), (m, w))
          | Inr session \<Rightarrow>
              (case obtain_code L inp config session of
                 Inl e \<Rightarrow> (Inl (Wrap ''failed obtaining code'' e), (m, w))
               | Inr code \<Rightarrow>
                   (case exchangeCodeForTokens E config code (as_verifier session) (aw_net w) of
                      (Inl e, net) \<Rightarrow> (Inl (Wrap ''failed exchanging code'' e), (m, w\<lparr>aw_net := net\<rparr>))
                    | (Inr tokens, net) \<Rightarrow> register_account E cli config tokens (m, w\<lparr>aw_net := net\<rparr>)))))"

end
