(* ===== verification/Auth_Props.thy ===== *)
theory Auth_Props
  imports Sign_In
begin

text \<open>
  Properties of the accounts and of the sign-in: who can finish a sign-in, what a renewal does to the
  tokens, and what survives a restart.
\<close>

section \<open>Files of the configuration directory\<close>

lemma map_runes_chars: "set (map_runes s) \<subseteq> {c. file_char c}"
proof (induction s rule: map_runes.induct)
  case (1 s)
  show ?case
  proof (cases s)
    case (Cons c r)
    have "file_char (CHR ''_'')" by (simp add: file_char_def)
    then show ?thesis using 1 [of c r] Cons by (subst map_runes.simps) auto
  qed (simp add: map_runes.simps)
qed

lemma sanitized_plain: "plain_comp (sanitizeFileName x @ ''.json'')"
proof -
  have "slash \<notin> set (sanitizeFileName x)" using map_runes_chars by (auto simp: sanitizeFileName_def file_char_def slash_def)
  moreover have "length (sanitizeFileName x @ ''.json'') > 2" by simp
  then have "sanitizeFileName x @ ''.json'' \<noteq> dot" "sanitizeFileName x @ ''.json'' \<noteq> dotdot"
    by (auto simp: dot_def dotdot_def)
  ultimately show ?thesis by (simp add: plain_comp_def slash_def)
qed

definition config_dir :: "string \<Rightarrow> bool" where
  "config_dir d \<longleftrightarrow> is_abs d \<and> Clean d \<noteq> [slash]"

lemma Clean_file:
  assumes d: "config_dir d" and n: "plain_comp n"
  shows "Clean (d @ slash # n) = Clean d @ slash # n" "Join d n = Clean d @ slash # n"
proof -
  have out: "clean_comps False [] (split_path n) = [n]"
    using n by (simp add: plain_comp_def split_path_id)
  then have "dotdot \<notin> set (clean_comps False [] (split_path n))" using n by (auto simp: plain_comp_def)
  from Join_local(1) [OF _ this, of d] show j: "Join d n = Clean d @ slash # n"
    using d out by (simp add: config_dir_def)
  have "d \<noteq> []" using d by (auto simp: config_dir_def is_abs_def)
  then show "Clean (d @ slash # n) = Clean d @ slash # n" using j by (simp add: Join_def)
qed

lemma file_dir_name:
  assumes d: "config_dir d" and n: "plain_comp n"
  shows "parent_dir (Clean d @ slash # n) = Clean d" "base_name (Clean d @ slash # n) = n"
proof -
  have split: "split_path (Clean d @ slash # n) = split_path (Clean d) @ [n]"
    using n by (simp add: split_path_append split_path_id plain_comp_def)
  have "join_path (split_path s) = s" for s
  proof (induction s)
    case (Cons c s)
    obtain p ps where "split_path s = p # ps" by (cases "split_path s") auto
    then show ?case using Cons by (cases ps) auto
  qed simp
  moreover have "Clean d \<noteq> []" using d by (simp add: config_dir_def Clean_def Let_def)
  ultimately show "parent_dir (Clean d @ slash # n) = Clean d" by (simp add: parent_dir_def split)
  show "base_name (Clean d @ slash # n) = n" by (simp add: base_name_def split)
qed

lemma account_path:
  assumes "config_dir (m_configDir m)"
  shows "Clean (getAccountFilePath m x) = Clean (m_configDir m) @ slash # (sanitizeFileName x @ ''.json'')"
  using Clean_file(1) [OF assms sanitized_plain [of x]] by (simp add: getAccountFilePath_def slash_def)

section \<open>The contract of the keyring and of the merge\<close>

text \<open>A working keyring: what was set is read back and other entries stay.\<close>

definition keyring_works :: "'k keyring_ops \<Rightarrow> bool" where
  "keyring_works K \<longleftrightarrow>
     (\<forall>s u p k. \<exists>k'. kr_Set K s u p k = (None, k') \<and> kr_Get K s u k' = Inr p \<and>
        (\<forall>s' u'. (s', u') \<noteq> (s, u) \<longrightarrow> kr_Get K s' u' k' = kr_Get K s' u' k))"

text \<open>\<^verbatim>\<open>mergo.Merge\<close> fills the empty fields of the destination.\<close>

definition fill :: "string \<Rightarrow> string \<Rightarrow> string" where
  "fill dst src = (if dst = [] then src else dst)"

definition merge_fills :: "('k, 'w) auth_env \<Rightarrow> bool" where
  "merge_fills E \<longleftrightarrow>
     (\<forall>d s. ae_merge E d s =
        (None, \<lparr>cfg_ClientID = fill (cfg_ClientID d) (cfg_ClientID s), cfg_CodeURL = fill (cfg_CodeURL d) (cfg_CodeURL s),
                cfg_TokenURL = fill (cfg_TokenURL d) (cfg_TokenURL s), cfg_RedirectURL = fill (cfg_RedirectURL d) (cfg_RedirectURL s)\<rparr>))"

lemma ApplyDefaults_idem:
  assumes "merge_fills E" "merge_fills E'"
  shows "ApplyDefaults E' (snd (ApplyDefaults E c)) = (None, snd (ApplyDefaults E c))"
  using assms by (cases c) (simp add: ApplyDefaults_def merge_fills_def fill_def authDefaults_def)

lemma keyringKeys_distinct: "fst (keyringKeys x) \<noteq> snd (keyringKeys x)"
proof
  assume "fst (keyringKeys x) = snd (keyringKeys x)"
  then have "length (fst (keyringKeys x)) = length (snd (keyringKeys x))" by simp
  then show False by (simp add: keyringKeys_def)
qed

text \<open>Saving with a working keyring: the two tokens are in the keyring, the rest is in the file.\<close>

lemma kr_set_works:
  assumes "keyring_works (ae_keyring E)"
  obtains k where "kr_set E u p w = (None, w\<lparr>aw_keyring := k\<rparr>)" "kr_get E u (w\<lparr>aw_keyring := k\<rparr>) = Inr p"
    "\<And>v. v \<noteq> u \<Longrightarrow> kr_get E v (w\<lparr>aw_keyring := k\<rparr>) = kr_get E v w"
proof -
  obtain k where k: "kr_Set (ae_keyring E) ''onecloudriver'' u p (aw_keyring w) = (None, k)"
    "kr_Get (ae_keyring E) ''onecloudriver'' u k = Inr p"
    "\<And>s' u'. (s', u') \<noteq> (''onecloudriver'', u) \<Longrightarrow>
       kr_Get (ae_keyring E) s' u' k = kr_Get (ae_keyring E) s' u' (aw_keyring w)"
    using assms unfolding keyring_works_def by meson
  show thesis by (rule that [of k]) (simp_all add: kr_set_def kr_get_def k)
qed

lemma save_tokens_works:
  assumes K: "keyring_works (ae_keyring E)" and a: "acc_keyring a" "acc_RefreshToken a \<noteq> []" "acc_AccessToken a \<noteq> []"
  obtains k where "save_access E (save_refresh E (a, w)) = (a\<lparr>acc_lastKeyringErr := None\<rparr>, w\<lparr>aw_keyring := k\<rparr>)"
    "kr_get E (fst (keyringKeys (acc_Name a))) (w\<lparr>aw_keyring := k\<rparr>) = Inr (acc_RefreshToken a)"
    "kr_get E (snd (keyringKeys (acc_Name a))) (w\<lparr>aw_keyring := k\<rparr>) = Inr (acc_AccessToken a)"
proof -
  obtain k1 where 1: "kr_set E (fst (keyringKeys (acc_Name a))) (acc_RefreshToken a) w = (None, w\<lparr>aw_keyring := k1\<rparr>)"
    "kr_get E (fst (keyringKeys (acc_Name a))) (w\<lparr>aw_keyring := k1\<rparr>) = Inr (acc_RefreshToken a)"
    using kr_set_works [OF K] by metis
  obtain k2 where 2: "kr_set E (snd (keyringKeys (acc_Name a))) (acc_AccessToken a) (w\<lparr>aw_keyring := k1\<rparr>) =
      (None, w\<lparr>aw_keyring := k1\<rparr>\<lparr>aw_keyring := k2\<rparr>)"
    "kr_get E (snd (keyringKeys (acc_Name a))) (w\<lparr>aw_keyring := k1\<rparr>\<lparr>aw_keyring := k2\<rparr>) = Inr (acc_AccessToken a)"
    "\<And>v. v \<noteq> snd (keyringKeys (acc_Name a)) \<Longrightarrow>
       kr_get E v (w\<lparr>aw_keyring := k1\<rparr>\<lparr>aw_keyring := k2\<rparr>) = kr_get E v (w\<lparr>aw_keyring := k1\<rparr>)"
    using kr_set_works [OF K] by metis
  show thesis
  proof (rule that)
    show "save_access E (save_refresh E (a, w)) = (a\<lparr>acc_lastKeyringErr := None\<rparr>, w\<lparr>aw_keyring := k2\<rparr>)"
      using a 1(1) 2(1) by (simp add: save_access_def save_refresh_def)
    show "kr_get E (fst (keyringKeys (acc_Name a))) (w\<lparr>aw_keyring := k2\<rparr>) = Inr (acc_RefreshToken a)"
      using 1(2) 2(3) [OF keyringKeys_distinct] by simp
    show "kr_get E (snd (keyringKeys (acc_Name a))) (w\<lparr>aw_keyring := k2\<rparr>) = Inr (acc_AccessToken a)"
      using 2(2) by simp
  qed
qed

lemma save_works:
  assumes K: "keyring_works (ae_keyring E)" and a: "acc_keyring a" "acc_RefreshToken a \<noteq> []" "acc_AccessToken a \<noteq> []"
    and run: "saveUnsafe E (a, w) = (None, (a', w'))"
  shows "a' = a\<lparr>acc_lastKeyringErr := None\<rparr>" "aw_net w' = aw_net w"
    "kr_get E (fst (keyringKeys (acc_Name a))) w' = Inr (acc_RefreshToken a)"
    "kr_get E (snd (keyringKeys (acc_Name a))) w' = Inr (acc_AccessToken a)"
    "aw_files w' = AList.update (Clean (acc_tokenFilePath a)) (AccountJSON (toJSON a)) (aw_files w)"
    "map_of (aw_files w) (Clean (acc_tokenFilePath a)) \<noteq> Some Directory"
proof -
  obtain k where k: "save_access E (save_refresh E (a\<lparr>acc_lastKeyringErr := None\<rparr>, w)) =
      (a\<lparr>acc_lastKeyringErr := None\<rparr>, w\<lparr>aw_keyring := k\<rparr>)"
    "kr_get E (fst (keyringKeys (acc_Name a))) (w\<lparr>aw_keyring := k\<rparr>) = Inr (acc_RefreshToken a)"
    "kr_get E (snd (keyringKeys (acc_Name a))) (w\<lparr>aw_keyring := k\<rparr>) = Inr (acc_AccessToken a)"
    using save_tokens_works [OF K, of "a\<lparr>acc_lastKeyringErr := None\<rparr>" w] a by auto
  have j: "toJSON (a\<lparr>acc_lastKeyringErr := None\<rparr>) = toJSON a" by (simp add: toJSON_def)
  note parts = run k j
  show "a' = a\<lparr>acc_lastKeyringErr := None\<rparr>" "aw_net w' = aw_net w"
    "kr_get E (fst (keyringKeys (acc_Name a))) w' = Inr (acc_RefreshToken a)"
    "kr_get E (snd (keyringKeys (acc_Name a))) w' = Inr (acc_AccessToken a)"
    "aw_files w' = AList.update (Clean (acc_tokenFilePath a)) (AccountJSON (toJSON a)) (aw_files w)"
    "map_of (aw_files w) (Clean (acc_tokenFilePath a)) \<noteq> Some Directory"
    using parts by (auto simp: saveUnsafe_def write_file_def kr_get_def split: option.splits prod.splits if_splits)
qed

section \<open>Loading\<close>

lemma configDir_load [simp]: "m_configDir (fold (load_account E w) es m) = m_configDir m"
proof (induction es arbitrary: m)
  case (Cons e es)
  have "m_configDir (load_account E w e m) = m_configDir m"
    by (cases e) (simp add: load_account_def Let_def split: account_file.split)
  then show ?case using Cons by simp
qed simp

text \<open>What a loaded manager knows of a name comes from the last file that has it.\<close>

lemma load_account_other:
  "(\<And>j. snd e = AccountJSON j \<Longrightarrow> aj_Name j \<noteq> x) \<Longrightarrow>
   map_of (m_accounts (load_account E w e m)) x = map_of (m_accounts m) x"
  by (cases e) (auto simp: load_account_def Let_def alist_simps split: account_file.split)

lemma load_others:
  "(\<And>e j. e \<in> set es \<Longrightarrow> snd e = AccountJSON j \<Longrightarrow> aj_Name j \<noteq> x) \<Longrightarrow>
   map_of (m_accounts (fold (load_account E w) es m)) x = map_of (m_accounts m) x"
proof (induction es arbitrary: m)
  case (Cons e es)
  then have "map_of (m_accounts (fold (load_account E w) es (load_account E w e m))) x =
      map_of (m_accounts (load_account E w e m)) x"
    by (intro Cons.IH) auto
  moreover have "map_of (m_accounts (load_account E w e m)) x = map_of (m_accounts m) x"
    by (rule load_account_other) (rule Cons.prems [of e], simp)
  ultimately show ?case by simp
qed simp

lemma load_found:
  assumes e: "(n, AccountJSON j) \<in> set es" "HasSuffix n ''.json''" "\<And>p. ae_read E p = None" "aj_Name j = x"
    and only: "\<And>e' j'. e' \<in> set es \<Longrightarrow> snd e' = AccountJSON j' \<Longrightarrow> aj_Name j' = x \<Longrightarrow> e' = (n, AccountJSON j)"
  shows "map_of (m_accounts (fold (load_account E w) es m)) x = Some (loaded_account E w (Join (m_configDir m) n) j)"
proof -
  obtain es1 es2 where es: "es = es1 @ (n, AccountJSON j) # es2" "(n, AccountJSON j) \<notin> set es2"
    using split_list_last [OF e(1)] by blast
  let ?m1 = "fold (load_account E w) es1 m"
  have "map_of (m_accounts (fold (load_account E w) es2 (load_account E w (n, AccountJSON j) ?m1))) x =
      map_of (m_accounts (load_account E w (n, AccountJSON j) ?m1)) x"
    using only es by (intro load_others) auto
  also have "\<dots> = Some (loaded_account E w (Join (m_configDir m) n) j)"
  proof -
    have "m_configDir ?m1 = m_configDir m" by simp
    then show ?thesis using e unfolding load_account_def [of E w] by (simp add: Let_def alist_simps del: configDir_load)
  qed
  finally show ?thesis by (simp add: es)
qed

lemma dir_entries_iff:
  "(n, f) \<in> set (dir_entries d w) \<longleftrightarrow> (\<exists>p. (p, f) \<in> set (aw_files w) \<and> parent_dir p = Clean d \<and> n = base_name p)"
  by (force simp: dir_entries_def)

lemma dir_entries_file:
  "e \<in> set (dir_entries d w) \<Longrightarrow> snd e = f \<Longrightarrow> \<exists>p. (p, f) \<in> set (aw_files w) \<and> fst e = base_name p"
  by (force simp: dir_entries_def)

lemma HasSuffix_json: "HasSuffix (s @ ''.json'') ''.json''"
  by (rule HasSuffix_append)

text \<open>After a restart: the account in the file of its name, when no other file has that name.\<close>

lemma restart_finds:
  assumes d: "config_dir d" and wf: "keys_distinct (aw_files w)"
    and mgr: "NewManagerWithDeps E d w = (None, Some m)" and rd: "\<And>p. ae_read E p = None"
    and j: "map_of (aw_files w) (Clean d @ slash # (s @ ''.json'')) = Some (AccountJSON j)" "plain_comp (s @ ''.json'')"
    and only: "\<And>p j'. map_of (aw_files w) p = Some (AccountJSON j') \<Longrightarrow> aj_Name j' = aj_Name j \<Longrightarrow>
        p = Clean d @ slash # (s @ ''.json'')"
  shows "GetAccount (aj_Name j) m = Inr (loaded_account E w (Clean d @ slash # (s @ ''.json'')) j)"
proof -
  let ?p = "Clean d @ slash # (s @ ''.json'')"
  have m: "m = fold (load_account E w) (dir_entries d w) \<lparr>m_configDir = d, m_accounts = []\<rparr>"
    using mgr by (auto simp: NewManagerWithDeps_def loadAccounts_def split: option.splits prod.splits)
  have "(s @ ''.json'', AccountJSON j) \<in> set (dir_entries d w)"
    using j file_dir_name [OF d j(2)] wf by (auto simp: dir_entries_iff in_set_alist_iff intro!: exI [of _ ?p])
  moreover have "e' = (s @ ''.json'', AccountJSON j)"
    if e': "e' \<in> set (dir_entries d w)" "snd e' = AccountJSON j'" "aj_Name j' = aj_Name j" for e' j'
  proof -
    obtain p where p: "(p, AccountJSON j') \<in> set (aw_files w)" "fst e' = base_name p"
      using dir_entries_file [OF e'(1,2)] by blast
    then have lk: "map_of (aw_files w) p = Some (AccountJSON j')" using wf by (simp add: in_set_alist_iff)
    then have "p = ?p" using only e'(3) by blast
    then show ?thesis using p(2) e'(2) lk j(1) file_dir_name(2) [OF d j(2)] by (cases e') auto
  qed
  ultimately have "map_of (m_accounts (fold (load_account E w) (dir_entries d w) \<lparr>m_configDir = d, m_accounts = []\<rparr>)) (aj_Name j) =
      Some (loaded_account E w (Join (m_configDir \<lparr>m_configDir = d, m_accounts = []\<rparr>) (s @ ''.json'')) j)"
    by (intro load_found rd HasSuffix_json refl) blast
  then have "map_of (m_accounts m) (aj_Name j) = Some (loaded_account E w (Join d (s @ ''.json'')) j)" unfolding m by simp
  then show ?thesis using Clean_file(2) [OF d j(2)] by (simp add: GetAccount_def)
qed

lemma restart_misses:
  assumes wf: "keys_distinct (aw_files w)" and mgr: "NewManagerWithDeps E d w = (None, Some m)"
    and none: "\<And>p j. map_of (aw_files w) p = Some (AccountJSON j) \<Longrightarrow> aj_Name j \<noteq> x"
  shows "map_of (m_accounts m) x = None"
proof -
  have m: "m = fold (load_account E w) (dir_entries d w) \<lparr>m_configDir = d, m_accounts = []\<rparr>"
    using mgr by (auto simp: NewManagerWithDeps_def loadAccounts_def split: option.splits prod.splits)
  have "aj_Name j \<noteq> x" if "e \<in> set (dir_entries d w)" "snd e = AccountJSON j" for e j
    using dir_entries_file [OF that] none in_set_alist_iff [OF wf] by blast
  then show ?thesis unfolding m by (subst load_others) auto
qed

section \<open>Sign-in\<close>

text \<open>A callback that carries the state of the session; failures of the server are no callbacks.\<close>

fun genuine :: "auth_session \<Rightarrow> callback_event \<Rightarrow> bool" where
  "genuine s (Callback q) = matchesState s (query_get q ''state'')"
| "genuine s (ServeFailed e) = True"

lemma await_code_genuine: "await_code s (filter (genuine s) evs) = await_code s evs"
  by (induction s evs rule: await_code.induct) (auto simp: handle_callback_def Let_def)

lemma await_code_state:
  "await_code s evs = Inr code \<Longrightarrow>
   \<exists>q. Callback q \<in> set evs \<and> query_get q ''state'' = as_state s \<and> query_get q ''code'' = code \<and> code \<noteq> []"
proof (induction s evs rule: await_code.induct)
  case (3 s q evs)
  then show ?case
    by (cases "handle_callback s q") (auto simp: handle_callback_def matchesState_def Let_def split: if_splits)
qed auto

lemma local_server_genuine:
  "getAuthCodeLocalServer L listen (filter (genuine s) evs) config s = getAuthCodeLocalServer L listen evs config s"
  by (simp add: getAuthCodeLocalServer_def await_code_genuine Let_def split: sum.split option.split)

text \<open>The query of the URL that the user pasted, when it is the redirect address.\<close>

definition pasted_query :: "oauth_lib \<Rightarrow> sign_in_inputs \<Rightarrow> auth_config \<Rightarrow> (string \<times> string) list \<Rightarrow> bool" where
  "pasted_query L inp config q \<longleftrightarrow>
     (\<exists>line u. si_line inp = Inr line \<and> ol_Parse L (TrimSpace line) = Inr u \<and>
        validatePastedRedirect L u (cfg_RedirectURL config) = None \<and> q = u_Query u)"

lemma obtain_code_state:
  assumes "obtain_code L inp config s = Inr code"
  shows "\<exists>q. (Callback q \<in> set (si_events inp) \<or> pasted_query L inp config q) \<and>
    query_get q ''state'' = as_state s \<and> query_get q ''code'' = code \<and> code \<noteq> []"
proof (cases "snd (getAuthCodeLocalServer L (si_listen inp) (si_events inp) config s)")
  case (Inl e)
  then have "getAuthCodeHeadless L config s (si_line inp) = Inr code" using assms by (simp add: obtain_code_def)
  then show ?thesis
    by (auto simp: getAuthCodeHeadless_def pasted_query_def matchesState_def Let_def split: sum.splits option.splits if_splits)
next
  case (Inr c)
  then have "await_code s (si_events inp) = Inr code"
    using assms by (auto simp: obtain_code_def getAuthCodeLocalServer_def Let_def split: sum.splits option.splits)
  then show ?thesis using await_code_state by blast
qed

lemma saveUnsafe_account: "saveUnsafe E (a, w) = (r, (a', w')) \<Longrightarrow> \<exists>x. a' = a\<lparr>acc_lastKeyringErr := x\<rparr>"
  by (auto simp: saveUnsafe_def save_access_def save_refresh_def split: prod.splits option.splits if_splits)

lemma register_account_token:
  assumes "register_account E cli config (access, refresh, expires) (m, w) = (Inr acc, st)"
  shows "acc_AccessToken acc = access \<and> acc_RefreshToken acc = refresh"
  using assms
  by (auto simp: register_account_def Let_def split: prod.splits sum.splits option.splits dest!: saveUnsafe_account)

text \<open>
  C11: A sign-in is bound to the session that started it.  Callbacks without the session's random state
  change nothing at all, and a sign-in that succeeds has exchanged, together with the session's PKCE
  verifier, a code that arrived with that state: in a callback of the local server or in a pasted URL
  that is the configured redirect address.
\<close>

theorem sign_in_bound_to_session:
  assumes s: "newAuthSession L (si_rnd_state inp) (si_rnd_verifier inp) = Inr s"
  shows "AddAccount E L cli (inp\<lparr>si_events := filter (genuine s) (si_events inp)\<rparr>) config (m, w) =
      AddAccount E L cli inp config (m, w) \<and>
    (\<forall>acc st. AddAccount E L cli inp config (m, w) = (Inr acc, st) \<longrightarrow>
       (\<exists>q expires net. (Callback q \<in> set (si_events inp) \<or> pasted_query L inp (snd (ApplyDefaults E config)) q) \<and>
          query_get q ''state'' = as_state s \<and> query_get q ''code'' \<noteq> [] \<and>
          exchangeCodeForTokens E (snd (ApplyDefaults E config)) (query_get q ''code'') (as_verifier s) (aw_net w) =
            (Inr (acc_AccessToken acc, acc_RefreshToken acc, expires), net)))"
proof
  show "AddAccount E L cli (inp\<lparr>si_events := filter (genuine s) (si_events inp)\<rparr>) config (m, w) =
      AddAccount E L cli inp config (m, w)"
    by (simp add: AddAccount_def s obtain_code_def local_server_genuine cong: sum.case_cong split: prod.split option.split)
  show "\<forall>acc st. AddAccount E L cli inp config (m, w) = (Inr acc, st) \<longrightarrow>
       (\<exists>q expires net. (Callback q \<in> set (si_events inp) \<or> pasted_query L inp (snd (ApplyDefaults E config)) q) \<and>
          query_get q ''state'' = as_state s \<and> query_get q ''code'' \<noteq> [] \<and>
          exchangeCodeForTokens E (snd (ApplyDefaults E config)) (query_get q ''code'') (as_verifier s) (aw_net w) =
            (Inr (acc_AccessToken acc, acc_RefreshToken acc, expires), net))"
  proof (intro allI impI)
    fix acc st
    assume run: "AddAccount E L cli inp config (m, w) = (Inr acc, st)"
    then obtain config' code access refresh expires net where r: "ApplyDefaults E config = (None, config')"
      "obtain_code L inp config' s = Inr code"
      "exchangeCodeForTokens E config' code (as_verifier s) (aw_net w) = (Inr (access, refresh, expires), net)"
      "register_account E cli config' (access, refresh, expires) (m, w\<lparr>aw_net := net\<rparr>) = (Inr acc, st)"
      by (auto simp: AddAccount_def s split: prod.splits option.splits sum.splits)
    show "\<exists>q expires net. (Callback q \<in> set (si_events inp) \<or> pasted_query L inp (snd (ApplyDefaults E config)) q) \<and>
          query_get q ''state'' = as_state s \<and> query_get q ''code'' \<noteq> [] \<and>
          exchangeCodeForTokens E (snd (ApplyDefaults E config)) (query_get q ''code'') (as_verifier s) (aw_net w) =
            (Inr (acc_AccessToken acc, acc_RefreshToken acc, expires), net)"
      using obtain_code_state [OF r(2)] register_account_token [OF r(4)] r(1,3) by auto
  qed
qed

section \<open>Renewal\<close>

lemma purge_account:
  "\<exists>w'. purgeInvalidRefreshTokenLocked E (a, w) = (a\<lparr>acc_RefreshToken := [], acc_AccessToken := []\<rparr>, w')"
  by (auto simp: purgeInvalidRefreshTokenLocked_def Let_def split: prod.split option.split)

text \<open>The tokens of an account with their expiry.\<close>

definition tokens :: "account \<Rightarrow> string \<times> string \<times> int" where
  "tokens a = (acc_AccessToken a, acc_RefreshToken a, acc_ExpiresAt a)"

lemma take_tokens_cases:
  assumes "take_tokens E f (a, w) = (e, (a', w'))"
  shows "if e = None then acc_AccessToken a' = tf_access_token f else tokens a' = tokens a"
  using assms by (auto simp: take_tokens_def tokens_def Let_def split: prod.splits option.splits dest!: saveUnsafe_account)

lemma renewal_answer_cases:
  assumes "renewal_answer E resp (a, w) = (e, (a', w'))"
  shows "if e = None then acc_AccessToken a' \<noteq> []
    else tokens a' = tokens a \<or> tokens a' = ([], [], acc_ExpiresAt a)"
proof -
  obtain w'' where p: "purgeInvalidRefreshTokenLocked E (a, w) = (a\<lparr>acc_RefreshToken := [], acc_AccessToken := []\<rparr>, w'')"
    using purge_account by blast
  consider (taken) f where "take_tokens E f (a, w) = (e, (a', w'))" "tf_access_token f \<noteq> []"
    | (kept) "e \<noteq> None" "a' = a" | (purged) "e \<noteq> None" "a' = a\<lparr>acc_RefreshToken := [], acc_AccessToken := []\<rparr>"
    using assms by (auto simp: renewal_answer_def reject_renewal_def p Let_def split: token_body.splits if_splits)
  then show ?thesis
  proof cases
    case taken
    then show ?thesis using take_tokens_cases [OF taken(1)] by (auto split: if_splits)
  qed (auto simp: tokens_def)
qed

lemma kr_set_net: "kr_set E u p w = (e, w') \<Longrightarrow> aw_net w' = aw_net w"
  by (auto simp: kr_set_def split: prod.splits)

lemma kr_delete_net: "kr_delete E u w = (e, w') \<Longrightarrow> aw_net w' = aw_net w"
  by (auto simp: kr_delete_def split: prod.splits)

lemma kr_net [simp]: "aw_net (snd (kr_set E u p w)) = aw_net w" "aw_net (snd (kr_delete E u w)) = aw_net w"
  using kr_set_net kr_delete_net by (metis surjective_pairing)+

lemma write_file_net: "write_file E p j w = (e, w') \<Longrightarrow> aw_net w' = aw_net w"
  by (auto simp: write_file_def split: prod.splits option.splits if_splits)

lemma write_file_fails:
  "ae_write E p = Some (e, truncated) \<Longrightarrow> \<exists>e' w'. write_file E p j w = (Some e', w') \<and> aw_keyring w' = aw_keyring w"
  by (auto simp: write_file_def)

lemma saveUnsafe_net: "saveUnsafe E (a, w) = (r, (a', w')) \<Longrightarrow> aw_net w' = aw_net w"
  by (auto simp: saveUnsafe_def save_access_def save_refresh_def split: prod.splits option.splits if_splits
    dest!: kr_set_net write_file_net)

lemma purge_net: "purgeInvalidRefreshTokenLocked E (a, w) = (a', w') \<Longrightarrow> aw_net w' = aw_net w"
  by (auto simp: purgeInvalidRefreshTokenLocked_def Let_def split: prod.splits option.splits if_splits dest!: kr_delete_net)

lemma renewal_answer_net: "renewal_answer E resp (a, w) = (e, (a', w')) \<Longrightarrow> aw_net w' = aw_net w"
  by (auto simp: renewal_answer_def reject_renewal_def take_tokens_def Let_def
    split: token_body.splits if_splits prod.splits option.splits dest: saveUnsafe_net purge_net)

text \<open>
  C18: A request for the access token never returns an empty one.  While the token in memory has not
  expired it is returned without a request; when a renewal fails, the tokens in memory are what they
  were, or both gone because the server has declared the refresh token invalid.
\<close>

theorem access_token_renewal:
  assumes run: "GetAccessToken E (a, w) = (r, (a', w'))"
  shows "(case r of Inr t \<Rightarrow> t \<noteq> [] \<and> t = acc_AccessToken a'
      | Inl e \<Rightarrow> tokens a' = tokens a \<or> tokens a' = ([], [], acc_ExpiresAt a)) \<and>
    (if acc_ExpiresAt a > time_unix (ae_now E (aw_net w)) \<and> acc_AccessToken a \<noteq> []
     then r = Inr (acc_AccessToken a) \<and> a' = a \<and> w' = w
     else list_ex is_control (cfg_TokenURL (acc_Config a)) \<or>
       aw_net w' = snd (ae_do E \<lparr>tq_url = cfg_TokenURL (acc_Config a), tq_form = refresh_form a\<rparr> (aw_net w)))"
proof (cases "acc_ExpiresAt a > time_unix (ae_now E (aw_net w)) \<and> acc_AccessToken a \<noteq> []")
  case True
  then show ?thesis using run by (auto simp: GetAccessToken_def Refresh_def)
next
  case stale: False
  obtain e where e: "Refresh E (a, w) = (e, (a', w'))" "r = (case e of Some e \<Rightarrow> Inl e | None \<Rightarrow> Inr (acc_AccessToken a'))"
    using run by (auto simp: GetAccessToken_def split: prod.splits option.splits)
  show ?thesis
  proof (cases "list_ex is_control (cfg_TokenURL (acc_Config a))")
    case True
    then show ?thesis using stale e by (auto simp: Refresh_def)
  next
    case False
    obtain ans net where ans: "ae_do E \<lparr>tq_url = cfg_TokenURL (acc_Config a), tq_form = refresh_form a\<rparr> (aw_net w) = (ans, net)"
      by (metis surj_pair)
    show ?thesis
    proof (cases ans)
      case (Inl err)
      then show ?thesis using stale False e ans by (auto simp: Refresh_def tokens_def Let_def split: if_splits)
    next
      case (Inr resp)
      then have "renewal_answer E resp (a, w\<lparr>aw_net := net\<rparr>) = (e, (a', w'))"
        using stale False e(1) ans by (auto simp: Refresh_def)
      then show ?thesis
        using renewal_answer_cases renewal_answer_net stale e(2) ans by (fastforce split: option.splits if_splits)
    qed
  qed
qed

section \<open>Restart\<close>

lemma register_account_saved:
  assumes K: "keyring_works (ae_keyring E)" and run: "register_account E cli config (access, refresh, expires) (m, w) = (Inr acc, (m', w'))"
    and ne: "access \<noteq> []" "refresh \<noteq> []"
  shows "acc_tokenFilePath acc = getAccountFilePath m (acc_Name acc)" "acc_Config acc = config"
    "tokens acc = (access, refresh, acc_ExpiresAt acc)"
    "kr_get E (fst (keyringKeys (acc_Name acc))) w' = Inr refresh" "kr_get E (snd (keyringKeys (acc_Name acc))) w' = Inr access"
    "aw_files w' = AList.update (Clean (acc_tokenFilePath acc)) (AccountJSON (toJSON acc)) (aw_files w)"
    "map_of (aw_files w) (Clean (acc_tokenFilePath acc)) \<noteq> Some Directory"
proof -
  obtain user :: user and net and a where a_def: "a = \<lparr>acc_keyring = True, acc_Name = usr_Name user, acc_Config = config, acc_Mount = zero_mount,
        acc_ExpiresAt = int64_add (time_unix (ae_now E net)) expires, acc_AccessToken = access, acc_RefreshToken = refresh,
        acc_tokenFilePath = getAccountFilePath m (usr_Name user), acc_lastKeyringErr = None\<rparr>"
    and save: "saveUnsafe E (a, w\<lparr>aw_net := net\<rparr>) = (None, (acc, w'))"
    using run by (auto simp: register_account_def Let_def split: prod.splits sum.splits option.splits)
  then have a: "acc_keyring a" "acc_AccessToken a = access" "acc_RefreshToken a = refresh" "acc_Config a = config"
    "acc_Name a = usr_Name user" "acc_tokenFilePath a = getAccountFilePath m (usr_Name user)"
    by simp_all
  note sw = save_works [OF K a(1) _ _ save]
  show "acc_tokenFilePath acc = getAccountFilePath m (acc_Name acc)" "acc_Config acc = config"
    "tokens acc = (access, refresh, acc_ExpiresAt acc)"
    "kr_get E (fst (keyringKeys (acc_Name acc))) w' = Inr refresh" "kr_get E (snd (keyringKeys (acc_Name acc))) w' = Inr access"
    "aw_files w' = AList.update (Clean (acc_tokenFilePath acc)) (AccountJSON (toJSON acc)) (aw_files w)"
    "map_of (aw_files w) (Clean (acc_tokenFilePath acc)) \<noteq> Some Directory"
    using sw a ne by (auto simp: tokens_def toJSON_def)
qed

lemma exchange_tokens_ne:
  "exchangeCodeForTokens E config code v w = (Inr (access, refresh, expires), net) \<Longrightarrow> access \<noteq> [] \<and> refresh \<noteq> []"
  by (auto simp: exchangeCodeForTokens_def code_answer_def Let_def split: if_splits prod.splits sum.splits token_body.splits)

lemma AddAccount_register:
  assumes "AddAccount E L cli inp config (m, w) = (Inr acc, st)"
  obtains access refresh expires net where "access \<noteq> []" "refresh \<noteq> []"
    "register_account E cli (snd (ApplyDefaults E config)) (access, refresh, expires) (m, w\<lparr>aw_net := net\<rparr>) = (Inr acc, st)"
proof -
  obtain config' and s :: auth_session and code access refresh expires net where r: "ApplyDefaults E config = (None, config')"
    "exchangeCodeForTokens E config' code (as_verifier s) (aw_net w) = (Inr (access, refresh, expires), net)"
    "register_account E cli config' (access, refresh, expires) (m, w\<lparr>aw_net := net\<rparr>) = (Inr acc, st)"
    using assms by (auto simp: AddAccount_def split: prod.splits option.splits sum.splits)
  show thesis by (rule that [of access refresh expires net]) (use exchange_tokens_ne [OF r(2)] r in auto)
qed

text \<open>
  C21: With a working keyring an account that was added is there after a restart, with its tokens, its
  expiry, its configuration and its mount preferences, although the file on disk holds no token,
  unless another file of the directory claims the same account name.
\<close>

theorem account_survives_restart:
  assumes add: "AddAccount E L cli inp config (m, w) = (Inr acc, (m', w'))"
    and K: "keyring_works (ae_keyring E)" and merge: "merge_fills E" "merge_fills E'"
    and d: "config_dir (m_configDir m)" and wf: "keys_distinct (aw_files w)"
    and restart: "ae_keyring E' = ae_keyring E" "\<forall>p. ae_read E' p = None"
      "NewManagerWithDeps E' (m_configDir m) w' = (None, Some m'')"
    and only: "\<forall>p j. map_of (aw_files w) p = Some (AccountJSON j) \<and> aj_Name j = acc_Name acc \<longrightarrow>
      p = Clean (getAccountFilePath m (acc_Name acc))"
  shows "\<exists>b. GetAccount (acc_Name acc) m'' = Inr b \<and> tokens b = tokens acc \<and> acc_Config b = acc_Config acc \<and>
    acc_Mount b = acc_Mount acc \<and> acc_Name b = acc_Name acc"
proof -
  obtain access refresh expires net where ne: "access \<noteq> []" "refresh \<noteq> []"
    and reg: "register_account E cli (snd (ApplyDefaults E config)) (access, refresh, expires) (m, w\<lparr>aw_net := net\<rparr>) =
      (Inr acc, (m', w'))"
    using add by (rule AddAccount_register)
  note saved = register_account_saved [OF K reg ne]
  let ?s = "sanitizeFileName (acc_Name acc)"
  let ?p = "Clean (m_configDir m) @ slash # (?s @ ''.json'')"
  have path: "Clean (acc_tokenFilePath acc) = ?p" "Clean (getAccountFilePath m (acc_Name acc)) = ?p"
    using saved(1) account_path [OF d] by simp_all
  have "GetAccount (aj_Name (toJSON acc)) m'' = Inr (loaded_account E' w' ?p (toJSON acc))"
  proof (rule restart_finds [OF d _ restart(3)])
    show "keys_distinct (aw_files w')" using saved(6) wf by simp
    show "map_of (aw_files w') ?p = Some (AccountJSON (toJSON acc))" using saved(6) path by (simp add: alist_simps)
    show "p = ?p" if "map_of (aw_files w') p = Some (AccountJSON j')" "aj_Name j' = aj_Name (toJSON acc)" for p j'
      using that saved(6) path only by (auto simp: alist_simps toJSON_def split: if_splits)
  qed (use restart sanitized_plain in auto)
  moreover have "acc_Config (loaded_account E' w' ?p (toJSON acc)) = acc_Config acc"
    using saved(2) ApplyDefaults_idem [OF merge] by (simp add: loaded_account_def toJSON_def split: prod.split)
  moreover have "tokens (loaded_account E' w' ?p (toJSON acc)) = tokens acc"
    using saved(3,4,5) restart(1)
    by (auto simp: loaded_account_def tokens_def toJSON_def token_or_empty_def kr_get_def split: prod.split)
  ultimately show ?thesis by (auto simp: loaded_account_def toJSON_def split: prod.split)
qed

text \<open>
  Two accounts whose names give the same file name destroy each other: adding the second one
  overwrites the file of the first, and after a restart the first account is unknown although it was
  never removed.
\<close>

lemma same_file_loses_account:
  assumes add: "AddAccount E L cli inp config (m, w) = (Inr acc, (m', w'))"
    and K: "keyring_works (ae_keyring E)" and d: "config_dir (m_configDir m)" and wf: "keys_distinct (aw_files w)"
    and first: "GetAccount x m = Inr a" "x \<noteq> acc_Name acc" "sanitizeFileName x = sanitizeFileName (acc_Name acc)"
    and only: "\<forall>p j. map_of (aw_files w) p = Some (AccountJSON j) \<and> aj_Name j = x \<longrightarrow> p = Clean (getAccountFilePath m x)"
    and restart: "NewManagerWithDeps E' (m_configDir m) w' = (None, Some m'')"
  shows "GetAccount x m' = Inr a \<and> (\<exists>e. GetAccount x m'' = Inl e)"
proof -
  obtain access refresh expires net where ne: "access \<noteq> []" "refresh \<noteq> []"
    and reg: "register_account E cli (snd (ApplyDefaults E config)) (access, refresh, expires) (m, w\<lparr>aw_net := net\<rparr>) =
      (Inr acc, (m', w'))"
    using add by (rule AddAccount_register)
  note saved = register_account_saved [OF K reg ne]
  have "m' = m\<lparr>m_accounts := AList.update (acc_Name acc) acc (m_accounts m)\<rparr>"
    using reg by (auto simp: register_account_def Let_def split: prod.splits sum.splits option.splits)
  then have "GetAccount x m' = Inr a" using first by (simp add: GetAccount_def alist_simps split: option.splits)
  moreover have "map_of (m_accounts m'') x = None"
  proof (rule restart_misses [OF _ restart])
    show "keys_distinct (aw_files w')" using saved(6) wf by simp
    have "Clean (acc_tokenFilePath acc) = Clean (getAccountFilePath m x)"
      using saved(1) account_path [OF d] first(3) by simp
    then show "aj_Name j \<noteq> x" if "map_of (aw_files w') p = Some (AccountJSON j)" for p j
      using that saved(6) only first(2) by (auto simp: alist_simps toJSON_def split: if_splits)
  qed
  ultimately show ?thesis by (simp add: GetAccount_def)
qed

text \<open>
  A renewal whose file cannot be written splits the tokens.  The new refresh token is already in the
  keyring, but the account in memory goes back to the old one, which the server may have revoked: the
  rollback that is meant to keep memory and storage consistent makes them differ.
\<close>

lemma renewal_splits_tokens:
  assumes stale: "acc_ExpiresAt a \<le> time_unix (ae_now E (aw_net w))" and url: "\<not> list_ex is_control (cfg_TokenURL (acc_Config a))"
    and answer: "ae_do E \<lparr>tq_url = cfg_TokenURL (acc_Config a), tq_form = refresh_form a\<rparr> (aw_net w) = (Inr resp, net)"
      "tr_status resp = 200" "tr_body resp = TokJSON f" "tf_access_token f \<noteq> []" "tf_refresh_token f \<noteq> []"
    and K: "keyring_works (ae_keyring E)" "acc_keyring a" and disk: "ae_write E (acc_tokenFilePath a) = Some (e, truncated)"
  shows "\<exists>e' a' w'. GetAccessToken E (a, w) = (Inl e', (a', w')) \<and> acc_RefreshToken a' = acc_RefreshToken a \<and>
    kr_get E (fst (keyringKeys (acc_Name a))) w' = Inr (tf_refresh_token f)"
proof -
  let ?w = "w\<lparr>aw_net := net\<rparr>"
  define renewed where "renewed = a\<lparr>acc_AccessToken := tf_access_token f, acc_RefreshToken := tf_refresh_token f,
      acc_ExpiresAt := int64_add (time_unix (ae_now E net)) (tf_expires_in f)\<rparr>"
  obtain k where k: "save_access E (save_refresh E (renewed\<lparr>acc_lastKeyringErr := None\<rparr>, ?w)) =
      (renewed\<lparr>acc_lastKeyringErr := None\<rparr>, ?w\<lparr>aw_keyring := k\<rparr>)"
    "kr_get E (fst (keyringKeys (acc_Name a))) (?w\<lparr>aw_keyring := k\<rparr>) = Inr (tf_refresh_token f)"
    using save_tokens_works [OF K(1), of "renewed\<lparr>acc_lastKeyringErr := None\<rparr>" ?w] K(2) answer(4,5)
    by (auto simp: renewed_def)
  obtain e1 w1 where failed: "write_file E (acc_tokenFilePath a) (toJSON (renewed\<lparr>acc_lastKeyringErr := None\<rparr>)) (?w\<lparr>aw_keyring := k\<rparr>) =
      (Some e1, w1)" and k1: "aw_keyring w1 = aw_keyring (?w\<lparr>aw_keyring := k\<rparr>)"
    using write_file_fails [OF disk] by metis
  have "saveUnsafe E (renewed, ?w) = (Some (Wrap ''error saving account file'' e1), (renewed\<lparr>acc_lastKeyringErr := None\<rparr>, w1))"
    using failed by (simp add: saveUnsafe_def k(1)) (simp add: renewed_def)
  then have "take_tokens E f (a, ?w) = (Some (Wrap ''tokens renewed but could not be saved'' (Wrap ''error saving account file'' e1)),
      (renewed\<lparr>acc_lastKeyringErr := None, acc_AccessToken := acc_AccessToken a, acc_RefreshToken := acc_RefreshToken a,
         acc_ExpiresAt := acc_ExpiresAt a\<rparr>, w1))"
    using answer(5) by (simp add: take_tokens_def renewed_def)
  moreover have "kr_get E (fst (keyringKeys (acc_Name a))) w1 = Inr (tf_refresh_token f)"
    using k(2) k1 by (simp add: kr_get_def)
  ultimately show ?thesis
    using stale url answer(1,2,3,4) by (simp add: GetAccessToken_def Refresh_def renewal_answer_def)
qed

section \<open>Concrete runs\<close>

text \<open>A keyring in memory, a token endpoint that always grants the same tokens, and a server that knows one user.\<close>

definition list_keyring :: "((string \<times> string) \<times> string) list keyring_ops" where
  "list_keyring =
     \<lparr>kr_Get = (\<lambda>s u k. case map_of k (s, u) of None \<Rightarrow> Inl (Sentinel ErrNotExist) | Some p \<Rightarrow> Inr p),
      kr_Set = (\<lambda>s u p k. (None, AList.update (s, u) p k)),
      kr_Delete = (\<lambda>s u k. (None, AList.delete (s, u) k))\<rparr>"

definition granted :: token_fields where
  "granted = \<lparr>tf_access_token = ''A1'', tf_refresh_token = ''R1'', tf_expires_in = 3600, tf_error = [], tf_error_description = []\<rparr>"

definition fill_config :: "auth_config \<Rightarrow> auth_config \<Rightarrow> auth_config" where
  "fill_config d s =
     \<lparr>cfg_ClientID = fill (cfg_ClientID d) (cfg_ClientID s), cfg_CodeURL = fill (cfg_CodeURL d) (cfg_CodeURL s),
      cfg_TokenURL = fill (cfg_TokenURL d) (cfg_TokenURL s), cfg_RedirectURL = fill (cfg_RedirectURL d) (cfg_RedirectURL s)\<rparr>"

definition ex_auth_env :: "(go_error \<times> bool) option \<Rightarrow> (((string \<times> string) \<times> string) list, unit) auth_env" where
  "ex_auth_env fault =
     \<lparr>ae_keyring = list_keyring, ae_do = (\<lambda>_ w. (Inr \<lparr>tr_status = 200, tr_body = TokJSON granted\<rparr>, w)), ae_now = (\<lambda>_. 0),
      ae_write = (\<lambda>_. fault), ae_read = (\<lambda>_. None), ae_remove = (\<lambda>_. None), ae_mkdir = None, ae_readdir = None,
      ae_merge = (\<lambda>d s. (None, fill_config d s))\<rparr>"

definition ex_redirect :: url where
  "ex_redirect = \<lparr>u_Scheme = ''http'', u_Host = ''localhost:9090'', u_Path = ''/callback'', u_Query = []\<rparr>"

definition ex_lib :: oauth_lib where
  "ex_lib = \<lparr>ol_Parse = (\<lambda>_. Inr ex_redirect), ol_String = u_Host, ol_ParseIP = (\<lambda>_. None), ol_Sum256 = id\<rparr>"

definition ex_user_client :: "string \<Rightarrow> unit client" where
  "ex_user_client name =
     \<lparr>BaseURL = ''https://g'', c_do = (\<lambda>_ w. (Inr \<lparr>rs_status = 200, rs_headers = [], rs_body = UserB \<lparr>usr_ID = ''1'', usr_Name = name\<rparr>\<rparr>, None, w)),
      c_maxRetries = 0, c_token = (\<lambda>w. (Inl (Plain ''none''), w)), c_done = (\<lambda>_. None), c_sleep = (\<lambda>_ w. w), PollBackoff = 0\<rparr>"

text \<open>A stray callback with a foreign code, then the right one.\<close>

definition ex_inputs :: sign_in_inputs where
  "ex_inputs =
     \<lparr>si_rnd_state = (\<lambda>_. Inr [1, 2, 3]), si_rnd_verifier = (\<lambda>_. Inr [4, 5, 6]), si_listen = (\<lambda>_. None),
      si_events = [Callback [(''code'', ''evil''), (''state'', ''AAAA'')], Callback [(''code'', ''good''), (''state'', ''AQID'')]],
      si_line = Inl (Plain ''EOF'')\<rparr>"

definition ex_session :: auth_session where
  "ex_session = \<lparr>as_state = ''AQID'', as_verifier = ''BAUG'', as_challenge = base64url (map char_byte ''BAUG'')\<rparr>"

definition ex_new_account :: "string \<Rightarrow> account" where
  "ex_new_account name =
     \<lparr>acc_keyring = True, acc_Name = name, acc_Config = authDefaults, acc_Mount = zero_mount, acc_ExpiresAt = 3600,
      acc_AccessToken = ''A1'', acc_RefreshToken = ''R1'', acc_tokenFilePath = ''/c/u_x.json'', acc_lastKeyringErr = None\<rparr>"

definition empty_manager :: manager where
  "empty_manager = \<lparr>m_configDir = ''/c'', m_accounts = []\<rparr>"

definition empty_world :: "(((string \<times> string) \<times> string) list, unit) auth_world" where
  "empty_world = \<lparr>aw_keyring = [], aw_files = [], aw_net = ()\<rparr>"

definition empty_config :: auth_config where
  "empty_config = \<lparr>cfg_ClientID = [], cfg_CodeURL = [], cfg_TokenURL = [], cfg_RedirectURL = []\<rparr>"

lemma list_keyring_works: "keyring_works (ae_keyring (ex_auth_env fault))"
  by (simp add: keyring_works_def ex_auth_env_def list_keyring_def alist_simps)

lemma ex_merge_fills: "merge_fills (ex_auth_env fault)"
  by (simp add: merge_fills_def ex_auth_env_def fill_config_def)

lemma ex_random: "base64url [1, 2, 3] = ''AQID''" "base64url [4, 5, 6] = ''BAUG''"
  by (simp_all add: Let_def url_digit_def)

lemma ex_session_eq: "newAuthSession ex_lib (si_rnd_state ex_inputs) (si_rnd_verifier ex_inputs) = Inr ex_session"
  by (simp add: newAuthSession_def randomURLSafe_def ex_inputs_def ex_random ex_session_def ex_lib_def del: base64url.simps)

lemma ex_defaults: "ApplyDefaults (ex_auth_env fault) empty_config = (None, authDefaults)"
  by (simp add: ApplyDefaults_def ex_auth_env_def fill_config_def empty_config_def fill_def)

lemma ex_code: "obtain_code ex_lib ex_inputs authDefaults ex_session = Inr ''good''"
  by (simp add: obtain_code_def getAuthCodeLocalServer_def ex_lib_def ex_inputs_def ex_redirect_def ex_session_def
    requireLoopbackRedirect_def Hostname_def strip_port_def valid_port_def handle_callback_def matchesState_def
    query_get_def HasPrefix_def)

lemma ex_token_url: "\<not> list_ex is_control (cfg_TokenURL authDefaults)"
  by code_simp

lemma ex_tokens: "exchangeCodeForTokens (ex_auth_env fault) authDefaults code v w = (Inr (''A1'', ''R1'', 3600), w)"
  by (simp add: exchangeCodeForTokens_def ex_token_url ex_auth_env_def code_answer_def granted_def)

lemma ex_user: "GetUser (static_token t (ex_user_client name)) w = (Inr \<lparr>usr_ID = ''1'', usr_Name = name\<rparr>, w)"
proof -
  have "\<not> list_ex is_control ''https://g/me''" by code_simp
  then show ?thesis
    by (simp add: GetUser_def doAuthenticatedRequestWithBody_def static_token_def ex_user_client_def client_Do_def
      RetryDoer_Do.simps checkResponse_def)
qed

lemma ex_paths: "getAccountFilePath empty_manager ''u@x'' = ''/c/u_x.json''" "getAccountFilePath empty_manager ''u.x'' = ''/c/u_x.json''"
  "Clean ''/c/u_x.json'' = ''/c/u_x.json''"
  by code_simp+

lemma ex_config_dir: "config_dir ''/c''"
  by code_simp

definition ex_saved :: "string \<Rightarrow> (((string \<times> string) \<times> string) list, unit) auth_world \<Rightarrow> (((string \<times> string) \<times> string) list, unit) auth_world" where
  "ex_saved name w =
     w\<lparr>aw_keyring := AList.update (''onecloudriver'', ''onecloudriver:access:'' @ name) ''A1''
                       (AList.update (''onecloudriver'', ''onecloudriver:'' @ name) ''R1'' (aw_keyring w)),
       aw_files := AList.update ''/c/u_x.json'' (AccountJSON (toJSON (ex_new_account name))) (aw_files w)\<rparr>"

lemma ex_added:
  assumes name: "name = ''u@x'' \<or> name = ''u.x''" and m: "m_configDir m = ''/c''"
    and w: "map_of (aw_files w) ''/c/u_x.json'' \<noteq> Some Directory"
  shows "AddAccount (ex_auth_env None) ex_lib (ex_user_client name) ex_inputs empty_config (m, w) =
     (Inr (ex_new_account name), (m\<lparr>m_accounts := AList.update name (ex_new_account name) (m_accounts m)\<rparr>, ex_saved name w))"
proof -
  have "getAccountFilePath m name = ''/c/u_x.json''"
    using name m ex_paths by (auto simp: getAccountFilePath_def empty_manager_def)
  moreover have "int64_add (time_unix 0) 3600 = 3600" by code_simp
  ultimately show ?thesis
    using w ex_paths(3)
    by (simp add: AddAccount_def ex_defaults ex_session_eq ex_code ex_tokens register_account_def ex_user Let_def)
      (simp add: saveUnsafe_def save_refresh_def save_access_def kr_set_def write_file_def keyringKeys_def ex_auth_env_def
        list_keyring_def ex_new_account_def ex_saved_def toJSON_def)
qed

lemma ex_restart:
  "NewManagerWithDeps (ex_auth_env None) ''/c'' w =
     (None, Some (fold (load_account (ex_auth_env None) w) (dir_entries ''/c'' w) empty_manager))"
  by (simp add: NewManagerWithDeps_def loadAccounts_def ex_auth_env_def empty_manager_def)

theorem sign_in_bound_to_session_witness:
  "\<exists>acc st q. AddAccount (ex_auth_env None) ex_lib (ex_user_client ''u@x'') ex_inputs empty_config (empty_manager, empty_world) = (Inr acc, st) \<and>
     query_get q ''state'' = ''AQID'' \<and> query_get q ''code'' \<noteq> []"
proof -
  have run: "AddAccount (ex_auth_env None) ex_lib (ex_user_client ''u@x'') ex_inputs empty_config (empty_manager, empty_world) =
     (Inr (ex_new_account ''u@x''), (empty_manager\<lparr>m_accounts := AList.update ''u@x'' (ex_new_account ''u@x'') (m_accounts empty_manager)\<rparr>,
        ex_saved ''u@x'' empty_world))"
    by (rule ex_added) (simp_all add: empty_manager_def empty_world_def)
  with sign_in_bound_to_session [OF ex_session_eq, of "ex_auth_env None" "ex_user_client ''u@x''" empty_config empty_manager empty_world]
  show ?thesis by (simp add: ex_session_def) blast
qed

theorem access_token_renewal_witness:
  "\<exists>a' w'. GetAccessToken (ex_auth_env None) (ex_new_account ''u@x'', empty_world) = (Inr ''A1'', (a', w')) \<and> w' = empty_world"
proof -
  obtain r a' w' where run: "GetAccessToken (ex_auth_env None) (ex_new_account ''u@x'', empty_world) = (r, (a', w'))"
    by (metis surj_pair)
  from access_token_renewal [OF run] show ?thesis
    using run by (simp add: ex_new_account_def ex_auth_env_def time_unix_def)
qed

theorem account_survives_restart_witness:
  "\<exists>m b. NewManagerWithDeps (ex_auth_env None) ''/c'' (ex_saved ''u@x'' empty_world) = (None, Some m) \<and>
     GetAccount ''u@x'' m = Inr b \<and> tokens b = (''A1'', ''R1'', 3600)"
proof -
  let ?w = "ex_saved ''u@x'' empty_world"
  have run: "AddAccount (ex_auth_env None) ex_lib (ex_user_client ''u@x'') ex_inputs empty_config (empty_manager, empty_world) =
     (Inr (ex_new_account ''u@x''), (empty_manager\<lparr>m_accounts := AList.update ''u@x'' (ex_new_account ''u@x'') (m_accounts empty_manager)\<rparr>, ?w))"
    by (rule ex_added) (simp_all add: empty_manager_def empty_world_def)
  have "\<exists>b. GetAccount (acc_Name (ex_new_account ''u@x'')) (fold (load_account (ex_auth_env None) ?w) (dir_entries ''/c'' ?w) empty_manager) = Inr b \<and>
      tokens b = tokens (ex_new_account ''u@x'') \<and> acc_Config b = acc_Config (ex_new_account ''u@x'') \<and>
      acc_Mount b = acc_Mount (ex_new_account ''u@x'') \<and> acc_Name b = acc_Name (ex_new_account ''u@x'')"
  proof (rule account_survives_restart [OF run list_keyring_works ex_merge_fills ex_merge_fills [of None]])
    show "NewManagerWithDeps (ex_auth_env None) (m_configDir empty_manager) ?w =
        (None, Some (fold (load_account (ex_auth_env None) ?w) (dir_entries ''/c'' ?w) empty_manager))"
      by (simp add: ex_restart empty_manager_def)
  qed (simp_all add: empty_manager_def empty_world_def ex_config_dir ex_auth_env_def)
  then show ?thesis by (auto simp: ex_restart ex_new_account_def tokens_def)
qed

end
