(* ===== verification/Service.thy ===== *)
theory Service
  imports Content_Cache Graph_Http Go_Strings
begin

text \<open>
  The systemd integration (\<^verbatim>\<open>internal/service\<close>): the unit that is generated, and the states that are
  read back from \<^verbatim>\<open>systemctl\<close> and \<^verbatim>\<open>journalctl\<close>.  The two programs are a parameter: \<open>run\<close> takes a
  command line and returns what was printed on the two outputs and the error.  What the functions only
  print is not modelled.
\<close>

type_synonym runner = "string list \<Rightarrow> string \<times> string \<times> go_error option"

section \<open>The unit\<close>

definition ServiceFilePath :: "string \<Rightarrow> go_error + string \<Rightarrow> go_error + string" where
  "ServiceFilePath xdg home =
     (let path = (\<lambda>configDir. Join (Join (Join configDir ''systemd'') ''user'') ''onecloudriver@.service'') in
      if xdg \<noteq> [] then Inr (path xdg)
      else case home of
             Inl e \<Rightarrow> Inl (Wrap ''could not determine HOME'' e)
           | Inr h \<Rightarrow> Inr (path (Join h ''.config'')))"

definition normalizeMountpointForUnit :: "string \<Rightarrow> string" where
  "normalizeMountpointForUnit mountpoint =
     (if mountpoint = ''~'' then ''%h''
      else if HasPrefix mountpoint ''~/'' then ''%h/'' @ TrimPrefix mountpoint ''~/''
      else mountpoint)"

text \<open>The kinds of file that \<^verbatim>\<open>isExecutableFile\<close> distinguishes, and the lookups of \<^verbatim>\<open>resolveBinary\<close>.\<close>

record binary_env =
  be_stat :: "string \<Rightarrow> (bool \<times> 32 word) option"
  be_Abs :: "string \<Rightarrow> go_error + string"
  be_LookPath :: "string \<Rightarrow> go_error + string"

definition isExecutableFile :: "binary_env \<Rightarrow> string \<Rightarrow> bool" where
  "isExecutableFile B path =
     (case be_stat B path of None \<Rightarrow> False | Some (regular, perm) \<Rightarrow> regular \<and> and perm 0x49 \<noteq> 0)"

definition path_Base :: "string \<Rightarrow> string" where
  "path_Base p = (if p = [] then dot else let q = trim_right_slashes p in if q = [] then [slash] else base_name q)"

definition resolveBinary :: "binary_env \<Rightarrow> string \<Rightarrow> go_error + string" where
  "resolveBinary B argv0 =
     (let argv0 = (if HasSuffix (path_Base argv0) ''.test'' then ''onecloudriver'' else argv0);
          candidate = (if slash \<in> set argv0
                       then (case be_Abs B argv0 of Inl e \<Rightarrow> Inl (Wrap ''could not resolve binary path'' e) | Inr p \<Rightarrow> Inr p)
                       else (case be_LookPath B argv0 of
                               Inl e \<Rightarrow> Inl (Wrap ''onecloudriver binary not found in PATH'' e) | Inr p \<Rightarrow> Inr p))
      in case candidate of
           Inl e \<Rightarrow> Inl e
         | Inr p \<Rightarrow> if isExecutableFile B p then Inr p else Inl (Plain (''binary '' @ p @ '' is not an executable file'')))"

definition newline :: string where "newline = [CHR 0x0A]"

definition unlines :: "string list \<Rightarrow> string" where
  "unlines ls = concat (map (\<lambda>l. l @ newline) ls)"

definition ServiceUnit :: "string \<Rightarrow> string \<Rightarrow> string" where
  "ServiceUnit mountpoint binary =
     (let mountpoint = normalizeMountpointForUnit mountpoint in
      unlines
        [''[Unit]'',
         ''Description=OneCloudRiver - OneDrive filesystem for %i'',
         ''Documentation=man:onecloudriver(1)'',
         ''After=network-online.target'',
         ''Wants=network-online.target'',
         '''',
         ''[Service]'',
         ''Type=simple'',
         ''ExecStart='' @ binary @ '' mount '' @ mountpoint @ '' -a %i'',
         ''ExecStop=/bin/fusermount3 -uz '' @ mountpoint,
         ''ExecReload=/bin/fusermount3 -uz '' @ mountpoint,
         ''Restart=on-failure'',
         ''RestartSec=10'',
         ''StandardOutput=journal'',
         ''StandardError=journal'',
         '''',
         ''[Install]'',
         ''WantedBy=default.target''])"

definition concreteMountpoint :: "go_error + string \<Rightarrow> string \<Rightarrow> string \<Rightarrow> string" where
  "concreteMountpoint home mountpoint account =
     (let m = (case home of Inl _ \<Rightarrow> mountpoint | Inr h \<Rightarrow> ReplaceAll mountpoint ''%h'' h) in ReplaceAll m ''%i'' account)"

definition unitName :: "string \<Rightarrow> string" where
  "unitName account = ''onecloudriver@'' @ account @ ''.service''"

definition DefaultMountpointFor :: "go_error + string \<Rightarrow> string \<Rightarrow> string" where
  "DefaultMountpointFor home account =
     (case home of Inl _ \<Rightarrow> [] | Inr h \<Rightarrow> Join (Join h ''OneDrive'') account)"

section \<open>Installed instances\<close>

definition isOnecloudriverUnit :: "string \<Rightarrow> bool" where
  "isOnecloudriverUnit unit \<longleftrightarrow> HasPrefix unit ''onecloudriver@'' \<and> HasSuffix unit ''.service''"

definition accountFromUnit :: "string \<Rightarrow> string \<times> bool" where
  "accountFromUnit unit =
     (if \<not> isOnecloudriverUnit unit then ([], False)
      else let account = TrimSuffix (TrimPrefix unit ''onecloudriver@'') ''.service'' in (account, account \<noteq> []))"

definition ErrTooLong :: go_error where
  "ErrTooLong = Plain ''bufio.Scanner: token too long''"

fun unit_names :: "string list \<Rightarrow> string list \<Rightarrow> go_error + string list" where
  "unit_names seen [] = Inr seen"
| "unit_names seen (line # ls) =
     (case Fields (TrimSpace line) of
        [] \<Rightarrow> unit_names seen ls
      | u # _ \<Rightarrow>
          if \<not> isOnecloudriverUnit u then unit_names seen ls
          else if u = ''onecloudriver@'' @ ''.service'' then unit_names seen ls
          else if \<not> snd (accountFromUnit u) then Inl (Plain (''invalid onecloudriver unit name '' @ u))
          else unit_names (List.insert u seen) ls)"

definition parseInstalledUnits :: "string \<Rightarrow> go_error + string list" where
  "parseInstalledUnits output =
     (case scan_lines output of
        (ls, tooLong) \<Rightarrow>
          (case unit_names [] ls of
             Inl e \<Rightarrow> Inl e
           | Inr seen \<Rightarrow>
               if tooLong then Inl (Wrap ''reading list-units output'' ErrTooLong) else Inr (sort seen)))"

definition isNoInstalledUnitsMessage :: "string \<Rightarrow> bool" where
  "isNoInstalledUnitsMessage message \<longleftrightarrow>
     (let m = map lower message in
      occurs ''no files found'' m \<or> occurs ''no units found'' m \<or> occurs ''no units matching'' m \<or> occurs ''0 units listed'' m)"

definition listInstalledUnits :: "runner \<Rightarrow> go_error + string list" where
  "listInstalledUnits run =
     (case run [''systemctl'', ''--user'', ''list-units'', ''--all'', ''--type=service'', ''--no-legend'', ''--plain'', ''onecloudriver@*''] of
        (stdout, stderr, Some e) \<Rightarrow>
          if stdout = [] \<and> isNoInstalledUnitsMessage (TrimSpace stderr) then Inr []
          else Inl (Wrap ''could not list installed systemd units'' e)
      | (stdout, _, None) \<Rightarrow> parseInstalledUnits stdout)"

section \<open>State of a unit\<close>

record unit_show =
  us_activeState :: string
  us_subState :: string
  us_pid :: int
  us_execStart :: string
  us_enabled :: string

definition show_property :: "string \<Rightarrow> string \<Rightarrow> unit_show \<Rightarrow> go_error + unit_show" where
  "show_property key v r =
     (if key = ''ActiveState'' then Inr (r\<lparr>us_activeState := v\<rparr>)
      else if key = ''SubState'' then Inr (r\<lparr>us_subState := v\<rparr>)
      else if key = ''MainPID'' then
        (if v = [] then Inr r
         else case Atoi v of
                Some n \<Rightarrow> if n < 0 then Inl (Plain (''invalid MainPID '' @ v)) else Inr (r\<lparr>us_pid := n\<rparr>)
              | None \<Rightarrow> Inl (Plain (''invalid MainPID '' @ v)))
      else if key = ''ExecStart'' then Inr (r\<lparr>us_execStart := v\<rparr>)
      else if key = ''UnitFileState'' then Inr (r\<lparr>us_enabled := v\<rparr>)
      else Inr r)"

fun show_lines :: "string list \<Rightarrow> bool \<times> bool \<times> unit_show \<Rightarrow> go_error + bool \<times> bool \<times> unit_show" where
  "show_lines [] s = Inr s"
| "show_lines (line # ls) (seenActive, seenSub, r) =
     (case Cut (CHR ''='') line of
        None \<Rightarrow> Inl (Plain (''malformed systemctl property '' @ line))
      | Some (key, v) \<Rightarrow>
          (case show_property key v r of
             Inl e \<Rightarrow> Inl e
           | Inr r \<Rightarrow> show_lines ls (seenActive \<or> key = ''ActiveState'', seenSub \<or> key = ''SubState'', r)))"

definition parseUnitShowOutput :: "string \<Rightarrow> go_error + unit_show" where
  "parseUnitShowOutput output =
     (case scan_lines output of
        (ls, tooLong) \<Rightarrow>
          (case show_lines ls (False, False, \<lparr>us_activeState = [], us_subState = [], us_pid = 0, us_execStart = [], us_enabled = []\<rparr>) of
             Inl e \<Rightarrow> Inl e
           | Inr (seenActive, seenSub, r) \<Rightarrow>
               if tooLong then Inl (Wrap ''reading systemctl properties'' ErrTooLong)
               else if \<not> seenActive \<or> \<not> seenSub then Inl (Plain ''systemctl output is missing ActiveState or SubState'')
               else Inr r))"

definition showUnit :: "runner \<Rightarrow> string \<Rightarrow> go_error + unit_show" where
  "showUnit run unit =
     (case run [''systemctl'', ''--user'', ''show'', unit, ''--property=ActiveState,SubState,MainPID,ExecStart,UnitFileState'', ''--no-pager''] of
        (_, _, Some e) \<Rightarrow> Inl (Wrap (''could not query systemd unit '' @ unit) e)
      | (stdout, _, None) \<Rightarrow> parseUnitShowOutput stdout)"

definition normalizeUnitState :: "string \<Rightarrow> string \<Rightarrow> string" where
  "normalizeUnitState activeState subState =
     (if activeState = ''active'' \<and> subState = ''running'' then ''running''
      else if activeState = ''activating'' \<and> subState = ''auto-restart'' then ''restarting''
      else if activeState = ''activating'' then ''starting''
      else if activeState = ''deactivating'' then ''stopping''
      else if activeState = ''failed'' then ''failed''
      else if activeState = ''inactive'' \<or> activeState = ''active'' \<and> subState = ''exited'' then ''stopped''
      else ''unknown'')"

text \<open>\<^verbatim>\<open>strconv.ParseUint\<close> of two hexadecimal digits.\<close>

definition hex_digit :: "char \<Rightarrow> nat option" where
  "hex_digit c =
     (let n = code_of c in
      if 48 \<le> n \<and> n \<le> 57 then Some (n - 48)
      else if 97 \<le> n \<and> n \<le> 102 then Some (n - 87)
      else if 65 \<le> n \<and> n \<le> 70 then Some (n - 55) else None)"

definition hex_byte :: "char \<Rightarrow> char \<Rightarrow> char option" where
  "hex_byte a b = (case (hex_digit a, hex_digit b) of (Some x, Some y) \<Rightarrow> Some (char_of (16 * x + y)) | _ \<Rightarrow> None)"

fun unescape :: "string \<Rightarrow> string" where
  "unescape (c # x # a # b # s) =
     (case (if c = CHR 0x5C \<and> x = CHR ''x'' then hex_byte a b else None) of
        Some d \<Rightarrow> d # unescape s
      | None \<Rightarrow> c # unescape (x # a # b # s))"
| "unescape s = s"

definition decodeSystemdArgument :: "string \<Rightarrow> string" where
  "decodeSystemdArgument v =
     (let v = (if length v \<ge> 2 \<and> hd v = CHR 0x22 \<and> last v = CHR 0x22 then butlast (tl v) else v) in unescape v)"

definition argv_part :: "string \<Rightarrow> string" where
  "argv_part execStart =
     (case Index execStart ''argv[]='' of
        None \<Rightarrow> execStart
      | Some k \<Rightarrow>
          let command = drop (k + length ''argv[]='') execStart in
          (case Index command '' ;'' of None \<Rightarrow> command | Some e \<Rightarrow> take e command))"

definition parseMountpoint :: "string \<Rightarrow> string" where
  "parseMountpoint execStart =
     (let command = argv_part execStart in
      case Index command '' mount '' of
        None \<Rightarrow> []
      | Some k \<Rightarrow>
          let m = drop (k + length '' mount '') command in
          (case Index m '' -a '' of None \<Rightarrow> [] | Some e \<Rightarrow> decodeSystemdArgument (TrimSpace (take e m))))"

definition expandMountpoint :: "go_error + string \<Rightarrow> string \<Rightarrow> string \<Rightarrow> string" where
  "expandMountpoint home mountpoint account =
     (if mountpoint = [] then []
      else let m = (case home of Inl _ \<Rightarrow> mountpoint | Inr h \<Rightarrow> ReplaceAll mountpoint ''%h'' h) in ReplaceAll m ''%i'' account)"

record unit_status =
  st_Unit :: string
  st_Account :: string
  st_ActiveState :: string
  st_SubState :: string
  st_State :: string
  st_PID :: int
  st_Mountpoint :: string
  st_JournalTail :: "string list"

definition buildUnitStatus :: "go_error + string \<Rightarrow> string \<Rightarrow> string \<Rightarrow> unit_show \<Rightarrow> unit_status" where
  "buildUnitStatus home unit account s =
     \<lparr>st_Unit = unit, st_Account = account, st_ActiveState = us_activeState s, st_SubState = us_subState s,
      st_State = normalizeUnitState (us_activeState s) (us_subState s), st_PID = us_pid s,
      st_Mountpoint = expandMountpoint home (parseMountpoint (us_execStart s)) account, st_JournalTail = []\<rparr>"

definition trim_right_newlines :: "string \<Rightarrow> string" where
  "trim_right_newlines s = rev (dropWhile (\<lambda>c. c = CHR 0x0D \<or> c = CHR 0x0A) (rev s))"

definition journalTail :: "runner \<Rightarrow> string \<Rightarrow> string \<Rightarrow> go_error + string list" where
  "journalTail run unit ten =
     (case run [''journalctl'', ''--user'', ''-u'', unit, ''-n'', ten, ''--no-pager''] of
        (_, _, Some e) \<Rightarrow> Inl (Wrap (''could not read journal for '' @ unit) e)
      | (stdout, _, None) \<Rightarrow>
          let t = trim_right_newlines stdout in Inr (if t = [] then [] else split_on (CHR 0x0A) t))"

text \<open>The status, the failure to read the journal, and the failure of the query.\<close>

definition queryUnitStatus :: "runner \<Rightarrow> go_error + string \<Rightarrow> string \<Rightarrow> go_error + unit_status \<times> go_error option" where
  "queryUnitStatus run home account =
     (if TrimSpace account = [] then Inl (Plain ''account must not be empty'')
      else
        let unit = unitName account in
        case showUnit run unit of
          Inl e \<Rightarrow> Inl e
        | Inr s \<Rightarrow>
            let status = buildUnitStatus home unit account s in
            if st_State status = ''running'' then Inr (status, None)
            else (case journalTail run unit ''10'' of
                    Inl e \<Rightarrow> Inr (status, Some e)
                  | Inr journal \<Rightarrow> Inr (status\<lparr>st_JournalTail := journal\<rparr>, None)))"

definition runningMountpoint :: "runner \<Rightarrow> go_error + string \<Rightarrow> string \<Rightarrow> string \<times> bool" where
  "runningMountpoint run home account =
     (case queryUnitStatus run home account of
        Inl _ \<Rightarrow> ([], False)
      | Inr (status, _) \<Rightarrow>
          if st_State status \<noteq> ''running'' \<or> st_Mountpoint status = [] then ([], False) else (st_Mountpoint status, True))"

record instance_info =
  ii_Unit :: string
  ii_Account :: string
  ii_Enabled :: string
  ii_ActiveState :: string
  ii_SubState :: string
  ii_State :: string
  ii_Mountpoint :: string

fun query_instances :: "runner \<Rightarrow> go_error + string \<Rightarrow> string list \<Rightarrow> go_error + instance_info list" where
  "query_instances run home [] = Inr []"
| "query_instances run home (u # us) =
     (case showUnit run u of
        Inl e \<Rightarrow> Inl (Wrap (''querying installed unit '' @ u) e)
      | Inr s \<Rightarrow>
          (case accountFromUnit u of
             (_, False) \<Rightarrow> Inl (Plain (''invalid onecloudriver unit name '' @ u))
           | (account, True) \<Rightarrow>
               let st = buildUnitStatus home u account s;
                   info = \<lparr>ii_Unit = u, ii_Account = account, ii_Enabled = us_enabled s, ii_ActiveState = st_ActiveState st,
                           ii_SubState = st_SubState st, ii_State = st_State st, ii_Mountpoint = st_Mountpoint st\<rparr>
               in (case query_instances run home us of Inl e \<Rightarrow> Inl e | Inr is \<Rightarrow> Inr (info # is))))"

definition listInstances :: "runner \<Rightarrow> go_error + string \<Rightarrow> go_error + instance_info list" where
  "listInstances run home =
     (case listInstalledUnits run of
        Inl e \<Rightarrow> Inl e
      | Inr units \<Rightarrow>
          (case query_instances run home units of
             Inl e \<Rightarrow> Inl e
           | Inr is \<Rightarrow> Inr (sort_key ii_Account (sort_key ii_Unit is))))"

end
