(* ===== verification/Service_Actions.thy ===== *)
theory Service_Actions
  imports Service Account
begin

text \<open>
  Installing, removing and controlling the service (\<^verbatim>\<open>internal/service/systemd.go\<close>,
  \<^verbatim>\<open>internal/service/results.go\<close> and the \<^verbatim>\<open>service\<close> command of \<^verbatim>\<open>cmd/onecloudriver/service.go\<close>).  Every
  action exists twice in the code: one prints for people, one returns a result for programs.  The state
  is the file system and what the external programs (\<^verbatim>\<open>systemctl\<close>, \<^verbatim>\<open>mount\<close>, \<^verbatim>\<open>fusermount\<close>) keep; a command
  line may change the latter.  A warning or an error of a result is the error value whose text the code
  stores.
\<close>

record 'w service_env =
  se_os :: os_env
  se_run :: "string list \<Rightarrow> 'w \<Rightarrow> (string \<times> string \<times> go_error option) \<times> 'w"
  se_xdg :: string
  se_home :: "go_error + string"
  se_argv0 :: string
  se_binary :: binary_env

type_synonym 'w service_world = "os_state \<times> 'w"

definition command_error :: "'w service_env \<Rightarrow> string list \<Rightarrow> 'w service_world \<Rightarrow> go_error option \<times> 'w service_world" where
  "command_error E cmd = (\<lambda>(s, w). case se_run E cmd w of ((_, _, e), w) \<Rightarrow> (e, (s, w)))"

section \<open>Mountpoints\<close>

definition isMounted :: "'w service_env \<Rightarrow> string \<Rightarrow> 'w service_world \<Rightarrow> (go_error + bool) \<times> 'w service_world" where
  "isMounted E mp = (\<lambda>(s, w).
     case se_run E [''mount''] w of
       ((_, _, Some e), w) \<Rightarrow> (Inl (Wrap ''could not read the mount table'' e), (s, w))
     | ((out, _, None), w) \<Rightarrow> (Inr (occurs mp out), (s, w)))"

definition fuse_unmount :: "'w service_env \<Rightarrow> string \<Rightarrow> 'w service_world \<Rightarrow> go_error option \<times> 'w service_world" where
  "fuse_unmount E mp st =
     (case command_error E [''fusermount3'', ''-uz'', mp] st of
        (None, st) \<Rightarrow> (None, st)
      | (Some err3, st) \<Rightarrow>
          (case command_error E [''fusermount'', ''-uz'', mp] st of
             (None, st) \<Rightarrow> (None, st)
           | (Some err, st) \<Rightarrow> (Some (Wrap (''could not unmount '' @ mp) (Joined err3 err)), st)))"

definition UnmountMountpoint :: "'w service_env \<Rightarrow> string \<Rightarrow> 'w service_world \<Rightarrow> go_error option \<times> 'w service_world" where
  "UnmountMountpoint E account st =
     (let mp = DefaultMountpointFor (se_home E) account in
      if mp = [] then (None, st)
      else case isMounted E mp st of
             (Inl e, st) \<Rightarrow> (Some e, st)
           | (Inr mounted, st) \<Rightarrow> if \<not> mounted then (None, st) else fuse_unmount E mp st)"

definition unmountQuiet :: "'w service_env \<Rightarrow> string \<Rightarrow> 'w service_world \<Rightarrow> go_error option \<times> 'w service_world" where
  "unmountQuiet E account st =
     (let mp = DefaultMountpointFor (se_home E) account in
      if mp = [] then (None, st)
      else case isMounted E mp st of
             (Inl e, st) \<Rightarrow> (Some e, st)
           | (Inr mounted, st) \<Rightarrow> if \<not> mounted then (None, st) else fuse_unmount E mp st)"

definition ensureMountpointDir ::
  "'w service_env \<Rightarrow> string \<Rightarrow> string \<Rightarrow> 'w service_world \<Rightarrow> go_error option \<times> 'w service_world" where
  "ensureMountpointDir E mountpoint account = (\<lambda>(s, w).
     let dir = concreteMountpoint (se_home E) mountpoint account in
     case os_stat (se_os E) dir s of
       Inr _ \<Rightarrow> (None, (s, w))
     | Inl e \<Rightarrow>
         if \<not> os_IsNotExist e then (Some (Wrap (''error checking mountpoint '' @ dir) e), (s, w))
         else case os_mkdir (se_os E) dir s of
                (Some e, s) \<Rightarrow> (Some (Wrap (''error creating mountpoint '' @ dir) e), (s, w))
              | (None, s) \<Rightarrow> (None, (s, w)))"

section \<open>Actions that print\<close>

definition Systemctl ::
  "'w service_env \<Rightarrow> string \<Rightarrow> string \<Rightarrow> 'w service_world \<Rightarrow> go_error option \<times> 'w service_world" where
  "Systemctl E action account st =
     (let unit = unitName account in
      case command_error E [''systemctl'', ''--user'', action, unit] st of
        (Some e, st) \<Rightarrow> (Some (Wrap (''error running systemctl '' @ action @ '' '' @ unit) e), st)
      | (None, st) \<Rightarrow> (None, st))"

definition EnableUnit :: "'w service_env \<Rightarrow> string \<Rightarrow> 'w service_world \<Rightarrow> go_error option \<times> 'w service_world" where
  "EnableUnit E account st =
     (let unit = unitName account in
      case command_error E [''systemctl'', ''--user'', ''enable'', ''--now'', unit] st of
        (Some e, st) \<Rightarrow> (Some (Wrap (''error enabling systemd unit '' @ unit) e), st)
      | (None, st) \<Rightarrow> (None, st))"

definition daemon_reload :: "'w service_env \<Rightarrow> 'w service_world \<Rightarrow> go_error option \<times> 'w service_world" where
  "daemon_reload E st =
     (case command_error E [''systemctl'', ''--user'', ''daemon-reload''] st of
        (Some e, st) \<Rightarrow> (Some (Wrap ''error reloading systemd daemon'' e), st)
      | (None, st) \<Rightarrow> (None, st))"

definition InstallService ::
  "'w service_env \<Rightarrow> string \<Rightarrow> string \<Rightarrow> 'w service_world \<Rightarrow> go_error option \<times> 'w service_world" where
  "InstallService E mountpoint account = (\<lambda>(s, w).
     case ServiceFilePath (se_xdg E) (se_home E) of
       Inl e \<Rightarrow> (Some e, (s, w))
     | Inr path \<Rightarrow>
         (case resolveBinary (se_binary E) (se_argv0 E) of
            Inl e \<Rightarrow> (Some e, (s, w))
          | Inr binary \<Rightarrow>
              (case os_mkdir (se_os E) (parent_dir path) s of
                 (Some e, s) \<Rightarrow> (Some (Wrap ''error creating systemd directory'' e), (s, w))
               | (None, s) \<Rightarrow>
                   (case os_writefile (se_os E) path (map char_byte (ServiceUnit mountpoint binary)) s of
                      (Some e, s) \<Rightarrow> (Some (Wrap ''error writing service file'' e), (s, w))
                    | (None, s) \<Rightarrow>
                        (case ensureMountpointDir E mountpoint account (s, w) of
                           (Some e, st) \<Rightarrow> (Some e, st)
                         | (None, st) \<Rightarrow> daemon_reload E st)))))"

text \<open>Removing: the failures that are reported as warnings on the way, without the words around them, and the error.\<close>

definition warned ::
  "('w service_world \<Rightarrow> go_error option \<times> 'w service_world) \<Rightarrow> go_error list \<times> 'w service_world
     \<Rightarrow> go_error list \<times> 'w service_world" where
  "warned act = (\<lambda>(ws, st). case act st of (None, st) \<Rightarrow> (ws, st) | (Some e, st) \<Rightarrow> (ws @ [e], st))"

definition remove_account :: "'w service_env \<Rightarrow> string \<Rightarrow> go_error list \<times> 'w service_world \<Rightarrow> go_error list \<times> 'w service_world" where
  "remove_account E account ws =
     warned (Systemctl E ''disable'' account)
       (warned (Systemctl E ''stop'' account)
         (warned (UnmountMountpoint E account) ws))"

definition stop_unit :: "'w service_env \<Rightarrow> string \<Rightarrow> go_error list \<times> 'w service_world \<Rightarrow> go_error list \<times> 'w service_world" where
  "stop_unit E unit ws =
     warned (command_error E [''systemctl'', ''--user'', ''disable'', unit])
       (warned (command_error E [''systemctl'', ''--user'', ''stop'', unit]) ws)"

text \<open>The first column of every line that is not blank.\<close>

definition listed_units :: "string \<Rightarrow> string list" where
  "listed_units output =
     concat (map (\<lambda>line. case Fields (TrimSpace line) of [] \<Rightarrow> [] | unit # _ \<Rightarrow> [unit]) (split_on (CHR 0x0A) output))"

definition list_units_command :: "string list" where
  "list_units_command = [''systemctl'', ''--user'', ''list-units'', ''--plain'', ''--no-legend'', ''onecloudriver@*'']"

definition stop_running :: "'w service_env \<Rightarrow> string list \<Rightarrow> 'w service_world \<Rightarrow> go_error list \<times> 'w service_world" where
  "stop_running E accounts st =
     (if accounts \<noteq> [] then fold (remove_account E) accounts ([], st)
      else case st of (s, w) \<Rightarrow>
        (case se_run E list_units_command w of
           ((output, _, e), w) \<Rightarrow>
             fold (stop_unit E) (listed_units output)
               (case e of None \<Rightarrow> [] | Some e \<Rightarrow> [Wrap ''could not list the running instances'' e], (s, w))))"

definition UninstallService ::
  "'w service_env \<Rightarrow> string list \<Rightarrow> 'w service_world \<Rightarrow> (go_error list \<times> go_error option) \<times> 'w service_world" where
  "UninstallService E accounts st =
     (case ServiceFilePath (se_xdg E) (se_home E) of
        Inl e \<Rightarrow> (([], Some e), st)
      | Inr path \<Rightarrow>
          (case stop_running E accounts st of
             (ws, (s, w)) \<Rightarrow>
               (case os_stat (se_os E) path s of
                  Inl _ \<Rightarrow> ((ws, None), (s, w))
                | Inr _ \<Rightarrow>
                    (case os_remove (se_os E) path s of
                       (Some e, s) \<Rightarrow> ((ws, Some (Wrap ''error removing service file'' e)), (s, w))
                     | (None, s) \<Rightarrow> (case daemon_reload E (s, w) of (e, st) \<Rightarrow> ((ws, e), st))))))"

section \<open>Actions that return a result\<close>

record action_result =
  ar_Action :: string
  ar_OK :: bool
  ar_Account :: string
  ar_AffectedAccounts :: "string list"
  ar_ServiceFile :: string
  ar_Mountpoint :: string
  ar_Warning :: "go_error list"
  ar_Message :: string
  ar_Error :: "go_error option"

definition new_result :: "string \<Rightarrow> action_result" where
  "new_result action =
     \<lparr>ar_Action = action, ar_OK = False, ar_Account = [], ar_AffectedAccounts = [], ar_ServiceFile = [], ar_Mountpoint = [],
      ar_Warning = [], ar_Message = [], ar_Error = None\<rparr>"

text \<open>A failed result, with the error it shows and the error the function returns.\<close>

definition failed :: "action_result \<Rightarrow> go_error \<Rightarrow> go_error \<Rightarrow> action_result \<times> go_error option" where
  "failed r shown e = (r\<lparr>ar_Error := Some shown\<rparr>, Some e)"

definition runSystemctlQuiet ::
  "'w service_env \<Rightarrow> string \<Rightarrow> string \<Rightarrow> 'w service_world \<Rightarrow> go_error option \<times> 'w service_world" where
  "runSystemctlQuiet E action unit st =
     (case command_error E [''systemctl'', ''--user'', action, unit] st of
        (Some e, st) \<Rightarrow> (Some (Wrap (''error running systemctl '' @ action @ '' '' @ unit) e), st)
      | (None, st) \<Rightarrow> (None, st))"

definition EnableUnitQuiet :: "'w service_env \<Rightarrow> string \<Rightarrow> 'w service_world \<Rightarrow> go_error option \<times> 'w service_world" where
  "EnableUnitQuiet E account st =
     (let unit = unitName account in
      case command_error E [''systemctl'', ''--user'', ''enable'', ''--now'', unit] st of
        (Some e, st) \<Rightarrow> (Some (Wrap (''error enabling systemd unit '' @ unit) e), st)
      | (None, st) \<Rightarrow> (None, st))"

definition ensureMountpointDirQuiet ::
  "'w service_env \<Rightarrow> string \<Rightarrow> string \<Rightarrow> 'w service_world \<Rightarrow> go_error option \<times> 'w service_world" where
  "ensureMountpointDirQuiet E mountpoint account = (\<lambda>(s, w).
     let dir = concreteMountpoint (se_home E) mountpoint account in
     case os_stat (se_os E) dir s of
       Inr _ \<Rightarrow> (None, (s, w))
     | Inl e \<Rightarrow>
         if \<not> os_IsNotExist e then (Some (Wrap (''error checking mountpoint '' @ dir) e), (s, w))
         else case os_mkdir (se_os E) dir s of
                (Some e, s) \<Rightarrow> (Some (Wrap (''error creating mountpoint '' @ dir) e), (s, w))
              | (None, s) \<Rightarrow> (None, (s, w)))"

definition InstallServiceResult ::
  "'w service_env \<Rightarrow> string \<Rightarrow> string \<Rightarrow> 'w service_world \<Rightarrow> (action_result \<times> go_error option) \<times> 'w service_world" where
  "InstallServiceResult E mountpoint account = (\<lambda>(s, w).
     let r = (new_result ''install'')\<lparr>ar_Account := account, ar_Mountpoint := mountpoint\<rparr> in
     case ServiceFilePath (se_xdg E) (se_home E) of
       Inl e \<Rightarrow> (failed r e e, (s, w))
     | Inr path \<Rightarrow>
         let r = r\<lparr>ar_ServiceFile := path\<rparr> in
         (case resolveBinary (se_binary E) (se_argv0 E) of
            Inl e \<Rightarrow> (failed r e e, (s, w))
          | Inr binary \<Rightarrow>
              (case os_mkdir (se_os E) (parent_dir path) s of
                 (Some e, s) \<Rightarrow> (failed r e (Wrap ''error creating systemd directory'' e), (s, w))
               | (None, s) \<Rightarrow>
                   (case os_writefile (se_os E) path (map char_byte (ServiceUnit mountpoint binary)) s of
                      (Some e, s) \<Rightarrow> (failed r e (Wrap ''error writing service file'' e), (s, w))
                    | (None, s) \<Rightarrow>
                        (case ensureMountpointDirQuiet E mountpoint account (s, w) of
                           (Some e, st) \<Rightarrow> (failed r e e, st)
                         | (None, st) \<Rightarrow>
                             (case command_error E [''systemctl'', ''--user'', ''daemon-reload''] st of
                                (Some e, st) \<Rightarrow> (failed r e (Wrap ''error reloading systemd daemon'' e), st)
                              | (None, st) \<Rightarrow> ((r\<lparr>ar_OK := True\<rparr>, None), st)))))))"

definition remove_account_quiet ::
  "'w service_env \<Rightarrow> string \<Rightarrow> go_error list \<times> 'w service_world \<Rightarrow> go_error list \<times> 'w service_world" where
  "remove_account_quiet E account ws =
     warned (runSystemctlQuiet E ''disable'' (unitName account))
       (warned (runSystemctlQuiet E ''stop'' (unitName account))
         (warned (unmountQuiet E account) ws))"

definition stop_unit_quiet :: "'w service_env \<Rightarrow> string \<Rightarrow> go_error list \<times> 'w service_world \<Rightarrow> go_error list \<times> 'w service_world" where
  "stop_unit_quiet E unit ws =
     warned (runSystemctlQuiet E ''disable'' unit) (warned (runSystemctlQuiet E ''stop'' unit) ws)"

text \<open>The accounts that were affected and the warnings, or the error of the parser.\<close>

definition stop_instances ::
  "'w service_env \<Rightarrow> string list \<Rightarrow> 'w service_world \<Rightarrow> (go_error + string list \<times> go_error list) \<times> 'w service_world" where
  "stop_instances E accounts st =
     (if accounts \<noteq> [] then
        (case fold (remove_account_quiet E) accounts ([], st) of (ws, st) \<Rightarrow> (Inr (accounts, ws), st))
      else case st of (s, w) \<Rightarrow>
        (case se_run E list_units_command w of
           ((_, _, Some e), w) \<Rightarrow> (Inr ([], [Wrap ''could not list the running instances'' e]), (s, w))
         | ((output, _, None), w) \<Rightarrow>
             (case parseInstalledUnits output of
                Inl e \<Rightarrow> (Inl e, (s, w))
              | Inr units \<Rightarrow>
                  let units = filter (\<lambda>u. snd (accountFromUnit u)) units in
                  (case fold (stop_unit_quiet E) units ([], (s, w)) of
                     (ws, st) \<Rightarrow> (Inr (map (\<lambda>u. fst (accountFromUnit u)) units, ws), st)))))"

definition UninstallServiceResult ::
  "'w service_env \<Rightarrow> string list \<Rightarrow> 'w service_world \<Rightarrow> (action_result \<times> go_error option) \<times> 'w service_world" where
  "UninstallServiceResult E accounts st =
     (let r = new_result ''uninstall'' in
      case ServiceFilePath (se_xdg E) (se_home E) of
        Inl e \<Rightarrow> (failed r e e, st)
      | Inr path \<Rightarrow>
          (case stop_instances E accounts st of
             (Inl e, st) \<Rightarrow> (failed r e e, st)
           | (Inr (affected, ws), (s, w)) \<Rightarrow>
               let r = r\<lparr>ar_AffectedAccounts := sort affected, ar_Warning := ws\<rparr> in
               (case os_stat (se_os E) path s of
                  Inl _ \<Rightarrow> ((r\<lparr>ar_Message := ''The service was not installed.'', ar_OK := True\<rparr>, None), (s, w))
                | Inr _ \<Rightarrow>
                    (case os_remove (se_os E) path s of
                       (Some e, s) \<Rightarrow> (failed r e (Wrap ''error removing service file'' e), (s, w))
                     | (None, s) \<Rightarrow>
                         let r = r\<lparr>ar_ServiceFile := path,
                                  ar_Message := (if accounts \<noteq> [] then ''Service uninstalled for all accounts.''
                                                 else ''Service uninstalled successfully.'')\<rparr> in
                         (case command_error E [''systemctl'', ''--user'', ''daemon-reload''] (s, w) of
                            (Some e, st) \<Rightarrow> (failed r e (Wrap ''error reloading systemd daemon'' e), st)
                          | (None, st) \<Rightarrow> ((r\<lparr>ar_OK := True\<rparr>, None), st))))))"

definition StartServiceResult ::
  "'w service_env \<Rightarrow> string \<Rightarrow> 'w service_world \<Rightarrow> (action_result \<times> go_error option) \<times> 'w service_world" where
  "StartServiceResult E account st =
     (let r = (new_result ''start'')\<lparr>ar_Account := account\<rparr> in
      case runSystemctlQuiet E ''start'' (unitName account) st of
        (Some e, st) \<Rightarrow> (failed r e e, st)
      | (None, st) \<Rightarrow> ((r\<lparr>ar_OK := True\<rparr>, None), st))"

definition StopServiceResult ::
  "'w service_env \<Rightarrow> string \<Rightarrow> 'w service_world \<Rightarrow> (action_result \<times> go_error option) \<times> 'w service_world" where
  "StopServiceResult E account st =
     (let r = (new_result ''stop'')\<lparr>ar_Account := account\<rparr> in
      case warned (unmountQuiet E account) ([], st) of
        (ws, st) \<Rightarrow>
          let r = r\<lparr>ar_Warning := ws\<rparr> in
          (case runSystemctlQuiet E ''stop'' (unitName account) st of
             (Some e, st) \<Rightarrow> (failed r e e, st)
           | (None, st) \<Rightarrow> ((r\<lparr>ar_OK := True\<rparr>, None), st)))"

definition RestartServiceResult ::
  "'w service_env \<Rightarrow> string \<Rightarrow> 'w service_world \<Rightarrow> (action_result \<times> go_error option) \<times> 'w service_world" where
  "RestartServiceResult E account st =
     (let r = (new_result ''restart'')\<lparr>ar_Account := account\<rparr> in
      case runSystemctlQuiet E ''restart'' (unitName account) st of
        (Some e, st) \<Rightarrow> (failed r e e, st)
      | (None, st) \<Rightarrow> ((r\<lparr>ar_OK := True\<rparr>, None), st))"

section \<open>The commands\<close>

definition expandHomePrefix :: "go_error + string \<Rightarrow> string \<Rightarrow> string" where
  "expandHomePrefix home path =
     (if path = ''~'' then (case home of Inr h \<Rightarrow> h | Inl _ \<Rightarrow> path)
      else if HasPrefix path ''~/'' then (case home of Inr h \<Rightarrow> Join h (TrimPrefix path ''~/'') | Inl _ \<Rightarrow> path)
      else path)"

text \<open>The mountpoint and the warning about a saved one that is ignored.\<close>

definition resolveInstallMountpoint :: "go_error + string \<Rightarrow> string \<Rightarrow> account \<Rightarrow> string \<times> go_error list" where
  "resolveInstallMountpoint home explicitFlag acc =
     (if explicitFlag \<noteq> [] then (expandHomePrefix home explicitFlag, [])
      else
        let fallback = expandHomePrefix home ''~/OneDrive/%i''; saved = pc_DefaultMountpoint (acc_Mount acc) in
        if saved \<noteq> [] \<and> occurs ''%i'' saved then (expandHomePrefix home saved, [])
        else if saved \<noteq> []
          then (fallback, [Plain (''Ignoring account-specific saved mountpoint '' @ saved @ ''; using '' @ fallback)])
        else (fallback, []))"

definition resolveServiceAccount :: "string \<Rightarrow> manager \<Rightarrow> go_error + account" where
  "resolveServiceAccount accountFlag m =
     (let name = (if accountFlag \<noteq> [] then Inr accountFlag else ResolveMainAccountName m) in
      case name of
        Inl _ \<Rightarrow> Inl (Plain ''you must specify an account with --account'')
      | Inr name \<Rightarrow>
          (case GetAccount name m of
             Inl e \<Rightarrow> Inl (Wrap (''account '' @ name @ '' does not exist'') e)
           | Inr acc \<Rightarrow> Inr acc))"

fun installAllText ::
  "'w service_env \<Rightarrow> manager \<Rightarrow> string \<Rightarrow> bool \<Rightarrow> string list \<Rightarrow> 'w service_world \<Rightarrow> go_error option \<times> 'w service_world" where
  "installAllText E m mountpoint enable [] st = (None, st)"
| "installAllText E m mountpoint enable (account # accounts) st =
     (case GetAccount account m of
        Inl e \<Rightarrow> (Some e, st)
      | Inr acc \<Rightarrow>
          (case InstallService E (fst (resolveInstallMountpoint (se_home E) mountpoint acc)) account st of
             (Some e, st) \<Rightarrow> (Some e, st)
           | (None, st) \<Rightarrow>
               (case (if enable then EnableUnit E account st else (None, st)) of
                  (Some e, st) \<Rightarrow> (Some e, st)
                | (None, st) \<Rightarrow> installAllText E m mountpoint enable accounts st)))"

text \<open>The loop of \<^verbatim>\<open>installAllStructured\<close>: the affected accounts, the warnings and the file so far.\<close>

fun install_all ::
  "'w service_env \<Rightarrow> manager \<Rightarrow> string \<Rightarrow> bool \<Rightarrow> string list \<Rightarrow> action_result \<Rightarrow> 'w service_world
     \<Rightarrow> (action_result \<times> go_error option) \<times> 'w service_world" where
  "install_all E m mountpoint enable [] r st = ((r\<lparr>ar_OK := True\<rparr>, None), st)"
| "install_all E m mountpoint enable (account # accounts) r st =
     (let give_up = (\<lambda>shown e. (r\<lparr>ar_ServiceFile := [], ar_Warning := [], ar_Error := shown\<rparr>, Some e)) in
      case GetAccount account m of
        Inl e \<Rightarrow> (give_up (Some e) e, st)
      | Inr acc \<Rightarrow>
          let (mp, warn) = resolveInstallMountpoint (se_home E) mountpoint acc in
          (case InstallServiceResult E mp account st of
             ((res, Some e), st) \<Rightarrow> (give_up (ar_Error res) e, st)
           | ((res, None), st) \<Rightarrow>
               (case (if enable then EnableUnitQuiet E account st else (None, st)) of
                  (Some e, st) \<Rightarrow> (give_up (Some e) e, st)
                | (None, st) \<Rightarrow>
                    install_all E m mountpoint enable accounts
                      (r\<lparr>ar_AffectedAccounts := ar_AffectedAccounts r @ [account], ar_ServiceFile := ar_ServiceFile res,
                        ar_Warning := (if set warn \<subseteq> set (ar_Warning r) then ar_Warning r else ar_Warning r @ warn)\<rparr>) st)))"

definition installAllStructured ::
  "'w service_env \<Rightarrow> manager \<Rightarrow> string \<Rightarrow> bool \<Rightarrow> 'w service_world \<Rightarrow> (action_result option \<times> go_error option) \<times> 'w service_world" where
  "installAllStructured E m mountpoint enable st =
     (let accounts = sort (ListAccounts m) in
      if accounts = [] then ((None, Some (Plain ''no accounts configured'')), st)
      else case install_all E m mountpoint enable accounts (new_result ''install'') st of
             ((r, e), st) \<Rightarrow> ((Some r, e), st))"

fun stop_all ::
  "'w service_env \<Rightarrow> string list \<Rightarrow> action_result \<Rightarrow> 'w service_world \<Rightarrow> (action_result \<times> go_error option) \<times> 'w service_world" where
  "stop_all E [] r st = ((r\<lparr>ar_OK := True, ar_Message := ''All accounts stopped.''\<rparr>, None), st)"
| "stop_all E (account # accounts) r st =
     (case StopServiceResult E account st of
        ((res, Some e), st) \<Rightarrow> ((r\<lparr>ar_Warning := [], ar_Error := ar_Error res\<rparr>, Some e), st)
      | ((res, None), st) \<Rightarrow>
          stop_all E accounts
            (r\<lparr>ar_AffectedAccounts := ar_AffectedAccounts r @ [account], ar_Warning := ar_Warning r @ ar_Warning res\<rparr>) st)"

definition stopAllStructured ::
  "'w service_env \<Rightarrow> string list \<Rightarrow> 'w service_world \<Rightarrow> (action_result \<times> go_error option) \<times> 'w service_world" where
  "stopAllStructured E accounts st = stop_all E (sort accounts) (new_result ''stop'') st"

definition validateOutputFormat :: "string \<Rightarrow> go_error option" where
  "validateOutputFormat name =
     (if name = ''text'' \<or> name = ''json'' \<or> name = ''yaml'' then None else Some (Plain (''unsupported format: '' @ name)))"

text \<open>Start and restart of one account or of all, with the action as a parameter.\<close>

definition serviceOperationAccount ::
  "(string \<Rightarrow> 'w service_world \<Rightarrow> (action_result \<times> go_error option) \<times> 'w service_world) \<Rightarrow> manager \<Rightarrow> string
     \<Rightarrow> 'w service_world \<Rightarrow> go_error option \<times> 'w service_world" where
  "serviceOperationAccount act m account st =
     (case GetAccount account m of
        Inl e \<Rightarrow> (Some e, st)
      | Inr _ \<Rightarrow> (case act account st of ((_, e), st) \<Rightarrow> (e, st)))"

fun operate_all ::
  "(string \<Rightarrow> 'w service_world \<Rightarrow> (action_result \<times> go_error option) \<times> 'w service_world) \<Rightarrow> manager \<Rightarrow> string list
     \<Rightarrow> 'w service_world \<Rightarrow> go_error option \<times> 'w service_world" where
  "operate_all act m [] st = (None, st)"
| "operate_all act m (account # accounts) st =
     (case serviceOperationAccount act m account st of
        (Some e, st) \<Rightarrow> (Some e, st)
      | (None, st) \<Rightarrow> operate_all act m accounts st)"

definition serviceOperationFunc ::
  "(string \<Rightarrow> 'w service_world \<Rightarrow> (action_result \<times> go_error option) \<times> 'w service_world) \<Rightarrow> manager \<Rightarrow> string \<Rightarrow> bool
     \<Rightarrow> string list \<Rightarrow> 'w service_world \<Rightarrow> go_error option \<times> 'w service_world" where
  "serviceOperationFunc act m format allAccounts args st =
     (case validateOutputFormat format of Some e \<Rightarrow> (Some e, st) | None \<Rightarrow>
      if allAccounts \<and> args \<noteq> [] then (Some (Plain ''cannot specify an account when using --all''), st)
      else if \<not> allAccounts \<and> args = [] then (Some (Plain ''specify an account or use --all to start all''), st)
      else if allAccounts then
        (if ListAccounts m = [] then (Some (Plain ''no accounts configured''), st)
         else operate_all act m (ListAccounts m) st)
      else serviceOperationAccount act m (hd args) st)"

text \<open>
  The bodies of the commands.  \<open>format\<close> is the output format; the document that is printed in the
  structured formats is the result, if there is one.
\<close>

definition install_one_structured ::
  "'w service_env \<Rightarrow> string \<Rightarrow> go_error list \<Rightarrow> bool \<Rightarrow> string \<Rightarrow> 'w service_world
     \<Rightarrow> (action_result \<times> go_error option) \<times> 'w service_world" where
  "install_one_structured E mp warn enable account st =
     (case InstallServiceResult E mp account st of
        ((r, Some e), st) \<Rightarrow> ((r\<lparr>ar_Warning := warn\<rparr>, Some e), st)
      | ((r, None), st) \<Rightarrow>
          let r = r\<lparr>ar_Warning := warn\<rparr> in
          (case (if enable then EnableUnitQuiet E account st else (None, st)) of
             (Some e, st) \<Rightarrow> (failed (r\<lparr>ar_OK := False\<rparr>) e e, st)
           | (None, st) \<Rightarrow> ((r, None), st)))"

definition service_install ::
  "'w service_env \<Rightarrow> manager \<Rightarrow> string \<Rightarrow> string \<Rightarrow> string \<Rightarrow> bool \<Rightarrow> bool \<Rightarrow> 'w service_world
     \<Rightarrow> (action_result option \<times> go_error option) \<times> 'w service_world" where
  "service_install E m format mountpoint accountFlag enable allAccounts st =
     (case validateOutputFormat format of
        Some e \<Rightarrow> ((None, Some e), st)
      | None \<Rightarrow>
          if allAccounts then
            (if format = ''text'' then
               (if ListAccounts m = [] then ((None, Some (Plain ''no accounts configured'')), st)
                else case installAllText E m mountpoint enable (ListAccounts m) st of (e, st) \<Rightarrow> ((None, e), st))
             else installAllStructured E m mountpoint enable st)
          else
            (case resolveServiceAccount accountFlag m of
               Inl e \<Rightarrow> ((None, Some e), st)
             | Inr acc \<Rightarrow>
                 let (mp, warn) = resolveInstallMountpoint (se_home E) mountpoint acc in
                 if format = ''text'' then
                   (case InstallService E mp (acc_Name acc) st of
                      (Some e, st) \<Rightarrow> ((None, Some e), st)
                    | (None, st) \<Rightarrow>
                        (case (if enable then EnableUnit E (acc_Name acc) st else (None, st)) of (e, st) \<Rightarrow> ((None, e), st)))
                 else (case install_one_structured E mp warn enable (acc_Name acc) st of
                         ((r, e), st) \<Rightarrow> ((Some r, e), st))))"

definition service_uninstall ::
  "'w service_env \<Rightarrow> manager \<Rightarrow> string \<Rightarrow> bool \<Rightarrow> 'w service_world
     \<Rightarrow> (action_result option \<times> go_error option) \<times> 'w service_world" where
  "service_uninstall E m format allAccounts st =
     (case validateOutputFormat format of
        Some e \<Rightarrow> ((None, Some e), st)
      | None \<Rightarrow>
          if allAccounts \<and> ListAccounts m = [] then
            ((None, if format = ''text'' then None else Some (Plain ''no accounts configured'')), st)
          else
            let accounts = (if allAccounts then ListAccounts m else []) in
            if format = ''text'' then (case UninstallService E accounts st of ((_, e), st) \<Rightarrow> ((None, e), st))
            else (case UninstallServiceResult E (sort accounts) st of ((r, e), st) \<Rightarrow> ((Some r, e), st)))"

text \<open>\<^verbatim>\<open>service stop\<close> in text mode: a failure for one account does not skip the others.\<close>

fun stop_all_text ::
  "'w service_env \<Rightarrow> string list \<Rightarrow> string list \<Rightarrow> 'w service_world \<Rightarrow> string list \<times> 'w service_world" where
  "stop_all_text E [] stopFailed st = (stopFailed, st)"
| "stop_all_text E (account # accounts) stopFailed st =
     (case UnmountMountpoint E account st of
        (_, st) \<Rightarrow>
          (case Systemctl E ''stop'' account st of
             (Some e, st) \<Rightarrow> stop_all_text E accounts (stopFailed @ [account]) st
           | (None, st) \<Rightarrow> stop_all_text E accounts stopFailed st))"

definition service_stop ::
  "'w service_env \<Rightarrow> manager \<Rightarrow> string \<Rightarrow> bool \<Rightarrow> string list \<Rightarrow> 'w service_world
     \<Rightarrow> (action_result option \<times> go_error option) \<times> 'w service_world" where
  "service_stop E m format allAccounts args st =
     (case validateOutputFormat format of
        Some e \<Rightarrow> ((None, Some e), st)
      | None \<Rightarrow>
          if allAccounts then
            (if ListAccounts m = [] then ((None, Some (Plain ''no accounts configured'')), st)
             else if format = ''text'' then
               (case stop_all_text E (ListAccounts m) [] st of
                  (stopFailed, st) \<Rightarrow>
                    ((None, if stopFailed = [] then None else Some (Plain ''could not stop the service for some accounts'')), st))
             else case stopAllStructured E (ListAccounts m) st of ((r, e), st) \<Rightarrow> ((Some r, e), st))
          else case args of
                 [] \<Rightarrow> ((None, Some (Plain ''specify an account or use --all to stop all'')), st)
               | account # _ \<Rightarrow>
                   if format = ''text'' then
                     (case UnmountMountpoint E account st of
                        (_, st) \<Rightarrow> (case Systemctl E ''stop'' account st of (e, st) \<Rightarrow> ((None, e), st)))
                   else (case StopServiceResult E account st of ((r, e), st) \<Rightarrow> ((Some r, e), st)))"

end
