(* ===== verification/Service_Props.thy ===== *)
theory Service_Props
  imports Service_Actions Content_Cache_Props
begin

text \<open>
  The status that is read back from systemd agrees with what was installed.
\<close>

section \<open>Unit names\<close>

lemma accountFromUnit_unitName: "accountFromUnit (unitName account) = (account, account \<noteq> [])"
proof -
  have split: "unitName account = (''onecloudriver@'' @ account) @ ''.service''" by (simp add: unitName_def)
  have p: "HasPrefix (unitName account) ''onecloudriver@''" unfolding unitName_def by (rule HasPrefix_append)
  have s: "HasSuffix (unitName account) ''.service''" unfolding split by (rule HasSuffix_append)
  have "TrimPrefix (unitName account) ''onecloudriver@'' = account @ ''.service''"
    unfolding unitName_def by (rule TrimPrefix_append)
  then show ?thesis using p s by (simp add: accountFromUnit_def isOnecloudriverUnit_def)
qed

section \<open>The mountpoint in the command line\<close>

lemma unescape_plain: "CHR 0x5C \<notin> set s \<Longrightarrow> unescape s = s"
  by (induction s rule: unescape.induct) auto

lemma decode_plain:
  assumes "CHR 0x5C \<notin> set v" "CHR 0x22 \<notin> set v"
  shows "decodeSystemdArgument v = v"
  using assms by (cases v) (auto simp: decodeSystemdArgument_def unescape_plain)

text \<open>
  How \<^verbatim>\<open>systemctl show\<close> prints the command line of the unit: a prefix, the arguments, and more fields
  after a semicolon.
\<close>

definition exec_show :: "string \<Rightarrow> string \<Rightarrow> string \<Rightarrow> string \<Rightarrow> string \<Rightarrow> string" where
  "exec_show pre binary mp account rest = pre @ ''argv[]='' @ (binary @ '' mount '' @ mp @ '' -a '' @ account) @ '' ;'' @ rest"

lemma argv_part_at:
  assumes "Index s ''argv[]='' = Some k" "drop (k + length ''argv[]='') s = args @ rest" "Index (args @ rest) '' ;'' = Some (length args)"
  shows "argv_part s = args"
  using assms by (simp add: argv_part_def)

lemma parseMountpoint_at:
  assumes "Index (argv_part s) '' mount '' = Some k" "drop (k + length '' mount '') (argv_part s) = mp @ rest"
    "Index (mp @ rest) '' -a '' = Some (length mp)"
  shows "parseMountpoint s = decodeSystemdArgument (TrimSpace mp)"
  using assms by (simp add: parseMountpoint_def Let_def)

lemma parseMountpoint_exec:
  assumes pre: "\<not> occurs ''argv[]='' (pre @ ''argv[]'')"
    and args: "\<not> occurs '' ;'' ((binary @ '' mount '' @ mp @ '' -a '' @ account) @ '' '')"
    and binary: "\<not> occurs '' mount '' (binary @ '' mount'')" and mp: "\<not> occurs '' -a '' (mp @ '' -a'')"
  shows "parseMountpoint (exec_show pre binary mp account rest) = decodeSystemdArgument (TrimSpace mp)"
proof -
  let ?args = "binary @ '' mount '' @ mp @ '' -a '' @ account"
  have "Index (exec_show pre binary mp account rest) ''argv[]='' = Some (length pre)"
    unfolding exec_show_def using pre by (intro Index_unique) simp_all
  moreover have "Index (?args @ '' ;'' @ rest) '' ;'' = Some (length ?args)"
    using args by (intro Index_unique) simp_all
  moreover have "drop (length pre + length ''argv[]='') (exec_show pre binary mp account rest) = ?args @ '' ;'' @ rest"
    by (simp add: exec_show_def)
  ultimately have argv: "argv_part (exec_show pre binary mp account rest) = ?args"
    by (intro argv_part_at) assumption+
  have "Index (binary @ '' mount '' @ (mp @ '' -a '' @ account)) '' mount '' = Some (length binary)"
    using binary by (intro Index_unique) simp_all
  moreover have "drop (length binary + length '' mount '') ?args = mp @ '' -a '' @ account" by simp
  moreover have "Index (mp @ '' -a '' @ account) '' -a '' = Some (length mp)" using mp by (intro Index_unique) simp_all
  ultimately show ?thesis by (intro parseMountpoint_at) (simp_all only: argv)
qed

section \<open>The output of systemctl show\<close>

definition show_output :: "string \<Rightarrow> string \<Rightarrow> string" where
  "show_output pid exec =
     unlines [''ActiveState=active'', ''SubState=running'', ''MainPID='' @ pid, ''ExecStart='' @ exec, ''UnitFileState=enabled'']"

lemma raw_lines_unlines:
  assumes "\<And>l. l \<in> set ls \<Longrightarrow> CHR 0x0A \<notin> set l"
  shows "raw_lines (unlines ls) = ls"
proof -
  have "split_on (CHR 0x0A) (unlines ls) = ls @ [[]]"
    using assms
  proof (induction ls)
    case (Cons l ls)
    then have "split_on (CHR 0x0A) (l @ CHR 0x0A # unlines ls) = l # split_on (CHR 0x0A) (unlines ls)"
      by (intro split_on_line) simp
    then show ?case using Cons by (simp add: unlines_def newline_def)
  qed (simp add: unlines_def)
  then show ?thesis by (simp add: raw_lines_def)
qed

lemma drop_cr_id: "CHR 0x0D \<notin> set l \<Longrightarrow> drop_cr l = l"
  by (metis drop_cr_def last_in_set)

lemma Cut_line: "d \<notin> set k \<Longrightarrow> Cut d (k @ d # v) = Some (k, v)"
  by (induction k) (auto simp: Cut_def)

lemma show_output_lines:
  assumes len: "length pid < 60000" "length exec < 60000" and nl: "CHR 0x0A \<notin> set pid \<union> set exec" "CHR 0x0D \<notin> set pid \<union> set exec"
  shows "scan_lines (show_output pid exec) =
    ([''ActiveState=active'', ''SubState=running'', ''MainPID='' @ pid, ''ExecStart='' @ exec, ''UnitFileState=enabled''], False)"
proof -
  let ?ls = "[''ActiveState=active'', ''SubState=running'', ''MainPID='' @ pid, ''ExecStart='' @ exec, ''UnitFileState=enabled'']"
  have "raw_lines (show_output pid exec) = ?ls"
    unfolding show_output_def using nl by (intro raw_lines_unlines) auto
  moreover have "takeWhile (\<lambda>l. length l < 65536) ?ls = ?ls" using len by simp
  moreover have "map drop_cr ?ls = ?ls" using nl by (auto intro!: drop_cr_id)
  ultimately show ?thesis by (simp add: scan_lines_def)
qed

lemma parse_show_output:
  assumes "length pid < 60000" "length exec < 60000" "CHR 0x0A \<notin> set pid \<union> set exec" "CHR 0x0D \<notin> set pid \<union> set exec"
    and pid: "Atoi pid = Some n" "0 \<le> n"
  shows "parseUnitShowOutput (show_output pid exec) =
    Inr \<lparr>us_activeState = ''active'', us_subState = ''running'', us_pid = n, us_execStart = exec, us_enabled = ''enabled''\<rparr>"
proof -
  have cut: "Cut (CHR ''='') (''MainPID='' @ pid) = Some (''MainPID'', pid)" "Cut (CHR ''='') (''ExecStart='' @ exec) = Some (''ExecStart'', exec)"
    using Cut_line [of "CHR ''=''" "''MainPID''" pid] Cut_line [of "CHR ''=''" "''ExecStart''" exec] by simp_all
  have const: "Cut (CHR ''='') ''ActiveState=active'' = Some (''ActiveState'', ''active'')"
    "Cut (CHR ''='') ''SubState=running'' = Some (''SubState'', ''running'')"
    "Cut (CHR ''='') ''UnitFileState=enabled'' = Some (''UnitFileState'', ''enabled'')"
    by (simp_all add: Cut_def)
  have "pid \<noteq> []" using pid(1) by (auto simp: Atoi_def)
  then show ?thesis
    unfolding parseUnitShowOutput_def show_output_lines [OF assms(1-4)]
    using pid by (simp add: cut [simplified] const show_property_def)
qed

section \<open>The running mount\<close>

text \<open>A mountpoint that systemd prints as it is: no quoting, no specifiers, nothing that looks like another argument.\<close>

definition printable_mountpoint :: "string \<Rightarrow> bool" where
  "printable_mountpoint mp \<longleftrightarrow>
     mp \<noteq> [] \<and> TrimSpace mp = mp \<and> CHR 0x5C \<notin> set mp \<and> CHR 0x22 \<notin> set mp \<and>
     \<not> occurs '' -a '' (mp @ '' -a'') \<and> \<not> occurs ''%h'' mp \<and> \<not> occurs ''%i'' mp"

definition show_command :: "string \<Rightarrow> string list" where
  "show_command unit =
     [''systemctl'', ''--user'', ''show'', unit, ''--property=ActiveState,SubState,MainPID,ExecStart,UnitFileState'', ''--no-pager'']"

lemma expand_printable: "printable_mountpoint mp \<Longrightarrow> expandMountpoint home mp account = mp"
  by (simp add: expandMountpoint_def printable_mountpoint_def ReplaceAll_none Let_def split: sum.split)


definition ex_runner :: runner where
  "ex_runner c =
     (if c = show_command (unitName ''u@x'')
      then (show_output ''42'' (exec_show ''{ path=/bin/ocr ; '' ''/bin/ocr'' ''/home/u/My Drive'' ''u@x'' '' ignore_errors=no }''), [], None)
      else ([], [], Some (Plain ''exit status 1'')))"


section \<open>Text and structured output\<close>

lemma quiet_same:
  "ensureMountpointDirQuiet = ensureMountpointDir" "unmountQuiet = UnmountMountpoint"
  "runSystemctlQuiet E action (unitName account) = Systemctl E action account"
  by (simp_all add: fun_eq_iff ensureMountpointDirQuiet_def ensureMountpointDir_def unmountQuiet_def UnmountMountpoint_def
      runSystemctlQuiet_def Systemctl_def Let_def)

lemma remove_account_quiet_same: "remove_account_quiet = remove_account"
  by (simp add: fun_eq_iff remove_account_quiet_def remove_account_def quiet_same)

lemma install_result_same:
  "case InstallServiceResult E mp a st of ((r, e), st') \<Rightarrow> InstallService E mp a st = (e, st') \<and> (ar_OK r \<longleftrightarrow> e = None)"
  by (auto simp: InstallServiceResult_def InstallService_def daemon_reload_def failed_def new_result_def quiet_same Let_def
      split: prod.splits sum.splits option.splits)

lemma uninstall_result_same:
  "case UninstallServiceResult E (a # as) st of
     ((r, e), st') \<Rightarrow> UninstallService E (a # as) st = ((ar_Warning r, e), st') \<and> (ar_OK r \<longleftrightarrow> e = None)"
  by (auto simp: UninstallServiceResult_def UninstallService_def stop_running_def stop_instances_def daemon_reload_def failed_def
      new_result_def remove_account_quiet_same Let_def simp del: fold.simps
      split: prod.splits sum.splits option.splits)


section \<open>Installing and removing the unit\<close>

text \<open>External commands do not touch the unit file.\<close>

lemma commands_keep_files:
  "fst (snd (command_error E cmd st)) = fst st" "fst (snd (UnmountMountpoint E a st)) = fst st"
  "fst (snd (Systemctl E action a st)) = fst st" "fst (snd (daemon_reload E st)) = fst st"
  by (auto simp: command_error_def UnmountMountpoint_def isMounted_def fuse_unmount_def Systemctl_def daemon_reload_def Let_def
      split: prod.splits sum.splits option.splits)

lemma warned_keeps_files: "(\<And>st. fst (snd (act st)) = fst st) \<Longrightarrow> fst (snd (warned act x)) = fst (snd x)"
  by (auto simp: warned_def split: prod.splits option.splits) (metis fst_conv snd_conv)+

lemma fold_keeps_files: "(\<And>a x. fst (snd (f a x)) = fst (snd x)) \<Longrightarrow> fst (snd (fold f as x)) = fst (snd x)"
  by (induction as arbitrary: x) auto

lemma stop_running_keeps_files: "fst (snd (stop_running E accounts st)) = fst st"
  by (auto simp: stop_running_def fold_keeps_files remove_account_def stop_unit_def warned_keeps_files commands_keep_files
      split: prod.splits)

lemma uninstall_removes:
  assumes path: "ServiceFilePath (se_xdg E) (se_home E) = Inr path"
    and ok: "f_stat (se_os E) path = None" "f_remove (se_os E) path = None" and dirs: "map_of (os_dirs s) path = None"
  shows "map_of (os_names (fst (snd (UninstallService E accounts (s, w))))) path = None"
proof -
  obtain ws w1 where st: "stop_running E accounts (s, w) = (ws, (s, w1))"
    using stop_running_keeps_files [of E accounts "(s, w)"] by (metis fst_conv prod.collapse)
  show ?thesis
  proof (cases "map_of (os_names s) path")
    case None
    then show ?thesis using ok dirs by (simp add: UninstallService_def path st os_stat_def)
  next
    case (Some f)
    obtain e st where d: "daemon_reload E (s\<lparr>os_names := AList.delete path (os_names s)\<rparr>, w1) = (e, st)" by (metis surj_pair)
    then have "fst st = s\<lparr>os_names := AList.delete path (os_names s)\<rparr>"
      using commands_keep_files(4) [of E "(s\<lparr>os_names := AList.delete path (os_names s)\<rparr>, w1)"] by simp
    then show ?thesis using ok Some d by (simp add: UninstallService_def path st os_stat_def os_remove_def delete_conv')
  qed
qed

lemma mkdir_keeps:
  assumes "os_mkdir E p s = (e, s1)"
  shows "os_names s1 = os_names s \<and> os_files s1 = os_files s \<and>
    (map_of (os_names s) q \<noteq> None \<longrightarrow> map_of (os_dirs s) q = None \<longrightarrow> map_of (os_dirs s1) q = None)"
  using assms by (auto simp: os_mkdir_def split: option.splits if_splits)

lemma writefile_stored:
  assumes "os_writefile E p d s = (None, s1)"
  shows "os_dirs s1 = os_dirs s \<and> (\<exists>f. map_of (os_names s1) p = Some f \<and> of_data (os_files s1 f) = d)"
proof -
  obtain r s2 where o: "os_open E p s = (r, s2)" by fastforce
  obtain f where f: "r = Inr f" "s1 = set_data f d (e_now E) s2"
    using assms o by (auto simp: os_writefile_def split: sum.splits option.splits)
  have "os_dirs s2 = os_dirs s" using o by (auto simp: os_open_def set_data_def split: option.splits if_splits)
  then show ?thesis using os_open_result [of E p s f s2] o f by (simp add: set_data_def)
qed

lemma ensure_keeps:
  assumes "ensureMountpointDir E mp a (s, w) = (e, (s1, w1))" "map_of (os_names s) q \<noteq> None" "map_of (os_dirs s) q = None"
  shows "os_names s1 = os_names s \<and> os_files s1 = os_files s \<and> map_of (os_dirs s1) q = None"
  using assms by (auto simp: ensureMountpointDir_def Let_def split: sum.splits prod.splits option.splits if_splits dest!: mkdir_keeps [where q = q])


text \<open>
  C27: Installing writes the unit that starts the mount, and removing it works whatever the state of
  systemd is: after a successful installation the unit file holds the generated unit, and removing the
  service deletes that file even if every external command fails, as long as the file itself can be
  examined and removed.
\<close>

theorem install_uninstall:
  assumes install: "InstallService E mp account (s, w) = (None, (s1, w1))"
    and path: "ServiceFilePath (se_xdg E) (se_home E) = Inr path" and dirs: "map_of (os_dirs s) path = None"
    and same: "se_xdg E' = se_xdg E" "se_home E' = se_home E"
    and ok: "f_stat (se_os E') path = None" "f_remove (se_os E') path = None"
  shows "(\<exists>binary f. resolveBinary (se_binary E) (se_argv0 E) = Inr binary \<and> map_of (os_names s1) path = Some f \<and>
      of_data (os_files s1 f) = map char_byte (ServiceUnit mp binary)) \<and>
    map_of (os_names (fst (snd (UninstallService E' accounts (s1, w2))))) path = None"
proof -
  obtain binary s2 s3 st where b: "resolveBinary (se_binary E) (se_argv0 E) = Inr binary"
    and mk: "os_mkdir (se_os E) (parent_dir path) s = (None, s2)"
    and wr: "os_writefile (se_os E) path (map char_byte (ServiceUnit mp binary)) s2 = (None, s3)"
    and en: "ensureMountpointDir E mp account (s3, w) = (None, st)" and re: "daemon_reload E st = (None, (s1, w1))"
    using install path by (auto simp: InstallService_def split: sum.splits prod.splits option.splits)
  obtain s4 w4 where st: "st = (s4, w4)" by fastforce
  have s1: "s1 = s4" using commands_keep_files(4) [of E st] re st by simp
  obtain f where f: "map_of (os_names s3) path = Some f" "of_data (os_files s3 f) = map char_byte (ServiceUnit mp binary)"
    and d3: "os_dirs s3 = os_dirs s2" using writefile_stored [OF wr] by blast
  show ?thesis
  proof (cases "path = parent_dir path")
    case True
    then have "map_of (os_names s2) path = None" "map_of (os_dirs s2) path \<noteq> None"
      using mk by (auto simp: os_mkdir_def split: option.splits if_splits)
    then have "\<exists>e. os_open (se_os E) path s2 = (Inl e, s2)" by (auto simp: os_open_def split: option.splits)
    then show ?thesis using wr by (auto simp: os_writefile_def)
  next
    case False
    then have "map_of (os_dirs s3) path = None" using mk dirs d3 by (auto simp: os_mkdir_def split: option.splits if_splits)
    then have s4: "os_names s4 = os_names s3" "os_files s4 = os_files s3" "map_of (os_dirs s4) path = None"
      using ensure_keeps [OF en [unfolded st], of path] f by simp_all
    show ?thesis
      using b f s1 s4 uninstall_removes [of E' path s1 accounts w2] path same ok by simp
  qed
qed


definition ex_service_env :: "unit service_env" where
  "ex_service_env =
     \<lparr>se_os = no_faults 7 [], se_run = (\<lambda>cmd w. (([], [], if cmd = [''systemctl'', ''--user'', ''daemon-reload''] then None else Some (Plain ''exit status 1'')), w)),
      se_xdg = ''/x'', se_home = Inr ''/h'', se_argv0 = ''/b/ocr'',
      se_binary = \<lparr>be_stat = (\<lambda>_. Some (True, 0x1ED)), be_Abs = Inr, be_LookPath = Inr\<rparr>\<rparr>"

definition ex_service_disk :: os_state where
  "ex_service_disk = \<lparr>os_dirs = [], os_names = [], os_files = (\<lambda>_. \<lparr>of_data = [], of_mtime = 0\<rparr>), os_next = 0\<rparr>"

theorem install_uninstall_witness:
  "\<exists>f. map_of (os_names (fst (snd (InstallService ex_service_env ''~/OneDrive/%i'' ''u@x'' (ex_service_disk, ())))))
       ''/x/systemd/user/onecloudriver@.service'' = Some f"
proof -
  have path: "ServiceFilePath (se_xdg ex_service_env) (se_home ex_service_env) = Inr ''/x/systemd/user/onecloudriver@.service''"
    by code_simp
  have "fst (InstallService ex_service_env ''~/OneDrive/%i'' ''u@x'' (ex_service_disk, ())) = None" by code_simp
  then obtain s1 w1 where "InstallService ex_service_env ''~/OneDrive/%i'' ''u@x'' (ex_service_disk, ()) = (None, (s1, w1))"
    by (metis prod.collapse)
  then show ?thesis
    using install_uninstall [OF _ path _ refl refl, of "''~/OneDrive/%i''" "''u@x''" ex_service_disk "()" s1 w1]
    by (auto simp: ex_service_disk_def ex_service_env_def no_faults_def)
qed

section \<open>Mountpoints of a template\<close>

text \<open>Replacing puts the new string between fixed pieces.\<close>

lemma ReplaceAll_pieces:
  "old \<noteq> [] \<Longrightarrow> \<exists>p ps. (\<forall>x. ReplaceAll s old x = p @ concat (map (\<lambda>q. x @ q) ps)) \<and> (occurs old s \<longrightarrow> ps \<noteq> [])"
proof (induction s rule: length_induct)
  case (1 s)
  show ?case
  proof (cases "HasPrefix s old")
    case True
    then have "length (drop (length old) s) < length s" using "1.prems" by (auto simp: HasPrefix_iff)
    then obtain p ps where "\<forall>x. ReplaceAll (drop (length old) s) old x = p @ concat (map (\<lambda>q. x @ q) ps)"
      using 1 by blast
    then have "\<forall>x. ReplaceAll s old x = [] @ concat (map (\<lambda>q. x @ q) (p # ps))"
      using True "1.prems" by (simp add: ReplaceAll.simps [of s])
    then show ?thesis by blast
  next
    case False
    show ?thesis
    proof (cases s)
      case Nil
      then show ?thesis using False
        by (intro exI [of _ "[]"]) (auto simp: ReplaceAll.simps [of "[]"] occurs_def Index.simps [of "[]"])
    next
      case (Cons c r)
      then obtain p ps where "\<forall>x. ReplaceAll r old x = p @ concat (map (\<lambda>q. x @ q) ps)" "occurs old r \<longrightarrow> ps \<noteq> []"
        using 1 by fastforce
      then show ?thesis using Cons False
        by (intro exI [of _ "c # p"] exI [of _ ps]) (auto simp: ReplaceAll.simps [of "c # r"] occurs_Cons)
    qed
  qed
qed

lemma length_pieces: "length (concat (map (\<lambda>q. x @ q) ps)) = length ps * length x + length (concat ps)"
  by (induction ps) auto

lemma ReplaceAll_inj:
  assumes "occurs old s" "old \<noteq> []" "ReplaceAll s old a = ReplaceAll s old b"
  shows "a = b"
proof -
  obtain p ps where ps: "\<forall>x. ReplaceAll s old x = p @ concat (map (\<lambda>q. x @ q) ps)" "ps \<noteq> []"
    using ReplaceAll_pieces [OF assms(2), of s] assms(1) by blast
  then have eq: "concat (map (\<lambda>q. a @ q) ps) = concat (map (\<lambda>q. b @ q) ps)" using assms(3) by simp
  then have "length ps * length a = length ps * length b" using arg_cong [OF eq, of length] unfolding length_pieces by simp
  then have "length a = length b" using ps(2) by simp
  then show ?thesis using eq ps(2) by (cases ps) simp_all
qed

lemma ReplaceAll_keeps_instance: "occurs ''%i'' m \<Longrightarrow> occurs ''%i'' (ReplaceAll m ''%h'' x)"
proof (induction m rule: length_induct)
  case (1 m)
  show ?case
  proof (cases "HasPrefix m ''%h''")
    case True
    then obtain r where m: "m = ''%h'' @ r" by (auto simp: HasPrefix_iff)
    then have "occurs ''%i'' r" using "1.prems" by (simp add: occurs_Cons HasPrefix_def)
    then have "occurs ''%i'' (ReplaceAll r ''%h'' x)" using 1 m by simp
    moreover have "ReplaceAll m ''%h'' x = x @ ReplaceAll r ''%h'' x" using True by (subst ReplaceAll.simps) (simp add: m)
    ultimately show ?thesis by (simp add: occurs_suffix)
  next
    case False
    show ?thesis
    proof (cases m)
      case Nil
      then show ?thesis using "1.prems" by (simp add: occurs_iff)
    next
      case (Cons c r)
      have step: "ReplaceAll m ''%h'' x = c # ReplaceAll r ''%h'' x" using False by (subst ReplaceAll.simps) (simp add: Cons)
      show ?thesis
      proof (cases "HasPrefix m ''%i''")
        case True
        then obtain r' where "r = CHR ''i'' # r'" "c = CHR ''%''" using Cons by (auto simp: HasPrefix_iff)
        then show ?thesis by (simp add: step ReplaceAll.simps [of "CHR ''i'' # r'"] HasPrefix_occurs HasPrefix_def)
      next
        case False
        then have "occurs ''%i'' r" using "1.prems" Cons by (simp add: occurs_Cons)
        then have "occurs ''%i'' (ReplaceAll r ''%h'' x)" using 1 Cons by simp
        then show ?thesis unfolding step by (simp add: occurs_Cons)
      qed
    qed
  qed
qed

lemma concreteMountpoint_inj:
  assumes "occurs ''%i'' mp" "concreteMountpoint home mp a = concreteMountpoint home mp b"
  shows "a = b"
proof (cases home)
  case (Inl e)
  then show ?thesis using assms ReplaceAll_inj [OF assms(1)] by (simp add: concreteMountpoint_def)
next
  case (Inr h)
  then show ?thesis
    using assms(2) ReplaceAll_inj [OF ReplaceAll_keeps_instance [OF assms(1), of h]] by (simp add: concreteMountpoint_def)
qed

lemma fallback_template:
  assumes "is_abs h" "Clean h \<noteq> [slash]"
  shows "occurs ''%i'' (expandHomePrefix (Inr h) ''~/OneDrive/%i'')"
proof -
  have rest: "clean_comps False [] (split_path ''OneDrive/%i'') = [''OneDrive'', ''%i'']" by code_simp
  have "expandHomePrefix (Inr h) ''~/OneDrive/%i'' = Join h ''OneDrive/%i''"
    by (simp add: expandHomePrefix_def HasPrefix_def TrimPrefix_def)
  also have "\<dots> = Clean h @ slash # join_path [''OneDrive'', ''%i'']"
    using Join_local(1) [OF assms(1) _ assms(2), of "''OneDrive/%i''"] unfolding rest by (simp add: dotdot_def)
  also have "\<dots> = (Clean h @ ''/OneDrive/'') @ ''%i'' @ []" by (simp add: slash_def)
  finally show ?thesis unfolding occurs_iff by blast
qed


definition ex_saved :: account where
  "ex_saved =
     \<lparr>acc_keyring = True, acc_Name = ''u@x'', acc_Config = authDefaults,
      acc_Mount = \<lparr>pc_DefaultMountpoint = ''/home/u/Drive'', pc_CacheDir = [], pc_CacheTTL = 0, pc_CacheMaxEntries = 0, pc_CacheMaxSize = 0,
        pc_DeltaInterval = 0, pc_MaxUploadsInFlight = 0, pc_MaxUploadRetries = 0, pc_HTTPTimeout = 0, pc_GraphRetries = 0,
        pc_PreWarmDepth = None\<rparr>,
      acc_ExpiresAt = 0, acc_AccessToken = [], acc_RefreshToken = [], acc_tokenFilePath = [], acc_lastKeyringErr = None\<rparr>"


end
