(* ===== verification/Control.thy ===== *)
theory Control
  imports Mount
begin

text \<open>
  The local control channel (\<^verbatim>\<open>internal/control\<close>, \<^verbatim>\<open>internal/fs/control_info.go\<close>): a mount serves its state
  on a Unix socket, and other invocations of the program ask for it.  The sockets of the machine are a
  map from paths to the server that listens there; a path without a server is a stale socket or some
  other file.  JSON is the record that is transferred.  \<^verbatim>\<open>startedAt\<close> is printed in RFC 3339, which is the
  time in whole seconds; the record holds that time.  \<^verbatim>\<open>humanize.Bytes\<close> is a parameter.
\<close>

section \<open>Durations as text\<close>

text \<open>\<^verbatim>\<open>Duration.String\<close>: digits after the point without trailing zeros.\<close>

definition frac_digits :: "nat \<Rightarrow> nat \<Rightarrow> string" where
  "frac_digits v prec =
     (let ds = nat_digits (v mod 10 ^ prec);
          padded = replicate (prec - length ds) (CHR ''0'') @ ds;
          short = rev (dropWhile (\<lambda>c. c = CHR ''0'') (rev padded))
      in if short = [] then [] else CHR ''.'' # short)"

definition duration_String :: "duration \<Rightarrow> string" where
  "duration_String d =
     (let u = nat \<bar>d\<bar>;
          body =
            (if u = 0 then ''0s''
             else if u < 10 ^ 3 then nat_digits u @ ''ns''
             else if u < 10 ^ 6 then nat_digits (u div 10 ^ 3) @ frac_digits u 3 @ [CHR 0xC2, CHR 0xB5] @ ''s''
             else if u < 10 ^ 9 then nat_digits (u div 10 ^ 6) @ frac_digits u 6 @ ''ms''
             else
               let secs = u div 10 ^ 9; mins = secs div 60;
                   s = nat_digits (secs mod 60) @ frac_digits u 9 @ ''s''
               in if mins = 0 then s
                  else if mins div 60 = 0 then nat_digits (mins mod 60) @ ''m'' @ s
                  else nat_digits (mins div 60) @ ''h'' @ nat_digits (mins mod 60) @ ''m'' @ s)
      in if d < 0 then CHR ''-'' # body else body)"

section \<open>The document\<close>

record api_info =
  api_Name :: string
  api_Version :: int

record daemon_info =
  dm_PID :: int
  dm_StartedAt :: time
  dm_GoVersion :: string
  dm_BinaryVersion :: string

record mount_info =
  mi_State :: string
  mi_Mountpoint :: string
  mi_CacheDir :: string
  mi_ConfigFile :: string

record config_info =
  ci_CacheTTL :: string
  ci_CacheMaxEntries :: int
  ci_CacheMaxSize :: string
  ci_DeltaInterval :: string
  ci_MaxUploadsInFlight :: int
  ci_MaxUploadRetries :: int
  ci_GraphRetries :: int
  ci_HTTPTimeout :: string
  ci_PreWarmDepth :: int
  ci_DebugAddr :: string

record info =
  inf_API :: api_info
  inf_Daemon :: daemon_info
  inf_Account :: string
  inf_Mount :: mount_info
  inf_Config :: config_info

definition formatCacheSize :: "(int \<Rightarrow> string) \<Rightarrow> int \<Rightarrow> string" where
  "formatCacheSize humanize n = (if n \<le> 0 then ''0'' else humanize n)"

text \<open>\<^verbatim>\<open>controlInfoProvider.Info\<close>; the server fills in the daemon.\<close>

definition provider_Info :: "(int \<Rightarrow> string) \<Rightarrow> string \<Rightarrow> string \<Rightarrow> mount_config \<Rightarrow> info" where
  "provider_Info humanize accountName mountpoint cfg =
     \<lparr>inf_API = \<lparr>api_Name = ''onecloudriver-control'', api_Version = 1\<rparr>,
      inf_Daemon = \<lparr>dm_PID = 0, dm_StartedAt = zero_time, dm_GoVersion = [], dm_BinaryVersion = []\<rparr>,
      inf_Account = accountName,
      inf_Mount = \<lparr>mi_State = ''running'', mi_Mountpoint = mountpoint, mi_CacheDir = CacheDir cfg, mi_ConfigFile = []\<rparr>,
      inf_Config =
        \<lparr>ci_CacheTTL = duration_String (CacheTTL cfg), ci_CacheMaxEntries = CacheMaxEntries cfg,
         ci_CacheMaxSize = formatCacheSize humanize (CacheMaxSize cfg), ci_DeltaInterval = duration_String (DeltaInterval cfg),
         ci_MaxUploadsInFlight = MaxUploadsInFlight cfg, ci_MaxUploadRetries = MaxUploadRetries cfg,
         ci_GraphRetries = GraphRetries cfg, ci_HTTPTimeout = duration_String (HTTPTimeout cfg),
         ci_PreWarmDepth = PreWarmDepth cfg, ci_DebugAddr = DebugAddr cfg\<rparr>\<rparr>"

section \<open>The server\<close>

record control_server =
  srv_sockPath :: string
  srv_provider :: info
  srv_startedAt :: time
  srv_binaryVer :: string
  srv_open :: bool

record ctl_env =
  ce_now :: time
  ce_pid :: int
  ce_goVersion :: string
  ce_remove :: "string \<Rightarrow> go_error option"
  ce_listen :: "string \<Rightarrow> go_error option"
  ce_chmod :: "string \<Rightarrow> go_error option"
  ce_shutdown :: "go_error option"
  ce_dial :: "string \<Rightarrow> go_error option"

text \<open>A server is listed with the environment of its process.\<close>

type_synonym sockets = "(string \<times> (control_server \<times> ctl_env) option) list"

definition remove_socket :: "ctl_env \<Rightarrow> string \<Rightarrow> sockets \<Rightarrow> go_error option \<times> sockets" where
  "remove_socket E p w =
     (case ce_remove E p of
        Some e \<Rightarrow> (Some e, w)
      | None \<Rightarrow> if map_of w p = None then (Some (Errno ENOENT), w) else (None, AList.delete p w))"

text \<open>\<^verbatim>\<open>net.Listen\<close> does not replace a file; closing the listener removes it.\<close>

definition NewServer ::
  "ctl_env \<Rightarrow> string \<Rightarrow> info option \<Rightarrow> string \<Rightarrow> sockets \<Rightarrow> (go_error + control_server option) \<times> sockets" where
  "NewServer E sockPath provider binaryVersion w =
     (if sockPath = [] then (Inr None, w)
      else case provider of
        None \<Rightarrow> (Inl (Plain ''control server: provider must not be nil''), w)
      | Some p \<Rightarrow>
          (case remove_socket E sockPath w of
             (err, w) \<Rightarrow>
               if (case err of None \<Rightarrow> False | Some e \<Rightarrow> \<not> os_IsNotExist e)
               then (Inl (Wrap ''removing stale socket'' (the err)), w)
               else
                 (case (if map_of w sockPath \<noteq> None then Some (Plain ''address already in use'') else ce_listen E sockPath) of
                    Some e \<Rightarrow> (Inl (Wrap (''listening on unix socket '' @ sockPath) e), w)
                  | None \<Rightarrow>
                      (case ce_chmod E sockPath of
                         Some e \<Rightarrow> (Inl (Wrap ''setting socket permissions'' e), w)
                       | None \<Rightarrow>
                           let s = \<lparr>srv_sockPath = sockPath, srv_provider = p, srv_startedAt = ce_now E,
                                    srv_binaryVer = binaryVersion, srv_open = True\<rparr>
                           in (Inr (Some s), AList.update sockPath (Some (s, E)) w)))))"

definition server_Close :: "ctl_env \<Rightarrow> control_server option \<times> sockets \<Rightarrow> go_error option \<times> control_server option \<times> sockets" where
  "server_Close E = (\<lambda>(srv, w).
     case srv of
       None \<Rightarrow> (None, (None, w))
     | Some s \<Rightarrow>
         if \<not> srv_open s then (None, (Some s, w))
         else
           let w = AList.delete (srv_sockPath s) w;
               (osErr, w) = remove_socket E (srv_sockPath s) w;
               err = (case ce_shutdown E of
                        Some e \<Rightarrow> Some e
                      | None \<Rightarrow> (case osErr of None \<Rightarrow> None | Some e \<Rightarrow> if os_IsNotExist e then None else Some e))
           in (map_option (Wrap ''shutting down control server'') err, (Some (s\<lparr>srv_open := False\<rparr>), w)))"

definition Addr :: "control_server option \<Rightarrow> string" where
  "Addr srv = (case srv of None \<Rightarrow> [] | Some s \<Rightarrow> srv_sockPath s)"

datatype ctl_body = InfoDoc info | ErrorDoc string | NoDoc

definition handleInfo :: "ctl_env \<Rightarrow> control_server \<Rightarrow> string \<Rightarrow> int \<times> ctl_body" where
  "handleInfo E s method =
     (if method \<noteq> ''GET'' then (405, ErrorDoc ''method not allowed'')
      else (200, InfoDoc ((srv_provider s)\<lparr>inf_Daemon :=
        \<lparr>dm_PID = ce_pid E, dm_StartedAt = srv_startedAt s div second * second, dm_GoVersion = ce_goVersion E,
         dm_BinaryVersion = srv_binaryVer s\<rparr>\<rparr>)))"

definition handleNotFound :: "int \<times> ctl_body" where
  "handleNotFound = (404, ErrorDoc ''not found'')"

definition mux :: "ctl_env \<Rightarrow> control_server \<Rightarrow> string \<Rightarrow> string \<Rightarrow> int \<times> ctl_body" where
  "mux E s method path = (if path = ''/v1/info'' then handleInfo E s method else handleNotFound)"

section \<open>The client\<close>

text \<open>The first \<^verbatim>\<open>*net.OpError\<close> and the first \<^verbatim>\<open>syscall.Errno\<close> of a chain.\<close>

fun errors_As_op :: "go_error \<Rightarrow> go_error option" where
  "errors_As_op (NetErr op t tmp e) = Some (NetErr op t tmp e)"
| "errors_As_op (Wrap _ e) = errors_As_op e"
| "errors_As_op (Joined a b) = (case errors_As_op a of Some e \<Rightarrow> Some e | None \<Rightarrow> errors_As_op b)"
| "errors_As_op _ = None"

fun unwrapToSyscallErrno :: "go_error \<Rightarrow> errno option" where
  "unwrapToSyscallErrno (Errno n) = Some n"
| "unwrapToSyscallErrno (NetErr _ _ _ (Some e)) = unwrapToSyscallErrno e"
| "unwrapToSyscallErrno (Wrap _ e) = unwrapToSyscallErrno e"
| "unwrapToSyscallErrno (Joined a b) = (case unwrapToSyscallErrno a of Some n \<Rightarrow> Some n | None \<Rightarrow> unwrapToSyscallErrno b)"
| "unwrapToSyscallErrno _ = None"

definition isSocketUnreachable :: "go_error \<Rightarrow> bool" where
  "isSocketUnreachable opErr =
     (case unwrapToSyscallErrno opErr of None \<Rightarrow> False | Some n \<Rightarrow> n = ENOENT \<or> n = ECONNREFUSED \<or> n = ENOTSOCK)"

definition isNotRunningError :: "go_error option \<Rightarrow> bool" where
  "isNotRunningError err =
     (case err of
        None \<Rightarrow> False
      | Some e \<Rightarrow>
          if os_IsNotExist e then True
          else (case errors_As_op e of None \<Rightarrow> False | Some opErr \<Rightarrow> isSocketUnreachable opErr))"

definition ErrNotRunning :: go_error where "ErrNotRunning = Plain ''control server not running (socket not found)''"
definition ErrNotFound :: go_error where "ErrNotFound = Plain ''endpoint not found (404)''"
definition ErrMethodNotAllowed :: go_error where "ErrMethodNotAllowed = Plain ''method not allowed (405)''"

text \<open>What \<^verbatim>\<open>http.Client.Do\<close> fails with when the connection is refused.\<close>

definition dial_error :: "errno \<Rightarrow> go_error" where
  "dial_error n = Wrap ''Get http://localhost/v1/info'' (NetErr ''dial unix'' False False (Some (Wrap ''connect'' (Errno n))))"

text \<open>A request over the socket: a missing file and a file nobody listens on refuse the connection.\<close>

definition socket_Do :: "ctl_env \<Rightarrow> string \<Rightarrow> string \<Rightarrow> string \<Rightarrow> sockets \<Rightarrow> go_error + int \<times> ctl_body" where
  "socket_Do E sockPath method path w =
     (case ce_dial E sockPath of
        Some e \<Rightarrow> Inl e
      | None \<Rightarrow>
          (case map_of w sockPath of
             None \<Rightarrow> Inl (dial_error ENOENT)
           | Some None \<Rightarrow> Inl (dial_error ECONNREFUSED)
           | Some (Some (s, S)) \<Rightarrow> Inr (mux S s method path)))"

text \<open>Decoding a document without the known fields gives the zero value.\<close>

definition zero_info :: info where
  "zero_info =
     \<lparr>inf_API = \<lparr>api_Name = [], api_Version = 0\<rparr>,
      inf_Daemon = \<lparr>dm_PID = 0, dm_StartedAt = zero_time, dm_GoVersion = [], dm_BinaryVersion = []\<rparr>, inf_Account = [],
      inf_Mount = \<lparr>mi_State = [], mi_Mountpoint = [], mi_CacheDir = [], mi_ConfigFile = []\<rparr>,
      inf_Config = \<lparr>ci_CacheTTL = [], ci_CacheMaxEntries = 0, ci_CacheMaxSize = [], ci_DeltaInterval = [],
        ci_MaxUploadsInFlight = 0, ci_MaxUploadRetries = 0, ci_GraphRetries = 0, ci_HTTPTimeout = [], ci_PreWarmDepth = 0,
        ci_DebugAddr = []\<rparr>\<rparr>"

definition client_Info :: "(go_error + int \<times> ctl_body) \<Rightarrow> go_error + info" where
  "client_Info answer =
     (case answer of
        Inl e \<Rightarrow> Inl (if isNotRunningError (Some e) then ErrNotRunning else Wrap ''requesting info'' e)
      | Inr (status, body) \<Rightarrow>
          if status = 404 then Inl ErrNotFound
          else if status = 405 then Inl ErrMethodNotAllowed
          else if status \<noteq> 200 then Inl (Plain ''unexpected status'')
          else (case body of
                  InfoDoc i \<Rightarrow> Inr i
                | ErrorDoc _ \<Rightarrow> Inr zero_info
                | NoDoc \<Rightarrow> Inl (Wrap ''decoding response'' (Plain ''EOF''))))"

definition control_Info :: "ctl_env \<Rightarrow> string \<Rightarrow> sockets \<Rightarrow> go_error + info" where
  "control_Info E sockPath w = client_Info (socket_Do E sockPath ''GET'' ''/v1/info'' w)"

text \<open>What \<^verbatim>\<open>Mount\<close> does with the channel: a failure to listen is not fatal.\<close>

definition start_control ::
  "ctl_env \<Rightarrow> (int \<Rightarrow> string) \<Rightarrow> string \<Rightarrow> string \<Rightarrow> mount_config \<Rightarrow> sockets \<Rightarrow> control_server option \<times> sockets" where
  "start_control E humanize accountName mountpoint cfg w =
     (if ControlSocket cfg = [] then (None, w)
      else case NewServer E (ControlSocket cfg) (Some (provider_Info humanize accountName mountpoint cfg)) [] w of
             (Inl _, w) \<Rightarrow> (None, w)
           | (Inr s, w) \<Rightarrow> (s, w))"

end
