(* ===== verification/Commands.thy ===== *)
theory Commands
  imports Control Service_Actions
begin

text \<open>
  The commands of \<^verbatim>\<open>cmd/onecloudriver\<close> on items, accounts, mounts and synchronisation.  The values of the
  flags are arguments; what is only printed is not modelled.  \<open>cli acc\<close> is the shared Graph client with
  the account as its token provider.
\<close>

section \<open>Accounts and items named by flags (\<^verbatim>\<open>common.go\<close>)\<close>

definition resolveAccountName :: "string \<Rightarrow> manager \<Rightarrow> go_error + string" where
  "resolveAccountName accountFlag m =
     (if accountFlag \<noteq> [] then Inr accountFlag
      else case ResolveMainAccountName m of
             Inl _ \<Rightarrow> Inl (Plain ''you must specify an account with --account'')
           | Inr name \<Rightarrow> Inr name)"

definition resolveAccount :: "string \<Rightarrow> manager \<Rightarrow> go_error + account" where
  "resolveAccount accountFlag m =
     (case resolveAccountName accountFlag m of
        Inl e \<Rightarrow> Inl e
      | Inr name \<Rightarrow>
          (case GetAccount name m of
             Inl e \<Rightarrow> Inl (Wrap (''account '' @ name @ '' does not exist'') e)
           | Inr acc \<Rightarrow> Inr acc))"

definition buildResource :: "string \<Rightarrow> string \<Rightarrow> string \<Rightarrow> go_error + resource" where
  "buildResource itemID itemPath label =
     (if itemID = [] \<and> itemPath = [] \<or> itemID \<noteq> [] \<and> itemPath \<noteq> []
      then Inl (Plain (''you must specify exactly one of --id or --path'' @ label))
      else Inr (if itemID \<noteq> [] then ItemID itemID else ItemPath itemPath))"

definition resourceLabel :: "string \<Rightarrow> string \<Rightarrow> string" where
  "resourceLabel itemID itemPath = (if itemID \<noteq> [] then itemID else itemPath)"

definition destFlagsError :: go_error where
  "destFlagsError = Plain ''you must specify exactly one of --dest-id or --dest-path for the destination''"

definition validateDestFlags :: "string \<Rightarrow> string \<Rightarrow> go_error option" where
  "validateDestFlags destID destPath =
     (if destID = [] \<and> destPath = [] \<or> destID \<noteq> [] \<and> destPath \<noteq> [] then Some destFlagsError else None)"

definition validateOptionalDestFlags :: "string \<Rightarrow> string \<Rightarrow> go_error option" where
  "validateOptionalDestFlags destID destPath = (if destID \<noteq> [] \<and> destPath \<noteq> [] then Some destFlagsError else None)"

definition buildDestResource :: "string \<Rightarrow> string \<Rightarrow> go_error + resource" where
  "buildDestResource destID destPath =
     (case validateDestFlags destID destPath of
        Some e \<Rightarrow> Inl e
      | None \<Rightarrow> Inr (if destID \<noteq> [] then ItemID destID else ItemPath destPath))"

definition buildOptionalDestResource :: "string \<Rightarrow> string \<Rightarrow> go_error + resource option" where
  "buildOptionalDestResource destID destPath =
     (case validateOptionalDestFlags destID destPath of
        Some e \<Rightarrow> Inl e
      | None \<Rightarrow>
          if destID = [] \<and> destPath = [] then Inr None
          else Inr (Some (if destID \<noteq> [] then ItemID destID else ItemPath destPath)))"

definition buildOptionalResource :: "string \<Rightarrow> string \<Rightarrow> go_error + resource option" where
  "buildOptionalResource itemID itemPath =
     (if itemID \<noteq> [] \<and> itemPath \<noteq> [] then Inl (Plain ''you must specify exactly one of --id or --path'')
      else if itemID = [] \<and> itemPath = [] then Inr None
      else Inr (Some (if itemID \<noteq> [] then ItemID itemID else ItemPath itemPath)))"

definition validateOutputFlags :: "string \<Rightarrow> string \<Rightarrow> go_error option" where
  "validateOutputFlags outputPath outputDir =
     (if outputPath = [] \<and> outputDir = [] \<or> outputPath \<noteq> [] \<and> outputDir \<noteq> []
      then Some (Plain ''you must specify exactly one of --output or --output-dir'') else None)"

definition requiredStringFlag :: "string \<Rightarrow> string \<Rightarrow> go_error + string" where
  "requiredStringFlag v missingMsg = (if v = [] then Inl (Plain missingMsg) else Inr v)"

section \<open>Item commands\<close>

record item_flags =
  fl_account :: string
  fl_id :: string
  fl_path :: string
  fl_name :: string
  fl_etag :: string
  fl_force :: bool
  fl_dest_id :: string
  fl_dest_path :: string
  fl_output :: string
  fl_output_dir :: string

text \<open>What every item command starts with.\<close>

definition item_target :: "manager \<Rightarrow> item_flags \<Rightarrow> string \<Rightarrow> go_error + account \<times> resource" where
  "item_target m fl label =
     (case resolveAccount (fl_account fl) m of
        Inl e \<Rightarrow> Inl e
      | Inr acc \<Rightarrow>
          (case buildResource (fl_id fl) (fl_path fl) label of Inl e \<Rightarrow> Inl e | Inr r \<Rightarrow> Inr (acc, r)))"

definition wrap_result :: "string \<Rightarrow> (go_error + 'a) \<times> 'w \<Rightarrow> (go_error + 'a) \<times> 'w" where
  "wrap_result msg = (\<lambda>(r, w). (case r of Inl e \<Rightarrow> Inl (Wrap msg e) | Inr x \<Rightarrow> Inr x, w))"

definition rmCmd :: "(account \<Rightarrow> 'w client) \<Rightarrow> manager \<Rightarrow> item_flags \<Rightarrow> 'w \<Rightarrow> go_error option \<times> 'w" where
  "rmCmd cli m fl w =
     (case item_target m fl [] of
        Inl e \<Rightarrow> (Some e, w)
      | Inr (acc, r) \<Rightarrow>
          if \<not> fl_force fl then (Some (Plain ''destructive operation: use --force to confirm deletion''), w)
          else case DeleteItem (cli acc) r (fl_etag fl) w of (e, w) \<Rightarrow> (map_option (Wrap ''error deleting'') e, w))"

definition mkdirCmd :: "(account \<Rightarrow> 'w client) \<Rightarrow> manager \<Rightarrow> item_flags \<Rightarrow> 'w \<Rightarrow> (go_error + drive_item) \<times> 'w" where
  "mkdirCmd cli m fl w =
     (case item_target m fl [] of
        Inl e \<Rightarrow> (Inl e, w)
      | Inr (acc, r) \<Rightarrow>
          (case requiredStringFlag (fl_name fl) ''you must specify the folder name with --name'' of
             Inl e \<Rightarrow> (Inl e, w)
           | Inr name \<Rightarrow> wrap_result ''error creating folder'' (CreateFolder (cli acc) r name w)))"

definition renameCmd :: "(account \<Rightarrow> 'w client) \<Rightarrow> manager \<Rightarrow> item_flags \<Rightarrow> 'w \<Rightarrow> (go_error + drive_item) \<times> 'w" where
  "renameCmd cli m fl w =
     (case item_target m fl [] of
        Inl e \<Rightarrow> (Inl e, w)
      | Inr (acc, r) \<Rightarrow>
          (case requiredStringFlag (fl_name fl) ''you must specify the new name with --name'' of
             Inl e \<Rightarrow> (Inl e, w)
           | Inr name \<Rightarrow> wrap_result ''error renaming'' (RenameItem (cli acc) r name (fl_etag fl) w)))"

definition mvCmd :: "(account \<Rightarrow> 'w client) \<Rightarrow> manager \<Rightarrow> item_flags \<Rightarrow> 'w \<Rightarrow> (go_error + drive_item) \<times> 'w" where
  "mvCmd cli m fl w =
     (case item_target m fl '' for the source'' of
        Inl e \<Rightarrow> (Inl e, w)
      | Inr (acc, r) \<Rightarrow>
          (case buildDestResource (fl_dest_id fl) (fl_dest_path fl) of
             Inl e \<Rightarrow> (Inl e, w)
           | Inr dest \<Rightarrow> wrap_result ''error moving'' (MoveItem (cli acc) r dest (fl_etag fl) w)))"

definition copyCmd :: "(account \<Rightarrow> 'w client) \<Rightarrow> manager \<Rightarrow> item_flags \<Rightarrow> 'w \<Rightarrow> (go_error + string) \<times> 'w" where
  "copyCmd cli m fl w =
     (case item_target m fl '' for the source'' of
        Inl e \<Rightarrow> (Inl e, w)
      | Inr (acc, r) \<Rightarrow>
          if fl_name fl = [] \<and> fl_dest_id fl = [] \<and> fl_dest_path fl = []
          then (Inl (Plain ''you must specify at least --name or --dest-id/--dest-path''), w)
          else case buildOptionalDestResource (fl_dest_id fl) (fl_dest_path fl) of
                 Inl e \<Rightarrow> (Inl e, w)
               | Inr dest \<Rightarrow> wrap_result ''error copying'' (CopyItem (cli acc) r (fl_name fl) dest w))"

definition infoCmd :: "(account \<Rightarrow> 'w client) \<Rightarrow> manager \<Rightarrow> item_flags \<Rightarrow> 'w \<Rightarrow> (go_error + drive_item) \<times> 'w" where
  "infoCmd cli m fl w =
     (case resolveAccount (fl_account fl) m of
        Inl e \<Rightarrow> (Inl e, w)
      | Inr acc \<Rightarrow>
          (case validateOutputFormat (fl_output fl) of
             Some e \<Rightarrow> (Inl e, w)
           | None \<Rightarrow>
               (case buildResource (fl_id fl) (fl_path fl) [] of
                  Inl e \<Rightarrow> (Inl e, w)
                | Inr r \<Rightarrow> wrap_result ''error fetching information'' (GetItem (cli acc) r w))))"

definition listFolderContents ::
  "'w client \<Rightarrow> resource \<Rightarrow> 'w \<Rightarrow> ((go_error + drive_item list) \<times> 'w) option" where
  "listFolderContents cli r w =
     (case GetItem cli r w of
        (Inl e, w) \<Rightarrow> Some (Inl e, w)
      | (Inr item, w) \<Rightarrow>
          if IsFolder item then ListChildren cli (ItemID (di_ID item)) w
          else case di_Parent item of
                 None \<Rightarrow> Some (Inl (Plain ''cannot determine the parent folder''), w)
               | Some p \<Rightarrow>
                   if par_ID p = [] then Some (Inl (Plain ''cannot determine the parent folder''), w)
                   else ListChildren cli (ItemID (par_ID p)) w)"

definition listCmd :: "(account \<Rightarrow> 'w client) \<Rightarrow> manager \<Rightarrow> item_flags \<Rightarrow> 'w \<Rightarrow> ((go_error + drive_item list) \<times> 'w) option" where
  "listCmd cli m fl w =
     (case resolveAccount (fl_account fl) m of
        Inl e \<Rightarrow> Some (Inl e, w)
      | Inr acc \<Rightarrow>
          (case validateOutputFormat (fl_output fl) of
             Some e \<Rightarrow> Some (Inl e, w)
           | None \<Rightarrow>
               (case buildOptionalResource (fl_id fl) (fl_path fl) of
                  Inl e \<Rightarrow> Some (Inl e, w)
                | Inr None \<Rightarrow> map_option (wrap_result ''error listing files'') (ListDriveRoot (cli acc) w)
                | Inr (Some r) \<Rightarrow> map_option (wrap_result ''error listing files'') (listFolderContents (cli acc) r w))))"

section \<open>Download\<close>

text \<open>\<^verbatim>\<open>os.Create\<close> truncates a file that exists.\<close>

definition os_create :: "os_env \<Rightarrow> string \<Rightarrow> os_state \<Rightarrow> (go_error + nat) \<times> os_state" where
  "os_create E p s =
     (case os_open E p s of
        (Inl e, s) \<Rightarrow> (Inl e, s)
      | (Inr fd, s) \<Rightarrow> (Inr fd, set_data fd [] (e_now E) s))"

text \<open>Where the file goes: the given path, or the remote name inside the given directory.\<close>

definition download_path :: "'w client \<Rightarrow> resource \<Rightarrow> string \<Rightarrow> string \<Rightarrow> 'w \<Rightarrow> (go_error + string) \<times> 'w" where
  "download_path cli r outputPath outputDir w =
     (if outputDir = [] then (Inr outputPath, w)
      else case GetItem cli r w of
             (Inl e, w) \<Rightarrow> (Inl (Wrap ''error fetching metadata'' e), w)
           | (Inr item, w) \<Rightarrow>
               if IsFolder item then (Inl (Plain (''cannot download a folder: '' @ di_Name item)), w)
               else if di_Name item = [] then (Inl (Plain ''the item has no name (possibly the root)''), w)
               else if \<not> IsLocal (di_Name item)
                 then (Inl (Plain (''unsafe remote filename, download aborted: '' @ di_Name item)), w)
               else (Inr (Join outputDir (di_Name item)), w))"

text \<open>The writes to the file may fail; a partial file is removed.\<close>

definition download_to :: "os_env \<Rightarrow> 'w client \<Rightarrow> resource \<Rightarrow> string \<Rightarrow> os_state \<times> 'w \<Rightarrow> go_error option \<times> os_state \<times> 'w" where
  "download_to E cli r path = (\<lambda>(s, w).
     case os_create E path s of
       (Inl e, s) \<Rightarrow> (Some (Wrap ''error creating output file'' e), (s, w))
     | (Inr fd, s) \<Rightarrow>
         (case GetItemContentStream cli r (f_write E) w of
            ((got, err), w) \<Rightarrow>
              let s = set_data fd got (e_now E) s in
              (case err of
                 None \<Rightarrow> (None, (s, w))
               | Some e \<Rightarrow> (Some (Wrap ''error downloading'' e), (snd (os_remove E path s), w)))))"

definition downloadCmd ::
  "os_env \<Rightarrow> (account \<Rightarrow> 'w client) \<Rightarrow> manager \<Rightarrow> item_flags \<Rightarrow> os_state \<times> 'w \<Rightarrow> go_error option \<times> os_state \<times> 'w" where
  "downloadCmd E cli m fl = (\<lambda>(s, w).
     case resolveAccount (fl_account fl) m of
       Inl e \<Rightarrow> (Some e, (s, w))
     | Inr acc \<Rightarrow>
         (case validateOutputFlags (fl_output fl) (fl_output_dir fl) of
            Some e \<Rightarrow> (Some e, (s, w))
          | None \<Rightarrow>
              (case buildResource (fl_id fl) (fl_path fl) [] of
                 Inl e \<Rightarrow> (Some e, (s, w))
               | Inr r \<Rightarrow>
                   (case download_path (cli acc) r (fl_output fl) (fl_output_dir fl) w of
                      (Inl e, w) \<Rightarrow> (Some e, (s, w))
                    | (Inr path, w) \<Rightarrow> download_to E (cli acc) r path (s, w)))))"

section \<open>Mount\<close>

record mount_flags =
  mf_cache_dir :: string
  mf_cache_ttl :: duration
  mf_cache_max_entries :: int
  mf_cache_max_size :: string
  mf_delta_interval :: duration
  mf_max_uploads :: int
  mf_upload_retries :: int
  mf_graph_retries :: int
  mf_http_timeout :: duration
  mf_control_socket :: string
  mf_pre_warm_depth :: "int option"
  mf_debug :: bool
  mf_debug_addr :: string

text \<open>\<open>mf_pre_warm_depth\<close> is \<open>None\<close> when the flag was not given.\<close>

definition applyPreWarmDepthFlag :: "int option \<Rightarrow> mount_config \<Rightarrow> go_error + mount_config" where
  "applyPreWarmDepthFlag flag cfg =
     (case flag of
        None \<Rightarrow> Inr cfg
      | Some depth \<Rightarrow>
          if depth < 0 \<or> depth > 10 then Inl (Plain ''--pre-warm-depth must be in range [0, 10]'')
          else Inr (cfg\<lparr>PreWarmDepth := depth\<rparr>))"

text \<open>\<open>parseBytes\<close> is \<^verbatim>\<open>humanize.ParseBytes\<close>; its result is converted to \<^verbatim>\<open>int64\<close>.\<close>

definition max_size_flag :: "(string \<Rightarrow> go_error + 64 word) \<Rightarrow> string \<Rightarrow> mount_config \<Rightarrow> go_error + mount_config" where
  "max_size_flag parseBytes v cfg =
     (if v \<noteq> [] \<and> v \<noteq> ''0''
      then (case parseBytes v of
              Inl e \<Rightarrow> Inl (Wrap ''invalid value for --cache-max-size'' e)
            | Inr n \<Rightarrow> Inr (cfg\<lparr>CacheMaxSize := sint n\<rparr>))
      else Inr cfg)"

definition mount_flag_config :: "(string \<Rightarrow> go_error + 64 word) \<Rightarrow> mount_flags \<Rightarrow> mount_config \<Rightarrow> go_error + mount_config" where
  "mount_flag_config parseBytes fl cfg =
     (let cfg = cfg\<lparr>CacheDir := (if mf_cache_dir fl \<noteq> [] then mf_cache_dir fl else CacheDir cfg),
                    CacheTTL := override (CacheTTL cfg) (mf_cache_ttl fl),
                    CacheMaxEntries := override (CacheMaxEntries cfg) (mf_cache_max_entries fl)\<rparr>
      in case max_size_flag parseBytes (mf_cache_max_size fl) cfg of
           Inl e \<Rightarrow> Inl e
         | Inr cfg \<Rightarrow>
             let cfg = cfg\<lparr>DeltaInterval := override (DeltaInterval cfg) (mf_delta_interval fl),
                           MaxUploadsInFlight := override (MaxUploadsInFlight cfg) (mf_max_uploads fl),
                           MaxUploadRetries := override (MaxUploadRetries cfg) (mf_upload_retries fl),
                           GraphRetries := override (GraphRetries cfg) (mf_graph_retries fl),
                           HTTPTimeout := override (HTTPTimeout cfg) (mf_http_timeout fl)\<rparr>;
                 cfg = cfg\<lparr>ControlSocket :=
                           (if mf_control_socket fl = [] then Join (CacheDir cfg) ''control.sock''
                            else if mf_control_socket fl = ''off'' then [] else mf_control_socket fl)\<rparr>
             in case applyPreWarmDepthFlag (mf_pre_warm_depth fl) cfg of
                  Inl e \<Rightarrow> Inl e
                | Inr cfg \<Rightarrow> Inr (cfg\<lparr>DebugAddr := (if mf_debug fl then mf_debug_addr fl else [])\<rparr>))"

definition buildPersistedMountConfig ::
  "persisted_config \<Rightarrow> string \<Rightarrow> mount_config \<Rightarrow> string \<Rightarrow> persisted_config" where
  "buildPersistedMountConfig persisted mountPoint config cacheDirFromFlag =
     persisted\<lparr>pc_DefaultMountpoint := mountPoint,
       pc_CacheDir := (if cacheDirFromFlag = [] then CacheDir config else pc_CacheDir persisted),
       pc_CacheTTL := CacheTTL config, pc_CacheMaxEntries := CacheMaxEntries config, pc_CacheMaxSize := CacheMaxSize config,
       pc_DeltaInterval := DeltaInterval config, pc_MaxUploadsInFlight := MaxUploadsInFlight config,
       pc_MaxUploadRetries := MaxUploadRetries config, pc_GraphRetries := GraphRetries config,
       pc_HTTPTimeout := HTTPTimeout config, pc_PreWarmDepth := Some (PreWarmDepth config)\<rparr>"

definition mount_point :: "string list \<Rightarrow> account \<Rightarrow> string" where
  "mount_point args acc =
     (case args of
        a # _ \<Rightarrow> a
      | [] \<Rightarrow> if pc_DefaultMountpoint (acc_Mount acc) \<noteq> [] then pc_DefaultMountpoint (acc_Mount acc) else ''./'' @ acc_Name acc)"

text \<open>
  The steps of \<^verbatim>\<open>mount\<close> before the file system is started: the mountpoint and the configuration that
  \<^verbatim>\<open>fs.Mount\<close> gets.  A failure to save the account is only reported.
\<close>

definition mount_prepare ::
  "('k, 'w) auth_env \<Rightarrow> string \<Rightarrow> (string \<Rightarrow> go_error + 64 word) \<Rightarrow> string \<Rightarrow> string list \<Rightarrow> mount_flags
     \<Rightarrow> manager \<times> ('k, 'w) auth_world \<Rightarrow> (go_error + string \<times> mount_config) \<times> manager \<times> ('k, 'w) auth_world" where
  "mount_prepare E home parseBytes accountFlag args fl = (\<lambda>(m, w).
     case resolveAccount accountFlag m of
       Inl e \<Rightarrow> (Inl e, (m, w))
     | Inr acc \<Rightarrow>
         let key = acc_Name acc;
             keep = (\<lambda>acc. m\<lparr>m_accounts := AList.update key acc (m_accounts m)\<rparr>);
             mountPoint = mount_point args acc
         in case GetAccessToken E (acc, w) of
              (Inl e, (acc, w)) \<Rightarrow> (Inl (Wrap (''could not obtain token for '' @ acc_Name acc) e), (keep acc, w))
            | (Inr _, (acc, w)) \<Rightarrow>
                (case mount_flag_config parseBytes fl (DefaultMountConfig home (acc_Name acc) (Some (acc_Mount acc))) of
                   Inl e \<Rightarrow> (Inl e, (keep acc, w))
                 | Inr config \<Rightarrow>
                     let acc = acc\<lparr>acc_Mount := buildPersistedMountConfig (acc_Mount acc) mountPoint config (mf_cache_dir fl)\<rparr>;
                         (_, (acc, w)) = Save E (acc, w)
                     in (Inr (mountPoint, config), (keep acc, w))))"

section \<open>Synchronisation\<close>

text \<open>
  The instance that holds the cache, with its mountpoint if it could be found out (empty otherwise).
  The probes are the answer of the control channel, the test of the lock and the running unit.
\<close>

definition detectActiveMountWith :: "string \<Rightarrow> go_error + info \<Rightarrow> go_error + bool \<Rightarrow> string \<times> bool \<Rightarrow> string option" where
  "detectActiveMountWith account sockInfo cacheInUse svcRunning =
     (case sockInfo of
        Inr i \<Rightarrow>
          if inf_Account i = account \<and> mi_State (inf_Mount i) = ''running'' \<and> mi_Mountpoint (inf_Mount i) \<noteq> []
          then Some (mi_Mountpoint (inf_Mount i))
          else (case cacheInUse of
                  Inr True \<Rightarrow> Some (if snd svcRunning \<and> fst svcRunning \<noteq> [] then fst svcRunning else [])
                | _ \<Rightarrow> None)
      | Inl _ \<Rightarrow>
          (case cacheInUse of
             Inr True \<Rightarrow> Some (if snd svcRunning \<and> fst svcRunning \<noteq> [] then fst svcRunning else [])
           | _ \<Rightarrow> None))"

definition detectActiveMount ::
  "ctl_env \<Rightarrow> sockets \<Rightarrow> stat_result \<Rightarrow> go_error + 'db \<Rightarrow> runner \<Rightarrow> go_error + string \<Rightarrow> string \<Rightarrow> string \<Rightarrow> string option" where
  "detectActiveMount C socks st opened run home account cacheDir =
     detectActiveMountWith account (control_Info C (Join cacheDir ''control.sock'') socks) (CacheDirInUse st opened)
       (runningMountpoint run home account)"

text \<open>
  The command after the probe \<open>holder\<close>: the number of changes, the disk, the network, and the database
  after it is closed again (\<open>None\<close> when it was not opened).  \<open>opened\<close> is what \<^verbatim>\<open>bolt.Open\<close> returns with its
  full timeout.
\<close>

definition closed_db :: "('db, 'tx, 'w) fs_env \<Rightarrow> (inode_json \<Rightarrow> nat) \<Rightarrow> inode_cache \<times> 'db \<Rightarrow> 'db" where
  "closed_db E json_len st = snd (fst (Close (env_bolt E) json_len st))"

definition syncCmd ::
  "('db, 'tx, 'w) fs_env \<Rightarrow> (inode_json \<Rightarrow> nat) \<Rightarrow> string option \<Rightarrow> mount_config \<Rightarrow> go_error + 'db \<Rightarrow> os_state \<times> 'w
     \<Rightarrow> ((go_error + nat) \<times> os_state \<times> 'w \<times> 'db option) option" where
  "syncCmd E json_len holder config opened = (\<lambda>(s, net).
     case holder of
       Some _ \<Rightarrow> Some (Inl (Plain ''sync failed: the cache directory is in use by an active mount or service''), s, net, None)
     | None \<Rightarrow>
         (case os_mkdir (env_os E) (CacheDir config) s of
            (Some e, s) \<Rightarrow> Some (Inl (Wrap ''error creating cache directory'' e), s, net, None)
          | (None, s) \<Rightarrow>
              (case initBoltDB (env_bolt E) (env_now E) opened NewInodeCache of
                 (None, e) \<Rightarrow> Some (Inl (case e of None \<Rightarrow> Plain ''sync failed'' | Some e \<Rightarrow> Wrap ''sync failed'' e), s, net, None)
               | (Some (c, db), _) \<Rightarrow>
                   (case NewContentCache (env_os E) (Join (CacheDir config) ''content'') s of
                      (Inl e, s) \<Rightarrow> Some (Inl (Wrap ''error creating ContentCache'' e), s, net, Some (closed_db E json_len (c, db)))
                    | (Inr cc, s) \<Rightarrow>
                        (case PollOnce E None json_len
                            (NewDeltaSync, \<lparr>fw_cache = c, fw_db = db, fw_cc = cc, fw_os = s, fw_net = net\<rparr>) of
                           None \<Rightarrow> None
                         | Some ((n, err), (d, w)) \<Rightarrow>
                             Some (case err of None \<Rightarrow> Inr n | Some e \<Rightarrow> Inl (Wrap ''error during delta sync'' e),
                                   fw_os w, fw_net w, Some (closed_db E json_len (fw_cache w, fw_db w))))))))"

end
