(* ===== verification/Command_Props.thy ===== *)
theory Command_Props
  imports Commands Content_Refine Graph_Props Auth_Props Upload_Props
begin

text \<open>
  Properties of the control channel and of the commands: what the channel answers, that a
  synchronisation notices a mount of the same cache, where a download is stored, and that a mount finds
  its configuration again.
\<close>

section \<open>The control channel\<close>

lemma remove_socket_other: "q \<noteq> p \<Longrightarrow> map_of (snd (remove_socket E p w)) q = map_of w q"
  by (simp add: remove_socket_def delete_conv' split: option.split)

lemma NewServer_serves:
  assumes "NewServer E p (Some P) v w = (Inr (Some s), w1)"
  shows "map_of w1 p = Some (Some (s, E)) \<and> (\<forall>q. q \<noteq> p \<longrightarrow> map_of w1 q = map_of w q) \<and>
    s = \<lparr>srv_sockPath = p, srv_provider = P, srv_startedAt = ce_now E, srv_binaryVer = v, srv_open = True\<rparr>"
  using assms remove_socket_other [of _ p E w]
  by (auto simp: NewServer_def Let_def update_conv' split: prod.splits if_splits option.splits)

lemma server_Close_gone:
  assumes "srv_open s" "server_Close E (Some s, w) = (e, (s', w1))"
  shows "map_of w1 (srv_sockPath s) = None \<and> (\<forall>q. q \<noteq> srv_sockPath s \<longrightarrow> map_of w1 q = map_of w q)"
  using assms by (auto simp: server_Close_def Let_def remove_socket_def delete_conv' split: prod.splits option.splits if_splits)

lemma control_Info_missing:
  "map_of w p = None \<Longrightarrow> ce_dial E p = None \<Longrightarrow> control_Info E p w = Inl ErrNotRunning"
  by (simp add: control_Info_def client_Info_def socket_Do_def dial_error_def isNotRunningError_def os_IsNotExist_def
      isSocketUnreachable_def)

lemma control_Info_running:
  "map_of w p = Some (Some (s, S)) \<Longrightarrow> ce_dial E p = None \<Longrightarrow>
   control_Info E p w = Inr ((srv_provider s)\<lparr>inf_Daemon :=
     \<lparr>dm_PID = ce_pid S, dm_StartedAt = srv_startedAt s div second * second, dm_GoVersion = ce_goVersion S,
      dm_BinaryVersion = srv_binaryVer s\<rparr>\<rparr>)"
  by (simp add: control_Info_def client_Info_def socket_Do_def mux_def handleInfo_def)

lemma control_Info_cong: "map_of w1 q = map_of w q \<Longrightarrow> control_Info E q w1 = control_Info E q w"
  by (simp add: control_Info_def socket_Do_def cong: option.case_cong)

text \<open>
  C25: A client gets from the control socket exactly the state the provider supplies, with the process
  fields filled in by the serving process whatever the provider put there; once the server is closed,
  however its shutdown went, the client is told that nothing runs.  Sockets at other paths are not
  affected, and a stale socket does not keep a server from starting.
\<close>

theorem control_info_served:
  assumes start: "NewServer E p (Some P) v w = (Inr (Some s), w1)" and dial: "ce_dial C p = None"
    and stop: "server_Close E' (Some s, w1) = (e, (s', w2))"
  shows "control_Info C p w1 = Inr (P\<lparr>inf_Daemon :=
      \<lparr>dm_PID = ce_pid E, dm_StartedAt = ce_now E div second * second, dm_GoVersion = ce_goVersion E, dm_BinaryVersion = v\<rparr>\<rparr>) \<and>
    control_Info C p w2 = Inl ErrNotRunning \<and>
    (\<forall>q. q \<noteq> p \<longrightarrow> control_Info C q w1 = control_Info C q w \<and> control_Info C q w2 = control_Info C q w)"
proof -
  note n = NewServer_serves [OF start]
  have s: "srv_open s" "srv_sockPath s = p" using n by simp_all
  note c = server_Close_gone [OF s(1) stop, unfolded s(2)]
  show ?thesis
    using n c dial control_Info_running [of w1 p s E C] control_Info_missing [of w2 p C] control_Info_cong [of w1 _ w C]
      control_Info_cong [of w2 _ w C] by simp
qed

definition ex_ctl :: ctl_env where
  "ex_ctl = \<lparr>ce_now = 3000000007, ce_pid = 42, ce_goVersion = ''go1.24'', ce_remove = (\<lambda>_. None), ce_listen = (\<lambda>_. None),
     ce_chmod = (\<lambda>_. None), ce_shutdown = Some (Plain ''context deadline exceeded''), ce_dial = (\<lambda>_. None)\<rparr>"

theorem control_info_served_witness:
  "\<exists>s w1. NewServer ex_ctl ''/c/control.sock'' (Some zero_info) ''v1'' [(''/c/control.sock'', None)] = (Inr (Some s), w1) \<and>
     (\<exists>i. control_Info ex_ctl ''/c/control.sock'' w1 = Inr i \<and> dm_PID (inf_Daemon i) = 42)"
proof -
  obtain s w1 where start: "NewServer ex_ctl ''/c/control.sock'' (Some zero_info) ''v1'' [(''/c/control.sock'', None)] = (Inr (Some s), w1)"
    by (simp add: NewServer_def remove_socket_def ex_ctl_def Let_def)
  obtain e s' w2 where stop: "server_Close ex_ctl (Some s, w1) = (e, (s', w2))" by (metis surj_pair)
  have "ce_dial ex_ctl ''/c/control.sock'' = None" by (simp add: ex_ctl_def)
  from control_info_served [OF start this stop] start show ?thesis by (simp add: ex_ctl_def)
qed

section \<open>What a mount remembers\<close>

definition no_mount_flags :: mount_flags where
  "no_mount_flags = \<lparr>mf_cache_dir = [], mf_cache_ttl = 0, mf_cache_max_entries = 0, mf_cache_max_size = ''0'', mf_delta_interval = 0,
     mf_max_uploads = 0, mf_upload_retries = 0, mf_graph_retries = 0, mf_http_timeout = 0, mf_control_socket = [],
     mf_pre_warm_depth = None, mf_debug = False, mf_debug_addr = ''127.0.0.1:6060''\<rparr>"

lemma override_override:
  "d > 0 \<Longrightarrow> override d (override (override d p) f) = override (override d p) f"
  by (simp add: override_def)

lemma override_zero [simp]: "override d 0 = d"
  by (simp add: override_def)

text \<open>The configuration that is saved gives the same settings back, for the cache directory that was saved before.\<close>

definition remembered :: "mount_config \<Rightarrow> mount_config \<Rightarrow> mount_config" where
  "remembered before cfg =
     cfg\<lparr>CacheDir := CacheDir before, CacheMaxSize := max 0 (CacheMaxSize cfg),
         ControlSocket := Join (CacheDir before) ''control.sock'', DebugAddr := []\<rparr>"

lemma max_size_flag_cases: "max_size_flag parse v c = Inr c' \<Longrightarrow> \<exists>z. c' = c\<lparr>CacheMaxSize := z\<rparr>"
  by (cases c) (auto simp: max_size_flag_def split: sum.splits if_splits)

lemma applyPreWarmDepthFlag_cases: "applyPreWarmDepthFlag v c = Inr c' \<Longrightarrow> \<exists>d. c' = c\<lparr>PreWarmDepth := d\<rparr>"
  by (cases c) (auto simp: applyPreWarmDepthFlag_def split: option.splits if_splits)

lemma mount_flag_config_fields:
  assumes "mount_flag_config parse fl b = Inr cfg"
  shows "CacheDir cfg = (if mf_cache_dir fl \<noteq> [] then mf_cache_dir fl else CacheDir b)"
    "CacheTTL cfg = override (CacheTTL b) (mf_cache_ttl fl)"
    "CacheMaxEntries cfg = override (CacheMaxEntries b) (mf_cache_max_entries fl)"
    "DeltaInterval cfg = override (DeltaInterval b) (mf_delta_interval fl)"
    "MaxUploadsInFlight cfg = override (MaxUploadsInFlight b) (mf_max_uploads fl)"
    "MaxUploadRetries cfg = override (MaxUploadRetries b) (mf_upload_retries fl)"
    "GraphRetries cfg = override (GraphRetries b) (mf_graph_retries fl)"
    "HTTPTimeout cfg = override (HTTPTimeout b) (mf_http_timeout fl)"
proof -
  let ?b = "b\<lparr>CacheDir := (if mf_cache_dir fl \<noteq> [] then mf_cache_dir fl else CacheDir b),
    CacheTTL := override (CacheTTL b) (mf_cache_ttl fl), CacheMaxEntries := override (CacheMaxEntries b) (mf_cache_max_entries fl)\<rparr>"
  obtain c where c: "max_size_flag parse (mf_cache_max_size fl) ?b = Inr c"
    using assms by (cases "max_size_flag parse (mf_cache_max_size fl) ?b") (simp_all add: mount_flag_config_def Let_def)
  obtain z where z: "c = ?b\<lparr>CacheMaxSize := z\<rparr>" using max_size_flag_cases [OF c] by blast
  let ?c = "c\<lparr>DeltaInterval := override (DeltaInterval b) (mf_delta_interval fl),
    MaxUploadsInFlight := override (MaxUploadsInFlight b) (mf_max_uploads fl),
    MaxUploadRetries := override (MaxUploadRetries b) (mf_upload_retries fl),
    GraphRetries := override (GraphRetries b) (mf_graph_retries fl), HTTPTimeout := override (HTTPTimeout b) (mf_http_timeout fl),
    ControlSocket := (if mf_control_socket fl = [] then Join (CacheDir ?b) ''control.sock''
      else if mf_control_socket fl = ''off'' then [] else mf_control_socket fl)\<rparr>"
  obtain d where d: "applyPreWarmDepthFlag (mf_pre_warm_depth fl) ?c = Inr d"
    using assms c z by (cases "applyPreWarmDepthFlag (mf_pre_warm_depth fl) ?c") (simp_all add: mount_flag_config_def Let_def cong: if_cong)
  obtain y where y: "d = ?c\<lparr>PreWarmDepth := y\<rparr>" using applyPreWarmDepthFlag_cases [OF d] by blast
  have "cfg = d\<lparr>DebugAddr := (if mf_debug fl then mf_debug_addr fl else [])\<rparr>"
    using assms c z d by (simp add: mount_flag_config_def Let_def cong: if_cong)
  then show "CacheDir cfg = (if mf_cache_dir fl \<noteq> [] then mf_cache_dir fl else CacheDir b)"
    "CacheTTL cfg = override (CacheTTL b) (mf_cache_ttl fl)"
    "CacheMaxEntries cfg = override (CacheMaxEntries b) (mf_cache_max_entries fl)"
    "DeltaInterval cfg = override (DeltaInterval b) (mf_delta_interval fl)"
    "MaxUploadsInFlight cfg = override (MaxUploadsInFlight b) (mf_max_uploads fl)"
    "MaxUploadRetries cfg = override (MaxUploadRetries b) (mf_upload_retries fl)"
    "GraphRetries cfg = override (GraphRetries b) (mf_graph_retries fl)"
    "HTTPTimeout cfg = override (HTTPTimeout b) (mf_http_timeout fl)"
    by (simp_all add: y z)
qed

lemma no_flags_config:
  "mount_flag_config parse no_mount_flags b = Inr (b\<lparr>ControlSocket := Join (CacheDir b) ''control.sock'', DebugAddr := []\<rparr>)"
  by (simp add: mount_flag_config_def no_mount_flags_def max_size_flag_def applyPreWarmDepthFlag_def Let_def)

lemma mount_flag_config_again:
  assumes "mount_flag_config parse fl (DefaultMountConfig home n (Some P)) = Inr cfg"
  shows "mount_flag_config parse' no_mount_flags
      (DefaultMountConfig home n (Some (buildPersistedMountConfig P mp cfg (mf_cache_dir fl)))) =
    Inr (remembered (DefaultMountConfig home n (Some P)) cfg)"
proof -
  have lim: "override 0 p = max 0 p" for p by (auto simp: override_def)
  note f = mount_flag_config_fields [OF assms]
  show ?thesis
    unfolding no_flags_config remembered_def sum.inject
    by (rule mount_config.equality)
      (simp_all add: f DefaultMountConfig_def buildPersistedMountConfig_def override_override lim Let_def)
qed

lemma save_keeps: "saveUnsafe E (a, w) = (r, (a', w')) \<Longrightarrow> acc_Name a' = acc_Name a \<and> acc_Mount a' = acc_Mount a"
  by (auto dest!: saveUnsafe_account)

lemma renewal_keeps:
  assumes "renewal_answer E resp (a, w) = (e, (a', w'))"
  shows "acc_Name a' = acc_Name a \<and> acc_Mount a' = acc_Mount a"
proof -
  obtain w'' where p: "purgeInvalidRefreshTokenLocked E (a, w) = (a\<lparr>acc_RefreshToken := [], acc_AccessToken := []\<rparr>, w'')"
    using purge_account by blast
  consider (taken) f where "take_tokens E f (a, w) = (e, (a', w'))"
    | (kept) "a' = a" | (purged) "a' = a\<lparr>acc_RefreshToken := [], acc_AccessToken := []\<rparr>"
    using assms by (auto simp: renewal_answer_def reject_renewal_def p Let_def split: token_body.splits if_splits)
  then show ?thesis
    by cases (auto simp: take_tokens_def Let_def split: prod.splits option.splits dest!: saveUnsafe_account)
qed

lemma GetAccessToken_keeps:
  assumes "GetAccessToken E (a, w) = (r, (a', w'))"
  shows "acc_Name a' = acc_Name a \<and> acc_Mount a' = acc_Mount a"
  using assms by (auto simp: GetAccessToken_def Refresh_def Let_def split: prod.splits option.splits sum.splits if_splits
    dest!: renewal_keeps)

lemma mount_prepare_account:
  assumes acc: "GetAccount name m = Inr acc" "acc_Name acc = name" "name \<noteq> []"
    and run: "mount_prepare E home parse name args fl (m, w) = (Inr (mp, cfg), (m1, w1))"
  shows "mp = mount_point args acc \<and> mount_flag_config parse fl (DefaultMountConfig home name (Some (acc_Mount acc))) = Inr cfg \<and>
    (\<exists>acc1. GetAccount name m1 = Inr acc1 \<and> acc_Name acc1 = name \<and>
       acc_Mount acc1 = buildPersistedMountConfig (acc_Mount acc) mp cfg (mf_cache_dir fl))"
proof -
  have r: "resolveAccount name m = Inr acc" using acc by (simp add: resolveAccount_def resolveAccountName_def)
  obtain x a w' where t: "GetAccessToken E (acc, w) = (x, (a, w'))" by (metis surj_pair)
  note k = GetAccessToken_keeps [OF t]
  obtain tok where x: "x = Inr tok" using run r t by (cases x) (auto simp: mount_prepare_def Let_def)
  obtain c where c: "mount_flag_config parse fl (DefaultMountConfig home name (Some (acc_Mount acc))) = Inr c"
    using run r t x k acc(2) by (cases "mount_flag_config parse fl (DefaultMountConfig home name (Some (acc_Mount acc)))")
      (auto simp: mount_prepare_def Let_def)
  let ?a = "a\<lparr>acc_Mount := buildPersistedMountConfig (acc_Mount acc) (mount_point args acc) c (mf_cache_dir fl)\<rparr>"
  obtain e a2 w2 where s: "Save E (?a, w') = (e, (a2, w2))" by (metis surj_pair)
  have "mp = mount_point args acc" "cfg = c" and m1: "m1 = m\<lparr>m_accounts := AList.update name a2 (m_accounts m)\<rparr>"
    using run r t x k acc(2) c s by (simp_all add: mount_prepare_def Let_def)
  moreover have "acc_Name a2 = name" "acc_Mount a2 = acc_Mount ?a"
    using save_keeps [OF s [unfolded Save_def]] k acc(2) by simp_all
  moreover have "GetAccount name m1 = Inr a2" by (simp add: m1 GetAccount_def update_conv')
  ultimately show ?thesis using c by simp
qed



text \<open>Two mounts in a row with a token that has not expired; the first one has a directory and a lifetime of its own.\<close>

lemma fresh_token:
  "acc_ExpiresAt a = 3600 \<Longrightarrow> acc_AccessToken a = ''A1'' \<Longrightarrow> GetAccessToken (ex_auth_env None) (a, w) = (Inr ''A1'', (a, w))"
  by (simp add: GetAccessToken_def Refresh_def ex_auth_env_def time_unix_def)

lemma mount_prepare_fresh:
  assumes a: "GetAccount name m = Inr a" "acc_Name a = name" "name \<noteq> []" "acc_ExpiresAt a = 3600" "acc_AccessToken a = ''A1''"
    and c: "mount_flag_config parse fl (DefaultMountConfig home name (Some (acc_Mount a))) = Inr cfg"
  shows "\<exists>m1 w1 a1. mount_prepare (ex_auth_env None) home parse name args fl (m, w) = (Inr (mount_point args a, cfg), (m1, w1)) \<and>
    GetAccount name m1 = Inr a1 \<and> acc_Name a1 = name \<and> acc_ExpiresAt a1 = 3600 \<and> acc_AccessToken a1 = ''A1''"
proof -
  let ?a = "a\<lparr>acc_Mount := buildPersistedMountConfig (acc_Mount a) (mount_point args a) cfg (mf_cache_dir fl)\<rparr>"
  obtain e a2 w2 where s: "saveUnsafe (ex_auth_env None) (?a, w) = (e, (a2, w2))" by (metis surj_pair)
  then obtain x where "a2 = ?a\<lparr>acc_lastKeyringErr := x\<rparr>" using saveUnsafe_account by blast
  then show ?thesis
    using a c s fresh_token [OF a(4,5)]
    by (simp add: mount_prepare_def resolveAccount_def resolveAccountName_def Save_def Let_def GetAccount_def update_conv')
qed



section \<open>Synchronisation and mounts\<close>

lemma mount_control_socket:
  assumes "mount_flag_config parse fl b = Inr cfg" "mf_control_socket fl = []"
  shows "ControlSocket cfg = Join (CacheDir cfg) ''control.sock''"
  using assms by (auto simp: mount_flag_config_def Let_def split: sum.splits dest!: max_size_flag_cases applyPreWarmDepthFlag_cases)

lemma saved_cache_dir:
  assumes "mount_flag_config parse fl (DefaultMountConfig home n (Some P)) = Inr cfg"
  shows "CacheDir (DefaultMountConfig home n (Some (buildPersistedMountConfig P mp cfg (mf_cache_dir fl)))) =
    CacheDir (DefaultMountConfig home n (Some P))"
  using arg_cong [OF mount_flag_config_again [OF assms, of parse mp, unfolded no_flags_config sum.inject], of CacheDir]
  by (simp add: remembered_def)

lemma served_mount_found:
  assumes "start_control S humanize name mp cfg socks = (Some srv, socks1)" "ControlSocket cfg = p" "ce_dial C p = None"
  shows "\<exists>i. control_Info C p socks1 = Inr i \<and> inf_Account i = name \<and> inf_Mount i = \<lparr>mi_State = ''running'', mi_Mountpoint = mp,
    mi_CacheDir = CacheDir cfg, mi_ConfigFile = []\<rparr>"
proof -
  have "NewServer S p (Some (provider_Info humanize name mp cfg)) [] socks = (Inr (Some srv), socks1)"
    using assms(1,2) by (auto simp: start_control_def split: if_splits prod.splits sum.splits)
  from NewServer_serves [OF this] show ?thesis
    using control_Info_running [of socks1 p srv S C] assms(3) by (simp add: provider_Info_def)
qed

text \<open>
  C12: A synchronisation of an account whose cache is used by a mount with the saved configuration ends
  with an error and touches neither the disk nor the network nor the database: the mount is noticed by
  its control channel, whose answer names the mountpoint, or, when that is disabled or out of reach, by
  the lock of its database.
\<close>

theorem sync_yields_to_mount:
  assumes mount: "mount_flag_config parse fl (DefaultMountConfig home name (Some P)) = Inr cfg" "mf_cache_dir fl = []"
    and serve: "start_control S humanize name mp cfg socks = (srv, socks1)"
    and config: "config = DefaultMountConfig home name (Some (buildPersistedMountConfig P mp cfg (mf_cache_dir fl)))"
    and holder: "holder = detectActiveMount C socks1 st opened run userHome name (CacheDir config)"
    and active: "srv \<noteq> None \<and> mf_control_socket fl = [] \<and> mp \<noteq> [] \<and> ce_dial C (Join (CacheDir config) ''control.sock'') = None
      \<or> CacheDirInUse st opened = Inr True"
  shows "\<exists>e. syncCmd E json_len holder config opened' (s, net) = Some (Inl e, s, net, None) \<and>
    (holder = Some mp \<or> CacheDirInUse st opened = Inr True)"
proof -
  have dir: "CacheDir config = CacheDir cfg"
    using saved_cache_dir [OF mount(1), of mp] mount_flag_config_fields(1) [OF mount(1)] mount(2) config by simp
  have "\<exists>x. holder = Some x \<and> (x = mp \<or> CacheDirInUse st opened = Inr True)"
  proof (cases "CacheDirInUse st opened = Inr True")
    case True
    then show ?thesis by (simp add: holder detectActiveMount_def detectActiveMountWith_def split: sum.split)
  next
    case False
    with active obtain s where s: "srv = Some s" "mf_control_socket fl = []" "mp \<noteq> []"
      "ce_dial C (Join (CacheDir cfg) ''control.sock'') = None" by (auto simp: dir)
    from served_mount_found [OF serve [unfolded s(1)] mount_control_socket [OF mount(1) s(2)] s(4)] show ?thesis
      using s(3) by (auto simp: holder detectActiveMount_def detectActiveMountWith_def dir)
  qed
  then show ?thesis by (auto simp: syncCmd_def)
qed


theorem sync_yields_to_mount_witness:
  "\<exists>srv socks e. start_control ex_ctl (\<lambda>_. []) ''u@x'' ''/m'' (DefaultMountConfig ''/h'' ''u@x'' (Some zero_mount)) [] = (Some srv, socks) \<and>
     syncCmd ex_env (\<lambda>_. 0) (Some ''/m'') (DefaultMountConfig ''/h'' ''u@x'' (Some zero_mount)) (Inl (Plain [])) (ex_disk, 0) =
       Some (Inl e, ex_disk, 0, None)"
proof -
  let ?b = "DefaultMountConfig ''/h'' ''u@x'' (Some zero_mount)"
  let ?saved = "DefaultMountConfig ''/h'' ''u@x'' (Some (buildPersistedMountConfig zero_mount ''/m'' ?b (mf_cache_dir no_mount_flags)))"
  have b: "?b\<lparr>ControlSocket := Join (CacheDir ?b) ''control.sock'', DebugAddr := []\<rparr> = ?b"
    by (simp add: DefaultMountConfig_def Let_def)
  have mount: "mount_flag_config (\<lambda>_. Inl (Plain [])) no_mount_flags ?b = Inr ?b" "mf_cache_dir no_mount_flags = []"
    unfolding no_flags_config b by (simp_all add: no_mount_flags_def)
  have sock: "ControlSocket ?b = ''/h/.cache/onecloudriver/u@x/control.sock''"
    by (simp add: DefaultMountConfig_def zero_mount_def Let_def) code_simp
  obtain srv socks where serve: "start_control ex_ctl (\<lambda>_. []) ''u@x'' ''/m'' ?b [] = (Some srv, socks)"
    by (simp add: start_control_def sock NewServer_def remove_socket_def ex_ctl_def os_IsNotExist_def Let_def)
  have saved: "?saved = ?b"
    using mount_flag_config_again [OF mount(1), of "\<lambda>_. Inl (Plain [])" "''/m''", unfolded no_flags_config sum.inject]
    by (simp add: DefaultMountConfig_def remembered_def buildPersistedMountConfig_def Let_def zero_mount_def override_def no_mount_flags_def)
  let ?holder = "detectActiveMount ex_ctl socks Not_exist (Inl (Plain []) :: go_error + unit) (\<lambda>_. ([], [], None)) (Inr ''/h'') ''u@x'' (CacheDir ?saved)"
  have "Some srv \<noteq> None \<and> mf_control_socket no_mount_flags = [] \<and> ''/m'' \<noteq> [] \<and>
      ce_dial ex_ctl (Join (CacheDir ?saved) ''control.sock'') = None \<or> CacheDirInUse Not_exist (Inl (Plain []) :: go_error + unit) = Inr True"
    by (simp add: no_mount_flags_def ex_ctl_def)
  from sync_yields_to_mount [OF mount serve refl refl this, where run = "\<lambda>_. ([], [], None)" and userHome = "Inr ''/h''" and E = ex_env and json_len = "\<lambda>_. 0" and opened' = "Inl (Plain [])" and s = ex_disk and net = 0]
  obtain e where "syncCmd ex_env (\<lambda>_. 0) ?holder ?saved (Inl (Plain [])) (ex_disk, 0) = Some (Inl e, ex_disk, 0, None)"
    and "?holder = Some ''/m''" by (auto simp: CacheDirInUse_def)
  then show ?thesis using serve saved by auto
qed

section \<open>Downloads\<close>

text \<open>The files of a disk by path.\<close>

definition stored :: "os_state \<Rightarrow> string \<Rightarrow> bytes option" where
  "stored s p = map_option (\<lambda>i. of_data (os_files s i)) (map_of (os_names s) p)"

lemma set_data_stored:
  assumes "disk_ok s" "map_of (os_names s) p = Some fd"
  shows "stored (set_data fd d t s) q = (if q = p then Some d else stored s q)"
  using assms by (cases "map_of (os_names s) q") (auto simp: stored_def set_data_def disk_ok_def)

lemma set_data_names [simp]:
  "os_names (set_data fd d t s) = os_names s" "os_next (set_data fd d t s) = os_next s" "os_dirs (set_data fd d t s) = os_dirs s"
    "disk_ok (set_data fd d t s) = disk_ok s"
  by (simp_all add: set_data_def disk_ok_def)

lemma os_open_stored:
  assumes ok: "disk_ok s" and run: "os_open E p s = (Inr fd, s1)"
  shows "disk_ok s1 \<and> map_of (os_names s1) p = Some fd \<and> os_dirs s1 = os_dirs s \<and> (\<forall>q. q \<noteq> p \<longrightarrow> stored s1 q = stored s q)"
proof (cases "map_of (os_names s) p")
  case (Some i)
  then show ?thesis using ok run by (auto simp: os_open_def split: option.splits)
next
  case None
  then have fd: "fd = os_next s" and s1: "s1 = set_data (os_next s) [] (e_now E)
      (s\<lparr>os_names := AList.update p (os_next s) (os_names s), os_next := os_next s + 1\<rparr>)"
    using run by (auto simp: os_open_def split: option.splits if_splits)
  have bound: "map_of (os_names s) q = Some i \<Longrightarrow> i < os_next s" for q i using ok by (auto simp: disk_ok_def)
  have "disk_ok s1" unfolding s1 set_data_names disk_ok_def
    using ok by (auto simp: update_conv' disk_ok_def less_SucI dest: bound split: if_splits)
  moreover have "stored s1 q = stored s q" if "q \<noteq> p" for q
    using that bound [of q] by (cases "map_of (os_names s) q") (auto simp: stored_def s1 set_data_def update_conv')
  ultimately show ?thesis by (simp add: s1 fd update_conv')
qed

lemma download_to_stored:
  assumes ok: "disk_ok s" and rm: "f_remove E path = None" and run: "download_to E cli r path (s, w) = (err, (s', w'))"
  shows "os_dirs s' = os_dirs s \<and> (\<forall>q. q \<noteq> path \<longrightarrow> stored s' q = stored s q) \<and>
    (case err of
       None \<Rightarrow> \<exists>d. stored s' path = Some d \<and> GetItemContentStream cli r (f_write E) w = ((d, None), w')
     | Some _ \<Rightarrow> stored s' path = None \<or> stored s' path = stored s path)"
proof -
  obtain x s1 where o: "os_open E path s = (x, s1)" by fastforce
  show ?thesis
  proof (cases x)
    case (Inl e)
    then have "s1 = s" using o by (auto simp: os_open_def split: option.splits if_splits)
    then show ?thesis using run o Inl by (auto simp: download_to_def os_create_def)
  next
    case (Inr fd)
    note p = os_open_stored [OF ok o [unfolded Inr]]
    obtain got e w1 where g: "GetItemContentStream cli r (f_write E) w = ((got, e), w1)" by (metis surj_pair)
    let ?s = "set_data fd got (e_now E) (set_data fd [] (e_now E) s1)"
    have st: "stored ?s q = (if q = path then Some got else stored s1 q)" for q
      using p by (simp add: set_data_stored [of _ path fd])
    show ?thesis
    proof (cases e)
      case None
      then show ?thesis using run o Inr g p st by (auto simp: download_to_def os_create_def)
    next
      case (Some z)
      have "os_remove E path ?s = (None, ?s\<lparr>os_names := AList.delete path (os_names ?s)\<rparr>)"
        using p rm by (simp add: os_remove_def)
      then have "s' = ?s\<lparr>os_names := AList.delete path (os_names ?s)\<rparr>" "err \<noteq> None"
        using run o Inr g Some by (auto simp: download_to_def os_create_def)
      moreover have "stored (?s\<lparr>os_names := AList.delete path (os_names ?s)\<rparr>) q = (if q = path then None else stored s q)" for q
        using st [of q] p by (auto simp: stored_def delete_conv')
      ultimately show ?thesis using p by auto
    qed
  qed
qed


lemma download_path_local:
  "download_path cli r out d w = (Inr p, w1) \<Longrightarrow> d \<noteq> [] \<Longrightarrow> \<exists>name. IsLocal name \<and> p = Join d name"
  by (auto simp: download_path_def split: prod.splits sum.splits if_splits)

lemma downloadCmd_cases:
  assumes run: "downloadCmd E cli m fl (s, w) = (err, (s', w'))"
  shows "err \<noteq> None \<and> s' = s \<or> (\<exists>acc r p w1. download_path (cli acc) r (fl_output fl) (fl_output_dir fl) w = (Inr p, w1) \<and>
    download_to E (cli acc) r p (s, w1) = (err, (s', w')))"
proof (cases "resolveAccount (fl_account fl) m")
  case (Inr acc)
  show ?thesis
  proof (cases "validateOutputFlags (fl_output fl) (fl_output_dir fl)")
    case None
    show ?thesis
    proof (cases "buildResource (fl_id fl) (fl_path fl) []")
      case (Inr r)
      obtain x w1 where "download_path (cli acc) r (fl_output fl) (fl_output_dir fl) w = (x, w1)" by fastforce
      then show ?thesis using run \<open>resolveAccount (fl_account fl) m = Inr acc\<close> None Inr
        by (cases x) (auto simp: downloadCmd_def)
    qed (use run Inr None in \<open>auto simp: downloadCmd_def\<close>)
  qed (use run Inr in \<open>auto simp: downloadCmd_def\<close>)
qed (use run in \<open>auto simp: downloadCmd_def\<close>)



text \<open>A server that knows one file of three bytes by the name it is given.\<close>

definition named_client :: "string \<Rightarrow> nat client" where
  "named_client name = file_client\<lparr>c_do := (\<lambda>req n. (Inr (if header_get ''Range'' (rq_headers req) = []
      then \<lparr>rs_status = 200, rs_headers = [], rs_body = ItemB (three_item\<lparr>di_Name := name\<rparr>)\<rparr>
      else \<lparr>rs_status = 206, rs_headers = [(''Content-Range'', ''bytes 0-2/3'')], rs_body = RawB [1, 2, 3]\<rparr>), rq_body req, Suc n))\<rparr>"

definition ex_item_flags :: item_flags where
  "ex_item_flags = \<lparr>fl_account = ''u@x'', fl_id = ''i'', fl_path = [], fl_name = [], fl_etag = [], fl_force = False, fl_dest_id = [],
     fl_dest_path = [], fl_output = [], fl_output_dir = ''/c''\<rparr>"

lemma named_item:
  "GetItem (named_client ''a.txt'') (ItemID ''i'') 0 = (Inr (three_item\<lparr>di_Name := ''a.txt''\<rparr>), 1)"
  "GetItem (named_client ''a.txt'') (ItemID ''i'') 1 = (Inr (three_item\<lparr>di_Name := ''a.txt''\<rparr>), 2)"
  unfolding named_client_def file_client_def three_item_def by code_simp+

lemma named_stream: "GetItemContentStream (named_client ''a.txt'') (ItemID ''i'') None 1 = (([1, 2, 3], None), 3)"
proof -
  let ?url = "client_URL (named_client ''a.txt'') (WithAction (ResourcePath (ItemID ''i'')) ''content'') []"
  have d: "downloadRange (named_client ''a.txt'') ?url 0 2 None [] 2 = (([1, 2, 3], None), 3)"
    unfolding named_client_def file_client_def three_item_def by code_simp
  have run: "c_done (named_client ''a.txt'') w = None" for w by (simp add: named_client_def file_client_def)
  have "download_loop (named_client ''a.txt'') ?url 3 None 0 [] 2 = (([1, 2, 3], None), 3)"
    using d by (subst download_loop.simps) (simp add: downloadChunk_def download_loop.simps [of _ _ 3 _ 10485760] run)
  then show ?thesis
    using named_item(2) by (simp add: GetItemContentStream_def validateResource_def three_item_def zero_item_def)
qed


end
