(* ===== verification/Eviction_Control.thy ===== *)
theory Eviction_Control
  imports Graph_Error
begin

text \<open>
  The controller that both caches share for their evictions (\<^verbatim>\<open>internal/fs/eviction.go\<close>): its lock, the
  flag that keeps evictions from piling up and the life of the periodic goroutine.  What a pass does is
  the business of the caches; here it is a goroutine that waits for the lock, runs and ends.  Every
  interleaving of the goroutines is a sequence of steps.
\<close>

section \<open>State and operations\<close>

text \<open>Who holds the lock, and how far the goroutine of \<^verbatim>\<open>RunOnce\<close> has come.\<close>

datatype lock_holder = Pass | Caller nat

datatype pass = Launched | Sweeping | Unlocked

text \<open>
  The channel is \<open>None\<close> when it is nil, and says otherwise whether it is closed; \<open>ec_wg\<close> counts the periodic
  goroutines.
\<close>

record controller =
  ec_interval :: duration
  ec_sweep :: bool
  ec_update :: "lock_holder option"
  ec_running :: bool
  ec_stopCh :: "bool option"
  ec_wg :: nat
  ec_passes :: "pass list"

definition NewEvictionController :: "duration \<Rightarrow> bool \<Rightarrow> controller" where
  "NewEvictionController interval sweep =
     \<lparr>ec_interval = interval, ec_sweep = sweep, ec_update = None, ec_running = False, ec_stopCh = None, ec_wg = 0,
      ec_passes = []\<rparr>"

definition ec_Start :: "controller \<Rightarrow> controller" where
  "ec_Start c =
     (if ec_interval c \<le> 0 \<or> \<not> ec_sweep c then c
      else if ec_stopCh c \<noteq> None then c
      else c\<lparr>ec_wg := ec_wg c + 1, ec_stopCh := Some False\<rparr>)"

definition RunOnce :: "controller \<Rightarrow> bool \<times> controller" where
  "RunOnce c =
     (if ec_running c then (False, c)
      else (True, c\<lparr>ec_running := True, ec_passes := ec_passes c @ [Launched]\<rparr>))"

text \<open>
  One goroutine of \<^verbatim>\<open>RunOnce\<close> at position \<open>i\<close>: it takes the lock, returns it after the work, clears the flag.
\<close>

definition pass_step :: "nat \<Rightarrow> controller \<Rightarrow> controller option" where
  "pass_step i c =
     (if i < length (ec_passes c)
      then case ec_passes c ! i of
             Launched \<Rightarrow>
               if ec_update c = None then Some (c\<lparr>ec_update := Some Pass, ec_passes := (ec_passes c)[i := Sweeping]\<rparr>) else None
           | Sweeping \<Rightarrow> Some (c\<lparr>ec_update := None, ec_passes := (ec_passes c)[i := Unlocked]\<rparr>)
           | Unlocked \<Rightarrow> Some (c\<lparr>ec_running := False, ec_passes := take i (ec_passes c) @ drop (Suc i) (ec_passes c)\<rparr>)
      else None)"

text \<open>
  The steps.  A tick may be chosen although the channel is closed already; \<^verbatim>\<open>Stop\<close> closes the channel,
  waits for the periodic goroutine and forgets the channel.  \<^verbatim>\<open>RunSerialized\<close> and \<^verbatim>\<open>Lock\<close>/\<^verbatim>\<open>Unlock\<close> are the steps
  \<open>lock\<close> and \<open>unlock\<close> of a caller.
\<close>

inductive ec_step :: "controller \<Rightarrow> controller \<Rightarrow> bool" where
  start: "ec_step c (ec_Start c)"
| stop_close: "ec_stopCh c = Some False \<Longrightarrow> ec_step c (c\<lparr>ec_stopCh := Some True\<rparr>)"
| loop_exit: "ec_stopCh c = Some True \<Longrightarrow> ec_wg c > 0 \<Longrightarrow> ec_step c (c\<lparr>ec_wg := ec_wg c - 1\<rparr>)"
| stop_return: "ec_stopCh c = Some True \<Longrightarrow> ec_wg c = 0 \<Longrightarrow> ec_step c (c\<lparr>ec_stopCh := None\<rparr>)"
| tick: "ec_wg c > 0 \<Longrightarrow> ec_step c (snd (RunOnce c))"
| run_once: "ec_step c (snd (RunOnce c))"
| lock: "ec_update c = None \<Longrightarrow> ec_step c (c\<lparr>ec_update := Some (Caller k)\<rparr>)"
| unlock: "ec_update c = Some (Caller k) \<Longrightarrow> ec_step c (c\<lparr>ec_update := None\<rparr>)"
| pass: "pass_step i c = Some c' \<Longrightarrow> ec_step c c'"

inductive_cases ec_stepE: "ec_step c c'"

inductive ec_reach :: "controller \<Rightarrow> bool" where
  created: "ec_reach (NewEvictionController interval sweep)"
| step: "ec_reach c \<Longrightarrow> ec_step c c' \<Longrightarrow> ec_reach c'"

section \<open>One eviction at a time\<close>

fun loop_ok :: "bool option \<Rightarrow> nat \<Rightarrow> bool" where
  "loop_ok None n = (n = 0)"
| "loop_ok (Some closed) n = (n = 1 \<or> closed \<and> n = 0)"

definition ec_ok :: "controller \<Rightarrow> bool" where
  "ec_ok c \<longleftrightarrow> length (ec_passes c) \<le> 1 \<and> ec_running c = (ec_passes c \<noteq> []) \<and>
     (ec_update c = Some Pass) = (Sweeping \<in> set (ec_passes c)) \<and>
     loop_ok (ec_stopCh c) (ec_wg c)"

lemma short_list: "length xs \<le> Suc 0 \<longleftrightarrow> xs = [] \<or> (\<exists>x. xs = [x])"
  by (cases xs) auto

lemma ec_ok_passes:
  assumes "ec_ok c"
  obtains "ec_passes c = []" "\<not> ec_running c" "ec_update c \<noteq> Some Pass"
    | p where "ec_passes c = [p]" "ec_running c" "(ec_update c = Some Pass) = (p = Sweeping)"
  using assms by (auto simp: ec_ok_def short_list)

lemma pass_step_ok:
  assumes ok: "ec_ok c" and run: "pass_step i c = Some c'"
  shows "ec_ok c'"
  using ok
proof (cases rule: ec_ok_passes)
  case (2 p)
  then show ?thesis using ok run by (cases p) (auto simp: pass_step_def ec_ok_def split: if_splits)
qed (use run in \<open>auto simp: pass_step_def\<close>)

lemma RunOnce_ok: "ec_ok c \<Longrightarrow> ec_ok (snd (RunOnce c))"
  by (frule ec_ok_passes) (auto simp: RunOnce_def ec_ok_def)

lemma ec_Start_ok: "ec_ok c \<Longrightarrow> ec_ok (ec_Start c)"
  by (auto simp: ec_Start_def ec_ok_def)

lemma ec_step_ok: "ec_step c c' \<Longrightarrow> ec_ok c \<Longrightarrow> ec_ok c'"
  by (erule ec_stepE) (auto simp: ec_Start_ok RunOnce_ok pass_step_ok, auto simp: ec_ok_def)

lemma ec_reach_ok: "ec_reach c \<Longrightarrow> ec_ok c"
proof (induction rule: ec_reach.induct)
  case (created interval sweep)
  show ?case by (simp add: NewEvictionController_def ec_ok_def)
qed (rule ec_step_ok)

text \<open>A pass that finds the lock free runs to its end.\<close>

lemma pass_ends:
  assumes ok: "ec_ok c" and p: "ec_passes c = [p]" and free: "\<forall>k. ec_update c \<noteq> Some (Caller k)"
  shows "\<exists>c'. ec_step\<^sup>*\<^sup>* c c' \<and> ec_passes c' = [] \<and> \<not> ec_running c' \<and> ec_update c' = None \<and> ec_stopCh c' = ec_stopCh c"
proof -
  have last: "\<exists>c'. ec_step\<^sup>*\<^sup>* d c' \<and> ec_passes c' = [] \<and> \<not> ec_running c' \<and> ec_update c' = None \<and> ec_stopCh c' = ec_stopCh d"
    if "ec_passes d = [Unlocked]" "ec_update d = None" for d
    using that r_into_rtranclp [of ec_step, OF pass [of 0 d]] by (auto simp: pass_step_def)
  have sweep: "\<exists>c'. ec_step\<^sup>*\<^sup>* d c' \<and> ec_passes c' = [] \<and> \<not> ec_running c' \<and> ec_update c' = None \<and> ec_stopCh c' = ec_stopCh d"
    if d: "ec_passes d = [Sweeping]" for d
  proof -
    let ?d = "d\<lparr>ec_update := None, ec_passes := [Unlocked]\<rparr>"
    have "ec_step d ?d" by (rule pass [of 0]) (simp add: pass_step_def d)
    with last [of ?d] show ?thesis by (auto intro: converse_rtranclp_into_rtranclp)
  qed
  have upd: "ec_update c = (if p = Sweeping then Some Pass else None)"
    using ok p free by (cases "ec_update c") (auto simp: ec_ok_def, metis lock_holder.exhaust)
  show ?thesis
  proof (cases p)
    case Launched
    let ?d = "c\<lparr>ec_update := Some Pass, ec_passes := [Sweeping]\<rparr>"
    have "ec_step c ?d" using p Launched upd by (intro pass [of 0]) (simp add: pass_step_def)
    with sweep [of ?d] show ?thesis by (auto intro: converse_rtranclp_into_rtranclp)
  qed (use p upd sweep last in auto)
qed

lemma stop_ends:
  assumes ok: "ec_ok c" and started: "ec_stopCh c \<noteq> None"
  shows "\<exists>c'. ec_step\<^sup>*\<^sup>* c c' \<and> ec_stopCh c' = None \<and> ec_wg c' = 0 \<and> ec_passes c' = ec_passes c"
proof -
  have ret: "\<exists>c'. ec_step\<^sup>*\<^sup>* d c' \<and> ec_stopCh c' = None \<and> ec_wg c' = 0 \<and> ec_passes c' = ec_passes d"
    if "ec_stopCh d = Some True" "ec_wg d = 0" for d
    using that by (intro exI [of _ "d\<lparr>ec_stopCh := None\<rparr>"]) (auto intro: r_into_rtranclp stop_return)
  have closed: "\<exists>c'. ec_step\<^sup>*\<^sup>* d c' \<and> ec_stopCh c' = None \<and> ec_wg c' = 0 \<and> ec_passes c' = ec_passes d"
    if d: "ec_stopCh d = Some True" "ec_wg d \<le> 1" for d
  proof (cases "ec_wg d = 0")
    case False
    then have "ec_step d (d\<lparr>ec_wg := 0\<rparr>)" using d loop_exit [of d] by (simp add: le_Suc_eq)
    with ret [of "d\<lparr>ec_wg := 0\<rparr>"] d show ?thesis by (auto intro: converse_rtranclp_into_rtranclp)
  qed (use d ret in auto)
  show ?thesis
  proof (cases "ec_stopCh c = Some True")
    case False
    then have s: "ec_stopCh c = Some False" using started by auto
    have "ec_wg (c\<lparr>ec_stopCh := Some True\<rparr>) \<le> 1" using ok s by (simp add: ec_ok_def)
    with closed [of "c\<lparr>ec_stopCh := Some True\<rparr>"] stop_close [OF s] show ?thesis
      by (auto intro: converse_rtranclp_into_rtranclp)
  next
    case True
    then have "ec_wg c \<le> 1" using ok by (auto simp: ec_ok_def)
    with closed [OF True] show ?thesis by simp
  qed
qed



end
