(* ===== verification/Spec2Isabelle.thy ===== *)
theory Spec2Isabelle
  imports Inode_Cache_Props Cache_Persist Content_Refine Upload_Props Node_Props Auth_Props Service_Props Command_Props Eviction_Control
begin

text \<open>
  \<^bold>\<open>onecloudriver\<close> is a OneDrive client in Go with a FUSE file system.  This development models its
  packages \<^verbatim>\<open>internal/graph\<close>, \<^verbatim>\<open>internal/fs\<close>, \<^verbatim>\<open>internal/auth\<close>, \<^verbatim>\<open>internal/service\<close>, \<^verbatim>\<open>internal/control\<close>
  and the commands of \<^verbatim>\<open>cmd/onecloudriver\<close>, and proves what makes them correct.

  \<^bold>\<open>The parts and how they interact.\<close>
  A mount (\<^verbatim>\<open>mount.go\<close>) takes an account, which renews its access token and keeps its tokens in the
  keyring of the system, and a Graph client, which turns operations on drive items into HTTP requests
  with that token.  The FUSE callbacks (\<^verbatim>\<open>root.go\<close>, \<^verbatim>\<open>drive_item_node.go\<close>, \<^verbatim>\<open>fs_ops.go\<close>) work on two
  caches: the metadata cache (\<^verbatim>\<open>cache.go\<close>), a tree of inodes whose folder listings expire and are
  fetched again through the client, persisted in BoltDB; and the content cache (\<^verbatim>\<open>content_cache.go\<close>),
  files in a directory, removed by age when they exceed a limit.  A write changes the content cache;
  \<^verbatim>\<open>Fsync\<close> and \<^verbatim>\<open>Flush\<close> hand a snapshot to the upload manager (\<^verbatim>\<open>upload_manager.go\<close>), which uploads
  sessions in the background, retries, resolves conflicts and finally re-keys the inode by the
  identifier of the server.  The delta loop (\<^verbatim>\<open>delta.go\<close>) polls for remote changes and applies them to
  both caches unless local work is pending.  \<^verbatim>\<open>internal/service\<close> runs mounts as units of systemd.
  A mount shows its state on a Unix socket (\<^verbatim>\<open>internal/control\<close>); the commands of \<^verbatim>\<open>cmd/onecloudriver\<close> work on
  items through the client, prepare mounts, and ask that socket before they touch a cache.

  \<^bold>\<open>Theories, in the order of imports.\<close>

  \<^item> \<open>Prelude\<close>: strings as byte lists, times in nanoseconds, 64-bit addition with wrap-around, lemmas on
    association lists.  \<open>Go_Heap\<close>: \<^verbatim>\<open>container/heap\<close>, with the locale \<open>go_heap_order\<close> for the order of
    the elements, interpreted for both eviction queues.  \<open>Go_Path\<close>: \<^verbatim>\<open>filepath.Clean\<close>, \<^verbatim>\<open>Join\<close>,
    \<^verbatim>\<open>IsLocal\<close>.  \<open>Go_Strings\<close>: the functions of \<^verbatim>\<open>strings\<close> and the scanner of lines.  \<open>Float64\<close>: \<^verbatim>\<open>float64\<close>
    as rationals rounded to 53 bits.
  \<^item> \<open>Drive_Item\<close> (\<^verbatim>\<open>models.go\<close>), \<open>Graph_Error\<close> (\<^verbatim>\<open>error.go\<close>: chains of wrapped errors, which of them mean
    offline or transient), \<open>QuickXor_Hash\<close> (\<^verbatim>\<open>quickxorhash.go\<close>, \<^verbatim>\<open>hashes.go\<close>), \<open>Graph_Http\<close>
    (\<^verbatim>\<open>client.go\<close>: retries, rewinding of bodies, the check of links), \<open>Graph_Client\<close>
    (\<^verbatim>\<open>items.go\<close>, \<^verbatim>\<open>children.go\<close>, \<^verbatim>\<open>delta.go\<close>, \<^verbatim>\<open>download.go\<close>, \<^verbatim>\<open>user.go\<close>), \<open>Graph_Upload\<close>
    (\<^verbatim>\<open>upload.go\<close>).  \<open>Graph_Props\<close>: the token is sent only to the configured origin along every chain
    of pages, a download that succeeds is complete and verified, a streamed upload delivers each byte
    once and in order, the fast hash equals its definition, and what a retry does to a consumed body.
  \<^item> \<open>Inode\<close> (\<^verbatim>\<open>inode.go\<close>) and \<open>Inode_Cache\<close> (\<^verbatim>\<open>cache.go\<close>): the map of inodes, the ring of sixty buckets
    of TTL registrations, the eviction heap with generations, the dirty and deleted sets and the edits
    of the tree.  \<open>Inode_Cache_Inv\<close> shows that every operation keeps the structure well-formed (locale
    \<open>children_fetcher\<close> for what a fetch of a listing may do, interpreted for both fetchers of the
    program), \<open>Inode_Cache_Sweep\<close> what a sweep evicts, \<open>Inode_Cache_Book\<close> that the bookkeeping is
    complete; \<open>Cache_Examples\<close> has concrete caches; \<open>Inode_Cache_Props\<close> the theorems.  \<open>Cache_Persist\<close>:
    full and incremental serialisation over a transactional store and loading.
  \<^item> \<open>Content_Index\<close>, \<open>Content_Cache\<close> (\<^verbatim>\<open>content_cache.go\<close>, \<^verbatim>\<open>content_eviction.go\<close>): every operation over an
    explicit file system in which any system call may fail.  \<open>Content_Cache_Inv\<close> and
    \<open>Content_Cache_Props\<close>: the index stays a heap in step with the path map, the accounting of sizes,
    the specification of an eviction pass and where files are stored.  \<open>Content_Refine\<close>: the cache
    refines a partial map from identifiers to bytes (locale \<open>simulation\<close>).
  \<^item> \<open>Upload_Session\<close>, \<open>Upload_Manager\<close> (\<^verbatim>\<open>upload_session.go\<close>, \<^verbatim>\<open>upload_manager.go\<close>): sessions as shared
    objects on a heap of addresses, the loop and the upload goroutines as steps of \<open>um_step\<close>, which
    interleave.  \<open>Upload_Inv\<close>, \<open>Upload_Props\<close>: slots and registry under every interleaving, the policy of
    a tick, restart, conflicts.
  \<^item> \<open>Fs_Ops\<close> (\<^verbatim>\<open>fs_ops.go\<close>, \<^verbatim>\<open>root.go\<close>), \<open>Item_Node\<close> (\<^verbatim>\<open>drive_item_node.go\<close>), \<open>Delta_Sync\<close> (\<^verbatim>\<open>delta.go\<close>),
    \<open>Mount\<close> (\<^verbatim>\<open>mount.go\<close>).  \<open>Fs_Inv\<close> composes them into one step relation over the shared state (locale
    \<open>node_operation\<close> for what a handler of a file may do, interpreted for each handler) and shows that
    the invariants of all caches hold together in every reachable state; \<open>Fs_Props\<close> and \<open>Node_Props\<close> have
    the theorems about termination of polls and listings, offline listings, pending work, \<^verbatim>\<open>Fsync\<close> and
    what an open serves.
  \<^item> \<open>Account\<close> (\<^verbatim>\<open>account.go\<close>, \<^verbatim>\<open>manager.go\<close>, \<^verbatim>\<open>keyring.go\<close>, \<^verbatim>\<open>httptools.go\<close>), \<open>Sign_In\<close> (\<^verbatim>\<open>flow.go\<close>):
    \<open>Auth_Props\<close> shows that a sign-in is bound to its session, what a renewal does and that an account
    survives a restart.
  \<^item> \<open>Service\<close> (\<^verbatim>\<open>systemd.go\<close>, \<^verbatim>\<open>status.go\<close>, \<^verbatim>\<open>instances.go\<close>: names, the unit file and what is read from
    systemd) and \<open>Service_Actions\<close> (\<^verbatim>\<open>systemd.go\<close>, \<^verbatim>\<open>results.go\<close>, \<^verbatim>\<open>service.go\<close>: the actions in both output
    modes over a file system and the state of external commands).  \<open>Service_Props\<close>: the mountpoint of a
    running unit is found again in what systemd prints, both modes agree, an installation can be
    undone, and accounts that share the template get different mountpoints.
  \<^item> \<open>Eviction_Control\<close> (\<^verbatim>\<open>eviction.go\<close>): lock, flag and goroutines of the evictions as a step relation; at
    most one eviction is in flight under every interleaving.
  \<^item> \<open>Control\<close> (\<^verbatim>\<open>internal/control\<close>, \<^verbatim>\<open>control_info.go\<close>): server and client over the sockets of the machine.
    \<open>Commands\<close> (\<^verbatim>\<open>cmd/onecloudriver\<close>): accounts and items named by flags, the item commands, download, the
    configuration of a mount, synchronisation.  \<open>Command_Props\<close>: what the channel answers, that a
    synchronisation yields to a mount of the same cache, that a mount finds its settings again, and
    that a download stays in its directory.

  \<^bold>\<open>How the code is modelled.\<close>
  A struct is a record, an error a value of \<open>go_error\<close>, a Go map an association list, \<^verbatim>\<open>sync.Map\<close> the
  same.  A critical section is one step; where the code releases its locks between two sections
  (an upload, the eviction goroutine, the delta loop) they are separate steps and any steps of the
  other parts come between.  One step sees one environment: the time, and which system calls fail.
  Sizes and offsets are \<open>nat\<close> or \<open>int\<close> where the code compares them with lengths of buffers in memory;
  64-bit addition is written out where an operand comes from outside (the end of a write, the expiry
  of a token).  Float arithmetic is exact rounding; the theorem on the effective TTL assumes a base TTL
  below \<open>2^53/40\<close> nanoseconds (about two and a half days), where the code's product has no rounding.
  Pages of listings and delta polls, retries of a listing and polling of an asynchronous copy may go
  on for ever if the server does: these loops are \<open>partial_function (option)\<close>, and the theorems on
  termination give the condition under which they return.  Other loops are total functions.

  Parameters, with what is assumed of them in the theorems that need it: the HTTP transport and the
  server, the bolt store (\<open>bolt_ops\<close>: a transaction that commits is applied in full, one that fails is
  not), the keyring (a key that was set is read back), mergo, \<^verbatim>\<open>url.Parse\<close>, \<^verbatim>\<open>net.ParseIP\<close>, SHA-256, the
  random source, \<^verbatim>\<open>humanize\<close> and the external programs \<^verbatim>\<open>systemctl\<close>, \<^verbatim>\<open>mount\<close> and \<^verbatim>\<open>fusermount\<close>.

  \<^bold>\<open>Simplifications.\<close>
  The upload manager is always present (the code without one is for unit tests).  A descriptor is the
  i-node it refers to, so the use of a descriptor that was closed behind the cache's back is not
  visible.  JSON is the record that is transferred, with what its tags omit.  Log messages, metrics and
  texts of wrapped errors are left out where nothing inspects them.

  \<^bold>\<open>Not modelled.\<close>
  The go-fuse server and its kernel protocol, signal handling, the debug server and the connection
  pool of \<^verbatim>\<open>net/http\<close> (libraries); the HTML pages of the sign-in; logging, metrics and the message
  catalogues; in \<^verbatim>\<open>cmd/onecloudriver\<close> the registration of flags, the printing and formatting of results,
  the \<^verbatim>\<open>account\<close> command (prompts around \<open>Account\<close> and \<open>Sign_In\<close>) and the \<^verbatim>\<open>upload\<close> command, whose body is an open
  file that the transport closes after the first attempt.
\<close>

end
